(* ===== verification/Go_Prelude.thy ===== *)
theory Go_Prelude
  imports Main "HOL-Library.Char_ord" "HOL-Library.List_Lexorder"
begin

section \<open>Shared vocabulary of the Go model\<close>

text \<open>
  The conventions every component theory follows.
  A Go \<open>string\<close> is a sequence of bytes and is modelled by \<open>string\<close>, a list of 8-bit characters.
  An \<open>int64\<close> is an \<open>int\<close>; where an addition or subtraction of the code can leave the
  64-bit range the result is passed through \<open>wrap64\<close>, the two's complement wrap-around.
  A \<open>time.Time\<close> is the number of nanoseconds since the zero time of Go, so that
  \<open>t.IsZero()\<close> is \<open>t = 0\<close>.
  The theory also holds the parts of the Go library the sources use: white space as
  \<open>strings.TrimSpace\<close> and \<open>strings.Fields\<close> see it (in UTF-8), splitting, decimal conversion
  and integer ranges, with the facts about them that the component proofs share.
\<close>

subsection \<open>Integers\<close>

type_synonym int64 = int
type_synonym gotime = int

definition MaxInt64 :: int where "MaxInt64 = 9223372036854775807"
definition MinInt64 :: int where "MinInt64 = - 9223372036854775808"
definition MaxInt32 :: int where "MaxInt32 = 2147483647"
definition MinInt32 :: int where "MinInt32 = - 2147483648"

lemmas int_limits = MaxInt64_def MinInt64_def MaxInt32_def MinInt32_def

definition in_int64 :: "int \<Rightarrow> bool" where
  "in_int64 x \<longleftrightarrow> MinInt64 \<le> x \<and> x \<le> MaxInt64"

definition wrap64 :: "int \<Rightarrow> int" where
  "wrap64 x = (x + 9223372036854775808) mod 18446744073709551616 - 9223372036854775808"

lemma wrap64_in_range [simp]: "in_int64 (wrap64 x)"
proof -
  have "0 \<le> (x + 9223372036854775808) mod 18446744073709551616"
    and "(x + 9223372036854775808) mod 18446744073709551616 < 18446744073709551616"
    by simp_all
  then show ?thesis unfolding in_int64_def wrap64_def int_limits by linarith
qed

lemma wrap64_id: "in_int64 x \<Longrightarrow> wrap64 x = x"
  unfolding in_int64_def wrap64_def int_limits
  by (subst mod_pos_pos_trivial) simp_all

lemma wrap64_nonneg_id: "0 \<le> x \<Longrightarrow> x \<le> MaxInt64 \<Longrightarrow> wrap64 x = x"
  by (rule wrap64_id) (simp add: in_int64_def int_limits)

subsection \<open>Simplification bundles\<close>

text \<open>
  \<open>go_simps\<close> collects the equations the component proofs unfold by default: the accessors and
  the small wrappers that stand for one line of Go.
\<close>

named_theorems go_simps "definitions unfolded by default in the component proofs"

subsection \<open>Lists\<close>

text \<open>\<open>slices.Contains\<close> is membership; Go's \<open>append\<close> of one value is \<open>xs @ [x]\<close>.\<close>

definition push_new :: "'a \<Rightarrow> 'a list \<Rightarrow> 'a list" where
  "push_new x xs = (if x \<in> set xs then xs else xs @ [x])"

lemma set_push_new [simp]: "set (push_new x xs) = insert x (set xs)"
  by (auto simp: push_new_def)

lemma distinct_push_new [simp]: "distinct (push_new x xs) = distinct xs"
  by (auto simp: push_new_def)

lemma fold_push_new_set: "set (fold push_new ys xs) = set xs \<union> set ys"
  by (induction ys arbitrary: xs) auto

lemma fold_push_new_distinct: "distinct xs \<Longrightarrow> distinct (fold push_new ys xs)"
  by (induction ys arbitrary: xs) auto

lemma bex_if_single: "(\<exists>c \<in> set (if k then [z] else []). P c) \<longleftrightarrow> k \<and> P z"
  by simp

text \<open>A distinct list drawn from \<open>ys\<close> has as many members as \<open>ys\<close> exactly when it has them all.\<close>

lemma distinct_cover_iff:
  assumes "distinct xs" and "set xs \<subseteq> set ys"
  shows "length xs = card (set ys) \<longleftrightarrow> set ys \<subseteq> set xs"
proof
  assume "length xs = card (set ys)"
  then have "card (set xs) = card (set ys)"
    using assms(1) by (simp add: distinct_card)
  then show "set ys \<subseteq> set xs"
    using assms(2) by (metis List.finite_set card_subset_eq order_refl)
next
  assume "set ys \<subseteq> set xs"
  with assms show "length xs = card (set ys)"
    by (metis distinct_card subset_antisym)
qed

subsection \<open>Association lists: Go maps with string or integer keys\<close>

text \<open>
  Where the code iterates a map, the map is an association list with distinct keys; the order of
  the list is the iteration order, which Go leaves open.
\<close>

fun put :: "'k \<Rightarrow> 'v \<Rightarrow> ('k \<times> 'v) list \<Rightarrow> ('k \<times> 'v) list" where
  "put k v [] = [(k, v)]"
| "put k v (e # es) = (if fst e = k then (k, v) # es else e # put k v es)"

lemma map_of_put [simp]: "map_of (put k v es) = (map_of es)(k \<mapsto> v)"
  by (induction es) (auto simp: fun_eq_iff)

lemma keys_put: "set (map fst (put k v es)) = insert k (set (map fst es))"
  by (induction es) auto

lemma distinct_put [simp]: "distinct (map fst es) \<Longrightarrow> distinct (map fst (put k v es))"
  by (induction es) (auto simp: keys_put[unfolded set_map] image_iff)

subsection \<open>Strings\<close>

definition has_prefix :: "'a list \<Rightarrow> 'a list \<Rightarrow> bool" where
  "has_prefix s p \<longleftrightarrow> take (length p) s = p"

definition has_suffix :: "'a list \<Rightarrow> 'a list \<Rightarrow> bool" where
  "has_suffix s p \<longleftrightarrow> has_prefix (rev s) (rev p)"

lemma has_prefix_append [simp]: "has_prefix (p @ s) p"
  by (simp add: has_prefix_def)

lemma has_prefixD: "has_prefix s p \<Longrightarrow> \<exists>t. s = p @ t"
  unfolding has_prefix_def by (metis append_take_drop_id)

fun contains_sub :: "'a list \<Rightarrow> 'a list \<Rightarrow> bool" where
  "contains_sub [] p = (p = [])"
| "contains_sub (c # s) p = (has_prefix (c # s) p \<or> contains_sub s p)"

text \<open>\<open>strings.Split(s, sep)\<close> for a one-byte separator: always at least one piece.\<close>

fun split_on :: "char \<Rightarrow> string \<Rightarrow> string list" where
  "split_on c [] = [[]]"
| "split_on c (x # xs) =
     (if x = c then [] # split_on c xs
      else (case split_on c xs of [] \<Rightarrow> [[x]] | p # ps \<Rightarrow> (x # p) # ps))"

lemma split_on_not_Nil [simp]: "split_on c s \<noteq> []"
  by (induction s) (auto split: list.splits)

lemma split_on_no_sep: "p \<in> set (split_on c s) \<Longrightarrow> c \<notin> set p"
  by (induction s arbitrary: p) (auto split: list.splits if_splits)

lemma split_on_single: "c \<notin> set s \<Longrightarrow> split_on c s = [s]"
  by (induction s) auto

lemma split_on_append: "c \<notin> set p \<Longrightarrow> split_on c (p @ c # s) = p # split_on c s"
  by (induction p) auto

text \<open>\<open>strings.Cut(s, sep)\<close> for a one-byte separator.\<close>

definition cut_at :: "char \<Rightarrow> string \<Rightarrow> string \<times> string \<times> bool" where
  "cut_at c s = (if c \<in> set s
     then (takeWhile (\<lambda>x. x \<noteq> c) s, tl (dropWhile (\<lambda>x. x \<noteq> c) s), True)
     else (s, [], False))"

lemma cut_at_append: "c \<notin> set p \<Longrightarrow> cut_at c (p @ c # s) = (p, s, True)"
  by (auto simp: cut_at_def takeWhile_append dropWhile_append)

text \<open>
  ASCII lower case: the bytes \<open>A\<close> to \<open>Z\<close> are folded and every other byte stays. The full
  \<open>strings.ToLower\<close> and \<open>strings.EqualFold\<close>, on runes, are built on it in \<open>Wildcard\<close>; where a component
  uses the ASCII one (pricing keys, settings), its inputs are taken to be ASCII.
\<close>

definition lower_char :: "char \<Rightarrow> char" where
  "lower_char c = (let n = (of_char c :: nat) in
     if 65 \<le> n \<and> n \<le> 90 then char_of (n + 32) else c)"

definition to_lower :: "string \<Rightarrow> string" where
  "to_lower s = map lower_char s"

definition equal_fold :: "string \<Rightarrow> string \<Rightarrow> bool" where
  "equal_fold s t \<longleftrightarrow> to_lower s = to_lower t"

lemma lower_char_idem [simp]: "lower_char (lower_char c) = lower_char c"
proof -
  have "(of_char c :: nat) < 256" by simp
  then show ?thesis by (auto simp: lower_char_def Let_def)
qed

lemma to_lower_idem [simp]: "to_lower (to_lower s) = to_lower s"
  by (simp add: to_lower_def)

lemma length_to_lower [simp]: "length (to_lower s) = length s"
  by (simp add: to_lower_def)

end
