(* ===== verification/Go_Strings.thy ===== *)
theory Go_Strings
  imports Go_Prelude
begin

text \<open>
  White space, fields and decimal conversion as the Go library defines them on byte strings.
  \<open>trim_space\<close> is \<open>strings.TrimSpace\<close>, \<open>fields\<close> is \<open>strings.Fields\<close>, \<open>FormatInt\<close> and
  \<open>ParseInt\<close> are \<open>strconv.FormatInt(x, 10)\<close> and \<open>strconv.ParseInt(s, 10, 64)\<close>. The lemmas give
  the round trip of the decimal conversion and what trimming leaves.
\<close>

subsection \<open>White space\<close>

text \<open>
  The UTF-8 encodings of the runes of \<open>unicode.IsSpace\<close>. Each begins with a lead byte and goes on
  with continuation bytes, so a byte-wise scan for them agrees with Go's scan by runes.
\<close>

definition go_space_runes :: "string list" where
  "go_space_runes = map (map char_of)
     ([[9], [10], [11], [12], [13], [32], [194, 133], [194, 160], [225, 154, 128],
       [226, 128, 168], [226, 128, 169], [226, 128, 175], [226, 129, 159], [227, 128, 128]]
      @ map (\<lambda>n. [226, 128, n]) [128 ..< 139] :: nat list list)"

text \<open>The same list as character literals, for evaluation.\<close>

lemma go_space_runes_code [code]:
  "go_space_runes = [[CHR 0x09], [CHR 0x0A], [CHR 0x0B], [CHR 0x0C], [CHR 0x0D],
    [CHR 0x20], [CHR 0xC2, CHR 0x85], [CHR 0xC2, CHR 0xA0], [CHR 0xE1, CHR 0x9A, CHR 0x80], [CHR 0xE2, CHR 0x80, CHR 0xA8],
    [CHR 0xE2, CHR 0x80, CHR 0xA9], [CHR 0xE2, CHR 0x80, CHR 0xAF], [CHR 0xE2, CHR 0x81, CHR 0x9F], [CHR 0xE3, CHR 0x80, CHR 0x80], [CHR 0xE2, CHR 0x80, CHR 0x80],
    [CHR 0xE2, CHR 0x80, CHR 0x81], [CHR 0xE2, CHR 0x80, CHR 0x82], [CHR 0xE2, CHR 0x80, CHR 0x83], [CHR 0xE2, CHR 0x80, CHR 0x84], [CHR 0xE2, CHR 0x80, CHR 0x85],
    [CHR 0xE2, CHR 0x80, CHR 0x86], [CHR 0xE2, CHR 0x80, CHR 0x87], [CHR 0xE2, CHR 0x80, CHR 0x88], [CHR 0xE2, CHR 0x80, CHR 0x89], [CHR 0xE2, CHR 0x80, CHR 0x8A]]"
  by (simp add: go_space_runes_def upt_rec char_of_def bit_iff_odd)

fun find_prefix :: "string list \<Rightarrow> string \<Rightarrow> string option" where
  "find_prefix [] s = None"
| "find_prefix (p # ps) s = (if p \<noteq> [] \<and> has_prefix s p then Some p else find_prefix ps s)"

lemma find_prefix_Some: "find_prefix ps s = Some p \<Longrightarrow> p \<in> set ps \<and> p \<noteq> [] \<and> has_prefix s p"
  by (induction ps) (auto split: if_splits)

lemma find_prefix_None: "find_prefix ps s = None \<Longrightarrow> q \<in> set ps \<Longrightarrow> q \<noteq> [] \<Longrightarrow> \<not> has_prefix s q"
  by (induction ps) (auto split: if_splits)

function drop_leading :: "string list \<Rightarrow> string \<Rightarrow> string" where
  "drop_leading ps s =
     (case find_prefix ps s of None \<Rightarrow> s | Some p \<Rightarrow> drop_leading ps (drop (length p) s))"
  by pat_completeness auto
termination
  by (relation "measure (\<lambda>(ps, s). length s)")
    (auto dest!: find_prefix_Some has_prefixD)

declare drop_leading.simps [simp del]

definition trim_left :: "string \<Rightarrow> string" where
  "trim_left s = drop_leading go_space_runes s"

definition trim_right :: "string \<Rightarrow> string" where
  "trim_right s = rev (drop_leading (map rev go_space_runes) (rev s))"

definition trim_space :: "string \<Rightarrow> string" where
  "trim_space s = trim_right (trim_left s)"

lemma find_prefix_drop_leading: "find_prefix ps (drop_leading ps s) = None"
proof (induction ps s rule: drop_leading.induct)
  case (1 ps s)
  show ?case
  proof (cases "find_prefix ps s")
    case None
    then show ?thesis by (simp add: drop_leading.simps [of ps s])
  next
    case (Some p)
    with "1.IH" show ?thesis by (simp add: drop_leading.simps [of ps s])
  qed
qed

lemma drop_leading_fix: "find_prefix ps s = None \<Longrightarrow> drop_leading ps s = s"
  by (simp add: drop_leading.simps)

lemma drop_leading_idem [simp]: "drop_leading ps (drop_leading ps s) = drop_leading ps s"
  by (rule drop_leading_fix) (rule find_prefix_drop_leading)

lemma drop_leading_suffix: "\<exists>n. drop_leading ps s = drop n s"
proof (induction ps s rule: drop_leading.induct)
  case (1 ps s)
  show ?case
  proof (cases "find_prefix ps s")
    case None
    then have "drop_leading ps s = drop 0 s" by (simp add: drop_leading.simps [of ps s])
    then show ?thesis by blast
  next
    case (Some p)
    with "1.IH" obtain n where "drop_leading ps (drop (length p) s) = drop n (drop (length p) s)"
      by blast
    with Some have "drop_leading ps s = drop (n + length p) s"
      by (simp add: drop_leading.simps [of ps s])
    then show ?thesis by blast
  qed
qed

lemma set_drop_leading: "set (drop_leading ps s) \<subseteq> set s"
  using drop_leading_suffix [of ps s] by (auto dest: in_set_dropD)

lemma set_trim_space: "set (trim_space s) \<subseteq> set s"
  using set_drop_leading [of go_space_runes s]
    set_drop_leading [of "map rev go_space_runes" "rev (trim_left s)"]
  by (auto simp: trim_space_def trim_right_def trim_left_def)

lemma trim_right_idem [simp]: "trim_right (trim_right s) = trim_right s"
  by (simp add: trim_right_def)

lemma trim_right_take: "\<exists>n. trim_right s = take n s"
proof -
  obtain n where "drop_leading (map rev go_space_runes) (rev s) = drop n (rev s)"
    using drop_leading_suffix by blast
  then have "trim_right s = take (length s - n) s"
    by (simp add: trim_right_def rev_drop)
  then show ?thesis by blast
qed

lemma has_prefix_take: "has_prefix (take n s) p \<Longrightarrow> has_prefix s p"
proof -
  assume "has_prefix (take n s) p"
  then have eq: "take (min (length p) n) s = p" by (simp add: has_prefix_def)
  show "has_prefix s p"
  proof (cases "length p \<le> n")
    case True
    with eq show ?thesis by (simp add: has_prefix_def min_def)
  next
    case False
    with eq have "length p \<le> n" by (metis length_take min.cobounded2 min.assoc)
    with False show ?thesis by simp
  qed
qed

lemma find_prefix_take: "find_prefix ps s = None \<Longrightarrow> find_prefix ps (take n s) = None"
  by (induction ps) (auto split: if_splits dest: has_prefix_take)

lemma trim_left_trim_space: "trim_left (trim_space s) = trim_space s"
proof -
  obtain n where n: "trim_space s = take n (trim_left s)"
    using trim_right_take unfolding trim_space_def by blast
  have "find_prefix go_space_runes (trim_left s) = None"
    unfolding trim_left_def by (rule find_prefix_drop_leading)
  then have "find_prefix go_space_runes (trim_space s) = None"
    unfolding n by (rule find_prefix_take)
  then show ?thesis by (simp add: trim_left_def drop_leading_fix)
qed

lemma trim_space_idem [simp]: "trim_space (trim_space s) = trim_space s"
proof -
  have "trim_space (trim_space s) = trim_right (trim_space s)"
    by (simp add: trim_space_def [of "trim_space s"] trim_left_trim_space)
  then show ?thesis by (simp add: trim_space_def)
qed

lemma trim_space_Nil [simp]: "trim_space [] = []"
  using set_trim_space [of "[]"] by simp

subsection \<open>Fields\<close>

text \<open>\<open>strings.Fields\<close>: \<open>acc\<close> is the field being read.\<close>

function fields_from :: "string \<Rightarrow> string \<Rightarrow> string list" where
  "fields_from acc s = (case s of
      [] \<Rightarrow> (if acc = [] then [] else [acc])
    | c # cs \<Rightarrow>
        (case find_prefix go_space_runes s of
           None \<Rightarrow> fields_from (acc @ [c]) cs
         | Some p \<Rightarrow> (if acc = [] then [] else [acc]) @ fields_from [] (drop (length p) s)))"
  by pat_completeness auto
termination
  by (relation "measure (\<lambda>(acc, s). length s)")
    (auto dest!: find_prefix_Some has_prefixD)

declare fields_from.simps [simp del]

definition fields :: "string \<Rightarrow> string list" where
  "fields s = fields_from [] s"

lemma fields_from_nonempty: "f \<in> set (fields_from acc s) \<Longrightarrow> f \<noteq> []"
proof (induction acc s rule: fields_from.induct)
  case (1 acc s)
  show ?case
  proof (cases s)
    case Nil
    with "1.prems" show ?thesis by (auto simp: fields_from.simps [of acc] split: if_splits)
  next
    case (Cons c cs)
    show ?thesis
    proof (cases "find_prefix go_space_runes s")
      case None
      have "fields_from acc s = fields_from (acc @ [c]) cs"
        using None Cons by (subst fields_from.simps) simp
      with "1.prems" show ?thesis
        using "1.IH"(1) [OF Cons None] by simp
    next
      case (Some p)
      have "fields_from acc s =
          (if acc = [] then [] else [acc]) @ fields_from [] (drop (length p) s)"
        using Some Cons by (subst fields_from.simps) simp
      with "1.prems" have "f \<in> set (if acc = [] then [] else [acc])
          \<or> f \<in> set (fields_from [] (drop (length p) s))"
        by (metis Un_iff set_append)
      then show ?thesis
        using "1.IH"(2) [OF Cons Some] by (auto split: if_splits)
    qed
  qed
qed

lemma fields_nonempty: "f \<in> set (fields s) \<Longrightarrow> f \<noteq> []"
  unfolding fields_def by (rule fields_from_nonempty)

subsection \<open>Decimal numbers\<close>

definition digit_char :: "nat \<Rightarrow> char" where
  "digit_char d = char_of (48 + d)"

definition is_digit :: "char \<Rightarrow> bool" where
  "is_digit c \<longleftrightarrow> 48 \<le> (of_char c :: nat) \<and> (of_char c :: nat) \<le> 57"

definition digit_val :: "char \<Rightarrow> nat" where
  "digit_val c = of_char c - 48"

fun digits10 :: "nat \<Rightarrow> string" where
  "digits10 n = (if n < 10 then [digit_char n] else digits10 (n div 10) @ [digit_char (n mod 10)])"

declare digits10.simps [simp del]

definition read_digits :: "string \<Rightarrow> nat" where
  "read_digits s = fold (\<lambda>c n. 10 * n + digit_val c) s 0"

lemma of_digit_char [simp]: "d < 10 \<Longrightarrow> (of_char (digit_char d) :: nat) = 48 + d"
  by (simp add: digit_char_def)

lemma digit_char_props [simp]:
  "d < 10 \<Longrightarrow> is_digit (digit_char d)" "d < 10 \<Longrightarrow> digit_val (digit_char d) = d"
  by (simp_all add: is_digit_def digit_val_def)

lemma digits10_nonempty [simp]: "digits10 n \<noteq> []"
  by (subst digits10.simps) simp

lemma digits10_digits: "c \<in> set (digits10 n) \<Longrightarrow> is_digit c"
proof (induction n rule: digits10.induct)
  case (1 n)
  then show ?case
    by (cases "n < 10") (auto simp: digits10.simps [of n])
qed

lemma read_digits10 [simp]: "read_digits (digits10 n) = n"
proof (induction n rule: digits10.induct)
  case (1 n)
  show ?case
  proof (cases "n < 10")
    case True
    then show ?thesis by (simp add: digits10.simps [of n] read_digits_def)
  next
    case False
    with "1" have "read_digits (digits10 (n div 10)) = n div 10" by simp
    with False show ?thesis by (simp add: digits10.simps [of n] read_digits_def)
  qed
qed

lemma digits10_inj: "digits10 m = digits10 n \<Longrightarrow> m = n"
  by (metis read_digits10)

definition FormatInt :: "int \<Rightarrow> string" where
  "FormatInt x = (if x < 0 then CHR ''-'' # digits10 (nat (- x)) else digits10 (nat x))"

text \<open>
  A sign, then at least one digit; the error is \<open>None\<close>, for a malformed number as for one out of
  the \<open>int64\<close> range.
\<close>

definition parse_sign :: "string \<Rightarrow> bool \<times> string" where
  "parse_sign s = (case s of
      [] \<Rightarrow> (False, [])
    | c # cs \<Rightarrow> if c = CHR ''-'' then (True, cs) else if c = CHR ''+'' then (False, cs) else (False, s))"

definition ParseInt :: "string \<Rightarrow> int option" where
  "ParseInt s = (case parse_sign s of (neg, ds) \<Rightarrow>
     if ds = [] \<or> \<not> list_all is_digit ds then None
     else let v = (if neg then - int (read_digits ds) else int (read_digits ds))
       in if in_int64 v then Some v else None)"

lemma digit_not_sign: "is_digit c \<Longrightarrow> c \<noteq> CHR ''-'' \<and> c \<noteq> CHR ''+''"
  by (auto simp: is_digit_def)

lemma parse_sign_digits: "parse_sign (digits10 n) = (False, digits10 n)"
proof -
  obtain c cs where cs: "digits10 n = c # cs" by (cases "digits10 n") auto
  then have "is_digit c" using digits10_digits [of c n] by simp
  then show ?thesis unfolding cs parse_sign_def by (auto dest: digit_not_sign)
qed

lemma parse_sign_minus: "parse_sign (CHR ''-'' # ds) = (True, ds)"
  by (simp add: parse_sign_def)

lemma ParseInt_FormatInt: "in_int64 x \<Longrightarrow> ParseInt (FormatInt x) = Some x"
  by (cases "x < 0")
    (simp_all add: ParseInt_def FormatInt_def parse_sign_digits parse_sign_minus list_all_iff
      digits10_digits)

lemma FormatInt_inj: "FormatInt x = FormatInt y \<Longrightarrow> x = y"
proof -
  assume eq: "FormatInt x = FormatInt y"
  have "x < 0 \<longleftrightarrow> y < 0"
  proof -
    have "hd (FormatInt z) = CHR ''-'' \<longleftrightarrow> z < 0" for z
      using digits10_digits [of "hd (digits10 (nat z))" "nat z"]
      by (auto simp: FormatInt_def dest: digit_not_sign)
    with eq show ?thesis by metis
  qed
  with eq show "x = y"
    by (auto simp: FormatInt_def split: if_splits dest!: digits10_inj)
qed

lemma append_sep_eq:
  "c \<notin> set a \<Longrightarrow> c \<notin> set b \<Longrightarrow> a @ c # s = b @ c # t \<longleftrightarrow> a = b \<and> s = t"
  by (induction a arbitrary: b) (case_tac b; auto)+

lemma FormatInt_chars: "c \<in> set (FormatInt x) \<Longrightarrow> is_digit c \<or> c = CHR ''-''"
  by (auto simp: FormatInt_def split: if_splits dest: digits10_digits)

end
