(* ===== verification/Auth_Scope.thy ===== *)
theory Auth_Scope
  imports Go_Strings
begin

text \<open>
  The scope algebra of \<open>domain/authorization\<close>: \<open>model.go\<close> (contexts, scopes, clauses, object
  facts), \<open>scope.go\<close> (\<open>Validate\<close>, \<open>Intersect\<close>, \<open>AllowCovers\<close>, \<open>DenyMatches\<close>) and
  \<open>containment.go\<close> (\<open>ScopeContained\<close>).
  A scope is a union of clauses, the conditions inside a clause are conjunctive. The lemmas give
  the loop of \<open>AllowCovers\<close> a closed form over the matching clauses, and from it what
  intersection and containment mean for the objects a scope covers.
\<close>

subsection \<open>Contexts, scopes and object facts\<close>

datatype auth_error = ErrContext | ErrOrganizationDisabled | ErrScope | ErrGraph | ErrInterval
  | ErrDenied | ErrCutover | ErrProtected | ErrResolver string

record auth_context =
  cx_Type :: string
  cx_OrganizationID :: int
  cx_Key :: string

definition Platform :: auth_context where
  "Platform = \<lparr>cx_Type = ''platform'', cx_OrganizationID = 0, cx_Key = ''platform''\<rparr>"

definition context_Validate :: "auth_context \<Rightarrow> auth_error option" where
  "context_Validate c =
     (if c = Platform then None
      else if cx_Type c = ''organization'' \<and> cx_OrganizationID c > 0
        \<and> cx_Key c = ''organization:'' @ FormatInt (cx_OrganizationID c) then None
      else Some ErrContext)"

definition RequirePlatform :: "auth_context \<Rightarrow> auth_error option" where
  "RequirePlatform c =
     (case context_Validate c of
        Some e \<Rightarrow> Some e
      | None \<Rightarrow> if cx_Type c \<noteq> ''platform'' then Some ErrOrganizationDisabled else None)"

datatype scope_kind = KAll | KSelf | KUsers | KResources | KGroups

record clause =
  cl_All :: bool
  cl_Self :: bool
  cl_UserIDs :: "int64 list"
  cl_ResourceIDs :: "int64 list"
  cl_RoutingGroupIDs :: "int64 list"

text \<open>A nil \<open>Clauses\<close> slice (\<open>None\<close>) and an empty one are told apart by \<open>ScopeContained\<close>.\<close>

record scope =
  sc_Clauses :: "clause list option"

definition clauses_of :: "scope \<Rightarrow> clause list" where
  "clauses_of s = (case sc_Clauses s of None \<Rightarrow> [] | Some cs \<Rightarrow> cs)"

record object_facts =
  of_Context :: auth_context
  of_ResourceID :: int64
  of_OwnerUserID :: int64
  of_RoutingGroupIDs :: "int64 list"

definition all_kinds :: "scope_kind list" where
  "all_kinds = [KAll, KSelf, KUsers, KResources, KGroups]"

subsection \<open>Validation\<close>

definition clause_kinds :: "clause \<Rightarrow> scope_kind list" where
  "clause_kinds c =
     (if cl_All c then [KAll] else []) @ (if cl_Self c then [KSelf] else [])
     @ (if cl_UserIDs c \<noteq> [] then [KUsers] else [])
     @ (if cl_ResourceIDs c \<noteq> [] then [KResources] else [])
     @ (if cl_RoutingGroupIDs c \<noteq> [] then [KGroups] else [])"

definition clause_ok :: "scope_kind list \<Rightarrow> clause \<Rightarrow> bool" where
  "clause_ok supported c \<longleftrightarrow>
     list_all (\<lambda>id. 0 < id) (cl_UserIDs c @ cl_ResourceIDs c @ cl_RoutingGroupIDs c)
     \<and> clause_kinds c \<noteq> [] \<and> \<not> (cl_All c \<and> length (clause_kinds c) \<noteq> 1)
     \<and> list_all (\<lambda>k. k \<in> set supported) (clause_kinds c)"

definition scope_Validate :: "scope \<Rightarrow> scope_kind list \<Rightarrow> auth_error option" where
  "scope_Validate s supported =
     (if list_all (clause_ok supported) (clauses_of s) then None else Some ErrScope)"

abbreviation scope_ok :: "scope \<Rightarrow> bool" where
  "scope_ok s \<equiv> scope_Validate s all_kinds = None"

lemma scope_Validate_None:
  "scope_Validate s ks = None \<longleftrightarrow> (\<forall>c \<in> set (clauses_of s). clause_ok ks c)"
  by (simp add: scope_Validate_def list_all_iff)

lemma kind_in_all [simp]: "k \<in> set all_kinds"
  by (cases k) (simp_all add: all_kinds_def)

lemma clause_ok_all_kinds: "clause_ok ks c \<Longrightarrow> clause_ok all_kinds c"
  by (auto simp: clause_ok_def list_all_iff)

lemma scope_ok_any: "scope_Validate s ks = None \<Longrightarrow> scope_ok s"
  by (auto simp: scope_Validate_None intro: clause_ok_all_kinds)

text \<open>A valid \<open>all\<close> clause carries no other condition.\<close>

lemma clause_ok_All:
  "clause_ok ks c \<Longrightarrow> cl_All c \<Longrightarrow>
   \<not> cl_Self c \<and> cl_UserIDs c = [] \<and> cl_ResourceIDs c = [] \<and> cl_RoutingGroupIDs c = []"
  by (auto simp: clause_ok_def clause_kinds_def split: if_splits)

subsection \<open>Intersection\<close>

definition intersectIDs :: "int64 list \<Rightarrow> int64 list \<Rightarrow> int64 list \<times> bool" where
  "intersectIDs a b =
     (if a = [] then (b, True)
      else if b = [] then (a, True)
      else let out = fold (\<lambda>id out. if id \<in> set b then push_new id out else out) a []
        in (out, out \<noteq> []))"

definition intersect_clause :: "clause \<Rightarrow> clause \<Rightarrow> clause list" where
  "intersect_clause x y =
     (if cl_All x then [y]
      else if cl_All y then [x]
      else case (intersectIDs (cl_UserIDs x) (cl_UserIDs y),
                 intersectIDs (cl_ResourceIDs x) (cl_ResourceIDs y),
                 intersectIDs (cl_RoutingGroupIDs x) (cl_RoutingGroupIDs y)) of
        ((users, ok1), (resources, ok2), (groups, ok3)) \<Rightarrow>
          if ok1 \<and> ok2 \<and> ok3
          then [\<lparr>cl_All = False, cl_Self = cl_Self x \<or> cl_Self y, cl_UserIDs = users,
                 cl_ResourceIDs = resources, cl_RoutingGroupIDs = groups\<rparr>]
          else [])"

definition Intersect :: "scope \<Rightarrow> scope \<Rightarrow> scope" where
  "Intersect a b =
     (let cs = concat (map (\<lambda>x. concat (map (intersect_clause x) (clauses_of b))) (clauses_of a))
      in \<lparr>sc_Clauses = (if cs = [] then None else Some cs)\<rparr>)"

lemma clauses_of_Intersect_list:
  "clauses_of (Intersect a b) =
     concat (map (\<lambda>x. concat (map (intersect_clause x) (clauses_of b))) (clauses_of a))"
  unfolding Intersect_def Let_def
  by (cases "concat (map (\<lambda>x. concat (map (intersect_clause x) (clauses_of b))) (clauses_of a)) = []")
    (simp_all add: clauses_of_def [of "\<lparr>sc_Clauses = _\<rparr>"])

lemma clauses_of_Intersect:
  "set (clauses_of (Intersect a b)) =
     (\<Union>x \<in> set (clauses_of a). \<Union>y \<in> set (clauses_of b). set (intersect_clause x y))"
  by (simp add: clauses_of_Intersect_list)

lemma set_intersect_fold:
  "set (fold (\<lambda>id out. if id \<in> set b then push_new id out else out) a acc)
     = set acc \<union> (set a \<inter> set b)"
  by (induction a arbitrary: acc) auto

text \<open>An empty identifier list is no restriction.\<close>

definition ids_admit :: "int64 list \<Rightarrow> int64 \<Rightarrow> bool" where
  "ids_admit ids i \<longleftrightarrow> ids = [] \<or> i \<in> set ids"

lemma intersectIDs_admit:
  "intersectIDs a b = (c, ok) \<Longrightarrow> (ok \<and> ids_admit c i) = (ids_admit a i \<and> ids_admit b i)"
  using set_intersect_fold [of b a "[]"]
  by (cases "a = []"; cases "b = []") (auto simp: intersectIDs_def ids_admit_def Let_def)

lemma intersectIDs_set:
  "intersectIDs a b = (c, ok) \<Longrightarrow> set c \<subseteq> set a \<union> set b \<and> (ok \<longrightarrow> (c = [] \<longleftrightarrow> a = [] \<and> b = []))
     \<and> (\<not> ok \<longrightarrow> a \<noteq> [] \<and> b \<noteq> [])"
  using set_intersect_fold [of b a "[]"]
  by (cases "a = []"; cases "b = []") (auto simp: intersectIDs_def Let_def)

subsection \<open>Coverage of an object\<close>

definition nonGroupMatches :: "clause \<Rightarrow> int64 \<Rightarrow> object_facts \<Rightarrow> bool" where
  "nonGroupMatches c userID ob \<longleftrightarrow>
     (\<not> cl_Self c \<or> (userID > 0 \<and> of_OwnerUserID ob = userID))
     \<and> (cl_UserIDs c = [] \<or> of_OwnerUserID ob \<in> set (cl_UserIDs c))
     \<and> (cl_ResourceIDs c = [] \<or> (of_ResourceID ob > 0 \<and> of_ResourceID ob \<in> set (cl_ResourceIDs c)))"

text \<open>The loops of \<open>AllowCovers\<close>: an early return, or the groups covered so far.\<close>

datatype cover = Return bool | Covered "int64 list"

fun coverGroups :: "int64 list \<Rightarrow> bool \<Rightarrow> int64 list \<Rightarrow> int64 list \<Rightarrow> cover" where
  "coverGroups gs whole [] covered = Covered covered"
| "coverGroups gs whole (i # ids) covered =
     (if i \<in> set gs
      then if \<not> whole then Return True else coverGroups gs whole ids (push_new i covered)
      else coverGroups gs whole ids covered)"

fun coverClauses :: "clause list \<Rightarrow> int64 \<Rightarrow> object_facts \<Rightarrow> bool \<Rightarrow> int64 list \<Rightarrow> cover" where
  "coverClauses [] userID ob whole covered = Covered covered"
| "coverClauses (c # cs) userID ob whole covered =
     (if \<not> nonGroupMatches c userID ob then coverClauses cs userID ob whole covered
      else if cl_RoutingGroupIDs c = [] then Return True
      else case coverGroups (cl_RoutingGroupIDs c) whole (of_RoutingGroupIDs ob) covered of
             Return r \<Rightarrow> Return r
           | Covered cov \<Rightarrow> coverClauses cs userID ob whole cov)"

definition AllowCovers :: "scope list \<Rightarrow> int64 \<Rightarrow> object_facts \<Rightarrow> bool \<Rightarrow> bool" where
  "AllowCovers scopes userID ob wholeObject =
     (if list_ex (\<lambda>s. scope_Validate s all_kinds \<noteq> None) scopes then False
      else case coverClauses (concat (map clauses_of scopes)) userID ob wholeObject [] of
             Return r \<Rightarrow> r
           | Covered covered \<Rightarrow> of_RoutingGroupIDs ob \<noteq> []
               \<and> length covered = length (remdups_adj (sort (of_RoutingGroupIDs ob))))"

definition DenyMatches :: "scope list \<Rightarrow> int64 \<Rightarrow> object_facts \<Rightarrow> bool" where
  "DenyMatches scopes userID ob =
     (if list_ex (\<lambda>s. scope_Validate s all_kinds \<noteq> None) scopes then True
      else AllowCovers scopes userID ob False)"

subsection \<open>The closed form of coverage\<close>

definition matching :: "clause list \<Rightarrow> int64 \<Rightarrow> object_facts \<Rightarrow> clause set" where
  "matching cs userID ob = {c \<in> set cs. nonGroupMatches c userID ob}"

definition covers_spec :: "clause list \<Rightarrow> int64 \<Rightarrow> object_facts \<Rightarrow> bool \<Rightarrow> bool" where
  "covers_spec cs userID ob whole \<longleftrightarrow>
     (\<exists>c \<in> matching cs userID ob. cl_RoutingGroupIDs c = [])
     \<or> of_RoutingGroupIDs ob \<noteq> []
       \<and> (if whole
          then \<forall>g \<in> set (of_RoutingGroupIDs ob).
                 \<exists>c \<in> matching cs userID ob. g \<in> set (cl_RoutingGroupIDs c)
          else \<exists>g \<in> set (of_RoutingGroupIDs ob).
                 \<exists>c \<in> matching cs userID ob. g \<in> set (cl_RoutingGroupIDs c))"

lemma sorted_remdups_adj_distinct: "sorted xs \<Longrightarrow> distinct (remdups_adj (xs :: int list))"
  by (induction xs rule: remdups_adj.induct) auto

lemma remdups_adj_sort_length: "length (remdups_adj (sort xs)) = card (set (xs :: int list))"
proof -
  have "distinct (remdups_adj (sort xs))"
    by (rule sorted_remdups_adj_distinct) simp
  then show ?thesis by (metis distinct_card remdups_adj_set set_sort)
qed

lemma coverGroups_read:
  "coverGroups gs False ids covered =
     (if set ids \<inter> set gs \<noteq> {} then Return True else Covered covered)"
  by (induction ids) auto

lemma coverGroups_whole:
  "\<exists>cov. coverGroups gs True ids covered = Covered cov
     \<and> set cov = set covered \<union> (set ids \<inter> set gs) \<and> (distinct covered \<longrightarrow> distinct cov)"
proof (induction ids arbitrary: covered)
  case Nil
  then show ?case by simp
next
  case (Cons i ids)
  show ?case
    using Cons.IH [of covered] Cons.IH [of "push_new i covered"] by (cases "i \<in> set gs") auto
qed

lemma coverClauses_read:
  "coverClauses cs u ob False covered =
     (if \<exists>c \<in> matching cs u ob. cl_RoutingGroupIDs c = []
         \<or> set (of_RoutingGroupIDs ob) \<inter> set (cl_RoutingGroupIDs c) \<noteq> {}
      then Return True else Covered covered)"
  by (induction cs) (auto simp: matching_def coverGroups_read)

lemma coverClauses_whole:
  "if \<exists>c \<in> matching cs u ob. cl_RoutingGroupIDs c = []
   then coverClauses cs u ob True covered = Return True
   else \<exists>cov. coverClauses cs u ob True covered = Covered cov
     \<and> set cov = set covered
         \<union> {g \<in> set (of_RoutingGroupIDs ob). \<exists>c \<in> matching cs u ob. g \<in> set (cl_RoutingGroupIDs c)}
     \<and> (distinct covered \<longrightarrow> distinct cov)"
proof (induction cs arbitrary: covered)
  case Nil
  then show ?case by (simp add: matching_def)
next
  case (Cons c cs)
  show ?case
  proof (cases "nonGroupMatches c u ob")
    case False
    then have "matching (c # cs) u ob = matching cs u ob" by (auto simp: matching_def)
    with False Cons.IH [of covered] show ?thesis by simp
  next
    case True
    then have m: "matching (c # cs) u ob = insert c (matching cs u ob)" by (auto simp: matching_def)
    obtain cov where cov: "coverGroups (cl_RoutingGroupIDs c) True (of_RoutingGroupIDs ob) covered = Covered cov"
      "set cov = set covered \<union> (set (of_RoutingGroupIDs ob) \<inter> set (cl_RoutingGroupIDs c))"
      "distinct covered \<longrightarrow> distinct cov"
      using coverGroups_whole by blast
    show ?thesis
    proof (cases "cl_RoutingGroupIDs c = []")
      case True
      with m \<open>nonGroupMatches c u ob\<close> show ?thesis by simp
    next
      case False
      with m cov Cons.IH [of cov] \<open>nonGroupMatches c u ob\<close> show ?thesis
        by (auto split: if_splits)
    qed
  qed
qed

lemma AllowCovers_iff:
  "AllowCovers scopes u ob whole \<longleftrightarrow>
     (\<forall>s \<in> set scopes. scope_ok s) \<and> covers_spec (concat (map clauses_of scopes)) u ob whole"
proof (cases "\<forall>s \<in> set scopes. scope_ok s")
  case False
  then show ?thesis by (auto simp: AllowCovers_def list_ex_iff)
next
  case valid: True
  let ?cs = "concat (map clauses_of scopes)"
  let ?gs = "of_RoutingGroupIDs ob"
  let ?hit = "{g \<in> set ?gs. \<exists>c \<in> matching ?cs u ob. g \<in> set (cl_RoutingGroupIDs c)}"
  show ?thesis
  proof (cases whole)
    case False
    with valid show ?thesis
      by (auto simp: AllowCovers_def list_ex_iff coverClauses_read covers_spec_def
          remdups_adj_sort_length simp del: remdups_adj_Nil_iff)
  next
    case True
    show ?thesis
    proof (cases "\<exists>c \<in> matching ?cs u ob. cl_RoutingGroupIDs c = []")
      case unrestricted: True
      with coverClauses_whole [of ?cs u ob "[]"]
      have "coverClauses ?cs u ob True [] = Return True" by (simp split: if_splits)
      with unrestricted True valid show ?thesis
        by (auto simp: AllowCovers_def list_ex_iff covers_spec_def)
    next
      case restricted: False
      with coverClauses_whole [of ?cs u ob "[]"] obtain cov
        where cov: "coverClauses ?cs u ob True [] = Covered cov" "set cov = ?hit" "distinct cov"
        by (auto split: if_splits)
      have "length cov = card (set ?gs) \<longleftrightarrow> set ?gs \<subseteq> ?hit"
        using distinct_cover_iff [OF cov(3), of ?gs] cov(2) by auto
      with cov restricted True valid show ?thesis
        by (auto simp: AllowCovers_def list_ex_iff covers_spec_def remdups_adj_sort_length)
    qed
  qed
qed

lemma AllowCovers_single: "AllowCovers [s] u ob w \<longleftrightarrow> scope_ok s \<and> covers_spec (clauses_of s) u ob w"
  by (simp add: AllowCovers_iff)

lemma covers_spec_mono:
  assumes "\<And>c. c \<in> matching cs u ob \<Longrightarrow> \<exists>d \<in> matching ds v ob.
      cl_RoutingGroupIDs d = [] \<or> (cl_RoutingGroupIDs c \<noteq> [] \<and> set (cl_RoutingGroupIDs c) \<subseteq> set (cl_RoutingGroupIDs d))"
    and "covers_spec cs u ob w"
  shows "covers_spec ds v ob w"
proof (cases "\<exists>d \<in> matching ds v ob. cl_RoutingGroupIDs d = []")
  case True
  then show ?thesis by (simp add: covers_spec_def)
next
  case False
  with assms(1) have sub: "\<And>c. c \<in> matching cs u ob \<Longrightarrow> \<exists>d \<in> matching ds v ob.
      cl_RoutingGroupIDs c \<noteq> [] \<and> set (cl_RoutingGroupIDs c) \<subseteq> set (cl_RoutingGroupIDs d)" by blast
  then have "\<not> (\<exists>c \<in> matching cs u ob. cl_RoutingGroupIDs c = [])" by blast
  with assms(2) show ?thesis using sub unfolding covers_spec_def
    by (cases w) (simp, blast)+
qed

subsection \<open>What intersection covers\<close>

text \<open>A clause grants an object on one group, or on no group at all.\<close>

definition clause_grants :: "clause \<Rightarrow> int64 \<Rightarrow> object_facts \<Rightarrow> int64 option \<Rightarrow> bool" where
  "clause_grants c u ob g \<longleftrightarrow> nonGroupMatches c u ob
     \<and> (cl_RoutingGroupIDs c = [] \<or> (case g of None \<Rightarrow> False | Some i \<Rightarrow> i \<in> set (cl_RoutingGroupIDs c)))"

definition clauses_grant :: "clause list \<Rightarrow> int64 \<Rightarrow> object_facts \<Rightarrow> int64 option \<Rightarrow> bool" where
  "clauses_grant cs u ob g \<longleftrightarrow> (\<exists>c \<in> set cs. clause_grants c u ob g)"

lemma nonGroupMatches_ids:
  "nonGroupMatches c u ob \<longleftrightarrow> (\<not> cl_Self c \<or> (u > 0 \<and> of_OwnerUserID ob = u))
     \<and> ids_admit (cl_UserIDs c) (of_OwnerUserID ob)
     \<and> ids_admit (cl_ResourceIDs c) (of_ResourceID ob)
     \<and> (cl_ResourceIDs c = [] \<or> of_ResourceID ob > 0)"
  by (auto simp: nonGroupMatches_def ids_admit_def)

lemma All_grants: "clause_ok ks c \<Longrightarrow> cl_All c \<Longrightarrow> clause_grants c u ob g"
  by (auto simp: clause_grants_def nonGroupMatches_def dest: clause_ok_All)

lemma intersect_clause_grants:
  assumes "clause_ok ks x" and "clause_ok ks' y"
  shows "(\<exists>c \<in> set (intersect_clause x y). clause_grants c u ob g)
    \<longleftrightarrow> clause_grants x u ob g \<and> clause_grants y u ob g"
proof (cases "cl_All x \<or> cl_All y")
  case True
  have "cl_All x \<Longrightarrow> clause_grants x u ob g" and "cl_All y \<Longrightarrow> clause_grants y u ob g"
    using All_grants [OF assms(1)] All_grants [OF assms(2)] by blast+
  with True show ?thesis by (cases "cl_All x") (simp_all add: intersect_clause_def)
next
  case False
  obtain us k1 where us: "intersectIDs (cl_UserIDs x) (cl_UserIDs y) = (us, k1)" by fastforce
  obtain rs k2 where rs: "intersectIDs (cl_ResourceIDs x) (cl_ResourceIDs y) = (rs, k2)" by fastforce
  obtain gs k3 where gs: "intersectIDs (cl_RoutingGroupIDs x) (cl_RoutingGroupIDs y) = (gs, k3)" by fastforce
  note adm = intersectIDs_admit [OF us] intersectIDs_admit [OF rs] intersectIDs_admit [OF gs]
  note emp = intersectIDs_set [OF rs] intersectIDs_set [OF gs]
  let ?z = "\<lparr>cl_All = False, cl_Self = cl_Self x \<or> cl_Self y, cl_UserIDs = us,
      cl_ResourceIDs = rs, cl_RoutingGroupIDs = gs\<rparr>"
  have e: "intersect_clause x y = (if k1 \<and> k2 \<and> k3 then [?z] else [])"
    using False us rs gs by (simp add: intersect_clause_def)
  have z: "k1 \<and> k2 \<and> k3 \<and> clause_grants ?z u ob g \<longleftrightarrow> clause_grants x u ob g \<and> clause_grants y u ob g"
  proof (cases g)
    case None
    with adm(1) [of "of_OwnerUserID ob"] adm(2) [of "of_ResourceID ob"] emp show ?thesis
      by (simp add: clause_grants_def nonGroupMatches_ids) blast
  next
    case (Some i)
    with adm(1) [of "of_OwnerUserID ob"] adm(2) [of "of_ResourceID ob"] adm(3) [of i] emp show ?thesis
      by (simp add: clause_grants_def nonGroupMatches_ids flip: ids_admit_def) blast
  qed
  show ?thesis unfolding e z [symmetric] bex_if_single by blast
qed

lemma Intersect_grants:
  assumes "scope_Validate a ks = None" and "scope_Validate b ks' = None"
  shows "clauses_grant (clauses_of (Intersect a b)) u ob g
    \<longleftrightarrow> clauses_grant (clauses_of a) u ob g \<and> clauses_grant (clauses_of b) u ob g"
proof -
  have "clauses_grant (clauses_of (Intersect a b)) u ob g \<longleftrightarrow>
      (\<exists>x \<in> set (clauses_of a). \<exists>y \<in> set (clauses_of b).
         \<exists>c \<in> set (intersect_clause x y). clause_grants c u ob g)"
    unfolding clauses_grant_def clauses_of_Intersect by blast
  also have "\<dots> \<longleftrightarrow> (\<exists>x \<in> set (clauses_of a). \<exists>y \<in> set (clauses_of b).
         clause_grants x u ob g \<and> clause_grants y u ob g)"
  proof (intro bex_cong refl)
    fix x y assume "x \<in> set (clauses_of a)" and "y \<in> set (clauses_of b)"
    with assms have "clause_ok ks x" and "clause_ok ks' y" by (simp_all add: scope_Validate_None)
    then show "(\<exists>c \<in> set (intersect_clause x y). clause_grants c u ob g)
        \<longleftrightarrow> clause_grants x u ob g \<and> clause_grants y u ob g"
      by (rule intersect_clause_grants)
  qed
  finally show ?thesis unfolding clauses_grant_def by blast
qed

text \<open>Coverage in terms of grants on single groups.\<close>

lemma grants_None:
  "clauses_grant cs u ob None \<longleftrightarrow> (\<exists>c \<in> matching cs u ob. cl_RoutingGroupIDs c = [])"
  by (auto simp: clauses_grant_def clause_grants_def matching_def)

lemma grants_Some:
  "clauses_grant cs u ob (Some g) \<longleftrightarrow> (\<exists>c \<in> matching cs u ob. cl_RoutingGroupIDs c = [])
     \<or> (\<exists>c \<in> matching cs u ob. g \<in> set (cl_RoutingGroupIDs c))"
  by (auto simp: clauses_grant_def clause_grants_def matching_def)

lemma covers_spec_grants:
  "covers_spec cs u ob w \<longleftrightarrow> clauses_grant cs u ob None
     \<or> of_RoutingGroupIDs ob \<noteq> [] \<and>
       (if w then \<forall>g \<in> set (of_RoutingGroupIDs ob). clauses_grant cs u ob (Some g)
        else \<exists>g \<in> set (of_RoutingGroupIDs ob). clauses_grant cs u ob (Some g))"
  by (cases "\<exists>c \<in> matching cs u ob. cl_RoutingGroupIDs c = []")
    (simp_all add: covers_spec_def grants_None grants_Some)

lemma grant_None_Some: "clauses_grant cs u ob None \<Longrightarrow> clauses_grant cs u ob g"
  by (cases g) (auto simp: clauses_grant_def clause_grants_def)

lemma clause_kinds_Nil:
  "clause_kinds c = [] \<longleftrightarrow> \<not> cl_All c \<and> \<not> cl_Self c \<and> cl_UserIDs c = [] \<and> cl_ResourceIDs c = []
     \<and> cl_RoutingGroupIDs c = []"
  by (auto simp: clause_kinds_def)

lemma intersect_clause_ok:
  assumes "clause_ok all_kinds x" and "clause_ok all_kinds y" and "c \<in> set (intersect_clause x y)"
  shows "clause_ok all_kinds c"
proof (cases "cl_All x \<or> cl_All y")
  case True
  with assms show ?thesis by (auto simp: intersect_clause_def split: if_splits)
next
  case False
  obtain us k1 where us: "intersectIDs (cl_UserIDs x) (cl_UserIDs y) = (us, k1)" by fastforce
  obtain rs k2 where rs: "intersectIDs (cl_ResourceIDs x) (cl_ResourceIDs y) = (rs, k2)" by fastforce
  obtain gs k3 where gs: "intersectIDs (cl_RoutingGroupIDs x) (cl_RoutingGroupIDs y) = (gs, k3)" by fastforce
  let ?z = "\<lparr>cl_All = False, cl_Self = cl_Self x \<or> cl_Self y, cl_UserIDs = us,
      cl_ResourceIDs = rs, cl_RoutingGroupIDs = gs\<rparr>"
  have e: "intersect_clause x y = (if k1 \<and> k2 \<and> k3 then [?z] else [])"
    using False us rs gs by (simp add: intersect_clause_def)
  show ?thesis
  proof (cases "k1 \<and> k2 \<and> k3")
    case False
    with assms(3) e show ?thesis by simp
  next
    case True
    with assms(3) have c: "c = ?z" unfolding e by simp
    have sub: "set us \<subseteq> set (cl_UserIDs x) \<union> set (cl_UserIDs y)"
        "set rs \<subseteq> set (cl_ResourceIDs x) \<union> set (cl_ResourceIDs y)"
        "set gs \<subseteq> set (cl_RoutingGroupIDs x) \<union> set (cl_RoutingGroupIDs y)"
      using intersectIDs_set [OF us] intersectIDs_set [OF rs] intersectIDs_set [OF gs] by blast+
    have pos: "\<And>i. i \<in> set us \<union> set rs \<union> set gs \<Longrightarrow> 0 < i"
      using assms(1,2) sub unfolding clause_ok_def list_all_iff set_append by blast
    have "clause_kinds x \<noteq> []" using assms(1) by (simp add: clause_ok_def)
    then have "clause_kinds ?z \<noteq> []"
      using \<open>\<not> (cl_All x \<or> cl_All y)\<close> True intersectIDs_set [OF us]
        intersectIDs_set [OF rs] intersectIDs_set [OF gs]
      by (simp add: clause_kinds_Nil) blast
    with pos have "clause_ok all_kinds ?z"
      by (simp add: clause_ok_def list_all_iff)
    then show ?thesis unfolding c .
  qed
qed

lemma Intersect_ok: "scope_ok a \<Longrightarrow> scope_ok b \<Longrightarrow> scope_ok (Intersect a b)"
  unfolding scope_Validate_None clauses_of_Intersect by (blast intro: intersect_clause_ok)

end
