(* ===== verification/Auth_Containment.thy ===== *)
theory Auth_Containment
  imports Auth_Scope
begin

text \<open>
  \<open>domain/authorization/containment.go\<close>: \<open>ScopeContained\<close> decides clause by clause whether one
  scope lies inside another, each with \<open>self\<close> resolved to its own user. The lemmas show that
  resolving keeps what a clause matches, so that an accepted candidate covers no object the
  ceiling does not cover.
\<close>

definition resolve_self :: "clause \<Rightarrow> int64 \<Rightarrow> clause \<times> bool" where
  "resolve_self c user =
     (if \<not> cl_Self c then (c, True)
      else if user \<le> 0 then (c, False)
      else if cl_UserIDs c \<noteq> [] \<and> user \<notin> set (cl_UserIDs c) then (c\<lparr>cl_Self := False\<rparr>, False)
      else (c\<lparr>cl_Self := False, cl_UserIDs := [user]\<rparr>, True))"

definition subsetIDs :: "int64 list \<Rightarrow> int64 list \<Rightarrow> bool" where
  "subsetIDs a b =
     (if b = [] then True else if a = [] then False else list_all (\<lambda>i. i \<in> set b) a)"

definition clause_inside :: "clause \<Rightarrow> clause \<Rightarrow> bool" where
  "clause_inside x y \<longleftrightarrow> cl_All y \<or>
     (\<not> cl_All x \<and> subsetIDs (cl_UserIDs x) (cl_UserIDs y)
      \<and> subsetIDs (cl_ResourceIDs x) (cl_ResourceIDs y)
      \<and> subsetIDs (cl_RoutingGroupIDs x) (cl_RoutingGroupIDs y))"

definition ScopeContained :: "scope \<Rightarrow> scope \<Rightarrow> int64 \<Rightarrow> int64 \<Rightarrow> bool" where
  "ScopeContained candidate ceiling candidateUser ceilingUser =
     (if sc_Clauses candidate = None \<or> sc_Clauses ceiling = None
         \<or> scope_Validate candidate all_kinds \<noteq> None \<or> scope_Validate ceiling all_kinds \<noteq> None
      then False
      else if list_ex cl_All (clauses_of ceiling) then True
      else list_all (\<lambda>c. case resolve_self c candidateUser of (x, possible) \<Rightarrow>
             if \<not> possible then cl_Self c \<and> candidateUser > 0
             else list_ex (\<lambda>limit. case resolve_self limit ceilingUser of (y, ok) \<Rightarrow>
                    ok \<and> clause_inside x y) (clauses_of ceiling))
           (clauses_of candidate))"

lemma resolve_self_matches:
  "resolve_self c u = (x, ok) \<Longrightarrow> nonGroupMatches c u ob \<longleftrightarrow> ok \<and> nonGroupMatches x v ob \<and> \<not> cl_Self x"
  by (auto simp: resolve_self_def nonGroupMatches_def split: if_splits)

lemma resolve_self_frame:
  "resolve_self c u = (x, ok) \<Longrightarrow> cl_RoutingGroupIDs x = cl_RoutingGroupIDs c
     \<and> cl_ResourceIDs x = cl_ResourceIDs c \<and> cl_All x = cl_All c"
  by (auto simp: resolve_self_def split: if_splits)

lemma subsetIDs_admit: "subsetIDs a b \<Longrightarrow> ids_admit a i \<Longrightarrow> ids_admit b i"
  by (auto simp: subsetIDs_def ids_admit_def list_all_iff split: if_splits)

lemma subsetIDs_Nil: "subsetIDs a b \<Longrightarrow> b = [] \<or> a \<noteq> [] \<and> set a \<subseteq> set b"
  by (auto simp: subsetIDs_def list_all_iff split: if_splits)

lemma clause_inside_matches:
  assumes "clause_inside x y" and "\<not> cl_All y" and "nonGroupMatches x u ob" and "\<not> cl_Self y"
  shows "nonGroupMatches y v ob"
  using assms subsetIDs_admit [of "cl_UserIDs x" "cl_UserIDs y"]
    subsetIDs_admit [of "cl_ResourceIDs x" "cl_ResourceIDs y"]
    subsetIDs_Nil [of "cl_ResourceIDs x" "cl_ResourceIDs y"]
  by (auto simp: clause_inside_def nonGroupMatches_ids)

lemma resolve_self_not_Self: "resolve_self c u = (x, True) \<Longrightarrow> \<not> cl_Self x"
  by (auto simp: resolve_self_def split: if_splits)

text \<open>Every clause of an accepted candidate that matches lies inside a matching ceiling clause.\<close>

lemma ScopeContained_clause:
  assumes "ScopeContained a b u v" and "\<not> list_ex cl_All (clauses_of b)"
    and "c \<in> matching (clauses_of a) u ob"
  shows "\<exists>d \<in> matching (clauses_of b) v ob. cl_RoutingGroupIDs d = []
    \<or> (cl_RoutingGroupIDs c \<noteq> [] \<and> set (cl_RoutingGroupIDs c) \<subseteq> set (cl_RoutingGroupIDs d))"
proof -
  from assms(3) have c: "c \<in> set (clauses_of a)" "nonGroupMatches c u ob"
    by (auto simp: matching_def)
  obtain x ok where x: "resolve_self c u = (x, ok)" by fastforce
  with c(2) have ok: "ok" and nx: "nonGroupMatches x u ob"
    using resolve_self_matches [OF x, of ob u] by blast+
  from assms(1,2) c(1) x ok obtain d y where d: "d \<in> set (clauses_of b)"
      "resolve_self d v = (y, True)" "clause_inside x y"
    unfolding ScopeContained_def by (fastforce simp: list_all_iff list_ex_iff split: if_splits)
  note fx = resolve_self_frame [OF x] and fy = resolve_self_frame [OF d(2)]
  have "\<not> cl_All y" using assms(2) d(1) fy by (auto simp: list_ex_iff)
  with d(3) nx resolve_self_not_Self [OF d(2)] have "nonGroupMatches y v ob"
    by (blast intro: clause_inside_matches)
  then have "nonGroupMatches d v ob"
    using resolve_self_matches [OF d(2), of ob v] resolve_self_not_Self [OF d(2)] by blast
  with d(1) have "d \<in> matching (clauses_of b) v ob" by (simp add: matching_def)
  moreover have "subsetIDs (cl_RoutingGroupIDs c) (cl_RoutingGroupIDs d)"
    using d(3) \<open>\<not> cl_All y\<close> fx fy by (simp add: clause_inside_def)
  ultimately show ?thesis using subsetIDs_Nil by blast
qed

lemma All_clause_covers:
  assumes "scope_ok b" and "list_ex cl_All (clauses_of b)"
  shows "covers_spec (clauses_of b) v ob w"
proof -
  from assms(2) obtain d where d: "d \<in> set (clauses_of b)" "cl_All d" by (auto simp: list_ex_iff)
  with assms(1) have "clause_ok all_kinds d" by (simp add: scope_Validate_None)
  from clause_ok_All [OF this d(2)] d(1)
  have "d \<in> matching (clauses_of b) v ob \<and> cl_RoutingGroupIDs d = []"
    by (simp add: matching_def nonGroupMatches_def)
  then show ?thesis unfolding covers_spec_def by blast
qed

lemma ScopeContained_ok: "ScopeContained a b u v \<Longrightarrow> scope_ok a \<and> scope_ok b"
  by (auto simp: ScopeContained_def split: if_splits)

lemma ScopeContained_sound:
  assumes "ScopeContained a b u v" and "AllowCovers [a] u ob w"
  shows "AllowCovers [b] v ob w"
proof (cases "list_ex cl_All (clauses_of b)")
  case True
  with ScopeContained_ok [OF assms(1)] show ?thesis
    by (simp add: AllowCovers_single All_clause_covers)
next
  case False
  from assms(2) have "covers_spec (clauses_of a) u ob w" by (simp add: AllowCovers_single)
  with ScopeContained_clause [OF assms(1) False] have "covers_spec (clauses_of b) v ob w"
    by (rule covers_spec_mono)
  with ScopeContained_ok [OF assms(1)] show ?thesis by (simp add: AllowCovers_single)
qed

end
