(* ===== verification/Auth_Registry.thy ===== *)
theory Auth_Registry
  imports Auth_Scope
begin

text \<open>
  The operation catalogue of \<open>domain/authorization/registry.go\<close>: the table of resources and
  actions, the expansion of the table into operations, \<open>Lookup\<close>, \<open>Catalog\<close> and the protection
  of the core. The expansion panics on a duplicate code when the program starts; the lemmas show
  that the codes of the table are distinct, so that it does not, and that a code determines its
  operation.
\<close>

record operation =
  op_Code :: string
  op_Resource :: string
  op_Action :: string
  op_Owner :: string
  op_Scopes :: "scope_kind list"
  op_ContextTypes :: "string list"
  op_Protected :: bool
  op_WholeObject :: bool
  op_Binding :: string

definition scopes_global :: "scope_kind list" where
  "scopes_global = [KAll]"

definition scopes_resources :: "scope_kind list" where
  "scopes_resources = [KAll, KResources]"

definition scopes_users :: "scope_kind list" where
  "scopes_users = [KAll, KSelf, KUsers, KResources]"

definition scopes_resourcesGroups :: "scope_kind list" where
  "scopes_resourcesGroups = [KAll, KResources, KGroups]"

definition scopes_userGroups :: "scope_kind list" where
  "scopes_userGroups = [KAll, KSelf, KUsers, KResources, KGroups]"

definition registry_table :: "(string \<times> string list \<times> string \<times> scope_kind list) list" where
  "registry_table = [
       (''admin.console'', [''enter''], ''admin'', scopes_global),
       (''admin.overview'', [''read''], ''admin'', scopes_global),
       (''identity.user'', [''list'', ''read'', ''create'', ''update'', ''enable'', ''disable'', ''delete'',
      ''export'', ''contact.read'', ''email_binding.update'', ''credential.update'', ''sessions.revoke''],
      ''identity'', scopes_userGroups),
       (''identity.user_role'', [''read'', ''assign'', ''revoke'', ''batch_assign''], ''identity'', scopes_resources),
       (''identity.session'', [''roles.read'', ''roles.activate'', ''self.revoke''], ''identity'', scopes_users),
       (''identity.routing_access'', [''read'', ''grant'', ''revoke'', ''default.update'', ''public_access.update''],
      ''identity'', scopes_userGroups),
       (''channel.channel'', [''list'', ''read'', ''create'', ''update'', ''enable'', ''disable'', ''delete'',
      ''batch_delete'', ''export'', ''test'', ''balance.refresh'', ''secret.read'', ''secret.rotate''], ''channel'',
      scopes_resourcesGroups),
       (''channel.account'', [''list'', ''read'', ''create'', ''update'', ''enable'', ''disable'', ''delete'',
      ''quota.reset'', ''recovery.clear'', ''credential.update'', ''oauth.bind''], ''channel'',
      scopes_resourcesGroups),
       (''channel.model'', [''list'', ''read'', ''create'', ''update'', ''enable'', ''disable'', ''delete'',
      ''batch_update'', ''import'', ''export'', ''canonical.preflight'', ''canonical.merge''], ''channel'',
      scopes_resources),
       (''channel.model_alias'', [''read'', ''create'', ''delete''], ''channel'', scopes_resources),
       (''channel.model_usage'', [''read''], ''channel'', scopes_resources),
       (''channel.upstream_contract'', [''read'', ''create'', ''publish'', ''quarantine''], ''channel'',
      scopes_global),
       (''channel.usage_semantic_block'', [''list'', ''resolve''], ''channel'', scopes_resources),
       (''log.selection_event'', [''list''], ''log'', scopes_users),
       (''channel.model_mapping'', [''read'', ''create'', ''update'', ''delete''], ''channel'',
      scopes_resourcesGroups),
       (''channel.model_routing'', [''read'', ''create'', ''update'', ''delete''], ''channel'',
      scopes_resourcesGroups),
       (''channel.routing_group'', [''list'', ''read'', ''create'', ''update'', ''enable'', ''disable'', ''archive'',
      ''members.read'', ''members.update'', ''resource_override.update''], ''channel'', scopes_resources),
       (''monitor.health'', [''channel.read'', ''model.read'', ''selector.read''], ''monitor'',
      scopes_resourcesGroups),
       (''billing.pricing'', [''read'', ''update'', ''import'', ''export''], ''billing'', scopes_resources),
       (''billing.upstream_cost'', [''read'', ''create'', ''update'', ''delete'', ''migrate''], ''billing'',
      scopes_resources),
       (''billing.routing_policy'', [''read'', ''publish'', ''user_override.read'', ''user_override.update'',
      ''user_override.delete''], ''billing'', scopes_userGroups),
       (''billing.account'', [''read'', ''balance.adjust'', ''balance.reset'', ''ledger.read'', ''cost.read''],
      ''billing'', scopes_users),
       (''billing.payment'', [''list'', ''read'', ''refund''], ''billing'', scopes_users),
       (''billing.vendor_report'', [''read'', ''import'', ''attribute''], ''billing'', scopes_global),
       (''billing.reconciliation'', [''read'', ''run'', ''issues.read''], ''billing'', scopes_global),
       (''billing.redemption'', [''list'', ''read'', ''create'', ''batch_create'', ''update'', ''delete'',
      ''export''], ''billing'', scopes_resources),
       (''subscription.quota_policy'', [''list'', ''read'', ''create'', ''update'', ''delete''], ''billing'',
      scopes_resources),
       (''subscription.plan'', [''list'', ''read'', ''create'', ''update'', ''publish'', ''unpublish'', ''delete''],
      ''billing'', scopes_resources),
       (''subscription.user_subscription'', [''list'', ''read'', ''assign'', ''change'', ''extend'', ''revoke'',
      ''quota.reset'', ''report.read''], ''billing'', scopes_users),
       (''log.request'', [''list'', ''read'', ''stats.read'', ''export'', ''delete'', ''purge'', ''content.read''],
      ''log'', scopes_users),
       (''system.option'', [''read'', ''update'', ''security.update'', ''payment.update'', ''pricing.update''],
      ''config'', scopes_global),
       (''system.content'', [''notice.update'', ''about.update'', ''home.update''], ''config'', scopes_global),
       (''notify.notification'', [''list'', ''read'', ''acknowledge'', ''test'', ''rules.update''], ''notify'',
      scopes_resources),
       (''iam.permission'', [''list'', ''read'', ''create'', ''metadata.update'', ''enable'', ''disable'',
      ''archive'', ''references.read''], ''identity'', scopes_resources),
       (''iam.role'', [''list'', ''read'', ''create'', ''update'', ''copy'', ''enable'', ''disable'', ''archive'',
      ''permissions.read'', ''permissions.update'', ''hierarchy.update'', ''members.read''], ''identity'',
      scopes_resources),
       (''iam.delegation'', [''read'', ''create'', ''update'', ''revoke''], ''identity'', scopes_resources),
       (''iam.constraint'', [''read'', ''create'', ''update'', ''delete''], ''identity'', scopes_resources),
       (''iam.menu'', [''list'', ''read'', ''create'', ''update'', ''archive''], ''identity'', scopes_resources),
       (''iam.authorization'', [''self.read'', ''user.read'', ''explain'', ''simulate''], ''identity'',
      scopes_resources),
       (''iam.audit'', [''read'', ''export''], ''identity'', scopes_resources),
       (''organization.organization'', [''list'', ''read'', ''create'', ''profile.update'', ''enable'', ''disable'',
      ''archive'', ''ownership.transfer''], ''identity'', scopes_resources),
       (''organization.member'', [''list'', ''read'', ''invite'', ''update'', ''suspend'', ''restore'', ''remove'',
      ''export'', ''contact.read''], ''identity'', scopes_resources),
       (''organization.member_role'', [''read'', ''assign'', ''revoke'', ''batch_assign''], ''identity'',
      scopes_resources),
       (''organization.unit'', [''list'', ''read'', ''create'', ''update'', ''move'', ''archive'', ''members.read'',
      ''members.update''], ''identity'', scopes_resources),
       (''billing.report'', [''export''], ''billing'', scopes_users),
       (''monitor.health.service'', [''read''], ''monitor'', scopes_resources),
       (''monitor.alert_rule'', [''list'', ''read'', ''create'', ''update'', ''delete''], ''monitor'',
      scopes_resources)]"

definition read_actions :: "string list" where
  "read_actions = [
     ''list'', ''read'', ''export'', ''import_preview'', ''enter'', ''roles.read'', ''self.read'',
     ''user.read'', ''explain'', ''simulate'', ''contact.read'', ''secret.read'', ''content.read'',
     ''stats.read'', ''cost.read'', ''ledger.read'', ''report.read'', ''references.read'',
     ''permissions.read'', ''members.read'', ''channel.read'', ''model.read'', ''selector.read'',
     ''issues.read'', ''user_override.read'']"

definition entry_operation :: "string \<Rightarrow> string \<Rightarrow> scope_kind list \<Rightarrow> string \<Rightarrow> operation" where
  "entry_operation resource owner scopes action =
     (let code = resource @ ''.'' @ action;
          read = action \<in> set read_actions;
          prot = resource = ''iam.permission'' \<or> code = ''iam.authorization.self.read''
            \<or> has_prefix code ''identity.session.'';
          contexts = (if has_prefix resource ''organization.'' \<and> resource \<noteq> ''organization.organization''
            then [''organization''] else [''platform''])
      in \<lparr>op_Code = code, op_Resource = resource, op_Action = action, op_Owner = owner,
          op_Scopes = scopes, op_ContextTypes = contexts, op_Protected = prot,
          op_WholeObject = \<not> read, op_Binding = ''unbound''\<rparr>)"

text \<open>The registry; \<open>None\<close> is the panic on a duplicate code.\<close>

fun build_registry :: "operation list \<Rightarrow> (string \<times> operation) list \<Rightarrow> (string \<times> operation) list option" where
  "build_registry [] out = Some out"
| "build_registry (opn # opns) out =
     (if map_of out (op_Code opn) \<noteq> None then None
      else build_registry opns (out @ [(op_Code opn, opn)]))"

definition registry_operations :: "operation list" where
  "registry_operations = concat (map (\<lambda>(resource, actions, owner, scopes).
     map (entry_operation resource owner scopes) actions) registry_table)"

definition Lookup :: "string \<Rightarrow> operation option" where
  "Lookup code = (case build_registry registry_operations [] of
     None \<Rightarrow> None | Some registry \<Rightarrow> map_of registry code)"

definition Catalog :: "operation list" where
  "Catalog = (let codes = sort (map op_Code registry_operations)
     in concat (map (\<lambda>code. case Lookup code of None \<Rightarrow> [] | Some opn \<Rightarrow> [opn]) codes))"

definition CheckLifecycle :: "operation \<Rightarrow> string \<Rightarrow> auth_error option" where
  "CheckLifecycle opn action =
     (if op_Protected opn \<and> (action = ''disable'' \<or> action = ''archive'' \<or> action = ''unbind'')
      then Some ErrProtected else None)"

definition CheckRoleMutation :: "string \<Rightarrow> auth_error option" where
  "CheckRoleMutation code = (if code = ''root'' then Some ErrProtected else None)"

subsection \<open>The codes are distinct\<close>

lemma build_registry_distinct:
  "distinct (map fst out @ map op_Code opns) \<Longrightarrow>
   build_registry opns out = Some (out @ map (\<lambda>opn. (op_Code opn, opn)) opns)"
proof (induction opns arbitrary: out)
  case Nil
  then show ?case by simp
next
  case (Cons opn opns)
  then have "map_of out (op_Code opn) = None" by (auto simp: map_of_eq_None_iff)
  moreover have "distinct (map fst (out @ [(op_Code opn, opn)]) @ map op_Code opns)"
    using Cons.prems by auto
  ultimately show ?case using Cons.IH [of "out @ [(op_Code opn, opn)]"] by simp
qed

definition entry_codes :: "(string \<times> string list) list" where
  "entry_codes = map (\<lambda>(resource, actions, owner, scopes). (resource, actions)) registry_table"

lemma op_Code_entry [simp]: "op_Code (entry_operation r ow sc a) = r @ ''.'' @ a"
  by (simp add: entry_operation_def Let_def)

lemma registry_codes:
  "map op_Code registry_operations =
     concat (map (\<lambda>(resource, actions). map (\<lambda>a. resource @ ''.'' @ a) actions) entry_codes)"
  by (simp add: registry_operations_def entry_codes_def map_concat comp_def case_prod_beta)

text \<open>
  Two codes of different resources can agree only if one resource, with its dot, is a prefix of the
  other. The check below compares resources first and whole codes only for such a pair.
\<close>

fun is_prefix :: "string \<Rightarrow> string \<Rightarrow> bool" where
  "is_prefix [] ys = True"
| "is_prefix (x # xs) [] = False"
| "is_prefix (x # xs) (y # ys) = (if x = y then is_prefix xs ys else False)"

definition codes_apart :: "string \<times> string list \<Rightarrow> string \<times> string list \<Rightarrow> bool" where
  "codes_apart = (\<lambda>(r, as) (r', as').
     if is_prefix r r' \<or> is_prefix r' r
     then list_all (\<lambda>a. list_all (\<lambda>a'. r @ a \<noteq> r' @ a') as') as else True)"

fun all_apart :: "(string \<times> string list) list \<Rightarrow> bool" where
  "all_apart [] = True"
| "all_apart (e # es) = (if list_all (codes_apart e) es then all_apart es else False)"

lemma append_eq_is_prefix: "r @ a = r' @ a' \<Longrightarrow> is_prefix r r' \<or> is_prefix r' r"
  by (induction r r' rule: is_prefix.induct) auto

lemma codes_apart_disjoint:
  "codes_apart (r, as) (r', as') \<Longrightarrow> (\<lambda>a. r @ a) ` set as \<inter> (\<lambda>a. r' @ a) ` set as' = {}"
  by (auto simp: codes_apart_def list_all_iff split: if_splits dest: append_eq_is_prefix)

lemma all_apart_distinct:
  "all_apart es \<Longrightarrow> list_all (\<lambda>e. distinct (snd e)) es \<Longrightarrow>
   distinct (concat (map (\<lambda>(r, as). map (\<lambda>a. r @ a) as) es))"
proof (induction es)
  case Nil
  then show ?case by simp
next
  case (Cons e es)
  obtain r as where e: "e = (r, as)" by fastforce
  have "\<forall>(r', as') \<in> set es. (\<lambda>a. r @ a) ` set as \<inter> (\<lambda>a. r' @ a) ` set as' = {}"
    using Cons.prems(1) e codes_apart_disjoint by (fastforce simp: list_all_iff split: if_splits)
  then have "set (map (\<lambda>a. r @ a) as) \<inter> set (concat (map (\<lambda>(r, as). map (\<lambda>a. r @ a) as) es)) = {}"
    by fastforce
  moreover have "distinct (map (\<lambda>a. r @ a) as)"
    using Cons.prems(2) e by (simp add: distinct_map inj_on_def)
  ultimately show ?case using Cons e by (simp split: if_splits)
qed

lemma entry_codes_apart: "all_apart (map (\<lambda>(r, as). (r @ ''.'', as)) entry_codes)"
  by code_simp

lemma entry_actions_distinct: "list_all (\<lambda>e. distinct (snd e)) entry_codes"
  by code_simp

lemma registry_codes_distinct: "distinct (map op_Code registry_operations)"
proof -
  let ?es = "map (\<lambda>(r, as). (r @ ''.'', as)) entry_codes"
  have "list_all (\<lambda>e. distinct (snd e)) ?es"
    using entry_actions_distinct by (simp add: list_all_iff case_prod_beta)
  with entry_codes_apart have "distinct (concat (map (\<lambda>(r, as). map (\<lambda>a. r @ a) as) ?es))"
    by (rule all_apart_distinct)
  moreover have "concat (map (\<lambda>(r, as). map (\<lambda>a. r @ a) as) ?es) = map op_Code registry_operations"
    unfolding registry_codes by (rule arg_cong [of _ _ concat]) (auto simp: comp_def)
  ultimately show ?thesis by simp
qed

lemma build_registry_ok:
  "build_registry registry_operations [] = Some (map (\<lambda>opn. (op_Code opn, opn)) registry_operations)"
  using build_registry_distinct [of "[]" registry_operations] registry_codes_distinct by simp

lemma Lookup_map_of: "Lookup code = map_of (map (\<lambda>opn. (op_Code opn, opn)) registry_operations) code"
  by (simp add: Lookup_def build_registry_ok)

lemma Lookup_Some: "Lookup code = Some opn \<longleftrightarrow> opn \<in> set registry_operations \<and> op_Code opn = code"
proof -
  have "distinct (map fst (map (\<lambda>opn. (op_Code opn, opn)) registry_operations))"
    using registry_codes_distinct by (simp add: comp_def)
  from map_of_eq_Some_iff [OF this] show ?thesis by (auto simp: Lookup_map_of)
qed

lemma Lookup_code: "Lookup code = Some opn \<Longrightarrow> op_Code opn = code"
  by (simp add: Lookup_Some)

text \<open>\<open>Lookup\<close> without the construction of the map, for evaluation at a concrete code.\<close>

lemma Lookup_find: "Lookup code = find (\<lambda>opn. op_Code opn = code) registry_operations"
proof -
  have "map_of (map (\<lambda>opn. (op_Code opn, opn)) opns) code = find (\<lambda>opn. op_Code opn = code) opns"
    for opns by (induction opns) auto
  then show ?thesis by (simp add: Lookup_map_of)
qed

end
