(* ===== verification/Auth_Decision.thy ===== *)
theory Auth_Decision
  imports Auth_Containment Auth_Registry
begin

text \<open>
  The authorization decision of \<open>domain/authorization\<close>: intervals, actors, grant sources
  (\<open>model.go\<close>), \<open>Decide\<close> (\<open>decision.go\<close>) and the query scope that repositories compile
  (\<open>QueryFromSources\<close>, \<open>Matches\<close>, \<open>Global\<close> of \<open>query.go\<close>).
  The lemmas relate the two loops over grant sources, show how the deadline \<open>ValidUntil\<close> falls
  while they run, and that nothing in the outcome of the loop changes before it.
\<close>

subsection \<open>Facts about the request\<close>

record interval =
  iv_StartsAt :: gotime
  iv_ExpiresAt :: "gotime option"

definition interval_Validate :: "interval \<Rightarrow> auth_error option" where
  "interval_Validate i =
     (if iv_StartsAt i = 0 \<or> (case iv_ExpiresAt i of None \<Rightarrow> False | Some e \<Rightarrow> \<not> iv_StartsAt i < e)
      then Some ErrInterval else None)"

definition interval_Contains :: "interval \<Rightarrow> gotime \<Rightarrow> bool" where
  "interval_Contains i now \<longleftrightarrow> interval_Validate i = None \<and> \<not> now < iv_StartsAt i
     \<and> (case iv_ExpiresAt i of None \<Rightarrow> True | Some e \<Rightarrow> now < e)"

record actor =
  ac_UserID :: int64
  ac_ServiceID :: string
  ac_SessionID :: string
  ac_PasswordEpoch :: int64
  ac_ExpiresAt :: gotime

record versions =
  vs_User :: nat
  vs_Policy :: nat
  vs_Catalog :: nat
  vs_Session :: nat
  vs_SessionContext :: nat
  vs_Organization :: nat
  vs_Membership :: nat
  vs_Unit :: nat

record grant_source =
  gs_Context :: auth_context
  gs_Operation :: string
  gs_Effect :: string
  gs_AssignmentID :: int64
  gs_RoleID :: int64
  gs_InheritancePath :: "int64 list"
  gs_RoleScope :: scope
  gs_AssignmentBoundary :: scope
  gs_Validity :: interval
  gs_Active :: bool

record decision =
  dc_Allowed :: bool
  dc_Reason :: string
  dc_Context :: auth_context
  dc_Operation :: string
  dc_Versions :: versions
  dc_ValidUntil :: "gotime option"
  dc_Sources :: "grant_source list"

record decide_input =
  in_Actor :: actor
  in_Context :: auth_context
  in_Operation :: operation
  in_Object :: object_facts
  in_Sources :: "grant_source list"
  in_Versions :: versions
  in_Now :: gotime
  in_IdentityValid :: bool
  in_SessionValid :: bool
  in_ConstraintsPass :: bool
  in_BusinessRulesPass :: bool
  in_OperationEnabled :: bool

subsection \<open>The loop over grant sources\<close>

definition source_invalid :: "operation \<Rightarrow> grant_source \<Rightarrow> bool" where
  "source_invalid opn s \<longleftrightarrow> interval_Validate (gs_Validity s) \<noteq> None
     \<or> scope_Validate (gs_RoleScope s) (op_Scopes opn) \<noteq> None
     \<or> scope_Validate (gs_AssignmentBoundary s) (op_Scopes opn) \<noteq> None
     \<or> (gs_Effect s \<noteq> ''allow'' \<and> gs_Effect s \<noteq> ''deny'')"

record collected =
  co_Allows :: "scope list"
  co_Denies :: "scope list"
  co_Until :: gotime
  co_Sources :: "grant_source list"

definition until_start :: "gotime \<Rightarrow> grant_source \<Rightarrow> gotime \<Rightarrow> gotime" where
  "until_start now s until =
     (if now < iv_StartsAt (gs_Validity s) \<and> iv_StartsAt (gs_Validity s) < until
      then iv_StartsAt (gs_Validity s) else until)"

definition until_end :: "grant_source \<Rightarrow> gotime \<Rightarrow> gotime" where
  "until_end s until = (case iv_ExpiresAt (gs_Validity s) of None \<Rightarrow> until
     | Some e \<Rightarrow> if e < until then e else until)"

text \<open>
  \<open>Inl\<close> is the early return with reason \<open>SCOPE_INVALID\<close> and the sources collected so far.
\<close>

fun collectSources ::
  "auth_context \<Rightarrow> operation \<Rightarrow> gotime \<Rightarrow> grant_source list \<Rightarrow> collected \<Rightarrow> grant_source list + collected" where
  "collectSources cx opn now [] co = Inr co"
| "collectSources cx opn now (s # ss) co =
     (if gs_Context s \<noteq> cx \<or> gs_Operation s \<noteq> op_Code opn then collectSources cx opn now ss co
      else if source_invalid opn s then Inl (co_Sources co)
      else let co1 = co\<lparr>co_Until := until_start now s (co_Until co)\<rparr> in
        if \<not> interval_Contains (gs_Validity s) now then collectSources cx opn now ss co1
        else let co2 = co1\<lparr>co_Until := until_end s (co_Until co1)\<rparr> in
          if gs_Effect s = ''deny'' then
            collectSources cx opn now ss (co2\<lparr>co_Denies := co_Denies co2 @ [gs_RoleScope s],
              co_Sources := co_Sources co2 @ [s]\<rparr>)
          else if gs_Active s then
            collectSources cx opn now ss
              (co2\<lparr>co_Allows := co_Allows co2 @ [Intersect (gs_RoleScope s) (gs_AssignmentBoundary s)],
                co_Sources := co_Sources co2 @ [s]\<rparr>)
          else collectSources cx opn now ss co2)"

definition start_collect :: "gotime \<Rightarrow> collected" where
  "start_collect until = \<lparr>co_Allows = [], co_Denies = [], co_Until = until, co_Sources = []\<rparr>"

subsection \<open>Decide\<close>

definition denied :: "decide_input \<Rightarrow> string \<Rightarrow> decision" where
  "denied i reason = \<lparr>dc_Allowed = False, dc_Reason = reason, dc_Context = in_Context i,
     dc_Operation = op_Code (in_Operation i), dc_Versions = in_Versions i, dc_ValidUntil = None,
     dc_Sources = []\<rparr>"

definition object_ids_ok :: "object_facts \<Rightarrow> bool" where
  "object_ids_ok ob \<longleftrightarrow> \<not> (of_ResourceID ob < 0 \<or> of_OwnerUserID ob < 0)
     \<and> list_all (\<lambda>i. \<not> i \<le> 0) (of_RoutingGroupIDs ob)"

definition decide_collected :: "decide_input \<Rightarrow> operation \<Rightarrow> collected \<Rightarrow> decision" where
  "decide_collected i opn co =
     (let d = (denied i ''ALLOW_MISSING'')\<lparr>dc_ValidUntil := Some (co_Until co), dc_Sources := co_Sources co\<rparr>
      in if \<not> AllowCovers (co_Allows co) (ac_UserID (in_Actor i)) (in_Object i) (op_WholeObject opn)
         then d
         else if DenyMatches (co_Denies co) (ac_UserID (in_Actor i)) (in_Object i)
         then d\<lparr>dc_Reason := ''DENY_MATCHED''\<rparr>
         else if \<not> in_BusinessRulesPass i then d\<lparr>dc_Reason := ''BUSINESS_RULE_VIOLATION''\<rparr>
         else d\<lparr>dc_Allowed := True, dc_Reason := ''ALLOWED''\<rparr>)"

definition identity_ok :: "decide_input \<Rightarrow> bool" where
  "identity_ok i \<longleftrightarrow> in_IdentityValid i \<and> \<not> ac_UserID (in_Actor i) \<le> 0 \<and> ac_SessionID (in_Actor i) \<noteq> []
     \<and> in_Now i \<noteq> 0 \<and> in_Now i < ac_ExpiresAt (in_Actor i)"

definition Decide :: "decide_input \<Rightarrow> decision" where
  "Decide i =
     (if \<not> identity_ok i then denied i ''IDENTITY_INVALID''
      else case Lookup (op_Code (in_Operation i)) of
        None \<Rightarrow> denied i ''OPERATION_UNBOUND''
      | Some opn \<Rightarrow>
          if op_Binding (in_Operation i) \<noteq> ''bound'' then denied i ''OPERATION_UNBOUND''
          else if \<not> in_OperationEnabled i then denied i ''OPERATION_DISABLED''
          else case RequirePlatform (in_Context i) of
            Some e \<Rightarrow> denied i
              (if e = ErrOrganizationDisabled then ''ORGANIZATION_DISABLED'' else ''CONTEXT_INVALID'')
          | None \<Rightarrow>
              if in_Context i \<noteq> of_Context (in_Object i)
                \<or> cx_Type (in_Context i) \<notin> set (op_ContextTypes opn) then denied i ''CONTEXT_INVALID''
              else if \<not> object_ids_ok (in_Object i) then denied i ''SCOPE_INVALID''
              else if \<not> in_SessionValid i then denied i ''SESSION_INVALID''
              else if \<not> in_ConstraintsPass i then denied i ''CONSTRAINT_VIOLATION''
              else case collectSources (in_Context i) opn (in_Now i) (in_Sources i)
                     (start_collect (ac_ExpiresAt (in_Actor i))) of
                Inl srcs \<Rightarrow> (denied i ''SCOPE_INVALID'')\<lparr>dc_Sources := srcs\<rparr>
              | Inr co \<Rightarrow> decide_collected i opn co)"

subsection \<open>Query scopes\<close>

record query_scope =
  qs_ActorID :: int64
  qs_Allow :: "scope list"
  qs_Deny :: "scope list"
  qs_Versions :: versions
  qs_ValidUntil :: gotime

fun querySources ::
  "operation \<Rightarrow> gotime \<Rightarrow> grant_source list \<Rightarrow> query_scope \<Rightarrow> query_scope option" where
  "querySources opn now [] q = Some q"
| "querySources opn now (s # ss) q =
     (if gs_Context s \<noteq> Platform \<or> gs_Operation s \<noteq> op_Code opn then querySources opn now ss q
      else if source_invalid opn s then None
      else let q1 = q\<lparr>qs_ValidUntil := until_start now s (qs_ValidUntil q)\<rparr> in
        if \<not> interval_Contains (gs_Validity s) now then querySources opn now ss q1
        else let q2 = q1\<lparr>qs_ValidUntil := until_end s (qs_ValidUntil q1)\<rparr> in
          if gs_Effect s = ''deny'' then
            querySources opn now ss (q2\<lparr>qs_Deny := qs_Deny q2 @ [gs_RoleScope s]\<rparr>)
          else if gs_Active s then
            querySources opn now ss
              (q2\<lparr>qs_Allow := qs_Allow q2 @ [Intersect (gs_RoleScope s) (gs_AssignmentBoundary s)]\<rparr>)
          else querySources opn now ss q2)"

definition QueryFromSources ::
  "actor \<Rightarrow> operation \<Rightarrow> grant_source list \<Rightarrow> gotime \<Rightarrow> versions \<Rightarrow> auth_error + query_scope" where
  "QueryFromSources a opn sources now vs =
     (if ac_UserID a \<le> 0 \<or> now = 0 \<or> \<not> now < ac_ExpiresAt a then Inl ErrScope
      else case querySources opn now sources \<lparr>qs_ActorID = ac_UserID a, qs_Allow = [], qs_Deny = [],
             qs_Versions = vs, qs_ValidUntil = ac_ExpiresAt a\<rparr> of
        None \<Rightarrow> Inl ErrScope | Some q \<Rightarrow> Inr q)"

definition query_Matches :: "query_scope \<Rightarrow> object_facts \<Rightarrow> bool \<Rightarrow> bool" where
  "query_Matches q ob whole \<longleftrightarrow> object_ids_ok ob \<and> of_Context ob = Platform \<and> qs_ActorID q > 0
     \<and> AllowCovers (qs_Allow q) (qs_ActorID q) ob whole \<and> \<not> DenyMatches (qs_Deny q) (qs_ActorID q) ob"

definition query_Global :: "query_scope \<Rightarrow> bool" where
  "query_Global q \<longleftrightarrow> qs_Deny q = []
     \<and> AllowCovers (qs_Allow q) (qs_ActorID q)
         \<lparr>of_Context = Platform, of_ResourceID = 0, of_OwnerUserID = 0, of_RoutingGroupIDs = []\<rparr> False"

subsection \<open>The two loops agree\<close>

lemma until_start_le: "until_start now s u \<le> u"
  by (simp add: until_start_def)

lemma until_end_le: "until_end s u \<le> u"
  by (simp add: until_end_def split: option.splits)

lemma querySources_collect:
  "querySources opn now ss \<lparr>qs_ActorID = a, qs_Allow = al, qs_Deny = dn, qs_Versions = vs, qs_ValidUntil = u\<rparr> =
     (case collectSources Platform opn now ss
        \<lparr>co_Allows = al, co_Denies = dn, co_Until = u, co_Sources = src\<rparr> of
        Inl x \<Rightarrow> None
      | Inr co \<Rightarrow> Some \<lparr>qs_ActorID = a, qs_Allow = co_Allows co, qs_Deny = co_Denies co,
          qs_Versions = vs, qs_ValidUntil = co_Until co\<rparr>)"
  by (induction ss arbitrary: al dn u src) (simp_all add: Let_def)

lemma collect_until_le:
  "collectSources cx opn now ss co = Inr co' \<Longrightarrow> co_Until co' \<le> co_Until co"
proof (induction ss arbitrary: co)
  case Nil
  then show ?case by simp
next
  case (Cons s ss)
  let ?u = "until_start now s (co_Until co)"
  have le: "?u \<le> co_Until co" "until_end s ?u \<le> co_Until co"
    using until_start_le until_end_le order_trans by blast+
  from Cons.prems Cons.IH show ?case
    by (fastforce simp: Let_def split: if_splits intro: order_trans [OF _ le(1)] order_trans [OF _ le(2)])
qed

text \<open>
  A source that has not started by \<open>now\<close>, or has started and not ended, stays so until the
  deadline the loop returns.
\<close>

lemma contains_stable:
  assumes "now \<le> now'" and "now' < until_start now s u"
    and "interval_Contains (gs_Validity s) now \<Longrightarrow> now' < until_end s (until_start now s u)"
  shows "interval_Contains (gs_Validity s) now' = interval_Contains (gs_Validity s) now"
    and "until_start now' s u = until_start now s u"
  using assms by (auto simp: interval_Contains_def until_start_def until_end_def split: option.splits if_splits)

lemma collect_stable:
  assumes "now \<le> now'"
  shows "collectSources cx opn now ss co = Inr co' \<Longrightarrow> now' < co_Until co' \<Longrightarrow>
    collectSources cx opn now' ss co = Inr co'"
proof (induction ss arbitrary: co)
  case Nil
  then show ?case by simp
next
  case (Cons s ss)
  show ?case
  proof (cases "gs_Context s \<noteq> cx \<or> gs_Operation s \<noteq> op_Code opn \<or> source_invalid opn s")
    case True
    with Cons show ?thesis by (auto split: if_splits)
  next
    case False
    let ?u = "until_start now s (co_Until co)"
    let ?c1 = "co\<lparr>co_Until := ?u\<rparr>" and ?c2 = "co\<lparr>co_Until := until_end s ?u\<rparr>"
    have "co_Until co' \<le> ?u"
      and e: "interval_Contains (gs_Validity s) now \<Longrightarrow> co_Until co' \<le> until_end s ?u"
      using Cons.prems(1) False until_end_le [of s ?u]
      by (auto simp: Let_def split: if_splits dest!: collect_until_le)
    with Cons.prems(2) have "now' < ?u" by simp
    moreover have "interval_Contains (gs_Validity s) now \<Longrightarrow> now' < until_end s ?u"
      using e Cons.prems(2) by simp
    ultimately have "interval_Contains (gs_Validity s) now' = interval_Contains (gs_Validity s) now"
      and "until_start now' s (co_Until co) = ?u"
      using contains_stable [OF assms] by blast+
    with Cons False show ?thesis by (simp add: Let_def split: if_split_asm)
  qed
qed

lemma RequirePlatform_None: "RequirePlatform c = None \<longleftrightarrow> c = Platform"
  by (auto simp: RequirePlatform_def context_Validate_def Platform_def split: option.splits if_splits)

text \<open>The guards \<open>Decide\<close> passes before it looks at any grant.\<close>

definition decide_guards :: "decide_input \<Rightarrow> operation \<Rightarrow> bool" where
  "decide_guards i opn \<longleftrightarrow> identity_ok i \<and> Lookup (op_Code (in_Operation i)) = Some opn
     \<and> op_Binding (in_Operation i) = ''bound'' \<and> in_OperationEnabled i
     \<and> in_Context i = Platform \<and> of_Context (in_Object i) = Platform
     \<and> ''platform'' \<in> set (op_ContextTypes opn) \<and> object_ids_ok (in_Object i)
     \<and> in_SessionValid i \<and> in_ConstraintsPass i"

lemma Decide_guarded:
  "decide_guards i opn \<Longrightarrow> Decide i =
     (case collectSources Platform opn (in_Now i) (in_Sources i) (start_collect (ac_ExpiresAt (in_Actor i))) of
        Inl srcs \<Rightarrow> (denied i ''SCOPE_INVALID'')\<lparr>dc_Sources := srcs\<rparr>
      | Inr co \<Rightarrow> decide_collected i opn co)"
  by (simp add: Decide_def decide_guards_def RequirePlatform_None [THEN iffD2] Platform_def)

lemma Decide_unguarded:
  "(\<And>opn. \<not> decide_guards i opn) \<Longrightarrow> \<not> dc_Allowed (Decide i) \<and> dc_ValidUntil (Decide i) = None"
  by (auto simp: Decide_def decide_guards_def denied_def RequirePlatform_None Platform_def
      split: option.splits)

lemma Decide_cases:
  obtains (guarded) opn where "decide_guards i opn"
  | (unguarded) "\<And>opn. \<not> decide_guards i opn"
  by blast

lemma decide_collected_until: "dc_ValidUntil (decide_collected i opn co) = Some (co_Until co)"
  by (simp add: decide_collected_def Let_def)

lemma decide_collected_Allowed:
  "dc_Allowed (decide_collected i opn co) \<longleftrightarrow>
     AllowCovers (co_Allows co) (ac_UserID (in_Actor i)) (in_Object i) (op_WholeObject opn)
     \<and> \<not> DenyMatches (co_Denies co) (ac_UserID (in_Actor i)) (in_Object i) \<and> in_BusinessRulesPass i"
  by (simp add: decide_collected_def Let_def denied_def)

end
