(* ===== verification/Auth_Enforcer.thy ===== *)
theory Auth_Enforcer
  imports Auth_Decision
begin

text \<open>
  Enforcement in the data owners: \<open>enforcer.go\<close> (\<open>Prepare\<close>, \<open>PrepareOptional\<close>, \<open>PrepareSelf\<close>,
  \<open>Require\<close>), \<open>refresh.go\<close> (\<open>Refresh\<close>) and the write gate of the cutover, \<open>state.go\<close>.
  The request context is a record of the values the package stores in it. A resolver is a handle;
  its answers are those of the \<open>world\<close> in which it is asked, so that a refresh may see a policy
  other than the one the request was admitted under. The lemmas follow the loop of \<open>Refresh\<close> key
  by key.
\<close>

subsection \<open>Contexts and resolvers\<close>

record refresh_request =
  rr_resolver :: nat
  rr_point :: string
  rr_operation :: string
  rr_optional :: bool
  rr_self :: bool

record auth_ctx =
  ax_Queries :: "string \<Rightarrow> query_scope option"
  ax_VerifiedActor :: "int64 option"
  ax_LegacyAllowed :: "bool option"
  ax_Credential :: string
  ax_Refresh :: "(string \<times> refresh_request) list"

record resource_authorization =
  ra_Mode :: string
  ra_Query :: query_scope

text \<open>The optional interfaces a resolver may implement are \<open>None\<close> where it does not.\<close>

record resolver =
  rs_Query :: "string \<Rightarrow> string \<Rightarrow> string \<Rightarrow> auth_error + resource_authorization"
  rs_OptionalQuery :: "(string \<Rightarrow> string \<Rightarrow> string \<Rightarrow> auth_error + resource_authorization) option"
  rs_ResolveActor :: "(string \<Rightarrow> string \<Rightarrow> auth_error + (actor \<times> string)) option"

type_synonym world = "nat \<Rightarrow> resolver"

definition WithQueryScope :: "auth_ctx \<Rightarrow> string \<Rightarrow> query_scope \<Rightarrow> auth_ctx" where
  "WithQueryScope ctx operation q =
     (let ctx1 = (if qs_ActorID q > 0 then ctx\<lparr>ax_VerifiedActor := Some (qs_ActorID q)\<rparr> else ctx)
      in ctx1\<lparr>ax_Queries := (ax_Queries ctx1)(operation \<mapsto> q)\<rparr>)"

definition checkLegacy :: "auth_ctx \<Rightarrow> auth_error option" where
  "checkLegacy ctx = (case ax_LegacyAllowed ctx of Some False \<Rightarrow> Some ErrDenied | _ \<Rightarrow> None)"

definition withRefresh :: "auth_ctx \<Rightarrow> nat \<Rightarrow> string \<Rightarrow> string \<Rightarrow> bool \<Rightarrow> auth_ctx" where
  "withRefresh ctx r point operation optional =
     ctx\<lparr>ax_Refresh := put operation
       \<lparr>rr_resolver = r, rr_point = point, rr_operation = operation, rr_optional = optional, rr_self = False\<rparr>
       (ax_Refresh ctx)\<rparr>"

definition withSelfRefresh :: "auth_ctx \<Rightarrow> nat \<Rightarrow> string \<Rightarrow> string \<Rightarrow> auth_ctx" where
  "withSelfRefresh ctx r point operation =
     ctx\<lparr>ax_Refresh := put operation
       \<lparr>rr_resolver = r, rr_point = point, rr_operation = operation, rr_optional = False, rr_self = True\<rparr>
       (ax_Refresh ctx)\<rparr>"

definition self_query :: "actor \<Rightarrow> query_scope" where
  "self_query a = \<lparr>qs_ActorID = ac_UserID a,
     qs_Allow = [\<lparr>sc_Clauses = Some [\<lparr>cl_All = False, cl_Self = True, cl_UserIDs = [],
        cl_ResourceIDs = [], cl_RoutingGroupIDs = []\<rparr>]\<rparr>],
     qs_Deny = [],
     qs_Versions = \<lparr>vs_User = 0, vs_Policy = 0, vs_Catalog = 0, vs_Session = 0, vs_SessionContext = 0,
        vs_Organization = 0, vs_Membership = 0, vs_Unit = 0\<rparr>,
     qs_ValidUntil = ac_ExpiresAt a\<rparr>"

subsection \<open>Prepare and Require\<close>

definition Prepare ::
  "world \<Rightarrow> auth_ctx \<Rightarrow> nat option \<Rightarrow> string \<Rightarrow> string \<Rightarrow> auth_ctx \<times> auth_error option" where
  "Prepare w ctx resolver point operation = (case resolver of
     None \<Rightarrow> (ctx, checkLegacy ctx)
   | Some r \<Rightarrow> (case rs_Query (w r) point operation (ax_Credential ctx) of
       Inl e \<Rightarrow> (ctx, Some e)
     | Inr out \<Rightarrow>
         if ra_Mode out = ''legacy'' then (ctx, checkLegacy ctx)
         else if ra_Mode out \<noteq> ''iam'' \<or> qs_ActorID (ra_Query out) \<le> 0 \<or> qs_Allow (ra_Query out) = []
         then (ctx, Some ErrDenied)
         else (withRefresh (WithQueryScope ctx operation (ra_Query out)) r point operation False, None)))"

definition PrepareOptional ::
  "world \<Rightarrow> auth_ctx \<Rightarrow> nat option \<Rightarrow> string \<Rightarrow> string \<Rightarrow> auth_ctx \<times> auth_error option" where
  "PrepareOptional w ctx resolver point operation = (case resolver of
     None \<Rightarrow> (ctx, None)
   | Some r \<Rightarrow> (case rs_OptionalQuery (w r) of
       None \<Rightarrow> (ctx, Some ErrDenied)
     | Some optional \<Rightarrow> (case optional point operation (ax_Credential ctx) of
         Inl e \<Rightarrow> (ctx, Some e)
       | Inr out \<Rightarrow>
           if ra_Mode out = ''legacy'' then (ctx, None)
           else if ra_Mode out \<noteq> ''iam'' then (ctx, Some ErrDenied)
           else let q = (if qs_ActorID (ra_Query out) = 0
                  then (ra_Query out)\<lparr>qs_ActorID := (case ax_VerifiedActor ctx of None \<Rightarrow> 0 | Some a \<Rightarrow> a)\<rparr>
                  else ra_Query out)
             in (withRefresh (WithQueryScope ctx operation q) r point operation True, None))))"

definition PrepareSelf ::
  "world \<Rightarrow> auth_ctx \<Rightarrow> nat option \<Rightarrow> string \<Rightarrow> string \<Rightarrow> auth_ctx \<times> auth_error option" where
  "PrepareSelf w ctx resolver point operation = (case resolver of
     None \<Rightarrow> (ctx, checkLegacy ctx)
   | Some r \<Rightarrow> (case rs_ResolveActor (w r) of
       None \<Rightarrow> (ctx, Some ErrDenied)
     | Some resolve \<Rightarrow> (case resolve point (ax_Credential ctx) of
         Inl e \<Rightarrow> (ctx, Some e)
       | Inr (a, mode) \<Rightarrow>
           if mode = ''legacy'' then (ctx, checkLegacy ctx)
           else if mode \<noteq> ''iam'' \<or> ac_UserID a \<le> 0 then (ctx, Some ErrDenied)
           else (withSelfRefresh (WithQueryScope ctx operation (self_query a)) r point operation, None))))"

definition Require :: "gotime \<Rightarrow> auth_ctx \<Rightarrow> string \<Rightarrow> object_facts \<Rightarrow> auth_error option" where
  "Require now ctx operation ob = (case ax_Queries ctx operation of
     None \<Rightarrow> None
   | Some q \<Rightarrow>
       if qs_ValidUntil q \<noteq> 0 \<and> \<not> now < qs_ValidUntil q then Some ErrDenied
       else case Lookup operation of
         None \<Rightarrow> Some ErrDenied
       | Some opn \<Rightarrow> if \<not> query_Matches q ob (op_WholeObject opn) then Some ErrDenied else None)"

subsection \<open>Refresh\<close>

text \<open>The fresh answer for one recorded request: the mode and the query scope.\<close>

definition ask :: "resolver \<Rightarrow> refresh_request \<Rightarrow> string \<Rightarrow> string \<Rightarrow> auth_error + (string \<times> query_scope)" where
  "ask rs rq key cred =
     (if rr_self rq then
        (case rs_ResolveActor rs of
           None \<Rightarrow> Inl ErrDenied
         | Some resolve \<Rightarrow> (case resolve (rr_point rq) cred of
             Inl e \<Rightarrow> Inl e | Inr (a, mode) \<Rightarrow> Inr (mode, self_query a)))
      else if rr_optional rq then
        (case rs_OptionalQuery rs of
           None \<Rightarrow> Inl ErrDenied
         | Some optional \<Rightarrow> (case optional (rr_point rq) key cred of
             Inl e \<Rightarrow> Inl e | Inr out \<Rightarrow> Inr (ra_Mode out, ra_Query out)))
      else (case rs_Query rs (rr_point rq) key cred of
             Inl e \<Rightarrow> Inl e | Inr out \<Rightarrow> Inr (ra_Mode out, ra_Query out)))"

definition refreshed_query :: "refresh_request \<Rightarrow> query_scope \<Rightarrow> query_scope \<Rightarrow> query_scope" where
  "refreshed_query rq previous q =
     (if rr_optional rq \<and> qs_ActorID q = 0 then q\<lparr>qs_ActorID := qs_ActorID previous\<rparr> else q)"

fun refreshKeys ::
  "world \<Rightarrow> (string \<times> refresh_request) list \<Rightarrow> string list \<Rightarrow> auth_ctx \<Rightarrow> auth_ctx \<times> auth_error option" where
  "refreshKeys w requests [] ctx = (ctx, None)"
| "refreshKeys w requests (key # keys) ctx =
     (case (map_of requests key, ax_Queries ctx key) of
        (Some rq, Some previous) \<Rightarrow>
          if qs_ActorID previous \<le> 0 then (ctx, Some ErrDenied)
          else (case ask (w (rr_resolver rq)) rq key (ax_Credential ctx) of
            Inl e \<Rightarrow> (ctx, Some e)
          | Inr (mode, q0) \<Rightarrow>
              if mode \<noteq> ''iam'' then (ctx, Some ErrDenied)
              else let q = refreshed_query rq previous q0 in
                if qs_ActorID q \<noteq> qs_ActorID previous \<or> (\<not> rr_optional rq \<and> qs_Allow q = [])
                then (ctx, Some ErrDenied)
                else refreshKeys w requests keys (WithQueryScope ctx key q))
      | _ \<Rightarrow> (ctx, Some ErrDenied))"

definition Refresh :: "world \<Rightarrow> auth_ctx \<Rightarrow> auth_ctx \<times> auth_error option" where
  "Refresh w ctx = refreshKeys w (ax_Refresh ctx) (sort (map fst (ax_Refresh ctx))) ctx"

subsection \<open>Lemmas on refreshing\<close>

lemma WithQueryScope_simps [simp]:
  "ax_Queries (WithQueryScope ctx k q) = (ax_Queries ctx)(k \<mapsto> q)"
  "ax_Credential (WithQueryScope ctx k q) = ax_Credential ctx"
  "ax_Refresh (WithQueryScope ctx k q) = ax_Refresh ctx"
  "ax_LegacyAllowed (WithQueryScope ctx k q) = ax_LegacyAllowed ctx"
  by (simp_all add: WithQueryScope_def Let_def)

text \<open>What a key must satisfy to survive a refresh.\<close>

definition key_refreshed ::
  "world \<Rightarrow> string \<Rightarrow> (string \<times> refresh_request) list \<Rightarrow> query_scope option \<Rightarrow> query_scope option \<Rightarrow> string \<Rightarrow> bool" where
  "key_refreshed w cred requests old new key \<longleftrightarrow>
     (\<exists>rq previous q0. map_of requests key = Some rq \<and> old = Some previous \<and> qs_ActorID previous > 0
        \<and> ask (w (rr_resolver rq)) rq key cred = Inr (''iam'', q0)
        \<and> new = Some (refreshed_query rq previous q0)
        \<and> qs_ActorID (refreshed_query rq previous q0) = qs_ActorID previous
        \<and> (rr_optional rq \<or> qs_Allow q0 \<noteq> []))"

lemma refreshed_query_Allow [simp]: "qs_Allow (refreshed_query rq p q) = qs_Allow q"
  by (simp add: refreshed_query_def)

lemma refreshKeys_step:
  assumes "refreshKeys w requests (key # keys) ctx = (ctx', None)"
  obtains rq previous q0 where "map_of requests key = Some rq" "ax_Queries ctx key = Some previous"
    "qs_ActorID previous > 0" "ask (w (rr_resolver rq)) rq key (ax_Credential ctx) = Inr (''iam'', q0)"
    "qs_ActorID (refreshed_query rq previous q0) = qs_ActorID previous"
    "rr_optional rq \<or> qs_Allow q0 \<noteq> []"
    "refreshKeys w requests keys (WithQueryScope ctx key (refreshed_query rq previous q0)) = (ctx', None)"
proof -
  from assms obtain rq previous where "map_of requests key = Some rq" "ax_Queries ctx key = Some previous"
    by (auto split: option.splits)
  with assms that show ?thesis
    by (auto simp: Let_def split: sum.splits if_splits prod.splits)
qed

lemma refreshKeys_frame:
  "refreshKeys w requests keys ctx = (ctx', None) \<Longrightarrow> k \<notin> set keys \<Longrightarrow>
   ax_Queries ctx' k = ax_Queries ctx k"
proof (induction keys arbitrary: ctx)
  case Nil
  then show ?case by simp
next
  case (Cons key keys)
  from Cons.prems(1) obtain rq previous q0 where
    "refreshKeys w requests keys (WithQueryScope ctx key (refreshed_query rq previous q0)) = (ctx', None)"
    by (rule refreshKeys_step)
  from Cons.IH [OF this] Cons.prems(2) show ?case by simp
qed

lemma refreshKeys_refreshed:
  "refreshKeys w requests keys ctx = (ctx', None) \<Longrightarrow> distinct keys \<Longrightarrow> key \<in> set keys \<Longrightarrow>
   key_refreshed w (ax_Credential ctx) requests (ax_Queries ctx key) (ax_Queries ctx' key) key"
proof (induction keys arbitrary: ctx)
  case Nil
  then show ?case by simp
next
  case (Cons k keys)
  from Cons.prems(1) obtain rq previous q0 where s: "map_of requests k = Some rq"
    "ax_Queries ctx k = Some previous" "qs_ActorID previous > 0"
    "ask (w (rr_resolver rq)) rq k (ax_Credential ctx) = Inr (''iam'', q0)"
    "qs_ActorID (refreshed_query rq previous q0) = qs_ActorID previous"
    "rr_optional rq \<or> qs_Allow q0 \<noteq> []"
    "refreshKeys w requests keys (WithQueryScope ctx k (refreshed_query rq previous q0)) = (ctx', None)"
    by (rule refreshKeys_step)
  show ?case
  proof (cases "key = k")
    case True
    with refreshKeys_frame [OF s(7), of k] Cons.prems(2) s show ?thesis
      by (simp add: key_refreshed_def)
  next
    case False
    with Cons.prems have "key \<in> set keys" "distinct keys" by simp_all
    from Cons.IH [OF s(7) this(2) this(1)] False show ?thesis by simp
  qed
qed

subsection \<open>The cutover gate\<close>

record policy_state =
  ps_Mode :: string
  ps_Cutover :: string
  ps_BatchID :: string
  ps_VerifiedAt :: "gotime option"
  ps_PolicyRevision :: nat
  ps_CatalogRevision :: nat

datatype write_kind = LegacyAccountWrite | IAMManagementWrite | CandidateWrite | MigrationWrite
  | BootstrapWrite | OtherWrite string

definition state_Validate :: "policy_state \<Rightarrow> auth_error option" where
  "state_Validate s =
     (let valid = (ps_Mode s = ''legacy'' \<and> (ps_Cutover s = ''idle'' \<or> ps_Cutover s = ''blocked''))
        \<or> (ps_Mode s = ''iam'' \<and> (ps_Cutover s = ''verified'' \<or> ps_Cutover s = ''complete''))
      in if \<not> valid \<or> (ps_Cutover s \<noteq> ''idle'' \<and> ps_BatchID s = [])
           \<or> (ps_Mode s = ''iam'' \<and> (case ps_VerifiedAt s of None \<Rightarrow> True | Some t \<Rightarrow> t = 0)) then Some ErrCutover
         else if (ps_Cutover s = ''idle'' \<and> ps_BatchID s \<noteq> [])
           \<or> (ps_Mode s = ''legacy'' \<and> ps_VerifiedAt s \<noteq> None) then Some ErrCutover
         else None)"

definition kind_admitted :: "policy_state \<Rightarrow> write_kind \<Rightarrow> bool \<Rightarrow> bool" where
  "kind_admitted s kind migrationIdentity = (case kind of
     LegacyAccountWrite \<Rightarrow> ps_Mode s = ''legacy'' \<and> ps_Cutover s = ''idle''
   | IAMManagementWrite \<Rightarrow> ps_Mode s = ''iam'' \<and> ps_Cutover s = ''complete''
   | CandidateWrite \<Rightarrow> migrationIdentity \<and> ps_Mode s = ''legacy'' \<and> ps_Cutover s = ''idle''
   | MigrationWrite \<Rightarrow> migrationIdentity \<and> (ps_Cutover s = ''blocked'' \<or> ps_Cutover s = ''verified'')
   | BootstrapWrite \<Rightarrow> ps_Cutover s = ''idle'' \<or> ps_Cutover s = ''complete''
   | OtherWrite _ \<Rightarrow> False)"

definition CheckWrite :: "policy_state \<Rightarrow> write_kind \<Rightarrow> bool \<Rightarrow> auth_error option" where
  "CheckWrite s kind migrationIdentity = (case state_Validate s of
     Some e \<Rightarrow> Some e
   | None \<Rightarrow> if kind_admitted s kind migrationIdentity then None else Some ErrCutover)"

definition ValidateOrigin :: "string \<Rightarrow> string \<Rightarrow> auth_error option" where
  "ValidateOrigin origin batch =
     (if origin = ''legacy_candidate'' then (if batch \<noteq> [] then None else Some ErrCutover)
      else if origin = ''default'' \<or> origin = ''bootstrap'' \<or> origin = ''explicit''
      then (if batch = [] then None else Some ErrCutover)
      else Some ErrCutover)"

lemma CheckWrite_None:
  "CheckWrite s kind m = None \<longleftrightarrow> state_Validate s = None \<and> kind_admitted s kind m"
  by (simp add: CheckWrite_def split: option.splits)

lemma state_Validate_cases:
  "state_Validate s = None \<Longrightarrow>
   (ps_Mode s, ps_Cutover s) \<in> {(''legacy'', ''idle''), (''legacy'', ''blocked''), (''iam'', ''verified''), (''iam'', ''complete'')}"
  by (auto simp: state_Validate_def Let_def split: if_splits)

end
