(* ===== verification/Auth_Contract.thy ===== *)
theory Auth_Contract
  imports Auth_Containment Auth_Enforcer
begin

text \<open>
  What the authorization package promises its callers. The contract of the scope algebra is the
  locale \<open>scope_algebra\<close>: containment is sound for coverage and intersection narrows it. The
  delegation lemmas are proved from the contract alone, and the interpretation discharges it for
  the code's \<open>ScopeContained\<close>, \<open>Intersect\<close> and \<open>AllowCovers\<close>. The rest of the theory holds the
  properties of \<open>Decide\<close>, of the catalogue, of \<open>Prepare\<close>, \<open>Require\<close>, \<open>Refresh\<close> and of the cutover gate.
\<close>

subsection \<open>The scope algebra as an interface\<close>

locale scope_algebra =
  fixes contained :: "'s \<Rightarrow> 's \<Rightarrow> 'u \<Rightarrow> 'u \<Rightarrow> bool"
    and meet :: "'s \<Rightarrow> 's \<Rightarrow> 's"
    and covers :: "'s \<Rightarrow> 'u \<Rightarrow> 'o \<Rightarrow> bool \<Rightarrow> bool"
    and valid :: "'s \<Rightarrow> bool"
  assumes contained_sound: "contained a b u v \<Longrightarrow> covers a u ob w \<Longrightarrow> covers b v ob w"
    and meet_narrows: "valid a \<Longrightarrow> valid b \<Longrightarrow> covers (meet a b) u ob w \<Longrightarrow> covers a u ob w \<and> covers b u ob w"
    and covers_valid: "covers a u ob w \<Longrightarrow> valid a"
    and contained_valid: "contained a b u v \<Longrightarrow> valid a \<and> valid b"
begin

text \<open>A chain of delegations never leaves the scope at its root.\<close>

lemma chain_covers:
  "successively (\<lambda>x y. contained (fst x) (fst y) (snd x) (snd y)) ds \<Longrightarrow> ds \<noteq> [] \<Longrightarrow>
   covers (fst (hd ds)) (snd (hd ds)) ob w \<Longrightarrow> covers (fst (last ds)) (snd (last ds)) ob w"
proof (induction ds rule: induct_list012)
  case (3 x y zs)
  then have "covers (fst y) (snd y) ob w" using contained_sound by auto
  with 3 show ?case by simp
qed simp_all

lemma delegated_within:
  "contained (meet a b) c u v \<Longrightarrow> valid a \<Longrightarrow> valid b \<Longrightarrow> covers (meet a b) u ob w \<Longrightarrow>
   covers a u ob w \<and> covers b u ob w \<and> covers c v ob w"
  using meet_narrows contained_sound by blast

lemma meet_contained:
  "valid x \<Longrightarrow> contained a b u v \<Longrightarrow> covers (meet a x) u ob w \<Longrightarrow> covers b v ob w"
  using meet_narrows contained_sound contained_valid by blast

end

lemma Intersect_covers_iff:
  assumes "scope_ok a" and "scope_ok b" and "w \<or> length (of_RoutingGroupIDs ob) \<le> 1"
  shows "AllowCovers [Intersect a b] u ob w \<longleftrightarrow> AllowCovers [a] u ob w \<and> AllowCovers [b] u ob w"
proof -
  have "of_RoutingGroupIDs ob = [] \<or> (\<exists>g. of_RoutingGroupIDs ob = [g]) \<or> w"
    using assms(3) by (cases "of_RoutingGroupIDs ob") auto
  then show ?thesis
    using assms(1,2) grant_None_Some [of "clauses_of a" u ob] grant_None_Some [of "clauses_of b" u ob]
    by (elim disjE exE) (auto simp: AllowCovers_single Intersect_ok covers_spec_grants
        Intersect_grants [OF assms(1,2)])
qed

lemma Intersect_covers_sub:
  assumes "scope_ok a" and "scope_ok b" and "AllowCovers [Intersect a b] u ob w"
  shows "AllowCovers [a] u ob w \<and> AllowCovers [b] u ob w"
  using assms by (cases w)
    (auto simp: AllowCovers_single Intersect_ok covers_spec_grants Intersect_grants [OF assms(1,2)])

interpretation scopes: scope_algebra ScopeContained Intersect "\<lambda>s. AllowCovers [s]" scope_ok
  by unfold_locales (fact ScopeContained_sound Intersect_covers_sub ScopeContained_ok
      | simp add: AllowCovers_single)+

text \<open>C17. Containment is sound along a delegation chain: when every scope of the chain is contained
  in the next one (each under its own user), an object the first scope covers, for a read or for a
  whole-object write, is covered by the last.\<close>

theorem ScopeContained_chain_sound:
  assumes "successively (\<lambda>x y. ScopeContained (fst x) (fst y) (snd x) (snd y)) ds" and "ds \<noteq> []" and "AllowCovers [fst (hd ds)] (snd (hd ds)) ob w"
  shows "AllowCovers [fst (last ds)] (snd (last ds)) ob w"
  using assms by (rule scopes.chain_covers)

definition self_scope :: scope where
  "self_scope = \<lparr>sc_Clauses = Some [\<lparr>cl_All = False, cl_Self = True, cl_UserIDs = [],
     cl_ResourceIDs = [], cl_RoutingGroupIDs = []\<rparr>]\<rparr>"

definition users_scope :: "int64 list \<Rightarrow> scope" where
  "users_scope ids = \<lparr>sc_Clauses = Some [\<lparr>cl_All = False, cl_Self = False, cl_UserIDs = ids,
     cl_ResourceIDs = [], cl_RoutingGroupIDs = []\<rparr>]\<rparr>"

definition groups_scope :: "int64 list \<Rightarrow> scope" where
  "groups_scope ids = \<lparr>sc_Clauses = Some [\<lparr>cl_All = False, cl_Self = False, cl_UserIDs = [],
     cl_ResourceIDs = [], cl_RoutingGroupIDs = ids\<rparr>]\<rparr>"

definition facts :: "int64 \<Rightarrow> int64 \<Rightarrow> int64 list \<Rightarrow> object_facts" where
  "facts rid own gs = \<lparr>of_Context = Platform, of_ResourceID = rid, of_OwnerUserID = own, of_RoutingGroupIDs = gs\<rparr>"

lemma ScopeContained_chain_sound_witness:
  "ScopeContained self_scope (users_scope [7, 8]) 7 1
   \<and> ScopeContained (users_scope [7, 8]) (users_scope [9, 8, 7]) 1 2
   \<and> AllowCovers [self_scope] 7 (facts 4 7 [3]) True
   \<and> AllowCovers [users_scope [9, 8, 7]] 2 (facts 4 7 [3]) True
   \<and> \<not> ScopeContained (users_scope [9, 7]) (users_scope [7, 8]) 1 1"
proof -
  let ?ds = "[(self_scope, 7), (users_scope [7, 8], 1), (users_scope [9, 8, 7], 2)]"
  have c: "ScopeContained self_scope (users_scope [7, 8]) 7 1"
    "ScopeContained (users_scope [7, 8]) (users_scope [9, 8, 7]) 1 2"
    "\<not> ScopeContained (users_scope [9, 7]) (users_scope [7, 8]) 1 1"
    by code_simp+
  have a: "AllowCovers [self_scope] 7 (facts 4 7 [3]) True" by code_simp
  from ScopeContained_chain_sound [of ?ds "facts 4 7 [3]" True] c a
  have "AllowCovers [users_scope [9, 8, 7]] 2 (facts 4 7 [3]) True" by simp
  with a c show ?thesis by blast
qed

text \<open>C11. The boundary of an assignment narrows a role: what the intersection of two valid scopes covers,
  both scopes cover, and for a whole-object operation, or an object in at most one routing group, the
  intersection covers it precisely when both do. For a read of an object in several groups it may cover
  less, since the two scopes can each admit it through another group.\<close>

theorem Intersect_exact:
  assumes "scope_ok a" and "scope_ok b"
  shows "(AllowCovers [Intersect a b] u ob w \<longrightarrow> AllowCovers [a] u ob w \<and> AllowCovers [b] u ob w)
   \<and> (w \<or> length (of_RoutingGroupIDs ob) \<le> 1 \<longrightarrow>
        AllowCovers [Intersect a b] u ob w = (AllowCovers [a] u ob w \<and> AllowCovers [b] u ob w))"
  using Intersect_covers_iff [OF assms] Intersect_covers_sub [OF assms] by blast

lemma Intersect_exact_witness:
  "AllowCovers [Intersect (groups_scope [1, 2, 3]) (groups_scope [3, 2])] 5 (facts 4 7 [2, 3]) True
   \<and> \<not> AllowCovers [Intersect (groups_scope [1, 2, 3]) (groups_scope [3, 2])] 5 (facts 4 7 [1, 2]) True"
proof -
  let ?a = "groups_scope [1, 2, 3]" and ?b = "groups_scope [3, 2]"
  have ok: "scope_ok ?a" "scope_ok ?b" by code_simp+
  have "AllowCovers [?a] 5 (facts 4 7 [2, 3]) True" "AllowCovers [?b] 5 (facts 4 7 [2, 3]) True"
    "\<not> AllowCovers [?b] 5 (facts 4 7 [1, 2]) True" by code_simp+
  with Intersect_exact [OF ok, of 5 "facts 4 7 [2, 3]" True]
    Intersect_exact [OF ok, of 5 "facts 4 7 [1, 2]" True] show ?thesis by simp
qed

text \<open>The condition of the equivalence is needed: a read of an object in groups 1 and 2.\<close>

lemma Intersect_read_of_two_groups:
  "AllowCovers [groups_scope [1]] 5 (facts 4 7 [1, 2]) False \<and> AllowCovers [groups_scope [2]] 5 (facts 4 7 [1, 2]) False
   \<and> \<not> AllowCovers [Intersect (groups_scope [1]) (groups_scope [2])] 5 (facts 4 7 [1, 2]) False"
  by (intro conjI) code_simp+

subsection \<open>Decide\<close>

lemma collect_denies_mono:
  "collectSources cx opn now ss co = Inr co' \<Longrightarrow> set (co_Denies co) \<subseteq> set (co_Denies co')"
proof (induction ss arbitrary: co)
  case Nil
  then show ?case by simp
next
  case (Cons s ss)
  then show ?case by (fastforce simp: Let_def split: if_splits)
qed

lemma collect_denies:
  "collectSources cx opn now ss co = Inr co' \<Longrightarrow> s \<in> set ss \<Longrightarrow> gs_Context s = cx \<Longrightarrow>
   gs_Operation s = op_Code opn \<Longrightarrow> gs_Effect s = ''deny'' \<Longrightarrow> interval_Contains (gs_Validity s) now \<Longrightarrow>
   gs_RoleScope s \<in> set (co_Denies co')"
proof (induction ss arbitrary: co)
  case Nil
  then show ?case by simp
next
  case (Cons t ss)
  show ?case
  proof (cases "s = t")
    case True
    with Cons.prems show ?thesis
      by (auto simp: Let_def split: if_splits dest!: collect_denies_mono)
  next
    case False
    with Cons.prems have "s \<in> set ss" by simp
    with Cons show ?thesis by (auto simp: Let_def split: if_splits)
  qed
qed

lemma DenyMatches_mem:
  assumes "s \<in> set scopes" and "AllowCovers [s] u ob False"
  shows "DenyMatches scopes u ob"
proof (cases "list_ex (\<lambda>s. scope_Validate s all_kinds \<noteq> None) scopes")
  case True
  then show ?thesis by (simp add: DenyMatches_def)
next
  case False
  have "covers_spec (concat (map clauses_of scopes)) u ob False"
    using assms(2) covers_spec_mono [of "clauses_of s" u ob "concat (map clauses_of scopes)" u False] assms(1)
    by (fastforce simp: AllowCovers_single covers_spec_grants clauses_grant_def)
  with False show ?thesis by (simp add: DenyMatches_def AllowCovers_iff list_ex_iff)
qed

text \<open>C3. A decision is stable until its deadline: if \<open>Decide\<close> answers with \<open>ValidUntil = u\<close>, then at
  every later instant before \<open>u\<close>, with the same facts, it gives the very same decision. A grant that
  starts or expires in between always pulls the deadline forward.\<close>

theorem Decide_stable_until:
  assumes "dc_ValidUntil (Decide i) = Some u" and "0 < in_Now i" and "in_Now i \<le> now'" and "now' < u"
  shows "Decide (i\<lparr>in_Now := now'\<rparr>) = Decide i"
proof -
  from assms(1) obtain opn where g: "decide_guards i opn"
    using Decide_unguarded [of i] by fastforce
  let ?start = "start_collect (ac_ExpiresAt (in_Actor i))"
  from assms(1) Decide_guarded [OF g] obtain co
    where co: "collectSources Platform opn (in_Now i) (in_Sources i) ?start = Inr co"
      and u: "u = co_Until co"
    by (auto simp: denied_def decide_collected_until split: sum.splits)
  have exp: "now' < ac_ExpiresAt (in_Actor i)"
    using collect_until_le [OF co] assms(4) u by (simp add: start_collect_def)
  have "decide_guards (i\<lparr>in_Now := now'\<rparr>) opn"
    using g exp assms(2,3) by (simp add: decide_guards_def identity_ok_def)
  from Decide_guarded [OF this] Decide_guarded [OF g] co collect_stable [OF assms(3) co] assms(4) u
  show ?thesis by (simp add: decide_collected_def denied_def Let_def)
qed

definition demo_operation :: operation where
  "demo_operation = (entry_operation ''identity.user'' ''identity'' scopes_userGroups ''read'')\<lparr>op_Binding := ''bound''\<rparr>"

definition no_versions :: versions where
  "no_versions = \<lparr>vs_User = 0, vs_Policy = 0, vs_Catalog = 0, vs_Session = 0, vs_SessionContext = 0,
     vs_Organization = 0, vs_Membership = 0, vs_Unit = 0\<rparr>"

definition demo_source :: "string \<Rightarrow> scope \<Rightarrow> int \<Rightarrow> int option \<Rightarrow> grant_source" where
  "demo_source effect s st en = \<lparr>gs_Context = Platform, gs_Operation = ''identity.user.read'', gs_Effect = effect,
     gs_AssignmentID = 1, gs_RoleID = 2, gs_InheritancePath = [], gs_RoleScope = s,
     gs_AssignmentBoundary = groups_scope [4], gs_Validity = \<lparr>iv_StartsAt = st, iv_ExpiresAt = en\<rparr>,
     gs_Active = True\<rparr>"

definition demo_actor :: actor where
  "demo_actor = \<lparr>ac_UserID = 7, ac_ServiceID = [], ac_SessionID = ''s'', ac_PasswordEpoch = 0, ac_ExpiresAt = 900\<rparr>"

definition demo_input :: "grant_source list \<Rightarrow> int \<Rightarrow> decide_input" where
  "demo_input ss now = \<lparr>in_Actor = demo_actor, in_Context = Platform, in_Operation = demo_operation,
     in_Object = facts 3 7 [4], in_Sources = ss, in_Versions = no_versions, in_Now = now,
     in_IdentityValid = True, in_SessionValid = True, in_ConstraintsPass = True,
     in_BusinessRulesPass = True, in_OperationEnabled = True\<rparr>"

lemma Lookup_demo:
  "Lookup ''identity.user.read'' = Some (entry_operation ''identity.user'' ''identity'' scopes_userGroups ''read'')"
  unfolding Lookup_find by (simp add: registry_operations_def registry_table_def)

lemma Lookup_demo_code: "Lookup (op_Code demo_operation) = Lookup ''identity.user.read''"
  by (simp add: demo_operation_def)

definition demo_opn :: operation where
  "demo_opn = entry_operation ''identity.user'' ''identity'' scopes_userGroups ''read''"

lemma demo_guards: "0 < now \<Longrightarrow> now < 900 \<Longrightarrow> decide_guards (demo_input ss now) demo_opn"
proof -
  assume "0 < now" and "now < 900"
  moreover have "op_Binding demo_operation = ''bound''" by code_simp
  moreover have "''platform'' \<in> set (op_ContextTypes demo_opn)" by code_simp
  ultimately show ?thesis
    by (simp add: decide_guards_def identity_ok_def demo_input_def demo_actor_def Lookup_demo_code
        Lookup_demo demo_opn_def facts_def object_ids_ok_def)
qed

lemma demo_Decide:
  "0 < now \<Longrightarrow> now < 900 \<Longrightarrow> Decide (demo_input ss now) =
     (case collectSources Platform demo_opn now ss (start_collect 900) of
        Inl srcs \<Rightarrow> (denied (demo_input ss now) ''SCOPE_INVALID'')\<lparr>dc_Sources := srcs\<rparr>
      | Inr co \<Rightarrow> decide_collected (demo_input ss now) demo_opn co)"
  using Decide_guarded [OF demo_guards, of now ss] by (simp add: demo_input_def demo_actor_def)

lemma demo_Decide_allowed:
  assumes "case collectSources Platform demo_opn now ss (start_collect 900) of
      Inl _ \<Rightarrow> False | Inr co \<Rightarrow> co_Until co = u \<and> dc_Allowed (decide_collected (demo_input ss now) demo_opn co)"
    and "0 < now" and "now < 900"
  shows "dc_ValidUntil (Decide (demo_input ss now)) = Some u" "dc_Allowed (Decide (demo_input ss now))"
  using assms(1) demo_Decide [OF assms(2,3), of ss] by (auto simp: decide_collected_until split: sum.splits)

lemma Decide_stable_until_witness:
  "dc_ValidUntil (Decide (demo_input [demo_source ''allow'' (users_scope [7]) 10 (Some 500),
       demo_source ''deny'' self_scope 300 None] 20)) = Some 300
   \<and> dc_Allowed (Decide (demo_input [demo_source ''allow'' (users_scope [7]) 10 (Some 500),
       demo_source ''deny'' self_scope 300 None] 299))"
proof -
  let ?ss = "[demo_source ''allow'' (users_scope [7]) 10 (Some 500), demo_source ''deny'' self_scope 300 None]"
  let ?i = "demo_input ?ss 20"
  have "(case collectSources Platform demo_opn 20 ?ss (start_collect 900) of
      Inl _ \<Rightarrow> False | Inr co \<Rightarrow> co_Until co = 300 \<and> dc_Allowed (decide_collected ?i demo_opn co))"
    by code_simp
  from demo_Decide_allowed [OF this]
  have d: "dc_ValidUntil (Decide ?i) = Some 300" "dc_Allowed (Decide ?i)" by simp_all
  have "?i\<lparr>in_Now := 299\<rparr> = demo_input ?ss 299" by (simp add: demo_input_def)
  moreover have "in_Now ?i = 20" by (simp add: demo_input_def)
  ultimately show ?thesis using Decide_stable_until [OF d(1), of 299] d by simp
qed

text \<open>Deny overrides allow: whenever \<open>Decide\<close> allows, no deny source for the operation that is
  valid at the decision time covers the object for reading, whatever the allow sources say.\<close>

theorem Decide_deny_overrides:
  assumes "s \<in> set (in_Sources i)" and "gs_Context s = Platform"
    and "gs_Operation s = op_Code (in_Operation i)" and "gs_Effect s = ''deny''"
    and "interval_Contains (gs_Validity s) (in_Now i)"
    and "AllowCovers [gs_RoleScope s] (ac_UserID (in_Actor i)) (in_Object i) False"
  shows "\<not> dc_Allowed (Decide i)"
proof (cases "\<exists>opn. decide_guards i opn")
  case False
  then show ?thesis using Decide_unguarded by blast
next
  case True
  then obtain opn where g: "decide_guards i opn" by blast
  then have "op_Code opn = op_Code (in_Operation i)"
    by (auto simp: decide_guards_def dest: Lookup_code)
  with assms have deny: "DenyMatches (co_Denies co) (ac_UserID (in_Actor i)) (in_Object i)"
    if "collectSources Platform opn (in_Now i) (in_Sources i) st = Inr co" for st co
    using collect_denies [OF that assms(1)] DenyMatches_mem by simp
  then show ?thesis
    by (auto simp: Decide_guarded [OF g] denied_def decide_collected_Allowed split: sum.splits)
qed

lemma Decide_deny_overrides_witness:
  "\<not> dc_Allowed (Decide (demo_input [demo_source ''allow'' (users_scope [7]) 10 None,
       demo_source ''deny'' self_scope 15 None] 20))"
proof -
  let ?d = "demo_source ''deny'' self_scope 15 None"
  let ?i = "demo_input [demo_source ''allow'' (users_scope [7]) 10 None, ?d] 20"
  have "AllowCovers [self_scope] 7 (facts 3 7 [4]) False" by code_simp
  moreover have "op_Code demo_operation = ''identity.user.read''" by code_simp
  moreover have "interval_Contains (gs_Validity ?d) 20" by code_simp
  ultimately show ?thesis
    using Decide_deny_overrides [of ?d ?i]
    by (simp add: demo_input_def demo_source_def demo_actor_def)
qed

text \<open>C18. The decision made for one object and the query scope used to filter lists agree: \<open>Decide\<close>
  allows exactly when its guards pass, the query scope built from the same sources exists and
  matches the object, and the business rules pass.\<close>

theorem Decide_iff_query:
  "dc_Allowed (Decide i) \<longleftrightarrow>
     (\<exists>opn q. decide_guards i opn
        \<and> QueryFromSources (in_Actor i) opn (in_Sources i) (in_Now i) (in_Versions i) = Inr q
        \<and> query_Matches q (in_Object i) (op_WholeObject opn) \<and> in_BusinessRulesPass i)"
proof (cases "\<exists>opn. decide_guards i opn")
  case False
  then show ?thesis using Decide_unguarded by blast
next
  case True
  then obtain opn where g: "decide_guards i opn" by blast
  have uniq: "decide_guards i opn' \<longleftrightarrow> opn' = opn" for opn'
    using g by (auto simp: decide_guards_def)
  have guards: "\<not> ac_UserID (in_Actor i) \<le> 0" "in_Now i \<noteq> 0" "in_Now i < ac_ExpiresAt (in_Actor i)"
    "of_Context (in_Object i) = Platform" "object_ids_ok (in_Object i)"
    using g by (simp_all add: decide_guards_def identity_ok_def)
  show ?thesis
    unfolding uniq Decide_guarded [OF g] start_collect_def
    using guards
    by (simp add: QueryFromSources_def querySources_collect [where src = "[]"] query_Matches_def
        decide_collected_Allowed denied_def split: sum.splits)
qed

subsection \<open>The catalogue\<close>

lemma Lookup_map_codes:
  "set codes \<subseteq> op_Code ` set registry_operations \<Longrightarrow>
   map op_Code (concat (map (\<lambda>code. case Lookup code of None \<Rightarrow> [] | Some opn \<Rightarrow> [opn]) codes)) = codes"
proof (induction codes)
  case Nil
  then show ?case by simp
next
  case (Cons c codes)
  then obtain opn where "Lookup c = Some opn" "op_Code opn = c"
    using Lookup_Some [of c] by auto
  with Cons show ?case by simp
qed

lemma Catalog_set: "set Catalog = set registry_operations"
proof -
  have "set Catalog = (\<Union>opn \<in> set registry_operations.
      set (case Lookup (op_Code opn) of None \<Rightarrow> [] | Some o' \<Rightarrow> [o']))"
    by (simp add: Catalog_def del: set_concat) (simp add: image_image)
  also have "\<dots> = (\<Union>opn \<in> set registry_operations. {opn})"
  proof (intro SUP_cong refl)
    fix opn assume "opn \<in> set registry_operations"
    then have "Lookup (op_Code opn) = Some opn" by (simp add: Lookup_Some)
    then show "set (case Lookup (op_Code opn) of None \<Rightarrow> [] | Some o' \<Rightarrow> [o']) = {opn}" by simp
  qed
  finally show ?thesis by simp
qed

text \<open>The catalogue is well formed: the expansion of the operation table meets no duplicate code
  (so the package does not panic when it is loaded), looking a code up finds exactly the operation
  declared with it, and \<open>Catalog\<close> lists every operation once in the order of its code.\<close>

theorem registry_well_formed:
  "(\<exists>reg. build_registry registry_operations [] = Some reg)
   \<and> (Lookup code = Some opn \<longleftrightarrow> opn \<in> set registry_operations \<and> op_Code opn = code)
   \<and> map op_Code Catalog = sort (map op_Code registry_operations)
   \<and> set Catalog = set registry_operations"
proof (intro conjI)
  show "map op_Code Catalog = sort (map op_Code registry_operations)"
    unfolding Catalog_def Let_def by (rule Lookup_map_codes) simp
qed (simp_all add: build_registry_ok Lookup_Some Catalog_set)

subsection \<open>Enforcement\<close>

lemma refreshKeys_ok_iff:
  assumes "distinct keys"
  shows "snd (refreshKeys w requests keys ctx) = None \<longleftrightarrow>
    (\<forall>key \<in> set keys. \<exists>new. key_refreshed w (ax_Credential ctx) requests (ax_Queries ctx key) new key)"
  using assms
proof (induction keys arbitrary: ctx)
  case Nil
  then show ?case by simp
next
  case (Cons k keys)
  have other: "key \<in> set keys \<Longrightarrow> key \<noteq> k" for key using Cons.prems by auto
  have IH: "snd (refreshKeys w requests keys (WithQueryScope ctx k q)) = None \<longleftrightarrow>
      (\<forall>key \<in> set keys. \<exists>new. key_refreshed w (ax_Credential ctx) requests (ax_Queries ctx key) new key)" for q
    using Cons.IH [of "WithQueryScope ctx k q"] Cons.prems other by (simp cong: ball_cong)
  show ?case
    by (auto simp: key_refreshed_def [of w "ax_Credential ctx" requests "ax_Queries ctx k" _ k] IH Let_def
        split: option.splits sum.splits if_splits)
qed

text \<open>\<open>Refresh\<close> succeeds exactly when every recorded request, asked again in the current world,
  is still answered under IAM for the same actor with something allowed (optional requests aside);
  then every recorded query scope is replaced by the fresh answer and no other one is touched.\<close>

theorem Refresh_all_or_error:
  assumes "distinct (map fst (ax_Refresh ctx))" and "Refresh w ctx = (ctx', err)"
  shows "(err = None \<longleftrightarrow> (\<forall>key \<in> fst ` set (ax_Refresh ctx).
            \<exists>new. key_refreshed w (ax_Credential ctx) (ax_Refresh ctx) (ax_Queries ctx key) new key))
    \<and> (err = None \<longrightarrow>
        (\<forall>key. if key \<in> fst ` set (ax_Refresh ctx)
           then key_refreshed w (ax_Credential ctx) (ax_Refresh ctx) (ax_Queries ctx key) (ax_Queries ctx' key) key
           else ax_Queries ctx' key = ax_Queries ctx key))"
proof -
  let ?keys = "sort (map fst (ax_Refresh ctx))"
  have d: "distinct ?keys" and k: "set ?keys = fst ` set (ax_Refresh ctx)" using assms(1) by simp_all
  have r: "refreshKeys w (ax_Refresh ctx) ?keys ctx = (ctx', err)"
    using assms(2) by (simp add: Refresh_def)
  show ?thesis
    using refreshKeys_ok_iff [OF d, of w "ax_Refresh ctx" ctx] r
      refreshKeys_refreshed [of w "ax_Refresh ctx" ?keys ctx ctx'] d
      refreshKeys_frame [of w "ax_Refresh ctx" ?keys ctx ctx']
    unfolding k by auto
qed

definition demo_query :: "int64 \<Rightarrow> scope list \<Rightarrow> query_scope" where
  "demo_query a al = \<lparr>qs_ActorID = a, qs_Allow = al, qs_Deny = [], qs_Versions = no_versions, qs_ValidUntil = 0\<rparr>"

definition demo_world :: "string \<Rightarrow> int64 \<Rightarrow> scope list \<Rightarrow> world" where
  "demo_world mode a al r = \<lparr>rs_Query = (\<lambda>point opn cred. Inr \<lparr>ra_Mode = mode, ra_Query = demo_query a al\<rparr>),
     rs_OptionalQuery = None, rs_ResolveActor = None\<rparr>"

definition empty_ctx :: auth_ctx where
  "empty_ctx = \<lparr>ax_Queries = Map.empty, ax_VerifiedActor = None, ax_LegacyAllowed = None,
     ax_Credential = ''token'', ax_Refresh = []\<rparr>"

definition prepared_ctx :: auth_ctx where
  "prepared_ctx = fst (Prepare (demo_world ''iam'' 7 [self_scope]) empty_ctx (Some 0) ''p'' ''identity.user.read'')"

lemma prepared_keys: "ax_Refresh prepared_ctx = [(''identity.user.read'', \<lparr>rr_resolver = 0, rr_point = ''p'',
     rr_operation = ''identity.user.read'', rr_optional = False, rr_self = False\<rparr>)]"
  by (simp add: prepared_ctx_def Prepare_def demo_world_def empty_ctx_def withRefresh_def demo_query_def)

lemma prepared_query: "ax_Queries prepared_ctx ''identity.user.read'' = Some (demo_query 7 [self_scope])"
  "ax_Credential prepared_ctx = ''token''"
  by (simp_all add: prepared_ctx_def Prepare_def demo_world_def empty_ctx_def withRefresh_def demo_query_def)

lemma Refresh_all_or_error_witness:
  "snd (Refresh (demo_world ''iam'' 7 [users_scope [9]]) prepared_ctx) = None
   \<and> ax_Queries (fst (Refresh (demo_world ''iam'' 7 [users_scope [9]]) prepared_ctx)) ''identity.user.read''
       = Some (demo_query 7 [users_scope [9]])
   \<and> snd (Refresh (demo_world ''iam'' 8 [users_scope [9]]) prepared_ctx) \<noteq> None"
proof -
  let ?w = "\<lambda>a. demo_world ''iam'' a [users_scope [9]]"
  have d: "distinct (map fst (ax_Refresh prepared_ctx))" by (simp add: prepared_keys)
  have ok: "key_refreshed (?w 7) ''token'' (ax_Refresh prepared_ctx) (Some (demo_query 7 [self_scope])) new
      ''identity.user.read'' \<longleftrightarrow> new = Some (demo_query 7 [users_scope [9]])" for new
    by (simp add: key_refreshed_def prepared_keys ask_def demo_world_def refreshed_query_def) (auto simp: demo_query_def)
  have bad: "\<not> key_refreshed (?w 8) ''token'' (ax_Refresh prepared_ctx) (Some (demo_query 7 [self_scope])) new
      ''identity.user.read''" for new
    by (simp add: key_refreshed_def prepared_keys ask_def demo_world_def refreshed_query_def) (simp add: demo_query_def)
  have key: "fst ` set (ax_Refresh prepared_ctx) = {''identity.user.read''}"
    by (simp add: prepared_keys)
  note r = Refresh_all_or_error [OF d prod.collapse [symmetric], unfolded key ball_simps]
  note r7 = r [of "?w 7", unfolded prepared_query]
  from r7 ok have n: "snd (Refresh (?w 7) prepared_ctx) = None" by (simp add: prepared_query)
  with r7 have "key_refreshed (?w 7) ''token'' (ax_Refresh prepared_ctx) (ax_Queries prepared_ctx ''identity.user.read'')
      (ax_Queries (fst (Refresh (?w 7) prepared_ctx)) ''identity.user.read'') ''identity.user.read''"
    by (metis singletonI)
  then have "ax_Queries (fst (Refresh (?w 7) prepared_ctx)) ''identity.user.read'' = Some (demo_query 7 [users_scope [9]])"
    unfolding prepared_query ok .
  moreover from r [of "?w 8", unfolded prepared_query] bad have "snd (Refresh (?w 8) prepared_ctx) \<noteq> None"
    by (simp add: prepared_query)
  ultimately show ?thesis using n by blast
qed

text \<open>\<open>Prepare\<close> fails closed and \<open>Require\<close> enforces what it recorded: under an IAM answer
  \<open>Prepare\<close> accepts exactly when the answer names an actor and allows something, an error leaves the
  context as it was, and after acceptance \<open>Require\<close> admits an object exactly when the recorded
  query is still valid, the operation is registered and the query matches the object; the other
  operations of the context are judged as before.\<close>

theorem Prepare_Require:
  assumes "rs_Query (w r) point opc (ax_Credential ctx) = Inr out" and "ra_Mode out = ''iam''"
    and "Prepare w ctx (Some r) point opc = (ctx', err)"
  shows "(err = None \<longleftrightarrow> qs_ActorID (ra_Query out) > 0 \<and> qs_Allow (ra_Query out) \<noteq> [])
    \<and> (err \<noteq> None \<longrightarrow> ctx' = ctx)
    \<and> (err = None \<longrightarrow>
        (Require now ctx' opc ob = None \<longleftrightarrow>
           (qs_ValidUntil (ra_Query out) = 0 \<or> now < qs_ValidUntil (ra_Query out))
           \<and> (\<exists>opn. Lookup opc = Some opn \<and> query_Matches (ra_Query out) ob (op_WholeObject opn)))
        \<and> (opc' \<noteq> opc \<longrightarrow> Require now ctx' opc' ob = Require now ctx opc' ob))"
proof -
  let ?q = "ra_Query out"
  have p: "Prepare w ctx (Some r) point opc =
      (if qs_ActorID ?q \<le> 0 \<or> qs_Allow ?q = [] then (ctx, Some ErrDenied)
       else (withRefresh (WithQueryScope ctx opc ?q) r point opc False, None))"
    using assms(1,2) by (simp add: Prepare_def)
  have q: "ax_Queries (withRefresh c r point opc b) = ax_Queries c" for c b
    by (simp add: withRefresh_def)
  show ?thesis
  proof (cases "qs_ActorID ?q \<le> 0 \<or> qs_Allow ?q = []")
    case True
    with assms(3) p show ?thesis by auto
  next
    case False
    with assms(3) p have c: "ctx' = withRefresh (WithQueryScope ctx opc ?q) r point opc False" "err = None"
      by simp_all
    have "Require now ctx' opc ob = None \<longleftrightarrow> (qs_ValidUntil ?q = 0 \<or> now < qs_ValidUntil ?q)
        \<and> (\<exists>opn. Lookup opc = Some opn \<and> query_Matches ?q ob (op_WholeObject opn))"
      by (cases "Lookup opc") (auto simp: Require_def c q)
    moreover have "opc' \<noteq> opc \<Longrightarrow> Require now ctx' opc' ob = Require now ctx opc' ob"
      by (simp add: Require_def c q)
    ultimately show ?thesis using False c(2) by auto
  qed
qed

lemma Prepare_Require_witness:
  "Require 5 prepared_ctx ''identity.user.read'' (facts 3 7 [4]) = None
   \<and> Require 5 prepared_ctx ''identity.user.read'' (facts 3 8 [4]) \<noteq> None"
proof -
  let ?w = "demo_world ''iam'' 7 [self_scope]"
  let ?out = "\<lparr>ra_Mode = ''iam'', ra_Query = demo_query 7 [self_scope]\<rparr>"
  have q: "rs_Query (?w 0) ''p'' ''identity.user.read'' (ax_Credential empty_ctx) = Inr ?out"
    by (simp add: demo_world_def)
  have p: "Prepare ?w empty_ctx (Some 0) ''p'' ''identity.user.read'' = (prepared_ctx, None)"
    by (simp add: prepared_ctx_def Prepare_def demo_world_def demo_query_def)
  have m: "query_Matches (demo_query 7 [self_scope]) (facts 3 7 [4]) (op_WholeObject demo_opn)"
    "\<not> query_Matches (demo_query 7 [self_scope]) (facts 3 8 [4]) (op_WholeObject demo_opn)"
    by code_simp+
  have u: "qs_ValidUntil (demo_query 7 [self_scope]) = 0" by (simp add: demo_query_def)
  have mode: "ra_Mode ?out = ''iam''" "ra_Query ?out = demo_query 7 [self_scope]" by simp_all
  note r = mp [OF conjunct2 [OF conjunct2 [OF Prepare_Require [OF q mode(1) p]]] refl, THEN conjunct1,
      unfolded mode(2) u Lookup_demo [folded demo_opn_def]]
  show ?thesis using r [of 5 "facts 3 7 [4]"] r [of 5 "facts 3 8 [4]"] m
    by (metis option.inject)
qed

text \<open>C19. The cutover gate keeps the three writers apart: in no policy state are legacy account
  writes, IAM management writes and migration writes admitted together, candidate writes go only
  with legacy writes, and without the migration identity neither candidate nor migration writes
  pass.\<close>

theorem cutover_writers_exclusive:
  "length (filter (\<lambda>k. CheckWrite s k m = None) [LegacyAccountWrite, IAMManagementWrite, MigrationWrite]) \<le> 1
   \<and> (CheckWrite s CandidateWrite m = None \<longleftrightarrow> m \<and> CheckWrite s LegacyAccountWrite m = None)
   \<and> CheckWrite s MigrationWrite False \<noteq> None"
  by (auto simp: CheckWrite_None kind_admitted_def)

end
