(* ===== verification/Routing_Group.thy ===== *)
theory Routing_Group
  imports Go_Strings
begin

text \<open>
  Routing groups: \<open>domain/routing/group.go\<close> (the CSV membership field of channels and upstream
  accounts, new group keys) and the \<open>order_by\<close> parser of \<open>pkg/ordering\<close>. The lemmas show that
  parsing a membership gives clean, distinct members, that a member list survives joining and
  parsing, and that a parsed ordering names allowed fields once each.
\<close>

subsection \<open>Membership\<close>

definition DefaultGroup :: string where
  "DefaultGroup = ''default''"

fun groups_loop :: "string list \<Rightarrow> string list \<Rightarrow> string list" where
  "groups_loop [] groups = groups"
| "groups_loop (piece # pieces) groups =
     (let grp = trim_space piece in
        if grp \<noteq> [] \<and> grp \<notin> set groups then groups_loop pieces (groups @ [grp])
        else groups_loop pieces groups)"

definition Groups :: "string \<Rightarrow> string list" where
  "Groups membership = groups_loop (split_on (CHR '','') membership) []"

definition ContainsGroup :: "string \<Rightarrow> string \<Rightarrow> bool" where
  "ContainsGroup membership grp =
     (if grp = [] \<or> grp \<noteq> trim_space grp \<or> CHR '','' \<in> set grp then False
      else list_ex (\<lambda>member. member = grp) (Groups membership))"

definition MaxGroupKeyBytes :: nat where
  "MaxGroupKeyBytes = 1024"

text \<open>
  The code ranges over runes. A byte below 128 is always a rune of its own in UTF-8, in valid and in
  invalid input, so the test on runes is the test on bytes.
\<close>

definition key_char_bad :: "char \<Rightarrow> bool" where
  "key_char_bad c \<longleftrightarrow> c = CHR '','' \<or> of_char c < (32 :: nat) \<or> of_char c = (127 :: nat)"

definition ValidNewGroupKey :: "string \<Rightarrow> bool" where
  "ValidNewGroupKey key =
     (if key = [] \<or> key \<noteq> trim_space key \<or> MaxGroupKeyBytes < length key then False
      else \<not> list_ex key_char_bad key)"

definition ValidGroupAccessMode :: "string \<Rightarrow> bool" where
  "ValidGroupAccessMode mode \<longleftrightarrow> mode = [] \<or> mode = ''restricted'' \<or> mode = ''public''"

subsection \<open>Order by\<close>

record order_field =
  ob_Name :: string
  ob_Desc :: bool

fun order_loop :: "string list \<Rightarrow> string list \<Rightarrow> order_field list \<Rightarrow> order_field list option" where
  "order_loop allowed [] result = Some result"
| "order_loop allowed (term # terms) result =
     (case Go_Strings.fields term of
        [] \<Rightarrow> None
      | [name] \<Rightarrow>
          if name \<notin> set allowed \<or> name \<in> ob_Name ` set result then None
          else order_loop allowed terms (result @ [\<lparr>ob_Name = name, ob_Desc = False\<rparr>])
      | [name, direction] \<Rightarrow>
          if name \<notin> set allowed \<or> name \<in> ob_Name ` set result then None
          else if direction \<noteq> ''asc'' \<and> direction \<noteq> ''desc'' then None
          else order_loop allowed terms (result @ [\<lparr>ob_Name = name, ob_Desc = direction = ''desc''\<rparr>])
      | _ \<Rightarrow> None)"

text \<open>\<open>Parse(input, allowed...)\<close>: \<open>None\<close> is the error.\<close>

definition ParseOrder :: "string \<Rightarrow> string list \<Rightarrow> order_field list option" where
  "ParseOrder input allowed =
     (if trim_space input = [] then Some []
      else order_loop allowed (split_on (CHR '','') input) [])"

subsection \<open>Lemmas\<close>

lemma groups_loop_fold:
  "groups_loop ps gs = fold push_new (filter (\<lambda>g. g \<noteq> []) (map trim_space ps)) gs"
  by (induction ps arbitrary: gs) (auto simp: Let_def push_new_def)

lemma Groups_fold:
  "Groups m = fold push_new (filter (\<lambda>g. g \<noteq> []) (map trim_space (split_on (CHR '','') m))) []"
  by (simp add: Groups_def groups_loop_fold)

lemma Groups_distinct: "distinct (Groups m)"
  by (simp add: Groups_fold fold_push_new_distinct)

lemma Groups_set: "set (Groups m) = {g \<in> trim_space ` set (split_on (CHR '','') m). g \<noteq> []}"
  by (auto simp: Groups_fold fold_push_new_set)

text \<open>A clean member: trimmed, not empty, without a separator.\<close>

definition clean_group :: "string \<Rightarrow> bool" where
  "clean_group g \<longleftrightarrow> g \<noteq> [] \<and> trim_space g = g \<and> CHR '','' \<notin> set g"

lemma Groups_clean: "g \<in> set (Groups m) \<Longrightarrow> clean_group g"
  using set_trim_space by (fastforce simp: Groups_set clean_group_def dest: split_on_no_sep)

lemma fold_push_new_distinct_append:
  "distinct (acc @ xs) \<Longrightarrow> fold push_new xs acc = acc @ xs"
  by (induction xs arbitrary: acc) (auto simp: push_new_def)

fun join_with :: "char \<Rightarrow> string list \<Rightarrow> string" where
  "join_with c [] = []"
| "join_with c [p] = p"
| "join_with c (p # q # ps) = p @ c # join_with c (q # ps)"

lemma split_on_join:
  "ps \<noteq> [] \<Longrightarrow> (\<And>p. p \<in> set ps \<Longrightarrow> c \<notin> set p) \<Longrightarrow> split_on c (join_with c ps) = ps"
  by (induction c ps rule: join_with.induct) (simp_all add: split_on_single split_on_append)

lemma Groups_join:
  assumes "distinct gs" and "\<And>g. g \<in> set gs \<Longrightarrow> clean_group g"
  shows "Groups (join_with (CHR '','') gs) = gs"
proof (cases "gs = []")
  case True
  then show ?thesis by (simp add: Groups_def Let_def)
next
  case False
  with assms(2) have "split_on (CHR '','') (join_with (CHR '','') gs) = gs"
    by (intro split_on_join) (auto simp: clean_group_def)
  moreover have "map trim_space gs = gs"
    by (rule map_idI) (use assms(2) in \<open>auto simp: clean_group_def\<close>)
  moreover have "filter (\<lambda>g. g \<noteq> []) gs = gs"
    by (rule filter_True) (use assms(2) in \<open>auto simp: clean_group_def\<close>)
  ultimately show ?thesis
    using fold_push_new_distinct_append [of "[]" gs] assms(1) by (simp add: Groups_fold)
qed

lemma ValidNewGroupKey_clean: "ValidNewGroupKey key \<Longrightarrow> clean_group key"
  by (auto simp: ValidNewGroupKey_def clean_group_def key_char_bad_def list_ex_iff split: if_splits)

lemma ContainsGroup_iff: "ContainsGroup m g \<longleftrightarrow> clean_group g \<and> g \<in> set (Groups m)"
  by (auto simp: ContainsGroup_def clean_group_def list_ex_iff)

text \<open>Membership survives its CSV form: the parsed members are distinct, trimmed, non-empty and
  free of the separator, joining them and parsing again gives the same list, and the membership
  test admits exactly the parsed members. A key accepted for a new group can be referenced this way.\<close>

theorem Groups_roundtrip:
  "distinct (Groups m) \<and> Groups (join_with (CHR '','') (Groups m)) = Groups m
   \<and> (ContainsGroup m g \<longleftrightarrow> g \<in> set (Groups m))
   \<and> (ValidNewGroupKey key \<longrightarrow> ContainsGroup (join_with (CHR '','') (Groups m @ [key])) key)"
proof -
  have "ContainsGroup (join_with (CHR '','') (Groups m @ [key])) key" if v: "ValidNewGroupKey key"
  proof -
    note c = ValidNewGroupKey_clean [OF v]
    have "split_on (CHR '','') (join_with (CHR '','') (Groups m @ [key])) = Groups m @ [key]"
      using c Groups_clean by (intro split_on_join) (auto simp: clean_group_def)
    then have "key \<in> set (Groups (join_with (CHR '','') (Groups m @ [key])))"
      using c unfolding Groups_set by (auto simp: clean_group_def image_iff)
    with c show ?thesis by (simp add: ContainsGroup_iff)
  qed
  then show ?thesis
    using Groups_join [OF Groups_distinct] Groups_clean Groups_distinct ContainsGroup_iff by blast
qed

lemma Groups_roundtrip_witness:
  "ValidNewGroupKey ''vip'' \<and> ContainsGroup (join_with (CHR '','') (Groups '' a,b ,a,'' @ [''vip''])) ''vip''"
proof -
  have "ValidNewGroupKey ''vip''" by code_simp
  with Groups_roundtrip [of "'' a,b ,a,''" "[]" "''vip''"] show ?thesis by blast
qed

lemma order_loop_sound:
  "order_loop allowed terms result = Some out \<Longrightarrow> distinct (map ob_Name result) \<Longrightarrow>
   set (map ob_Name result) \<subseteq> set allowed \<Longrightarrow>
   distinct (map ob_Name out) \<and> set (map ob_Name out) \<subseteq> set allowed
   \<and> length out = length result + length terms"
proof (induction allowed terms result rule: order_loop.induct)
  case (1 allowed result)
  then show ?case by simp
next
  case (2 allowed t terms result)
  then show ?case by (auto split: list.splits if_splits)
qed

text \<open>An accepted \<open>order_by\<close> clause has one field for each comma-separated term, every field is
  one of the allowed columns, and none is named twice.\<close>

theorem ParseOrder_sound:
  assumes "ParseOrder input allowed = Some out"
  shows "distinct (map ob_Name out) \<and> set (map ob_Name out) \<subseteq> set allowed
    \<and> (trim_space input \<noteq> [] \<longrightarrow> length out = length (split_on (CHR '','') input))"
  using assms order_loop_sound [of allowed "split_on (CHR '','') input" "[]" out]
  by (auto simp: ParseOrder_def split: if_splits)

lemma ParseOrder_sound_witness:
  "ParseOrder ''id desc, name'' [''name'', ''id'']
     = Some [\<lparr>ob_Name = ''id'', ob_Desc = True\<rparr>, \<lparr>ob_Name = ''name'', ob_Desc = False\<rparr>]
   \<and> distinct (map ob_Name [\<lparr>ob_Name = ''id'', ob_Desc = True\<rparr>, \<lparr>ob_Name = ''name'', ob_Desc = False\<rparr>])"
proof -
  have p: "ParseOrder ''id desc, name'' [''name'', ''id'']
     = Some [\<lparr>ob_Name = ''id'', ob_Desc = True\<rparr>, \<lparr>ob_Name = ''name'', ob_Desc = False\<rparr>]"
    by code_simp
  from ParseOrder_sound [OF p] p show ?thesis by blast
qed

end
