(* ===== verification/Routing_Context.thy ===== *)
theory Routing_Context
  imports Routing_Group
begin

text \<open>
  The resolved routing context of a request: \<open>domain/routing/context.go\<close>. The facts about a
  subject (default group, token policy, grants) and a group are turned into the context a request
  carries, under the token's mode: \<open>inherit\<close>, \<open>fixed\<close> or \<open>ordered\<close>. A Go pointer that may be nil is
  an option; \<open>Resolve\<close> returns the context together with the error of its validation. The digest
  of a context is a hash and is not modelled; the session key is, and its injectivity shows that
  two subjects never share a sticky session.
\<close>

definition ContextVersion :: int where
  "ContextVersion = 2"

record token_reference =
  tr_ID :: int64
  tr_Name :: string
  tr_Mode :: string
  tr_GroupID :: int64
  tr_Revision :: int64
  tr_GroupIDs :: "int64 list"

record user_group_grant =
  ug_GroupID :: int64
  ug_SourceType :: string
  ug_SourceRef :: string
  ug_StartsAt :: int64
  ug_ExpiresAt :: int64
  ug_Status :: string

record entitlement_facts =
  en_SubscriptionID :: int64
  en_Revision :: int64
  en_Grants :: "user_group_grant list"

record subject_facts =
  sf_AuthorizationRevision :: nat
  sf_AuthorizationPolicyRevision :: nat
  sf_SubscriptionID :: int64
  sf_SubscriptionEntitlementVersion :: int64
  sf_TokenReferences :: "token_reference list"
  sf_DefaultGroupID :: int64
  sf_PublicGroupAccess :: string
  sf_AccessRevision :: int64
  sf_TokenMode :: string
  sf_TokenGroupID :: int64
  sf_TokenGroupIDs :: "int64 list"
  sf_TokenRevision :: int64
  sf_Grants :: "user_group_grant list"

record routing_group =
  rg_ID :: int64
  rg_Key :: string
  rg_DisplayName :: string
  rg_Description :: string
  rg_Status :: string
  rg_AccessMode :: string
  rg_ModelAccessMode :: string
  rg_SortOrder :: int
  rg_Revision :: int64
  rg_CreatedAt :: int64
  rg_UpdatedAt :: int64

record routing_context =
  rc_Version :: int
  rc_UserID :: int64
  rc_TokenID :: int64
  rc_GroupID :: int64
  rc_GroupKey :: string
  rc_TokenMode :: string
  rc_TokenRevision :: int64
  rc_UserAccessRevision :: int64
  rc_GroupRevision :: int64
  rc_SubscriptionEntitlementVersion :: int64
  rc_SubscriptionID :: int64
  rc_SelectionSource :: string
  rc_CandidateGroupIDs :: "int64 list"
  rc_AttemptOrdinal :: int64

definition WithEntitlements :: "subject_facts option \<Rightarrow> entitlement_facts option \<Rightarrow> subject_facts option" where
  "WithEntitlements fo eo = (case (fo, eo) of
     (Some f, Some e) \<Rightarrow> Some (f\<lparr>
       sf_Grants := filter (\<lambda>g. ug_SourceType g \<noteq> ''subscription'') (sf_Grants f) @ en_Grants e,
       sf_SubscriptionID := en_SubscriptionID e,
       sf_SubscriptionEntitlementVersion := en_Revision e\<rparr>)
   | _ \<Rightarrow> None)"

definition ValidSelection :: "string \<Rightarrow> string \<Rightarrow> bool" where
  "ValidSelection mode source \<longleftrightarrow> mode = ''inherit'' \<and> source = ''user_default''
     \<or> mode = ''fixed'' \<and> source = ''token_fixed'' \<or> mode = ''ordered'' \<and> source = ''token_ordered''"

datatype routing_error = ErrInvalidContext | ErrGroupUnavailable | ErrGroupAccessDenied
  | ErrOrderedUnavailable | ErrOrderedGroupUnavailable | ErrDefaultGroupUnavailable

definition context_valid :: "routing_context \<Rightarrow> routing_error option" where
  "context_valid r =
     (if rc_Version r \<noteq> ContextVersion \<or> rc_UserID r \<le> 0 \<or> rc_TokenID r \<le> 0 \<or> rc_GroupID r \<le> 0
        \<or> rc_GroupKey r = [] \<or> \<not> ValidSelection (rc_TokenMode r) (rc_SelectionSource r)
        \<or> rc_TokenRevision r \<le> 0 \<or> rc_UserAccessRevision r \<le> 0 \<or> rc_GroupRevision r \<le> 0
        \<or> rc_SubscriptionEntitlementVersion r < 0 \<or> rc_SubscriptionID r < 0
      then Some ErrInvalidContext
      else if rc_TokenMode r = ''ordered'' then
        (if rc_SelectionSource r \<noteq> ''token_ordered'' \<or> rc_CandidateGroupIDs r = []
           \<or> rc_AttemptOrdinal r < 0 \<or> int (length (rc_CandidateGroupIDs r)) \<le> rc_AttemptOrdinal r
           \<or> rc_CandidateGroupIDs r ! nat (rc_AttemptOrdinal r) \<noteq> rc_GroupID r
         then Some ErrInvalidContext else None)
      else None)"

definition ValidPolicy :: "string \<Rightarrow> int64 \<Rightarrow> bool" where
  "ValidPolicy mode groupID \<longleftrightarrow> mode = ''inherit'' \<and> groupID = 0 \<or> mode = ''fixed'' \<and> groupID > 0"

fun ordered_list_loop :: "int64 list \<Rightarrow> int64 list \<Rightarrow> bool" where
  "ordered_list_loop [] seen = True"
| "ordered_list_loop (i # ids) seen =
     (if i \<le> 0 then False else if i \<in> set seen then False else ordered_list_loop ids (i # seen))"

definition ValidOrderedList :: "int64 list \<Rightarrow> bool" where
  "ValidOrderedList groupIDs = (if groupIDs = [] then False else ordered_list_loop groupIDs [])"

definition ValidOrderedPolicy :: "string \<Rightarrow> int64 \<Rightarrow> int64 list \<Rightarrow> bool" where
  "ValidOrderedPolicy mode groupID groupIDs \<longleftrightarrow>
     mode = ''ordered'' \<and> groupID = 0 \<and> ValidOrderedList groupIDs"

definition SelectedGroupID :: "subject_facts option \<Rightarrow> int64" where
  "SelectedGroupID fo = (case fo of None \<Rightarrow> 0
   | Some f \<Rightarrow> if \<not> ValidPolicy (sf_TokenMode f) (sf_TokenGroupID f) then 0
       else if sf_TokenMode f = ''fixed'' then sf_TokenGroupID f else sf_DefaultGroupID f)"

definition OrderedGroupIDs :: "subject_facts option \<Rightarrow> int64 list" where
  "OrderedGroupIDs fo = (case fo of None \<Rightarrow> []
   | Some f \<Rightarrow> if sf_TokenMode f \<noteq> ''ordered'' \<or> \<not> ValidOrderedList (sf_TokenGroupIDs f) then []
       else sf_TokenGroupIDs f)"

definition grant_usable :: "int64 \<Rightarrow> int64 \<Rightarrow> user_group_grant \<Rightarrow> bool" where
  "grant_usable gid now g \<longleftrightarrow> ug_GroupID g = gid \<and> ug_Status g = ''active'' \<and> ug_StartsAt g \<le> now
     \<and> (ug_ExpiresAt g = 0 \<or> now < ug_ExpiresAt g)"

definition AccessSources ::
  "subject_facts option \<Rightarrow> routing_group option \<Rightarrow> int64 \<Rightarrow> user_group_grant list" where
  "AccessSources fo go now = (case (fo, go) of
     (Some f, Some g) \<Rightarrow>
       if rg_Status g \<noteq> ''enabled'' then []
       else (if sf_PublicGroupAccess f = ''all'' \<and> rg_AccessMode g = ''public''
           then [\<lparr>ug_GroupID = rg_ID g, ug_SourceType = ''public'', ug_SourceRef = [], ug_StartsAt = 0,
                  ug_ExpiresAt = 0, ug_Status = ''active''\<rparr>] else [])
         @ filter (grant_usable (rg_ID g) now) (sf_Grants f)
   | _ \<Rightarrow> [])"

definition base_context :: "int64 \<Rightarrow> int64 \<Rightarrow> subject_facts \<Rightarrow> routing_group \<Rightarrow> string \<Rightarrow> routing_context" where
  "base_context userID tokenID f g source = \<lparr>rc_Version = ContextVersion, rc_UserID = userID,
     rc_TokenID = tokenID, rc_GroupID = rg_ID g, rc_GroupKey = rg_Key g, rc_TokenMode = sf_TokenMode f,
     rc_TokenRevision = sf_TokenRevision f, rc_UserAccessRevision = sf_AccessRevision f,
     rc_GroupRevision = rg_Revision g,
     rc_SubscriptionEntitlementVersion = sf_SubscriptionEntitlementVersion f,
     rc_SubscriptionID = sf_SubscriptionID f, rc_SelectionSource = source,
     rc_CandidateGroupIDs = [], rc_AttemptOrdinal = 0\<rparr>"

definition Resolve :: "int64 \<Rightarrow> int64 \<Rightarrow> subject_facts option \<Rightarrow> routing_group option \<Rightarrow> int64
    \<Rightarrow> routing_context option \<times> routing_error option" where
  "Resolve userID tokenID facts grp now = (case grp of
     None \<Rightarrow> (None, Some ErrGroupUnavailable)
   | Some g \<Rightarrow>
       if SelectedGroupID facts \<le> 0 \<or> SelectedGroupID facts \<noteq> rg_ID g \<or> rg_Status g \<noteq> ''enabled''
       then (None, Some ErrGroupUnavailable)
       else if AccessSources facts grp now = [] then (None, Some ErrGroupAccessDenied)
       else (case facts of None \<Rightarrow> (None, Some ErrGroupUnavailable)
         | Some f \<Rightarrow>
             let r = base_context userID tokenID f g
               (if sf_TokenMode f = ''fixed'' then ''token_fixed'' else ''user_default'')
             in (Some r, context_valid r)))"

definition ResolveOrdered :: "int64 \<Rightarrow> int64 \<Rightarrow> subject_facts option \<Rightarrow> routing_group option \<Rightarrow> int \<Rightarrow> int64
    \<Rightarrow> routing_context option \<times> routing_error option" where
  "ResolveOrdered userID tokenID facts grp ordinal now = (case facts of
     None \<Rightarrow> (None, Some ErrOrderedUnavailable)
   | Some f \<Rightarrow>
       if sf_TokenMode f \<noteq> ''ordered'' then (None, Some ErrOrderedUnavailable)
       else let candidates = OrderedGroupIDs facts in
         if ordinal < 0 \<or> int (length candidates) \<le> ordinal then (None, Some ErrOrderedGroupUnavailable)
         else case grp of
           None \<Rightarrow> (None, Some ErrGroupUnavailable)
         | Some g \<Rightarrow>
             if rg_ID g \<noteq> candidates ! nat ordinal \<or> rg_Status g \<noteq> ''enabled''
             then (None, Some ErrGroupUnavailable)
             else if AccessSources facts grp now = [] then (None, Some ErrGroupAccessDenied)
             else let r = (base_context userID tokenID f g ''token_ordered'')
                 \<lparr>rc_CandidateGroupIDs := candidates, rc_AttemptOrdinal := ordinal\<rparr>
               in (Some r, context_valid r))"

definition ResolveInherited :: "int64 \<Rightarrow> int64 \<Rightarrow> subject_facts option \<Rightarrow> routing_group option \<Rightarrow> int64
    \<Rightarrow> routing_context option \<times> routing_error option" where
  "ResolveInherited userID tokenID facts grp now = (case facts of
     None \<Rightarrow> (None, Some ErrDefaultGroupUnavailable)
   | Some f \<Rightarrow> if sf_TokenMode f \<noteq> ''inherit'' then (None, Some ErrDefaultGroupUnavailable)
       else Resolve userID tokenID facts grp now)"

definition SessionKey :: "routing_context option \<Rightarrow> string \<Rightarrow> string" where
  "SessionKey co key = (case co of None \<Rightarrow> key
   | Some c \<Rightarrow> if key = [] then key
       else ''v2/u'' @ FormatInt (rc_UserID c) @ ''/t'' @ FormatInt (rc_TokenID c)
         @ ''/g'' @ FormatInt (rc_GroupID c) @ ''/'' @ key)"

subsection \<open>Lemmas\<close>

lemma ordered_list_loop_iff:
  "ordered_list_loop ids seen \<longleftrightarrow> (\<forall>i \<in> set ids. 0 < i) \<and> distinct ids \<and> set ids \<inter> set seen = {}"
  by (induction ids arbitrary: seen) auto

lemma ValidOrderedList_iff: "ValidOrderedList ids \<longleftrightarrow> ids \<noteq> [] \<and> (\<forall>i \<in> set ids. 0 < i) \<and> distinct ids"
  by (simp add: ValidOrderedList_def ordered_list_loop_iff)

text \<open>What a usable subject, token and group are for a context to validate.\<close>

definition ids_ok :: "int64 \<Rightarrow> int64 \<Rightarrow> subject_facts \<Rightarrow> routing_group \<Rightarrow> bool" where
  "ids_ok userID tokenID f g \<longleftrightarrow> 0 < userID \<and> 0 < tokenID \<and> rg_Key g \<noteq> [] \<and> 0 < sf_TokenRevision f
     \<and> 0 < sf_AccessRevision f \<and> 0 < rg_Revision g \<and> 0 \<le> sf_SubscriptionEntitlementVersion f
     \<and> 0 \<le> sf_SubscriptionID f"

lemma base_context_valid:
  "sf_TokenMode f \<noteq> ''ordered'' \<Longrightarrow> context_valid (base_context u t f g src) = None
    \<longleftrightarrow> ids_ok u t f g \<and> 0 < rg_ID g \<and> ValidSelection (sf_TokenMode f) src"
  by (auto simp: context_valid_def base_context_def ids_ok_def)

text \<open>A context is resolved exactly for an enabled group the token selects (its own for a fixed
  token, the user's default for an inheriting one) that some current access source opens, with
  positive identifiers and revisions; the context then names that group, user and token.\<close>

theorem Resolve_ok_iff:
  "Resolve userID tokenID (Some f) (Some g) now = (Some r, None) \<longleftrightarrow>
     0 < rg_ID g \<and> rg_Status g = ''enabled'' \<and> AccessSources (Some f) (Some g) now \<noteq> []
     \<and> (sf_TokenMode f = ''fixed'' \<and> sf_TokenGroupID f = rg_ID g
          \<and> r = base_context userID tokenID f g ''token_fixed''
        \<or> sf_TokenMode f = ''inherit'' \<and> sf_TokenGroupID f = 0 \<and> sf_DefaultGroupID f = rg_ID g
          \<and> r = base_context userID tokenID f g ''user_default'')
     \<and> ids_ok userID tokenID f g"
proof -
  have v: "context_valid (base_context userID tokenID f g src) = None
    \<longleftrightarrow> ids_ok userID tokenID f g \<and> 0 < rg_ID g \<and> ValidSelection (sf_TokenMode f) src"
    if "ValidPolicy (sf_TokenMode f) (sf_TokenGroupID f)" for src
    using that base_context_valid [of f] by (auto simp: ValidPolicy_def)
  show ?thesis
    by (cases "ValidPolicy (sf_TokenMode f) (sf_TokenGroupID f)")
      (auto simp: Resolve_def SelectedGroupID_def Let_def v ValidSelection_def, auto simp: ValidPolicy_def)
qed

text \<open>C23. An attempt of an ordered token is bound to its place in the token's list: the context is
  resolved exactly when the list is valid, the ordinal lies inside it, the group at the ordinal is
  enabled and open to the subject; it carries the whole list, and distinct ordinals never resolve
  to the same group.\<close>

theorem ResolveOrdered_ok_iff:
  "(ResolveOrdered userID tokenID (Some f) (Some g) ordinal now = (Some r, None) \<longleftrightarrow>
     sf_TokenMode f = ''ordered'' \<and> ValidOrderedList (sf_TokenGroupIDs f)
     \<and> 0 \<le> ordinal \<and> ordinal < int (length (sf_TokenGroupIDs f))
     \<and> sf_TokenGroupIDs f ! nat ordinal = rg_ID g \<and> rg_Status g = ''enabled''
     \<and> AccessSources (Some f) (Some g) now \<noteq> [] \<and> ids_ok userID tokenID f g
     \<and> r = (base_context userID tokenID f g ''token_ordered'')
         \<lparr>rc_CandidateGroupIDs := sf_TokenGroupIDs f, rc_AttemptOrdinal := ordinal\<rparr>)
   \<and> (snd (ResolveOrdered userID tokenID (Some f) (Some g) ordinal now) = None
      \<longrightarrow> snd (ResolveOrdered userID tokenID (Some f) (Some g) ordinal' now') = None \<longrightarrow> ordinal = ordinal')"
proof -
  let ?ok = "\<lambda>ordinal now. sf_TokenMode f = ''ordered'' \<and> ValidOrderedList (sf_TokenGroupIDs f)
     \<and> 0 \<le> ordinal \<and> ordinal < int (length (sf_TokenGroupIDs f))
     \<and> sf_TokenGroupIDs f ! nat ordinal = rg_ID g \<and> rg_Status g = ''enabled''
     \<and> AccessSources (Some f) (Some g) now \<noteq> [] \<and> ids_ok userID tokenID f g"
  let ?r = "\<lambda>ordinal. (base_context userID tokenID f g ''token_ordered'')
         \<lparr>rc_CandidateGroupIDs := sf_TokenGroupIDs f, rc_AttemptOrdinal := ordinal\<rparr>"
  have pos: "ValidOrderedList ids \<Longrightarrow> 0 \<le> o' \<Longrightarrow> o' < int (length ids) \<Longrightarrow> 0 < ids ! nat o'" for ids o'
    by (simp add: ValidOrderedList_iff)
  have val: "context_valid (?r o') = None" if "?ok o' n" for o' n
    using that pos [of "sf_TokenGroupIDs f" o']
    by (auto simp: context_valid_def base_context_def ids_ok_def ValidSelection_def ContextVersion_def)
  have inval: "context_valid (?r o') \<noteq> None" if "\<not> ids_ok userID tokenID f g" for o'
    using that by (auto simp: context_valid_def base_context_def ids_ok_def)
  have res: "ResolveOrdered userID tokenID (Some f) (Some g) o' n = (Some r', None) \<longleftrightarrow> ?ok o' n \<and> r' = ?r o'"
    for o' n r'
    using val [of o' n] inval [of o']
    by (cases "ids_ok userID tokenID f g") (auto simp: ResolveOrdered_def OrderedGroupIDs_def Let_def split: if_splits)
  have some: "snd (ResolveOrdered userID tokenID (Some f) (Some g) o' n) = None \<Longrightarrow> ?ok o' n" for o' n
    using res [of o' n]
    by (cases "ResolveOrdered userID tokenID (Some f) (Some g) o' n")
      (auto simp: ResolveOrdered_def Let_def split: if_splits)
  have "ordinal = ordinal'" if "?ok ordinal now" "?ok ordinal' now'"
  proof -
    from that have "nat ordinal = nat ordinal'"
      using nth_eq_iff_index_eq [of "sf_TokenGroupIDs f" "nat ordinal" "nat ordinal'"]
      by (simp add: ValidOrderedList_iff nat_less_iff)
    then have "int (nat ordinal) = int (nat ordinal')" by simp
    with that show ?thesis by simp
  qed
  with res some show ?thesis by blast
qed

lemma FormatInt_no_slash: "CHR ''/'' \<notin> set (FormatInt x)"
  using FormatInt_chars [of "CHR ''/''" x] by (auto simp: is_digit_def)

definition demo_subject :: subject_facts where
  "demo_subject = \<lparr>sf_AuthorizationRevision = 1, sf_AuthorizationPolicyRevision = 1, sf_SubscriptionID = 0,
     sf_SubscriptionEntitlementVersion = 0, sf_TokenReferences = [], sf_DefaultGroupID = 1,
     sf_PublicGroupAccess = ''all'', sf_AccessRevision = 3, sf_TokenMode = ''ordered'', sf_TokenGroupID = 0,
     sf_TokenGroupIDs = [5, 9], sf_TokenRevision = 2, sf_Grants = []\<rparr>"

definition demo_group :: "int64 \<Rightarrow> routing_group" where
  "demo_group i = \<lparr>rg_ID = i, rg_Key = ''vip'', rg_DisplayName = [], rg_Description = [],
     rg_Status = ''enabled'', rg_AccessMode = ''public'', rg_ModelAccessMode = [], rg_SortOrder = 0,
     rg_Revision = 4, rg_CreatedAt = 0, rg_UpdatedAt = 0\<rparr>"

definition demo_context :: routing_context where
  "demo_context = (base_context 7 8 demo_subject (demo_group 9) ''token_ordered'')
     \<lparr>rc_CandidateGroupIDs := [5, 9], rc_AttemptOrdinal := 1\<rparr>"

lemma ResolveOrdered_ok_iff_witness:
  "ResolveOrdered 7 8 (Some demo_subject) (Some (demo_group 9)) 1 100 = (Some demo_context, None)
   \<and> snd (ResolveOrdered 7 8 (Some demo_subject) (Some (demo_group 9)) 0 100) \<noteq> None"
proof -
  have a: "AccessSources (Some demo_subject) (Some (demo_group 9)) 100 \<noteq> []" by code_simp
  have v: "ValidOrderedList [5, 9]" by code_simp
  have i: "ids_ok 7 8 demo_subject (demo_group 9)" by code_simp
  have ok: "ResolveOrdered 7 8 (Some demo_subject) (Some (demo_group 9)) 1 100 = (Some demo_context, None)"
    using ResolveOrdered_ok_iff [of 7 8 demo_subject "demo_group 9" 1 100 demo_context] a v i
    by (simp add: demo_context_def) (simp add: demo_subject_def demo_group_def)
  then show ?thesis
    using ResolveOrdered_ok_iff [of 7 8 demo_subject "demo_group 9" 1 100 demo_context 0 100] by auto
qed

text \<open>Sticky sessions are never shared: two contexts give the same session key only for the same
  user, token, group and client key.\<close>

theorem SessionKey_inj:
  assumes "key \<noteq> []" and "key' \<noteq> []"
    and "SessionKey (Some c) key = SessionKey (Some c') key'"
  shows "rc_UserID c = rc_UserID c' \<and> rc_TokenID c = rc_TokenID c' \<and> rc_GroupID c = rc_GroupID c' \<and> key = key'"
  using assms FormatInt_no_slash
  by (auto simp: SessionKey_def append_sep_eq dest!: FormatInt_inj)

lemma SessionKey_inj_witness:
  "SessionKey (Some demo_context) ''x'' \<noteq> SessionKey (Some (demo_context\<lparr>rc_UserID := 78, rc_TokenID := 1\<rparr>)) ''x''"
  using SessionKey_inj [of "''x''" "''x''" demo_context "demo_context\<lparr>rc_UserID := 78, rc_TokenID := 1\<rparr>"]
  by (auto simp: demo_context_def base_context_def)

text \<open>A subscription replaces its own grants and nothing else: after \<open>WithEntitlements\<close> the subject's
  access to an enabled group comes from public access, from the grants of other sources as they
  were, and from the entitlement's grants; applying the same entitlement again changes nothing
  when the entitlement only brings subscription grants.\<close>

theorem WithEntitlements_access:
  assumes "WithEntitlements (Some f) (Some e) = Some f'" and "rg_Status g = ''enabled''"
  shows "(AccessSources (Some f') (Some g) now \<noteq> [] \<longleftrightarrow>
      sf_PublicGroupAccess f = ''all'' \<and> rg_AccessMode g = ''public''
      \<or> (\<exists>x \<in> set (sf_Grants f). ug_SourceType x \<noteq> ''subscription'' \<and> grant_usable (rg_ID g) now x)
      \<or> (\<exists>x \<in> set (en_Grants e). grant_usable (rg_ID g) now x))
    \<and> (list_all (\<lambda>x. ug_SourceType x = ''subscription'') (en_Grants e)
        \<longrightarrow> WithEntitlements (Some f') (Some e) = Some f')"
proof -
  from assms(1) have f': "f' = f\<lparr>
       sf_Grants := filter (\<lambda>g. ug_SourceType g \<noteq> ''subscription'') (sf_Grants f) @ en_Grants e,
       sf_SubscriptionID := en_SubscriptionID e,
       sf_SubscriptionEntitlementVersion := en_Revision e\<rparr>"
    by (simp add: WithEntitlements_def)
  have "filter (\<lambda>g. ug_SourceType g \<noteq> ''subscription'') (en_Grants e) = []"
    if "list_all (\<lambda>x. ug_SourceType x = ''subscription'') (en_Grants e)"
    using that by (simp add: list_all_iff)
  then have "list_all (\<lambda>x. ug_SourceType x = ''subscription'') (en_Grants e)
        \<Longrightarrow> WithEntitlements (Some f') (Some e) = Some f'"
    by (simp add: WithEntitlements_def f')
  moreover have "AccessSources (Some f') (Some g) now \<noteq> [] \<longleftrightarrow>
      sf_PublicGroupAccess f = ''all'' \<and> rg_AccessMode g = ''public''
      \<or> (\<exists>x \<in> set (sf_Grants f). ug_SourceType x \<noteq> ''subscription'' \<and> grant_usable (rg_ID g) now x)
      \<or> (\<exists>x \<in> set (en_Grants e). grant_usable (rg_ID g) now x)"
    using assms(2) by (auto simp: AccessSources_def f' filter_empty_conv)
  ultimately show ?thesis by blast
qed

definition demo_grant :: "string \<Rightarrow> user_group_grant" where
  "demo_grant src = \<lparr>ug_GroupID = 9, ug_SourceType = src, ug_SourceRef = [], ug_StartsAt = 0,
     ug_ExpiresAt = 50, ug_Status = ''active''\<rparr>"

lemma WithEntitlements_access_witness:
  "AccessSources (WithEntitlements (Some (demo_subject\<lparr>sf_PublicGroupAccess := [],
        sf_Grants := [demo_grant ''subscription'']\<rparr>))
      (Some \<lparr>en_SubscriptionID = 1, en_Revision = 2, en_Grants = []\<rparr>)) (Some (demo_group 9)) 10 = []"
proof -
  let ?f = "demo_subject\<lparr>sf_PublicGroupAccess := [], sf_Grants := [demo_grant ''subscription'']\<rparr>"
  let ?e = "\<lparr>en_SubscriptionID = 1, en_Revision = 2, en_Grants = []\<rparr>"
  obtain f' where f': "WithEntitlements (Some ?f) (Some ?e) = Some f'" by (simp add: WithEntitlements_def)
  have "rg_Status (demo_group 9) = ''enabled''" by (simp add: demo_group_def)
  from WithEntitlements_access [OF f' this, of 10] show ?thesis
    unfolding f' by (simp add: demo_grant_def)
qed

end
