(* ===== verification/Wildcard.thy ===== *)
theory Wildcard
  imports Go_Strings
begin

text \<open>
  Glob patterns over model names: \<open>pkg/wildcard/wildcard.go\<close>. \<open>match\<close> is the recursive descent of the
  code, which walks the bytes of both strings; the language of a pattern is the inductive predicate
  \<open>glob\<close>, and the lemmas show that the two agree. \<open>strings.ToLower\<close> and \<open>strings.EqualFold\<close> work on
  runes: the UTF-8 decoding of a Go \<open>range\<close> loop is written out, and the case tables of Unicode for
  the runes of more than one byte are a parameter, the record \<open>unicode\<close>.
\<close>

definition is_meta :: "char \<Rightarrow> bool" where
  "is_meta c \<longleftrightarrow> c = CHR ''*'' \<or> c = CHR ''?''"

definition IsPattern :: "string \<Rightarrow> bool" where
  "IsPattern s = list_ex is_meta s"

text \<open>
  \<open>match_glob\<close> is the loop of \<open>match\<close>; \<open>match_suffixes\<close> its inner loop over the suffixes of the name.
\<close>

function (sequential) match_glob :: "string \<Rightarrow> string \<Rightarrow> bool"
  and match_suffixes :: "string \<Rightarrow> string \<Rightarrow> bool" where
  "match_glob [] name = (name = [])"
| "match_glob (c # pattern) name =
     (if c = CHR ''*'' then
        (let rest = dropWhile (\<lambda>x. x = CHR ''*'') pattern in
           if rest = [] then True else match_suffixes rest name)
      else if c = CHR ''?'' then
        (case name of [] \<Rightarrow> False | _ # name' \<Rightarrow> match_glob pattern name')
      else (case name of [] \<Rightarrow> False | d # name' \<Rightarrow> if c \<noteq> d then False else match_glob pattern name'))"
| "match_suffixes pattern [] = match_glob pattern []"
| "match_suffixes pattern (d # name) =
     (if match_glob pattern (d # name) then True else match_suffixes pattern name)"
  by pat_completeness auto
termination
proof (relation "measures [\<lambda>x. case x of Inl (p, n) \<Rightarrow> 2 * length p | Inr (p, n) \<Rightarrow> 2 * length p + 1,
     \<lambda>x. case x of Inl (p, n) \<Rightarrow> length n | Inr (p, n) \<Rightarrow> length n]", goal_cases)
  case (2 c pattern name rest)
  then have "length rest \<le> length pattern" by (simp add: length_dropWhile_le)
  then show ?case by simp
qed simp_all

text \<open>
  The width of the rune at the start of a byte string, as \<open>utf8.DecodeRuneInString\<close> gives it: an
  invalid byte is a rune of width one.
\<close>

definition in_bytes :: "nat \<Rightarrow> nat \<Rightarrow> char \<Rightarrow> bool" where
  "in_bytes lo hi c \<longleftrightarrow> lo \<le> of_char c \<and> of_char c \<le> hi"

definition rune_width :: "string \<Rightarrow> nat" where
  "rune_width s = (case s of
     b0 # b1 # rest \<Rightarrow>
       if in_bytes 194 223 b0 \<and> in_bytes 128 191 b1 then 2
       else (case rest of
         [] \<Rightarrow> 1
       | b2 # rest' \<Rightarrow>
           if in_bytes 128 191 b2 \<and>
              (in_bytes 224 224 b0 \<and> in_bytes 160 191 b1 \<or> in_bytes 225 236 b0 \<and> in_bytes 128 191 b1
               \<or> in_bytes 237 237 b0 \<and> in_bytes 128 159 b1 \<or> in_bytes 238 239 b0 \<and> in_bytes 128 191 b1)
           then 3
           else (case rest' of
             [] \<Rightarrow> 1
           | b3 # _ \<Rightarrow>
               if in_bytes 128 191 b2 \<and> in_bytes 128 191 b3 \<and>
                  (in_bytes 240 240 b0 \<and> in_bytes 144 191 b1 \<or> in_bytes 241 243 b0 \<and> in_bytes 128 191 b1
                   \<or> in_bytes 244 244 b0 \<and> in_bytes 128 143 b1)
               then 4 else 1))
   | _ \<Rightarrow> 1)"

lemma rune_width_pos: "0 < rune_width s"
  by (simp add: rune_width_def split: list.split)

function runes :: "string \<Rightarrow> string list" where
  "runes s = (if s = [] then [] else take (rune_width s) s # runes (drop (rune_width s) s))"
  by pat_completeness auto
termination
  by (relation "measure length") (simp_all add: rune_width_pos)

declare runes.simps [simp del]

lemma runes_code [code]:
  "runes s = (case s of [] \<Rightarrow> [] | _ # _ \<Rightarrow> take (rune_width s) s # runes (drop (rune_width s) s))"
  by (subst runes.simps) (simp split: list.split)

text \<open>
  Case mapping. \<open>lower_rune\<close> is \<open>unicode.ToLower\<close> on the runes of more than one byte and \<open>fold_rune\<close> a
  representative of a rune's orbit under \<open>unicode.SimpleFold\<close>, both between UTF-8 encodings; an ASCII
  byte goes to its ASCII lower case, an invalid byte to the encoding of the replacement rune.
\<close>

record unicode =
  lower_rune :: "string \<Rightarrow> string"
  fold_rune :: "string \<Rightarrow> string"

definition is_ascii :: "char \<Rightarrow> bool" where
  "is_ascii c \<longleftrightarrow> (of_char c :: nat) < 128"

definition RuneError :: string where
  "RuneError = [CHR 0xEF, CHR 0xBF, CHR 0xBD]"

definition map_rune :: "(string \<Rightarrow> string) \<Rightarrow> string \<Rightarrow> string" where
  "map_rune f r = (case r of [c] \<Rightarrow> if is_ascii c then [lower_char c] else RuneError | _ \<Rightarrow> f r)"

definition ToLower :: "unicode \<Rightarrow> string \<Rightarrow> string" where
  "ToLower u s = (if list_all is_ascii s then to_lower s else concat (map (map_rune (lower_rune u)) (runes s)))"

definition EqualFold :: "unicode \<Rightarrow> string \<Rightarrow> string \<Rightarrow> bool" where
  "EqualFold u s t \<longleftrightarrow> map (map_rune (fold_rune u)) (runes s) = map (map_rune (fold_rune u)) (runes t)"

lemma EqualFold_trans: "EqualFold u a c \<Longrightarrow> EqualFold u b c \<Longrightarrow> EqualFold u a b"
  by (simp add: EqualFold_def)

definition Match :: "unicode \<Rightarrow> string \<Rightarrow> string \<Rightarrow> bool" where
  "Match u pattern name = match_glob (ToLower u pattern) (ToLower u name)"

fun FirstMatch :: "unicode \<Rightarrow> string list \<Rightarrow> string \<Rightarrow> string \<times> bool" where
  "FirstMatch u [] name = ([], False)"
| "FirstMatch u (k # ks) name = (if Match u k name then (k, True) else FirstMatch u ks name)"

definition Specificity :: "string \<Rightarrow> nat" where
  "Specificity pattern = length (filter (\<lambda>r. r \<noteq> ''*'' \<and> r \<noteq> ''?'') (runes pattern))"

subsection \<open>The language of a pattern\<close>

inductive glob :: "string \<Rightarrow> string \<Rightarrow> bool" where
  glob_end: "glob [] []"
| glob_star: "glob p t \<Longrightarrow> glob (CHR ''*'' # p) (s @ t)"
| glob_one: "glob p s \<Longrightarrow> glob (CHR ''?'' # p) (d # s)"
| glob_lit: "glob p s \<Longrightarrow> \<not> is_meta c \<Longrightarrow> glob (c # p) (c # s)"

inductive_cases glob_NilE: "glob [] s"
inductive_cases glob_ConsE: "glob (c # p) s"
inductive_simps glob_Nil [simp]: "glob [] s"

lemma glob_star_iff: "glob (CHR ''*'' # p) s \<longleftrightarrow> (\<exists>i \<le> length s. glob p (drop i s))"
proof
  assume "glob (CHR ''*'' # p) s"
  then show "\<exists>i \<le> length s. glob p (drop i s)"
  proof (cases rule: glob.cases)
    case (glob_star t s')
    then have "length s' \<le> length s \<and> glob p (drop (length s') s)" by simp
    then show ?thesis by blast
  qed (simp_all add: is_meta_def)
next
  assume "\<exists>i \<le> length s. glob p (drop i s)"
  then obtain i where "glob p (drop i s)" by blast
  from glob.glob_star [OF this, of "take i s"] show "glob (CHR ''*'' # p) s" by simp
qed

lemma glob_one_iff: "glob (CHR ''?'' # p) s \<longleftrightarrow> (\<exists>d s'. s = d # s' \<and> glob p s')"
  by (auto intro: glob.intros elim: glob_ConsE simp: is_meta_def)

lemma glob_lit_iff: "\<not> is_meta c \<Longrightarrow> glob (c # p) s \<longleftrightarrow> (\<exists>s'. s = c # s' \<and> glob p s')"
  by (auto intro: glob.intros elim: glob_ConsE simp: is_meta_def)

lemma glob_stars: "glob (CHR ''*'' # p) s \<longleftrightarrow> glob (CHR ''*'' # dropWhile (\<lambda>x. x = CHR ''*'') p) s"
proof (induction p arbitrary: s)
  case Nil
  then show ?case by simp
next
  case (Cons c p)
  show ?case
  proof (cases "c = CHR ''*''")
    case False
    then show ?thesis by simp
  next
    case True
    have "glob (CHR ''*'' # CHR ''*'' # p) s \<longleftrightarrow> glob (CHR ''*'' # p) s"
    proof
      assume "glob (CHR ''*'' # CHR ''*'' # p) s"
      then obtain i j where "i \<le> length s" "j \<le> length s - i" "glob p (drop j (drop i s))"
        unfolding glob_star_iff by auto
      then show "glob (CHR ''*'' # p) s"
        unfolding glob_star_iff by (intro exI [of _ "i + j"]) (simp add: add.commute)
    next
      assume "glob (CHR ''*'' # p) s"
      then show "glob (CHR ''*'' # CHR ''*'' # p) s"
        using glob.glob_star [of "CHR ''*'' # p" s "[]"] by simp
    qed
    with True Cons.IH show ?thesis by simp
  qed
qed

lemma glob_star_all: "glob (CHR ''*'' # []) s"
  unfolding glob_star_iff by (intro exI [of _ "length s"]) simp

lemma match_iff_glob:
  "match_glob p s \<longleftrightarrow> glob p s"
  "match_suffixes p s \<longleftrightarrow> (\<exists>i \<le> length s. glob p (drop i s))"
proof (induction p s and p s rule: match_glob_match_suffixes.induct)
  case (1 name)
  then show ?case by simp
next
  case (2 c pattern name)
  consider "c = CHR ''*''" | "c = CHR ''?''" | "\<not> is_meta c" by (auto simp: is_meta_def)
  then show ?case
  proof cases
    case 1
    let ?rest = "dropWhile (\<lambda>x. x = CHR ''*'') pattern"
    have g: "glob (c # pattern) name \<longleftrightarrow> glob (CHR ''*'' # ?rest) name"
      unfolding 1 by (rule glob_stars)
    show ?thesis
    proof (cases "?rest = []")
      case True
      then have "match_glob (c # pattern) name" using 1 by (simp add: Let_def)
      moreover have "glob (c # pattern) name" unfolding g True by (rule glob_star_all)
      ultimately show ?thesis by blast
    next
      case False
      then have "match_glob (c # pattern) name \<longleftrightarrow> match_suffixes ?rest name"
        using 1 by (simp add: Let_def del: dropWhile_eq_Nil_conv)
      with "2.IH"(1) [OF 1 refl False] show ?thesis unfolding g glob_star_iff by blast
    qed
  next
    case 2
    then show ?thesis using "2.IH"(2) by (auto simp: glob_one_iff split: list.splits)
  next
    case 3
    then have "c \<noteq> CHR ''*''" "c \<noteq> CHR ''?''" by (auto simp: is_meta_def)
    with "2.IH"(3) glob_lit_iff [OF 3] show ?thesis by (auto split: list.splits)
  qed
next
  case (3 pattern)
  then show ?case by simp
next
  case (4 pattern d name)
  show ?case
  proof
    assume "match_suffixes pattern (d # name)"
    with 4 consider "glob pattern (d # name)" | i where "i \<le> length name" "glob pattern (drop i name)"
      by (auto split: if_splits)
    then show "\<exists>i \<le> length (d # name). glob pattern (drop i (d # name))"
    proof cases
      case 1
      then show ?thesis by (intro exI [of _ 0]) simp
    next
      case (2 i)
      then show ?thesis by (intro exI [of _ "Suc i"]) simp
    qed
  next
    assume "\<exists>i \<le> length (d # name). glob pattern (drop i (d # name))"
    then obtain i where i: "i \<le> length (d # name)" "glob pattern (drop i (d # name))" by blast
    with 4 show "match_suffixes pattern (d # name)" by (cases i) auto
  qed
qed

lemma IsPattern_nonempty: "IsPattern s \<Longrightarrow> 0 < length s"
  by (cases s) (auto simp: IsPattern_def)

lemma glob_literal: "\<not> list_ex is_meta p \<Longrightarrow> glob p s \<longleftrightarrow> s = p"
  by (induction p arbitrary: s) (auto simp: glob_lit_iff)

lemma lower_char_meta: "is_meta (lower_char c) = is_meta c"
proof -
  have "(of_char c :: nat) < 256" by simp
  then show ?thesis
    by (auto simp: is_meta_def lower_char_def Let_def of_char_eq_iff [symmetric, where 'a = nat] simp del: of_char_eq_iff)
qed

lemma list_ex_meta_lower: "list_ex is_meta (to_lower s) = list_ex is_meta s"
  by (induction s) (simp_all add: to_lower_def lower_char_meta)

lemma meta_ascii: "is_meta c \<Longrightarrow> is_ascii c"
  by (auto simp: is_meta_def is_ascii_def)

definition lead3 :: "char \<Rightarrow> char \<Rightarrow> bool" where
  "lead3 b0 b1 \<longleftrightarrow> in_bytes 224 224 b0 \<and> in_bytes 160 191 b1 \<or> in_bytes 225 236 b0 \<and> in_bytes 128 191 b1
     \<or> in_bytes 237 237 b0 \<and> in_bytes 128 159 b1 \<or> in_bytes 238 239 b0 \<and> in_bytes 128 191 b1"

definition lead4 :: "char \<Rightarrow> char \<Rightarrow> bool" where
  "lead4 b0 b1 \<longleftrightarrow> in_bytes 240 240 b0 \<and> in_bytes 144 191 b1 \<or> in_bytes 241 243 b0 \<and> in_bytes 128 191 b1
     \<or> in_bytes 244 244 b0 \<and> in_bytes 128 143 b1"

lemma lead_not_ascii: "lead3 b0 b1 \<or> lead4 b0 b1 \<Longrightarrow> \<not> is_ascii b0 \<and> \<not> is_ascii b1"
  by (simp only: lead3_def lead4_def in_bytes_def is_ascii_def) linarith

lemma tail_not_ascii: "in_bytes 128 191 c \<Longrightarrow> \<not> is_ascii c" "in_bytes 194 223 c \<Longrightarrow> \<not> is_ascii c"
  by (simp_all add: in_bytes_def is_ascii_def)

text \<open>A rune of more than one byte has no ASCII byte.\<close>

lemma rune_width_lead:
  "rune_width [] = 1" "rune_width [b0] = 1"
  "rune_width [b0, b1] = (if in_bytes 194 223 b0 \<and> in_bytes 128 191 b1 then 2 else 1)"
  "rune_width [b0, b1, b2] = (if in_bytes 194 223 b0 \<and> in_bytes 128 191 b1 then 2
     else if in_bytes 128 191 b2 \<and> lead3 b0 b1 then 3 else 1)"
  "rune_width (b0 # b1 # b2 # b3 # rest) = (if in_bytes 194 223 b0 \<and> in_bytes 128 191 b1 then 2
     else if in_bytes 128 191 b2 \<and> lead3 b0 b1 then 3
     else if in_bytes 128 191 b2 \<and> in_bytes 128 191 b3 \<and> lead4 b0 b1 then 4 else 1)"
  unfolding rune_width_def lead3_def lead4_def by simp_all

lemma wide_rune: "rune_width s \<noteq> 1 \<Longrightarrow> list_all (\<lambda>c. \<not> is_ascii c) (take (rune_width s) s)"
proof -
  assume w: "rune_width s \<noteq> 1"
  consider "s = []" | b0 where "s = [b0]" | b0 b1 where "s = [b0, b1]" | b0 b1 b2 where "s = [b0, b1, b2]"
    | b0 b1 b2 b3 rest where "s = b0 # b1 # b2 # b3 # rest" by (metis list.exhaust)
  then show ?thesis
    using w lead_not_ascii
    by cases (simp_all only: rune_width_lead, auto simp: tail_not_ascii split: if_splits)
qed

lemma runes_Cons: "runes (c # s) = take (rune_width (c # s)) (c # s) # runes (drop (rune_width (c # s)) (c # s))"
  by (subst runes.simps) simp

lemma runes_Nil [simp]: "runes [] = []"
  by (simp add: runes.simps)

text \<open>\<open>unicode.ToLower\<close> gives no wildcard for a rune that has none.\<close>

definition keeps_meta :: "unicode \<Rightarrow> bool" where
  "keeps_meta u \<longleftrightarrow> (\<forall>r. list_ex is_meta (lower_rune u r) \<longrightarrow> list_ex is_meta r)"

lemma map_rune_meta:
  assumes "keeps_meta u"
  shows "list_ex is_meta (map_rune (lower_rune u) (take (rune_width s) s)) = list_ex is_meta (take (rune_width s) s)"
proof (cases "rune_width s = 1")
  case True
  have "\<not> list_ex is_meta RuneError" by code_simp
  show ?thesis
  proof (cases s)
    case (Cons c s')
    have "\<not> is_ascii c \<Longrightarrow> \<not> is_meta c" using meta_ascii by blast
    with True Cons \<open>\<not> list_ex is_meta RuneError\<close> show ?thesis by (simp add: map_rune_def lower_char_meta)
  next
    case Nil
    with assms show ?thesis by (auto simp: map_rune_def keeps_meta_def)
  qed
next
  case False
  then have "2 \<le> rune_width s" using rune_width_pos [of s] by linarith
  have no: "\<not> list_ex is_meta (take (rune_width s) s)"
    using wide_rune [OF False] by (auto simp: list_ex_iff list_all_iff dest: meta_ascii)
  have "map_rune (lower_rune u) r = lower_rune u r \<or> (\<exists>c. r = [c])" for r
    by (auto simp: map_rune_def split: list.split)
  then consider "map_rune (lower_rune u) (take (rune_width s) s) = lower_rune u (take (rune_width s) s)"
    | c where "take (rune_width s) s = [c]" by blast
  then show ?thesis
  proof cases
    case 1
    with no assms show ?thesis by (auto simp: keeps_meta_def)
  next
    case (2 c)
    have "\<not> list_ex is_meta RuneError" by code_simp
    with 2 no show ?thesis by (auto simp: map_rune_def lower_char_meta)
  qed
qed

lemma runes_meta: "keeps_meta u \<Longrightarrow> list_ex is_meta (concat (map (map_rune (lower_rune u)) (runes s))) = list_ex is_meta s"
proof (induction s rule: runes.induct)
  case (1 s)
  show ?case
  proof (cases "s = []")
    case False
    have "list_ex is_meta s = (list_ex is_meta (take (rune_width s) s) \<or> list_ex is_meta (drop (rune_width s) s))"
      by (subst append_take_drop_id [of "rune_width s" s, symmetric], subst list_ex_append) (rule refl)
    with False 1 show ?thesis by (subst runes.simps) (simp add: map_rune_meta)
  qed simp
qed

lemma ToLower_meta: "keeps_meta u \<Longrightarrow> list_ex is_meta (ToLower u s) = list_ex is_meta s"
  by (simp add: ToLower_def list_ex_meta_lower runes_meta)

lemma ToLower_meta_id: "list_all is_meta s \<Longrightarrow> ToLower u s = s"
proof -
  assume m: "list_all is_meta s"
  then have "list_all is_ascii s" by (auto simp: list_all_iff dest: meta_ascii)
  moreover have "is_meta c \<Longrightarrow> lower_char c = c" for c by (auto simp: is_meta_def lower_char_def)
  then have "to_lower s = s" using m by (induction s) (simp_all add: to_lower_def)
  ultimately show ?thesis by (simp add: ToLower_def)
qed

lemma glob_questions: "glob (replicate n (CHR ''?'')) s \<longleftrightarrow> length s = n"
  by (induction n arbitrary: s) (auto simp: glob_one_iff length_Suc_conv)

text \<open>C24. The matcher decides the language of its pattern: \<open>Match\<close> holds exactly when the bytes of the
  lower-cased name are in the language of the lower-cased glob; a pattern without wildcards matches
  exactly the names of the same lower case; \<open>*\<close> matches every name; and \<open>?\<close> stands for one byte,
  not for one character: \<open>n\<close> question marks match the names of \<open>n\<close> bytes, so a rune of two bytes
  needs two.\<close>

theorem Match_glob:
  assumes "keeps_meta u"
  shows "(Match u pattern name \<longleftrightarrow> glob (ToLower u pattern) (ToLower u name))
   \<and> (\<not> IsPattern pattern \<longrightarrow> (Match u pattern name \<longleftrightarrow> ToLower u pattern = ToLower u name))
   \<and> Match u ''*'' name
   \<and> (Match u (replicate n (CHR ''?'')) name \<longleftrightarrow> length (ToLower u name) = n)"
proof -
  have star: "ToLower u ''*'' = ''*''" by (rule ToLower_meta_id) (simp add: is_meta_def)
  have marks: "ToLower u (replicate n (CHR ''?'')) = replicate n (CHR ''?'')"
    by (rule ToLower_meta_id) (simp add: list_all_iff is_meta_def)
  show ?thesis
    using glob_literal [of "ToLower u pattern" "ToLower u name"]
    by (auto simp: Match_def match_iff_glob IsPattern_def ToLower_meta [OF assms] star marks glob_star_all glob_questions)
qed

text \<open>A table for the examples: E with acute accent, capital (C3 89) and small (C3 A9).\<close>

definition demo_unicode :: unicode where
  "demo_unicode = (let f = \<lambda>r. if r = [CHR 0xC3, CHR 0x89] then [CHR 0xC3, CHR 0xA9] else r in
     \<lparr>lower_rune = f, fold_rune = f\<rparr>)"

lemma demo_keeps_meta: "keeps_meta demo_unicode"
  by (auto simp: keeps_meta_def demo_unicode_def Let_def is_meta_def)

lemma Match_glob_witness:
  "Match demo_unicode ''gpt-4o'' ''GPT-4o'' \<and> Match demo_unicode ''claude-*-4?'' ''claude-sonnet-45''
   \<and> \<not> Match demo_unicode ''?'' [CHR 0xC3, CHR 0x89] \<and> Match demo_unicode ''??'' [CHR 0xC3, CHR 0x89]"
proof -
  have p: "\<not> IsPattern ''gpt-4o''" "ToLower demo_unicode ''gpt-4o'' = ToLower demo_unicode ''GPT-4o''" by code_simp+
  note M = Match_glob [OF demo_keeps_meta]
  have "Match demo_unicode ''gpt-4o'' ''GPT-4o''" using p M [of "''gpt-4o''" "''GPT-4o''"] by blast
  moreover have "Match demo_unicode ''claude-*-4?'' ''claude-sonnet-45''" by code_simp
  moreover have e: "length (ToLower demo_unicode [CHR 0xC3, CHR 0x89]) = 2" by code_simp
  have "Match demo_unicode (replicate n (CHR ''?'')) [CHR 0xC3, CHR 0x89] \<longleftrightarrow> n = 2" for n
    using M [of "[]" "[CHR 0xC3, CHR 0x89]" n] unfolding e by blast
  from this [of 1] this [of 2] have "\<not> Match demo_unicode ''?'' [CHR 0xC3, CHR 0x89]"
    "Match demo_unicode ''??'' [CHR 0xC3, CHR 0x89]" by (simp_all add: numeral_2_eq_2)
  ultimately show ?thesis by blast
qed

end
