(* ===== verification/Selection.thy ===== *)
theory Selection
  imports Go_Prelude
begin

text \<open>
  Selecting the best candidate of a sequence, the loop shape the routing code uses over and over:
  skip what is not admissible, keep the first candidate, replace it by a strictly better one. The
  locale fixes what is admissible and when one candidate is better; its lemmas say what the loop
  returns and when the order of the sequence does not matter. Clients interpret it on their own
  comparison.
\<close>

fun best_loop :: "('a \<Rightarrow> bool) \<Rightarrow> ('a \<Rightarrow> 'a \<Rightarrow> bool) \<Rightarrow> 'a list \<Rightarrow> 'a option \<Rightarrow> 'a option" where
  "best_loop admissible better [] best = best"
| "best_loop admissible better (x # xs) best =
     (if \<not> admissible x then best_loop admissible better xs best
      else best_loop admissible better xs
        (case best of None \<Rightarrow> Some x | Some b \<Rightarrow> if better x b then Some x else Some b))"

locale preference =
  fixes admissible :: "'a \<Rightarrow> bool"
    and better :: "'a \<Rightarrow> 'a \<Rightarrow> bool"
  assumes better_irrefl: "\<not> better x x"
    and better_trans: "better x y \<Longrightarrow> better y z \<Longrightarrow> better x z"
    and better_weak: "better x y \<Longrightarrow> \<not> better z y \<Longrightarrow> better x z"
begin

definition best :: "'a list \<Rightarrow> 'a option" where
  "best xs = best_loop admissible better xs None"

lemma loop_result:
  "best_loop admissible better xs (Some b) = Some r \<Longrightarrow>
     (r = b \<or> r \<in> set xs \<and> admissible r) \<and> \<not> better b r \<and> (\<forall>x \<in> set xs. admissible x \<longrightarrow> \<not> better x r)"
proof (induction xs arbitrary: b)
  case Nil
  then show ?case by (simp add: better_irrefl)
next
  case (Cons x xs)
  show ?case
  proof (cases "admissible x")
    case False
    with Cons show ?thesis by auto
  next
    case True
    show ?thesis
    proof (cases "better x b")
      case True
      with Cons.prems \<open>admissible x\<close> Cons.IH [of x] have
        "(r = x \<or> r \<in> set xs \<and> admissible r) \<and> \<not> better x r \<and> (\<forall>y \<in> set xs. admissible y \<longrightarrow> \<not> better y r)"
        by simp
      moreover have "better b r \<Longrightarrow> better x r" using better_trans [OF True] .
      ultimately show ?thesis using \<open>admissible x\<close> by auto
    next
      case False
      with Cons.prems \<open>admissible x\<close> Cons.IH [of b] have ih:
        "(r = b \<or> r \<in> set xs \<and> admissible r) \<and> \<not> better b r \<and> (\<forall>y \<in> set xs. admissible y \<longrightarrow> \<not> better y r)"
        by simp
      have "better x r \<Longrightarrow> better b r \<or> better x b" using better_weak [of x r b] by blast
      with ih False show ?thesis by auto
    qed
  qed
qed

lemma loop_Some: "\<exists>r. best_loop admissible better xs (Some b) = Some r"
  by (induction xs arbitrary: b) auto

lemma best_Some:
  "best xs = Some r \<Longrightarrow> r \<in> set xs \<and> admissible r \<and> (\<forall>x \<in> set xs. admissible x \<longrightarrow> \<not> better x r)"
  unfolding best_def
proof (induction xs)
  case Nil
  then show ?case by simp
next
  case (Cons x xs)
  then show ?case by (cases "admissible x") (auto dest: loop_result)
qed

lemma best_None: "best xs = None \<longleftrightarrow> (\<forall>x \<in> set xs. \<not> admissible x)"
  unfolding best_def
proof (induction xs)
  case Nil
  then show ?case by simp
next
  case (Cons x xs)
  then show ?case using loop_Some [of xs x] by auto
qed

text \<open>Without ties among the admissible candidates the order of the sequence is irrelevant.\<close>

lemma best_order_irrelevant:
  assumes "set xs = set ys"
    and "\<And>x y. x \<in> set xs \<Longrightarrow> y \<in> set xs \<Longrightarrow> admissible x \<Longrightarrow> admissible y \<Longrightarrow> x \<noteq> y \<Longrightarrow> better x y \<or> better y x"
  shows "best xs = best ys"
proof (cases "best xs")
  case None
  with assms(1) have "best ys = None" by (simp add: best_None)
  with None show ?thesis by simp
next
  case (Some r)
  with assms(1) have "best ys \<noteq> None" using best_Some [OF Some] by (auto simp: best_None)
  then obtain s where s: "best ys = Some s" by blast
  note r' = best_Some [OF Some] and s' = best_Some [OF s]
  have "r = s"
  proof (rule ccontr)
    assume "r \<noteq> s"
    with r' s' assms show False by metis
  qed
  with Some s show ?thesis by simp
qed

end

end
