(* ===== verification/Model_Mapper.thy ===== *)
theory Model_Mapper
  imports Wildcard Selection
begin

text \<open>
  Model name mapping: \<open>internal/biz/model_mapping.go\<close>. The snapshot is a Go map from names and
  patterns to entries. Go leaves the order in which a \<open>range\<close> visits a map open, and takes a new one
  for each loop, so a lookup has one association list of the map for each of its loops (\<open>range\<close>),
  and the property about the lookups lets all of them differ. A nil entry pointer is \<open>None\<close>. \<open>Reload\<close>
  is modelled from the parsed file on; reading and decoding the file are not. Dereferencing a nil
  entry is a panic. \<open>u\<close> holds the case tables of Unicode (\<open>Wildcard\<close>).
\<close>

record model_entry =
  me_ActualName :: string
  me_Capabilities :: "string list"

type_synonym models = "(string \<times> model_entry option) list"

definition KnownCapabilities :: "string list" where
  "KnownCapabilities = [''function_call'', ''vision'', ''streaming'', ''embedding'']"

datatype reload = Reloaded models | ReloadError | ReloadPanic

fun validate_entries :: "models \<Rightarrow> models \<Rightarrow> reload" where
  "validate_entries file [] = Reloaded file"
| "validate_entries file ((name, entry) # rest) =
     (case entry of
        None \<Rightarrow> ReloadPanic
      | Some e \<Rightarrow>
          if me_ActualName e = [] then ReloadError
          else if list_ex (\<lambda>cap. cap \<notin> set KnownCapabilities) (me_Capabilities e) then ReloadError
          else validate_entries file rest)"

text \<open>\<open>Reload\<close>: the path, and the models of the file or the error of reading or parsing it.\<close>

definition Reload :: "string \<Rightarrow> models option \<Rightarrow> reload" where
  "Reload path file =
     (if path = [] then Reloaded []
      else case file of None \<Rightarrow> ReloadError | Some ms \<Rightarrow> validate_entries ms ms)"

definition after_reload :: "models \<Rightarrow> reload \<Rightarrow> models" where
  "after_reload snap r = (case r of Reloaded ms \<Rightarrow> ms | _ \<Rightarrow> snap)"

subsection \<open>Lookups\<close>

text \<open>The lookups by key see the map, whatever its order; the loop is the range over it.\<close>

definition exactModelEntry :: "unicode \<Rightarrow> models \<Rightarrow> string \<Rightarrow> model_entry option option" where
  "exactModelEntry u models modelName =
     (case map_of models modelName of
        Some entry \<Rightarrow> Some entry
      | None \<Rightarrow>
          (case map_of models (ToLower u modelName) of
             Some entry \<Rightarrow> Some entry
           | None \<Rightarrow> map_option snd
               (find (\<lambda>(key, entry). \<not> IsPattern key \<and> EqualFold u key modelName) models)))"

definition better_key :: "string \<Rightarrow> string \<Rightarrow> bool" where
  "better_key key best \<longleftrightarrow> Specificity key > Specificity best
     \<or> Specificity key = Specificity best \<and> length key > length best"

text \<open>
  The wildcard loop of \<open>Resolve\<close>. The accumulators are the code's: the catch-all name, the best name,
  its key and its specificity. \<open>None\<close> is a nil dereference.
\<close>

fun resolve_loop :: "unicode \<Rightarrow> models \<Rightarrow> string \<Rightarrow> string \<times> string \<times> string \<times> nat \<Rightarrow> (string \<times> string \<times> string \<times> nat) option" where
  "resolve_loop u [] modelName acc = Some acc"
| "resolve_loop u ((key, entry) # rest) modelName (catchAll, best, bestKey, bestSpec) =
     (if \<not> IsPattern key then resolve_loop u rest modelName (catchAll, best, bestKey, bestSpec)
      else case entry of
        None \<Rightarrow> None
      | Some e \<Rightarrow>
          if me_ActualName e = [] then resolve_loop u rest modelName (catchAll, best, bestKey, bestSpec)
          else if key = ''*'' then resolve_loop u rest modelName (me_ActualName e, best, bestKey, bestSpec)
          else if \<not> Match u key modelName then resolve_loop u rest modelName (catchAll, best, bestKey, bestSpec)
          else let spec = Specificity key in
            if spec > bestSpec \<or> (spec = bestSpec \<and> length key > length bestKey)
            then resolve_loop u rest modelName (catchAll, me_ActualName e, key, spec)
            else resolve_loop u rest modelName (catchAll, best, bestKey, bestSpec))"

definition resolve_wildcard :: "unicode \<Rightarrow> models \<Rightarrow> string \<Rightarrow> string option" where
  "resolve_wildcard u models modelName =
     (case resolve_loop u models modelName ([], [], [], 0) of
        None \<Rightarrow> None
      | Some (catchAll, best, _) \<Rightarrow>
          Some (if best \<noteq> [] then best else if catchAll \<noteq> [] then catchAll else modelName))"

text \<open>\<open>r1\<close> and \<open>r2\<close> are the map in the orders of the exact and of the wildcard range of the call.\<close>

definition ResolveModel :: "unicode \<Rightarrow> models \<Rightarrow> models \<Rightarrow> string \<Rightarrow> string option" where
  "ResolveModel u r1 r2 modelName =
     (case exactModelEntry u r1 modelName of
        Some None \<Rightarrow> None
      | Some (Some e) \<Rightarrow>
          if me_ActualName e \<noteq> [] then Some (me_ActualName e) else resolve_wildcard u r2 modelName
      | None \<Rightarrow> resolve_wildcard u r2 modelName)"

text \<open>The loop of \<open>GetEntry\<close> and of \<open>HasCapability\<close>.\<close>

fun entry_loop :: "unicode \<Rightarrow> models \<Rightarrow> string \<Rightarrow> model_entry option \<times> model_entry option \<times> string \<times> nat
    \<Rightarrow> model_entry option \<times> model_entry option \<times> string \<times> nat" where
  "entry_loop u [] modelName acc = acc"
| "entry_loop u ((key, entry) # rest) modelName (catchAll, best, bestKey, bestSpec) =
     (if \<not> IsPattern key \<or> entry = None then entry_loop u rest modelName (catchAll, best, bestKey, bestSpec)
      else if key = ''*'' then entry_loop u rest modelName (entry, best, bestKey, bestSpec)
      else if \<not> Match u key modelName then entry_loop u rest modelName (catchAll, best, bestKey, bestSpec)
      else let spec = Specificity key in
        if spec > bestSpec \<or> (spec = bestSpec \<and> length key > length bestKey)
        then entry_loop u rest modelName (catchAll, entry, key, spec)
        else entry_loop u rest modelName (catchAll, best, bestKey, bestSpec))"

definition GetEntry :: "unicode \<Rightarrow> models \<Rightarrow> models \<Rightarrow> string \<Rightarrow> model_entry option" where
  "GetEntry u r1 r2 modelName =
     (case exactModelEntry u r1 modelName of
        Some entry \<Rightarrow> entry
      | None \<Rightarrow> (case entry_loop u r2 modelName (None, None, [], 0) of
          (catchAll, best, _) \<Rightarrow> if best \<noteq> None then best else catchAll))"

definition entryHasCapability :: "model_entry option \<Rightarrow> string \<Rightarrow> bool" where
  "entryHasCapability entry cap = (case entry of None \<Rightarrow> False | Some e \<Rightarrow> cap \<in> set (me_Capabilities e))"

definition HasCapability :: "unicode \<Rightarrow> models \<Rightarrow> models \<Rightarrow> string \<Rightarrow> string \<Rightarrow> bool" where
  "HasCapability u r1 r2 modelName cap =
     (case exactModelEntry u r1 modelName of
        Some entry \<Rightarrow> entryHasCapability entry cap
      | None \<Rightarrow> (case entry_loop u r2 modelName (None, None, [], 0) of
          (catchAll, best, _) \<Rightarrow>
            if best \<noteq> None then entryHasCapability best cap
            else if catchAll \<noteq> None then entryHasCapability catchAll cap else False))"

definition isYAMLFile :: "unicode \<Rightarrow> string \<Rightarrow> bool" where
  "isYAMLFile u path \<longleftrightarrow> has_suffix (ToLower u path) ''.yaml'' \<or> has_suffix (ToLower u path) ''.yml''"

subsection \<open>The entry the loops select\<close>

interpretation pattern_pref: preference "\<lambda>e. IsPattern (fst e) \<and> fst e \<noteq> ''*'' \<and> Match u (fst e) m" "\<lambda>e e'. better_key (fst e) (fst e')"
  for u m
  by unfold_locales (auto simp: better_key_def)

text \<open>What \<open>Reload\<close> guarantees: every entry is there, has a name and known capabilities.\<close>

definition entries_ok :: "models \<Rightarrow> bool" where
  "entries_ok models \<longleftrightarrow> (\<forall>(key, entry) \<in> set models. \<exists>e. entry = Some e \<and> me_ActualName e \<noteq> []
     \<and> set (me_Capabilities e) \<subseteq> set KnownCapabilities)"

lemma entries_ok_Cons: "entries_ok ((k, en) # rest) \<longleftrightarrow> (\<exists>e. en = Some e \<and> me_ActualName e \<noteq> []
     \<and> set (me_Capabilities e) \<subseteq> set KnownCapabilities) \<and> entries_ok rest"
  by (auto simp: entries_ok_def)

lemma validate_entries_ok: "validate_entries file rest = Reloaded ms \<Longrightarrow> ms = file \<and> entries_ok rest"
proof (induction rest)
  case Nil
  then show ?case by (simp add: entries_ok_def)
next
  case (Cons x rest)
  then show ?case
    by (cases x) (auto simp: entries_ok_Cons list_ex_iff split: option.splits if_splits)
qed

definition catch_all :: "models \<Rightarrow> model_entry option \<Rightarrow> model_entry option" where
  "catch_all models init = fold (\<lambda>x acc. if fst x = ''*'' then snd x else acc) models init"

abbreviation candidate :: "unicode \<Rightarrow> string \<Rightarrow> string \<times> model_entry option \<Rightarrow> bool" where
  "candidate u m e \<equiv> IsPattern (fst e) \<and> fst e \<noteq> ''*'' \<and> Match u (fst e) m"

abbreviation key_better :: "string \<times> model_entry option \<Rightarrow> string \<times> model_entry option \<Rightarrow> bool" where
  "key_better e e' \<equiv> better_key (fst e) (fst e')"

definition acc_of :: "(string \<times> model_entry option) option \<Rightarrow> model_entry option \<times> string \<times> nat" where
  "acc_of b = (case b of None \<Rightarrow> (None, [], 0) | Some x \<Rightarrow> (snd x, fst x, Specificity (fst x)))"

lemma catch_all_simps [simp]:
  "catch_all [] ca = ca"
  "catch_all (x # xs) ca = catch_all xs (if fst x = ''*'' then snd x else ca)"
  by (simp_all add: catch_all_def)

lemma IsPattern_star [simp]: "IsPattern ''*''"
  by (simp add: IsPattern_def is_meta_def)

lemma acc_update:
  "IsPattern k \<Longrightarrow> acc_of b = (e, bk, bs) \<Longrightarrow>
   (if Specificity k > bs \<or> (Specificity k = bs \<and> length k > length bk) then Some (k, en) else b)
     = (case b of None \<Rightarrow> Some (k, en) | Some x \<Rightarrow> if key_better (k, en) x then Some (k, en) else Some x)"
  using IsPattern_nonempty [of k] by (auto simp: acc_of_def better_key_def split: option.splits)

lemma entry_loop_best:
  "entries_ok models \<Longrightarrow>
   entry_loop u models m (ca, acc_of b) = (catch_all models ca, acc_of (best_loop (candidate u m) key_better models b))"
proof (induction models arbitrary: ca b)
  case Nil
  then show ?case by simp
next
  case (Cons x rest)
  obtain k en where x: "x = (k, en)" by fastforce
  with Cons.prems obtain e where e: "en = Some e" and ok: "entries_ok rest" by (auto simp: entries_ok_Cons)
  obtain be bk bs where b: "acc_of b = (be, bk, bs)" using prod_cases3 by blast
  have new: "acc_of (Some (k, Some e)) = (Some e, k, Specificity k)" by (simp add: acc_of_def)
  consider "\<not> IsPattern k" | "k = ''*''" | "IsPattern k" "k \<noteq> ''*''" "\<not> Match u k m"
    | (hit) "IsPattern k" "k \<noteq> ''*''" "Match u k m" by blast
  then show ?case
  proof cases
    case hit
    let ?up = "Specificity k > bs \<or> (Specificity k = bs \<and> length k > length bk)"
    have step: "entry_loop u (x # rest) m (ca, acc_of b) =
        entry_loop u rest m (ca, acc_of (if ?up then Some (k, Some e) else b))"
      using hit by (simp add: x e b new Let_def)
    show ?thesis
      unfolding step Cons.IH [OF ok] acc_update [OF hit(1) b]
      using hit by (simp add: x e)
  qed (use Cons.IH [OF ok, of _ b, unfolded b] in \<open>auto simp: x e b\<close>)
qed

definition entry_name :: "model_entry option \<Rightarrow> string" where
  "entry_name en = (case en of None \<Rightarrow> [] | Some e \<Rightarrow> me_ActualName e)"

lemma resolve_loop_entry:
  "entries_ok models \<Longrightarrow> resolve_loop u models m (entry_name ca, entry_name be, bk, bs) =
     (case entry_loop u models m (ca, be, bk, bs) of (ca', be', bk', bs') \<Rightarrow>
        Some (entry_name ca', entry_name be', bk', bs'))"
proof (induction models arbitrary: ca be bk bs)
  case Nil
  then show ?case by simp
next
  case (Cons x rest)
  obtain k en where x: "x = (k, en)" by fastforce
  with Cons.prems obtain e where e: "en = Some e" "me_ActualName e \<noteq> []" and ok: "entries_ok rest"
    by (auto simp: entries_ok_Cons)
  have n: "me_ActualName e = entry_name (Some e)" by (simp add: entry_name_def)
  note IH = Cons.IH [OF ok]
  show ?case
    using e(2) by (simp add: x e(1) Let_def IH n)
qed

lemma find_mem: "find P xs = Some x \<Longrightarrow> x \<in> set xs"
  by (induction xs) (auto split: if_splits)

lemma exactModelEntry_mem: "exactModelEntry u models m = Some en \<Longrightarrow> \<exists>k. (k, en) \<in> set models"
  unfolding exactModelEntry_def
  by (cases "map_of models m"; cases "map_of models (ToLower u m)") (auto dest: map_of_SomeD find_mem)

lemma exact_entries_ok:
  "entries_ok models \<Longrightarrow> exactModelEntry u models m = Some en \<Longrightarrow> \<exists>e. en = Some e \<and> me_ActualName e \<noteq> []"
  using exactModelEntry_mem [of u models m en] by (auto simp: entries_ok_def)

lemma catch_all_mem:
  "catch_all models ca = Some e \<Longrightarrow> ca = Some e \<or> (''*'', Some e) \<in> set models"
proof (induction models arbitrary: ca)
  case (Cons x xs)
  then show ?case by (cases x; cases "fst x = ''*''") auto
qed simp

lemma best_loop_mem: "best_loop (candidate u m) key_better models None = Some x \<Longrightarrow> x \<in> set models"
  using pattern_pref.best_Some [unfolded pattern_pref.best_def] by blast

text \<open>The entry of the wildcard range, in the terms of the selection contract.\<close>

definition wildcard_entry :: "unicode \<Rightarrow> models \<Rightarrow> string \<Rightarrow> model_entry option" where
  "wildcard_entry u models m = (case best_loop (candidate u m) key_better models None of
      Some x \<Rightarrow> snd x | None \<Rightarrow> catch_all models None)"

lemma entry_loop_wildcard:
  assumes "entries_ok models" and "entry_loop u models m (None, None, [], 0) = (ca, be, bk, bs)"
  shows "(if be \<noteq> None then be else ca) = wildcard_entry u models m"
proof -
  let ?r = "best_loop (candidate u m) key_better models None"
  have l: "(ca, be, bk, bs) = (catch_all models None, acc_of ?r)"
    using entry_loop_best [OF assms(1), of u m None None] assms(2) by (simp add: acc_of_def [of None])
  show ?thesis
  proof (cases ?r)
    case None
    with l show ?thesis by (simp add: wildcard_entry_def acc_of_def)
  next
    case (Some x)
    have "x \<in> set models" using best_loop_mem [OF Some] .
    with assms(1) obtain e where "snd x = Some e" by (cases x) (auto simp: entries_ok_def)
    with l Some show ?thesis by (simp add: wildcard_entry_def acc_of_def)
  qed
qed

lemma GetEntry_exact: "exactModelEntry u r1 m = Some en \<Longrightarrow> GetEntry u r1 r2 m = en"
  by (simp add: GetEntry_def)

lemma GetEntry_wildcard:
  "entries_ok r2 \<Longrightarrow> exactModelEntry u r1 m = None \<Longrightarrow> GetEntry u r1 r2 m = wildcard_entry u r2 m"
  using entry_loop_wildcard [of r2 u m] by (auto simp: GetEntry_def split: prod.splits if_splits)

lemma entry_loop_named:
  assumes "entries_ok models" and "entry_loop u models m (None, None, [], 0) = (ca, be, bk, bs)"
  shows "be \<noteq> None \<Longrightarrow> entry_name be \<noteq> []" and "ca \<noteq> None \<Longrightarrow> entry_name ca \<noteq> []"
proof -
  let ?r = "best_loop (candidate u m) key_better models None"
  have l: "(ca, be, bk, bs) = (catch_all models None, acc_of ?r)"
    using entry_loop_best [OF assms(1), of u m None None] assms(2) by (simp add: acc_of_def [of None])
  have named: "(k, en) \<in> set models \<Longrightarrow> entry_name en \<noteq> []" for k en
    using assms(1) by (auto simp: entries_ok_def entry_name_def)
  show "entry_name be \<noteq> []" if "be \<noteq> None"
  proof (cases ?r)
    case None
    with l that show ?thesis by (simp add: acc_of_def)
  next
    case (Some x)
    with l have "be = snd x" by (simp add: acc_of_def)
    moreover have "x \<in> set models" using best_loop_mem [OF Some] .
    ultimately show ?thesis using named [of "fst x" "snd x"] by simp
  qed
  show "ca \<noteq> None \<Longrightarrow> entry_name ca \<noteq> []"
    using l catch_all_mem [of models None] named by auto
qed

lemma GetEntry_cases:
  assumes "entries_ok r1" and "entries_ok r2"
  shows "ResolveModel u r1 r2 m = Some (case GetEntry u r1 r2 m of None \<Rightarrow> m | Some e \<Rightarrow> me_ActualName e)"
    and "HasCapability u r1 r2 m cap = entryHasCapability (GetEntry u r1 r2 m) cap"
proof -
  show "ResolveModel u r1 r2 m = Some (case GetEntry u r1 r2 m of None \<Rightarrow> m | Some e \<Rightarrow> me_ActualName e)"
  proof (cases "exactModelEntry u r1 m")
    case (Some en)
    with exact_entries_ok [OF assms(1) Some] show ?thesis by (auto simp: ResolveModel_def GetEntry_def)
  next
    case None
    obtain ca be bk bs where l: "entry_loop u r2 m (None, None, [], 0) = (ca, be, bk, bs)"
      using prod_cases4 by blast
    have r: "resolve_loop u r2 m ([], [], [], 0) = Some (entry_name ca, entry_name be, bk, bs)"
      using resolve_loop_entry [OF assms(2), of u m None None "[]" 0] l by (simp add: entry_name_def [of None])
    have "be \<noteq> None \<Longrightarrow> entry_name be \<noteq> []" "ca \<noteq> None \<Longrightarrow> entry_name ca \<noteq> []"
      using entry_loop_named [OF assms(2) l] by blast+
    with None l r show ?thesis
      by (auto simp: ResolveModel_def resolve_wildcard_def GetEntry_def entry_name_def split: option.splits)
  qed
  show "HasCapability u r1 r2 m cap = entryHasCapability (GetEntry u r1 r2 m) cap"
    by (auto simp: HasCapability_def GetEntry_def entryHasCapability_def split: option.splits prod.splits)
qed

lemma Reload_ok: "Reload path file = Reloaded models \<Longrightarrow> entries_ok models"
  by (auto simp: Reload_def entries_ok_def [of "[]"] dest!: validate_entries_ok split: if_splits option.splits)

subsection \<open>The order of a range\<close>

text \<open>\<open>walk\<close> of a map: the same entries under the same keys, each visited once, in some order.\<close>

definition walk :: "models \<Rightarrow> models \<Rightarrow> bool" where
  "walk models r \<longleftrightarrow> set r = set models \<and> distinct (map fst r)"

text \<open>
  The map leaves no choice for a name: at most one plain key equals it up to case, and of two
  patterns that match it one is better.
\<close>

definition unambiguous :: "unicode \<Rightarrow> models \<Rightarrow> string \<Rightarrow> bool" where
  "unambiguous u models m \<longleftrightarrow> (\<forall>x \<in> set models. \<forall>y \<in> set models. fst x \<noteq> fst y \<longrightarrow>
     \<not> (\<not> IsPattern (fst x) \<and> EqualFold u (fst x) m \<and> \<not> IsPattern (fst y) \<and> EqualFold u (fst y) m)
     \<and> (candidate u m x \<and> candidate u m y \<longrightarrow> key_better x y \<or> key_better y x))"

lemma walk_ok: "walk models r \<Longrightarrow> entries_ok models \<Longrightarrow> entries_ok r"
  by (simp add: walk_def entries_ok_def)

lemma find_order:
  assumes "set xs = set ys" and "\<And>x y. x \<in> set xs \<Longrightarrow> y \<in> set xs \<Longrightarrow> P x \<Longrightarrow> P y \<Longrightarrow> x = y"
  shows "find P xs = find P ys"
proof (cases "find P xs")
  case None
  with assms(1) show ?thesis by (metis find_None_iff)
next
  case (Some x)
  then have x: "x \<in> set xs" "P x" by (auto simp: find_Some_iff)
  with assms(1) obtain y where y: "find P ys = Some y" by (metis find_None_iff not_Some_eq)
  then have "y \<in> set ys" "P y" by (auto simp: find_Some_iff)
  with assms x y Some show ?thesis by auto
qed

lemma catch_all_map_of:
  "distinct (map fst models) \<Longrightarrow> catch_all models ca = (case map_of models ''*'' of Some e \<Rightarrow> e | None \<Rightarrow> ca)"
proof (induction models arbitrary: ca)
  case (Cons x xs)
  then have "fst x = ''*'' \<Longrightarrow> map_of xs ''*'' = None" by (auto simp: map_of_eq_None_iff)
  with Cons show ?case by (cases x; cases "fst x = ''*''") auto
qed simp

lemma exactModelEntry_order:
  assumes "walk models r" and "walk models r'" and "unambiguous u models m"
  shows "exactModelEntry u r m = exactModelEntry u r' m"
proof -
  from assms(1,2) have w: "set r = set r'" "distinct (map fst r)" "distinct (map fst r')" "set r = set models"
    by (simp_all add: walk_def)
  have e1: "map_of r = map_of r'" using map_of_inject_set [OF w(2,3)] w(1) by blast
  have e2: "find (\<lambda>(key, entry). \<not> IsPattern key \<and> EqualFold u key m) r
      = find (\<lambda>(key, entry). \<not> IsPattern key \<and> EqualFold u key m) r'"
  proof (rule find_order [OF w(1)])
    fix x y assume xy: "x \<in> set r" "y \<in> set r"
      and "case x of (key, entry) \<Rightarrow> \<not> IsPattern key \<and> EqualFold u key m"
      and "case y of (key, entry) \<Rightarrow> \<not> IsPattern key \<and> EqualFold u key m"
    then have "\<not> IsPattern (fst x) \<and> EqualFold u (fst x) m" "\<not> IsPattern (fst y) \<and> EqualFold u (fst y) m"
      by (simp_all add: case_prod_beta)
    moreover from xy assms(3) w(4) have "fst x \<noteq> fst y \<Longrightarrow>
        \<not> (\<not> IsPattern (fst x) \<and> EqualFold u (fst x) m \<and> \<not> IsPattern (fst y) \<and> EqualFold u (fst y) m)"
      unfolding unambiguous_def by blast
    ultimately have "fst x = fst y" by blast
    moreover from w(2) have "inj_on fst (set r)" by (simp add: distinct_map)
    ultimately show "x = y" using xy by (metis inj_onD)
  qed
  show ?thesis unfolding exactModelEntry_def e1 e2 by (rule refl)
qed

lemma wildcard_entry_order:
  assumes "walk models r" and "walk models r'" and "unambiguous u models m"
  shows "wildcard_entry u r m = wildcard_entry u r' m"
proof -
  from assms(1,2) have w: "set r = set r'" "distinct (map fst r)" "distinct (map fst r')" "set r = set models"
    by (simp_all add: walk_def)
  have "best_loop (candidate u m) key_better r None = best_loop (candidate u m) key_better r' None"
  proof (rule pattern_pref.best_order_irrelevant [unfolded pattern_pref.best_def, OF w(1)])
    fix x y assume xy: "x \<in> set r" "y \<in> set r" "candidate u m x" "candidate u m y" "x \<noteq> y"
    from w(2) have "inj_on fst (set r)" by (simp add: distinct_map)
    with xy have "fst x \<noteq> fst y" by (metis inj_onD)
    with xy(1-4) w(4) assms(3) show "key_better x y \<or> key_better y x" unfolding unambiguous_def by blast
  qed
  moreover have "catch_all r None = catch_all r' None"
    using catch_all_map_of [OF w(2)] catch_all_map_of [OF w(3)] map_of_inject_set [OF w(2,3)] w(1) by simp
  ultimately show ?thesis by (simp only: wildcard_entry_def)
qed

lemma GetEntry_order:
  assumes "entries_ok models" and "unambiguous u models m"
    and "walk models r1" and "walk models r2" and "walk models r1'" and "walk models r2'"
  shows "GetEntry u r1 r2 m = GetEntry u r1' r2' m"
proof (cases "exactModelEntry u r1 m")
  case (Some en)
  with exactModelEntry_order [OF assms(3,5,2)] have "exactModelEntry u r1' m = Some en" by simp
  with Some show ?thesis by (simp add: GetEntry_exact)
next
  case None
  with exactModelEntry_order [OF assms(3,5,2)] have n: "exactModelEntry u r1' m = None" by simp
  show ?thesis
    unfolding GetEntry_wildcard [OF walk_ok [OF assms(4,1)] None] GetEntry_wildcard [OF walk_ok [OF assms(6,1)] n]
    by (rule wildcard_entry_order [OF assms(4,6,2)])
qed

lemma wildcard_entry_mem: "wildcard_entry u models m = Some e \<Longrightarrow> \<exists>k. (k, Some e) \<in> set models"
proof (cases "best_loop (candidate u m) key_better models None")
  case (Some x)
  moreover assume "wildcard_entry u models m = Some e"
  ultimately show ?thesis using best_loop_mem [OF Some] by (cases x) (auto simp: wildcard_entry_def)
next
  case n: None
  assume "wildcard_entry u models m = Some e"
  with n have "catch_all models None = Some e" by (simp add: wildcard_entry_def)
  from catch_all_mem [OF this] show ?thesis by auto
qed

lemma GetEntry_mem:
  assumes "entries_ok r2" and "GetEntry u r1 r2 m = Some e"
  shows "\<exists>k. (k, Some e) \<in> set r1 \<union> set r2"
proof (cases "exactModelEntry u r1 m")
  case (Some en)
  with assms(2) exactModelEntry_mem [OF Some] show ?thesis by (auto simp: GetEntry_exact)
next
  case None
  from wildcard_entry_mem [of u r2 m e] assms(2) show ?thesis
    unfolding GetEntry_wildcard [OF assms(1) None] by auto
qed

text \<open>C25. After a successful reload the three lookups agree on one entry, although each of their loops
  visits the map in an order of its own: if for the name at most one plain key matches up to case
  and no two matching patterns tie, \<open>Resolve\<close> does not panic and gives the actual name of the entry
  \<open>GetEntry\<close> finds, or the client's name where there is none, \<open>HasCapability\<close> answers from that same
  entry, and its capabilities are known ones.\<close>

theorem lookups_agree:
  assumes "Reload path file = Reloaded models" and "unambiguous u models m"
    and "walk models r1" and "walk models r2" and "walk models g1" and "walk models g2"
    and "walk models h1" and "walk models h2"
  shows "ResolveModel u r1 r2 m = Some (case GetEntry u g1 g2 m of None \<Rightarrow> m | Some e \<Rightarrow> me_ActualName e)
    \<and> (HasCapability u h1 h2 m cap \<longleftrightarrow> (\<exists>e. GetEntry u g1 g2 m = Some e \<and> cap \<in> set (me_Capabilities e)))
    \<and> (\<forall>e. GetEntry u g1 g2 m = Some e \<longrightarrow> set (me_Capabilities e) \<subseteq> set KnownCapabilities)"
proof -
  note ok = Reload_ok [OF assms(1)]
  have "set (me_Capabilities e) \<subseteq> set KnownCapabilities" if g: "GetEntry u g1 g2 m = Some e" for e
  proof -
    obtain k where "(k, Some e) \<in> set models"
      using GetEntry_mem [OF walk_ok [OF assms(6) ok] g] assms(5,6) by (auto simp: walk_def)
    with ok show ?thesis by (auto simp: entries_ok_def)
  qed
  moreover have "GetEntry u r1 r2 m = GetEntry u g1 g2 m" "GetEntry u h1 h2 m = GetEntry u g1 g2 m"
    by (rule GetEntry_order [OF ok assms(2)]; fact)+
  moreover note GetEntry_cases(1) [OF assms(3,4) [THEN walk_ok [OF _ ok]], of u m]
    GetEntry_cases(2) [OF assms(7,8) [THEN walk_ok [OF _ ok]], of u m cap]
  ultimately show ?thesis by (auto simp: entryHasCapability_def split: option.splits)
qed

definition demo_models :: models where
  "demo_models = [(''*'', Some \<lparr>me_ActualName = ''any'', me_Capabilities = []\<rparr>),
     (''claude-*'', Some \<lparr>me_ActualName = ''claude'', me_Capabilities = [''vision'']\<rparr>),
     (''claude-sonnet-*'', Some \<lparr>me_ActualName = ''sonnet'', me_Capabilities = [''streaming'']\<rparr>)]"

lemma demo_models_unambiguous: "unambiguous demo_unicode demo_models ''Claude-Sonnet-4''"
proof -
  have "\<not> EqualFold demo_unicode ''*'' ''Claude-Sonnet-4''" "IsPattern ''claude-*''" "IsPattern ''claude-sonnet-*''"
    "better_key ''claude-sonnet-*'' ''claude-*''" by code_simp+
  then show ?thesis by (auto simp: unambiguous_def demo_models_def)
qed

lemma lookups_agree_witness:
  "Reload ''m.json'' (Some demo_models) = Reloaded demo_models
   \<and> ResolveModel demo_unicode (rev demo_models) demo_models ''Claude-Sonnet-4'' = Some ''sonnet''
   \<and> \<not> HasCapability demo_unicode demo_models (rev demo_models) ''Claude-Sonnet-4'' ''vision''"
proof -
  have r: "Reload ''m.json'' (Some demo_models) = Reloaded demo_models" by code_simp
  have g: "GetEntry demo_unicode demo_models demo_models ''Claude-Sonnet-4''
      = Some \<lparr>me_ActualName = ''sonnet'', me_Capabilities = [''streaming'']\<rparr>" by code_simp
  have w: "walk demo_models demo_models" "walk demo_models (rev demo_models)"
    unfolding walk_def set_rev rev_map [symmetric] distinct_rev by (simp_all add: demo_models_def)
  from lookups_agree [OF r demo_models_unambiguous w(2,1,1,1,1,2), of "''vision''"] r g show ?thesis by simp
qed

text \<open>Wildcard resolution picks a most specific pattern: without an exact key, \<open>GetEntry\<close> gives the
  entry of a matching pattern that no other matching pattern beats in specificity, then length;
  the catch-all answers only when no other pattern matches.\<close>

lemma most_specific_wins:
  assumes "Reload path file = Reloaded models" and "exactModelEntry u r m = None"
  shows "(\<exists>k e. (k, Some e) \<in> set models \<and> candidate u m (k, Some e) \<and> GetEntry u r models m = Some e
        \<and> (\<forall>x \<in> set models. candidate u m x \<longrightarrow> \<not> key_better x (k, Some e)))
    \<or> (\<forall>x \<in> set models. \<not> candidate u m x) \<and> GetEntry u r models m = catch_all models None"
proof -
  note ok = Reload_ok [OF assms(1)]
  let ?r = "best_loop (candidate u m) key_better models None"
  note g = GetEntry_wildcard [OF ok assms(2), unfolded wildcard_entry_def]
  show ?thesis
  proof (cases ?r)
    case None
    then have "\<forall>x \<in> set models. \<not> candidate u m x"
      using pattern_pref.best_None [unfolded pattern_pref.best_def] by blast
    with None show ?thesis by (auto simp: g)
  next
    case (Some x)
    with ok obtain k e where x: "x = (k, Some e)" using best_loop_mem [OF Some] by (auto simp: entries_ok_def)
    note b = pattern_pref.best_Some [unfolded pattern_pref.best_def, OF Some]
    have "GetEntry u r models m = Some e" using Some x by (simp add: g)
    with b show ?thesis unfolding x by auto
  qed
qed

text \<open>The tie the selection leaves open: two matching patterns of equal specificity and equal
  length answer in iteration order, so the resolved model then depends on the order in which Go
  walks the map.\<close>

lemma tie_first_wins:
  assumes "IsPattern k1" and "IsPattern k2" and "Match u k1 m" and "Match u k2 m"
    and "k1 \<noteq> ''*''" and "k2 \<noteq> ''*''"
    and "Specificity k1 = Specificity k2" and "length k1 = length k2"
    and "me_ActualName e1 \<noteq> []" and "exactModelEntry u r m = None"
  shows "ResolveModel u r [(k1, Some e1), (k2, Some e2)] m = Some (me_ActualName e1)"
  using assms IsPattern_nonempty [OF assms(1)]
  by (auto simp: ResolveModel_def resolve_wildcard_def Let_def)

end
