(* ===== verification/Runtime_Blocker.thy ===== *)
theory Runtime_Blocker
  imports Go_Strings
begin

text \<open>
  Short-lived account blocks: \<open>internal/biz/runtime_blocker.go\<close>, and their client, the account pool
  of \<open>internal/biz/account_pool.go\<close>. The Go interface \<open>RuntimeBlocker\<close> is the locale
  \<open>runtime_blocker\<close>; the pool's lemmas are proved from its laws and reach the code through the
  interpretation on the in-memory blocker. Receivers are not nil; \<open>clock\<close> is what \<open>time.Now()\<close>
  returns in the call. The Redis-backed blocker is modelled up to the replies of the Redis client,
  which are arguments; background gauge reporting is left out.
\<close>

record runtime_block =
  rb_AccountID :: int64
  rb_Until :: gotime
  rb_Reason :: string

record blocker_metrics =
  bm_Blocks :: int64
  bm_Hits :: int64
  bm_Expired :: int64
  bm_Clears :: int64
  bm_ActiveSize :: int64

definition inc64 :: "int64 \<Rightarrow> int64" where
  "inc64 x = wrap64 (x + 1)"

definition now_or_clock :: "gotime \<Rightarrow> gotime \<Rightarrow> gotime" where
  "now_or_clock clock now = (if now = 0 then clock else now)"

subsection \<open>The in-memory blocker\<close>

record memory_blocker =
  mb_blocks :: "(int64 \<times> runtime_block) list"
  mb_blockCount :: int64
  mb_hitCount :: int64
  mb_expireCount :: int64
  mb_clearCount :: int64

definition NewMemoryRuntimeBlocker :: memory_blocker where
  "NewMemoryRuntimeBlocker = \<lparr>mb_blocks = [], mb_blockCount = 0, mb_hitCount = 0,
     mb_expireCount = 0, mb_clearCount = 0\<rparr>"

definition delete_key :: "'k \<Rightarrow> ('k \<times> 'v) list \<Rightarrow> ('k \<times> 'v) list" where
  "delete_key k es = filter (\<lambda>e. fst e \<noteq> k) es"

definition mem_Block :: "memory_blocker \<Rightarrow> int64 \<Rightarrow> gotime \<Rightarrow> string \<Rightarrow> memory_blocker" where
  "mem_Block b accountID until reason =
     (if accountID \<le> 0 \<or> until = 0 then b
      else b\<lparr>mb_blocks := put accountID \<lparr>rb_AccountID = accountID, rb_Until = until, rb_Reason = reason\<rparr> (mb_blocks b),
             mb_blockCount := inc64 (mb_blockCount b)\<rparr>)"

definition mem_Clear :: "memory_blocker \<Rightarrow> int64 \<Rightarrow> memory_blocker" where
  "mem_Clear b accountID =
     (if accountID \<le> 0 then b
      else b\<lparr>mb_blocks := delete_key accountID (mb_blocks b), mb_clearCount := inc64 (mb_clearCount b)\<rparr>)"

definition mem_IsBlocked ::
  "gotime \<Rightarrow> memory_blocker \<Rightarrow> int64 \<Rightarrow> gotime \<Rightarrow> memory_blocker \<times> runtime_block option" where
  "mem_IsBlocked clock b accountID now0 =
     (if accountID \<le> 0 then (b, None)
      else let now = now_or_clock clock now0 in
        case map_of (mb_blocks b) accountID of
          None \<Rightarrow> (b, None)
        | Some block \<Rightarrow>
            if \<not> now < rb_Until block
            then (b\<lparr>mb_blocks := delete_key accountID (mb_blocks b), mb_expireCount := inc64 (mb_expireCount b)\<rparr>, None)
            else (b\<lparr>mb_hitCount := inc64 (mb_hitCount b)\<rparr>, Some block))"

definition mem_Metrics :: "memory_blocker \<Rightarrow> blocker_metrics" where
  "mem_Metrics b = \<lparr>bm_Blocks = mb_blockCount b, bm_Hits = mb_hitCount b, bm_Expired = mb_expireCount b,
     bm_Clears = mb_clearCount b, bm_ActiveSize = int (length (mb_blocks b))\<rparr>"

subsection \<open>The Redis-backed blocker\<close>

text \<open>\<open>UnixMilli\<close> of a time counted from Go's zero time, and back.\<close>

definition unix_epoch_ns :: int where
  "unix_epoch_ns = 62135596800 * 1000000000"

definition UnixMilli :: "gotime \<Rightarrow> int64" where
  "UnixMilli t = (t - unix_epoch_ns) div 1000000"

definition of_UnixMilli :: "int64 \<Rightarrow> gotime" where
  "of_UnixMilli ms = unix_epoch_ns + ms * 1000000"

definition encodeRuntimeBlockValue :: "gotime \<Rightarrow> string \<Rightarrow> string" where
  "encodeRuntimeBlockValue until reason = FormatInt (UnixMilli until) @ ''|'' @ reason"

definition decodeRuntimeBlockValue :: "string \<Rightarrow> gotime \<times> string" where
  "decodeRuntimeBlockValue val = (case cut_at (CHR ''|'') val of (head, reason, found) \<Rightarrow>
     if \<not> found then (0, val)
     else case ParseInt head of None \<Rightarrow> (0, reason) | Some ms \<Rightarrow> (of_UnixMilli ms, reason))"

datatype redis_reply = Reply string | RedisNil | RedisErr

record redis_blocker =
  rdb_keyPrefix :: string
  rdb_blockCount :: int64
  rdb_hitCount :: int64
  rdb_clearCount :: int64
  rdb_errorCount :: int64

definition redis_key :: "redis_blocker \<Rightarrow> int64 \<Rightarrow> string" where
  "redis_key b accountID = rdb_keyPrefix b @ FormatInt accountID"

text \<open>
  \<open>Block\<close> decides on a \<open>SET\<close> command: key, value and time to live; what the client answers is the
  argument \<open>set_ok\<close>. The result is the new state, the command sent and whether an error is returned.
\<close>

definition redis_Block :: "gotime \<Rightarrow> bool \<Rightarrow> redis_blocker \<Rightarrow> int64 \<Rightarrow> gotime \<Rightarrow> string
    \<Rightarrow> redis_blocker \<times> (string \<times> string \<times> int) option \<times> bool" where
  "redis_Block clock set_ok b accountID until reason =
     (if accountID \<le> 0 \<or> until = 0 then (b, None, False)
      else let ttl = until - clock in
        if ttl \<le> 0 then (b, None, False)
        else let cmd = (redis_key b accountID, encodeRuntimeBlockValue until reason, ttl) in
          if \<not> set_ok then (b\<lparr>rdb_errorCount := inc64 (rdb_errorCount b)\<rparr>, Some cmd, True)
          else (b\<lparr>rdb_blockCount := inc64 (rdb_blockCount b)\<rparr>, Some cmd, False))"

definition redis_Clear :: "bool \<Rightarrow> redis_blocker \<Rightarrow> int64 \<Rightarrow> redis_blocker \<times> string option \<times> bool" where
  "redis_Clear del_ok b accountID =
     (if accountID \<le> 0 then (b, None, False)
      else if \<not> del_ok then (b\<lparr>rdb_errorCount := inc64 (rdb_errorCount b)\<rparr>, Some (redis_key b accountID), True)
      else (b\<lparr>rdb_clearCount := inc64 (rdb_clearCount b)\<rparr>, Some (redis_key b accountID), False))"

definition redis_IsBlocked :: "gotime \<Rightarrow> redis_reply \<Rightarrow> redis_blocker \<Rightarrow> int64 \<Rightarrow> gotime
    \<Rightarrow> redis_blocker \<times> runtime_block option" where
  "redis_IsBlocked clock reply b accountID now0 =
     (if accountID \<le> 0 then (b, None)
      else let now = now_or_clock clock now0 in
        case reply of
          RedisErr \<Rightarrow> (b\<lparr>rdb_errorCount := inc64 (rdb_errorCount b)\<rparr>, None)
        | RedisNil \<Rightarrow> (b, None)
        | Reply val \<Rightarrow> (case decodeRuntimeBlockValue val of (until, reason) \<Rightarrow>
            if until = 0 \<or> \<not> now < until then (b, None)
            else (b\<lparr>rdb_hitCount := inc64 (rdb_hitCount b)\<rparr>,
                  Some \<lparr>rb_AccountID = accountID, rb_Until = until, rb_Reason = reason\<rparr>)))"

definition redis_Metrics :: "redis_blocker \<Rightarrow> blocker_metrics" where
  "redis_Metrics b = \<lparr>bm_Blocks = rdb_blockCount b, bm_Hits = rdb_hitCount b, bm_Expired = 0,
     bm_Clears = rdb_clearCount b, bm_ActiveSize = 0\<rparr>"

subsection \<open>The account pool\<close>

record 'b account_pool =
  ap_blocker :: 'b
  ap_checked :: int64
  ap_runtimeBlocked :: int64
  ap_allowed :: int64

text \<open>The account is its identifier; \<open>None\<close> is a nil account.\<close>

definition IsSchedulable :: "('b \<Rightarrow> int64 \<Rightarrow> gotime \<Rightarrow> 'b \<times> runtime_block option) \<Rightarrow> gotime \<Rightarrow>
    'b account_pool \<Rightarrow> int64 option \<Rightarrow> gotime \<Rightarrow> 'b account_pool \<times> bool" where
  "IsSchedulable is_blocked clock p account now0 = (case account of
     None \<Rightarrow> (p, False)
   | Some i \<Rightarrow>
       if i \<le> 0 then (p, False)
       else let p1 = p\<lparr>ap_checked := inc64 (ap_checked p)\<rparr>; now = now_or_clock clock now0 in
         case is_blocked (ap_blocker p1) i now of (b, r) \<Rightarrow>
           let p2 = p1\<lparr>ap_blocker := b\<rparr> in
             if r \<noteq> None then (p2\<lparr>ap_runtimeBlocked := inc64 (ap_runtimeBlocked p2)\<rparr>, False)
             else (p2\<lparr>ap_allowed := inc64 (ap_allowed p2)\<rparr>, True))"

lemma IsSchedulable_blocker:
  "ap_blocker (fst (IsSchedulable isb clock p acc now)) = (case acc of None \<Rightarrow> ap_blocker p
     | Some i \<Rightarrow> if i \<le> 0 then ap_blocker p else fst (isb (ap_blocker p) i (now_or_clock clock now)))"
  by (simp add: IsSchedulable_def Let_def case_prod_beta split: option.split)

lemma IsSchedulable_result:
  "snd (IsSchedulable isb clock p acc now) = (case acc of None \<Rightarrow> False
     | Some i \<Rightarrow> 0 < i \<and> snd (isb (ap_blocker p) i (now_or_clock clock now)) = None)"
  by (auto simp: IsSchedulable_def Let_def case_prod_beta split: option.split)

subsection \<open>The contract of a blocker\<close>

locale runtime_blocker =
  fixes block :: "'b \<Rightarrow> int64 \<Rightarrow> gotime \<Rightarrow> string \<Rightarrow> 'b"
    and clear :: "'b \<Rightarrow> int64 \<Rightarrow> 'b"
    and is_blocked :: "'b \<Rightarrow> int64 \<Rightarrow> gotime \<Rightarrow> 'b \<times> runtime_block option"
  assumes blocked_after_block: "0 < a \<Longrightarrow> until \<noteq> 0 \<Longrightarrow> now \<noteq> 0 \<Longrightarrow>
      snd (is_blocked (block s a until r) b now) \<noteq> None
        \<longleftrightarrow> (if b = a then now < until else snd (is_blocked s b now) \<noteq> None)"
    and blocked_after_clear: "0 < a \<Longrightarrow> now \<noteq> 0 \<Longrightarrow>
      snd (is_blocked (clear s a) b now) \<noteq> None \<longleftrightarrow> b \<noteq> a \<and> snd (is_blocked s b now) \<noteq> None"
    and query_stable: "0 < now \<Longrightarrow> now \<le> now' \<Longrightarrow>
      snd (is_blocked (fst (is_blocked s a now)) b now') \<noteq> None \<longleftrightarrow> snd (is_blocked s b now') \<noteq> None"
begin

text \<open>The pool schedules an account exactly when its blocker has no block for it.\<close>

lemma schedulable_iff:
  "0 < now \<Longrightarrow> snd (IsSchedulable is_blocked clock p (Some i) now)
     \<longleftrightarrow> 0 < i \<and> snd (is_blocked (ap_blocker p) i now) = None"
  by (simp add: IsSchedulable_result now_or_clock_def)

lemma blocker_after_check:
  "0 < now \<Longrightarrow> now \<le> now' \<Longrightarrow>
   snd (is_blocked (ap_blocker (fst (IsSchedulable is_blocked clock p acc now))) b now') \<noteq> None
     \<longleftrightarrow> snd (is_blocked (ap_blocker p) b now') \<noteq> None"
  using query_stable [of now now' "ap_blocker p"]
  by (simp add: IsSchedulable_blocker now_or_clock_def split: option.split)

lemma schedulable_after_block:
  assumes "0 < a" and "until \<noteq> 0" and "0 < now"
  shows "snd (IsSchedulable is_blocked clock (p\<lparr>ap_blocker := block (ap_blocker p) a until r\<rparr>) (Some i) now)
    \<longleftrightarrow> 0 < i \<and> (if i = a then until \<le> now else snd (is_blocked (ap_blocker p) i now) = None)"
  using schedulable_iff [OF assms(3), of clock "p\<lparr>ap_blocker := block (ap_blocker p) a until r\<rparr>" i]
    blocked_after_block [OF assms(1,2), of now "ap_blocker p" r i] assms(3)
  by auto

lemma schedulable_after_clear:
  assumes "0 < a" and "0 < now"
  shows "snd (IsSchedulable is_blocked clock (p\<lparr>ap_blocker := clear (ap_blocker p) a\<rparr>) (Some i) now)
    \<longleftrightarrow> 0 < i \<and> (i = a \<or> snd (is_blocked (ap_blocker p) i now) = None)"
  using schedulable_iff [OF assms(2), of clock "p\<lparr>ap_blocker := clear (ap_blocker p) a\<rparr>" i]
    blocked_after_clear [OF assms(1), of now "ap_blocker p" i] assms(2)
  by auto

text \<open>A check never changes the answer of a later check.\<close>

lemma check_stable:
  assumes "0 < now" and "now \<le> now'"
  shows "snd (IsSchedulable is_blocked clock' (fst (IsSchedulable is_blocked clock p acc now)) (Some i) now')
    = snd (IsSchedulable is_blocked clock' p (Some i) now')"
proof -
  have "0 < now'" using assms by simp
  then show ?thesis
    using schedulable_iff [of now' clock'] blocker_after_check [OF assms, of clock p acc i] by auto
qed

end

lemma map_of_delete_key: "map_of (delete_key k es) x = (if x = k then None else map_of es x)"
  by (induction es) (auto simp: delete_key_def)

lemma mem_blocked_iff:
  "now \<noteq> 0 \<Longrightarrow> snd (mem_IsBlocked clock b a now) \<noteq> None \<longleftrightarrow>
     0 < a \<and> (\<exists>block. map_of (mb_blocks b) a = Some block \<and> now < rb_Until block)"
  by (auto simp: mem_IsBlocked_def now_or_clock_def Let_def split: option.splits)

lemma mem_IsBlocked_blocks:
  "mb_blocks (fst (mem_IsBlocked clock b a now)) =
     (if 0 < a \<and> (\<exists>block. map_of (mb_blocks b) a = Some block \<and> \<not> now_or_clock clock now < rb_Until block)
      then delete_key a (mb_blocks b) else mb_blocks b)"
  by (auto simp: mem_IsBlocked_def Let_def split: option.splits)

interpretation mem: runtime_blocker mem_Block mem_Clear "mem_IsBlocked clock" for clock
proof (unfold_locales, goal_cases)
  case (1 a until now s r b)
  then show ?case unfolding mem_blocked_iff [OF 1(3)] by (auto simp: mem_Block_def)
next
  case (2 a now s b)
  then show ?case unfolding mem_blocked_iff [OF 2(2)] by (auto simp: mem_Clear_def map_of_delete_key)
next
  case (3 now now' s a b)
  then have "now' \<noteq> 0" by simp
  with 3 show ?case unfolding mem_blocked_iff [OF \<open>now' \<noteq> 0\<close>]
    by (auto simp: mem_IsBlocked_blocks map_of_delete_key now_or_clock_def)
qed

text \<open>C22. A blocked account comes back exactly at its deadline: after \<open>Block\<close> the account pool
  schedules that account from the deadline on and not before, every other account as before, and
  any check made in between (which may prune expired blocks) leaves all later answers as they
  were.\<close>

theorem blocked_until_deadline:
  assumes "0 < a" and "until \<noteq> 0" and "0 < now" and "now \<le> now'"
  shows "snd (IsSchedulable (mem_IsBlocked clock) clock
      (fst (IsSchedulable (mem_IsBlocked clock) clock (p\<lparr>ap_blocker := mem_Block (ap_blocker p) a until r\<rparr>) acc now))
      (Some i) now')
    \<longleftrightarrow> 0 < i \<and> (if i = a then until \<le> now' else snd (IsSchedulable (mem_IsBlocked clock) clock p (Some i) now'))"
proof -
  have "0 < now'" using assms by simp
  note n = this
  let ?p = "p\<lparr>ap_blocker := mem_Block (ap_blocker p) a until r\<rparr>"
  have "snd (IsSchedulable (mem_IsBlocked clock) clock
      (fst (IsSchedulable (mem_IsBlocked clock) clock ?p acc now)) (Some i) now')
    = snd (IsSchedulable (mem_IsBlocked clock) clock ?p (Some i) now')"
    by (rule mem.check_stable [OF assms(3,4)])
  also have "\<dots> \<longleftrightarrow> 0 < i \<and> (if i = a then until \<le> now' else snd (mem_IsBlocked clock (ap_blocker p) i now') = None)"
    by (rule mem.schedulable_after_block [OF assms(1,2) n])
  finally show ?thesis using mem.schedulable_iff [OF n] by auto
qed

definition new_pool :: "memory_blocker account_pool" where
  "new_pool = \<lparr>ap_blocker = NewMemoryRuntimeBlocker, ap_checked = 0, ap_runtimeBlocked = 0, ap_allowed = 0\<rparr>"

lemma blocked_until_deadline_witness:
  "let p1 = new_pool\<lparr>ap_blocker := mem_Block (ap_blocker new_pool) 3 100 ''429''\<rparr>;
       p2 = fst (IsSchedulable (mem_IsBlocked 7) 7 p1 (Some 3) 50)
   in \<not> snd (IsSchedulable (mem_IsBlocked 7) 7 p2 (Some 3) 99) \<and> snd (IsSchedulable (mem_IsBlocked 7) 7 p2 (Some 3) 100)"
  using blocked_until_deadline [of 3 100 50 99 7 new_pool "''429''" "Some 3" 3]
    blocked_until_deadline [of 3 100 50 100 7 new_pool "''429''" "Some 3" 3]
  by (simp add: Let_def)

text \<open>Every check is counted once, as blocked or as allowed.\<close>

definition pool_counted :: "'b account_pool \<Rightarrow> bool" where
  "pool_counted p \<longleftrightarrow> ap_checked p = wrap64 (ap_runtimeBlocked p + ap_allowed p)"

lemma wrap64_add: "wrap64 (wrap64 x + y) = wrap64 (x + y)"
proof -
  have "(wrap64 x + y + 9223372036854775808) mod 18446744073709551616
      = ((x + 9223372036854775808) mod 18446744073709551616 + y) mod 18446744073709551616"
    by (simp add: wrap64_def)
  also have "\<dots> = (x + y + 9223372036854775808) mod 18446744073709551616"
    using mod_add_left_eq [of "x + 9223372036854775808" 18446744073709551616 y]
    by (simp only: add.assoc add.commute [of y])
  finally show ?thesis by (simp add: wrap64_def)
qed

lemma inc64_wrap_add:
  "wrap64 (inc64 x + y) = inc64 (wrap64 (x + y))" "wrap64 (x + inc64 y) = inc64 (wrap64 (x + y))"
proof -
  show l: "wrap64 (inc64 x + y) = inc64 (wrap64 (x + y))" for x y
    unfolding inc64_def wrap64_add by (simp only: add.assoc add.commute [of y])
  from l [of y x] show "wrap64 (x + inc64 y) = inc64 (wrap64 (x + y))" by (simp only: add.commute)
qed

lemma IsSchedulable_counted: "pool_counted p \<Longrightarrow> pool_counted (fst (IsSchedulable isb clock p acc now))"
  by (simp add: pool_counted_def IsSchedulable_def Let_def case_prod_beta inc64_wrap_add split: option.split)

text \<open>The Redis value of a block survives its encoding up to the millisecond, so a replica that
  reads what another wrote sees the account blocked exactly until the deadline cut to
  milliseconds, with the same reason; a missing key or a Redis failure never blocks an account.\<close>

theorem redis_block_roundtrip:
  assumes "redis_Block clock True b a until reason = (b', Some (key, val, ttl), False)"
    and "in_int64 (UnixMilli until)" and "0 < now" and "of_UnixMilli (UnixMilli until) \<noteq> 0"
  shows "key = redis_key b a \<and> 0 < ttl
    \<and> (snd (redis_IsBlocked clock' (Reply val) b'' a now) =
        (if now < of_UnixMilli (UnixMilli until)
         then Some \<lparr>rb_AccountID = a, rb_Until = of_UnixMilli (UnixMilli until), rb_Reason = reason\<rparr> else None))
    \<and> until - 1000000 < of_UnixMilli (UnixMilli until) \<and> of_UnixMilli (UnixMilli until) \<le> until
    \<and> snd (redis_IsBlocked clock' RedisErr b'' a now) = None
    \<and> snd (redis_IsBlocked clock' RedisNil b'' a now) = None"
proof -
  have val: "val = encodeRuntimeBlockValue until reason" "key = redis_key b a" "0 < ttl" "0 < a"
    using assms(1) by (auto simp: redis_Block_def Let_def split: if_splits)
  have "CHR ''|'' \<notin> set (FormatInt (UnixMilli until))"
    using FormatInt_chars [of "CHR ''|''"] by (auto simp: is_digit_def)
  then have dec: "decodeRuntimeBlockValue val = (of_UnixMilli (UnixMilli until), reason)"
    using ParseInt_FormatInt [OF assms(2)]
    by (simp add: decodeRuntimeBlockValue_def val(1) encodeRuntimeBlockValue_def cut_at_append)
  have "until - 1000000 < of_UnixMilli (UnixMilli until) \<and> of_UnixMilli (UnixMilli until) \<le> until"
    unfolding of_UnixMilli_def UnixMilli_def
    using div_mult_mod_eq [of "until - unix_epoch_ns" 1000000] pos_mod_bound [of 1000000 "until - unix_epoch_ns"]
      pos_mod_sign [of 1000000 "until - unix_epoch_ns"] by linarith
  then show ?thesis
    using val(2-) assms(3,4) by (simp add: redis_IsBlocked_def dec now_or_clock_def Let_def)
qed

lemma redis_block_roundtrip_witness:
  "snd (redis_IsBlocked 0 (Reply (encodeRuntimeBlockValue (of_UnixMilli 1500 + 7) ''429|x''))
       \<lparr>rdb_keyPrefix = ''k:'', rdb_blockCount = 0, rdb_hitCount = 0, rdb_clearCount = 0, rdb_errorCount = 0\<rparr>
       3 (of_UnixMilli 1500 - 1))
     = Some \<lparr>rb_AccountID = 3, rb_Until = of_UnixMilli 1500, rb_Reason = ''429|x''\<rparr>"
proof -
  let ?b = "\<lparr>rdb_keyPrefix = ''k:'', rdb_blockCount = 0, rdb_hitCount = 0, rdb_clearCount = 0, rdb_errorCount = 0\<rparr>"
  let ?u = "of_UnixMilli 1500 + 7"
  obtain b' where b': "redis_Block (of_UnixMilli 1000) True ?b 3 ?u ''429|x''
      = (b', Some (redis_key ?b 3, encodeRuntimeBlockValue ?u ''429|x'', 500000007), False)"
    by (simp add: redis_Block_def Let_def of_UnixMilli_def unix_epoch_ns_def)
  have m: "UnixMilli ?u = 1500" by (simp add: UnixMilli_def of_UnixMilli_def)
  have p: "in_int64 (UnixMilli ?u)" "0 < of_UnixMilli 1500 - 1" "of_UnixMilli (UnixMilli ?u) \<noteq> 0"
    unfolding m by (simp_all add: in_int64_def int_limits of_UnixMilli_def unix_epoch_ns_def)
  from redis_block_roundtrip [OF b' p, of 0 ?b] show ?thesis unfolding m by simp
qed

end
