(* ===== verification/Account_Limits.thy ===== *)
theory Account_Limits
  imports Runtime_Blocker
begin

text \<open>
  Admission limits of the relay: in-flight requests per account
  (\<open>internal/biz/account_concurrency.go\<close>), requests per rolling minute
  (\<open>internal/biz/account_rpm.go\<close>) and the shared retry budget (\<open>internal/biz/retry_budget.go\<close>).
  A release function handed out by the concurrency limiter is a handle: it remembers its account
  and whether its \<open>sync.Once\<close> has fired. Acquisitions and releases of concurrent requests
  interleave as the steps of \<open>conc_step\<close>, each atomic under the mutex. The Redis limiters are
  modelled up to the reply of the script they send, which is an argument; on an error they fall
  back to the limiters of this theory.
\<close>

subsection \<open>Concurrency\<close>

type_synonym inflight = "(int64 \<times> int) list"

definition inflight_of :: "inflight \<Rightarrow> int64 \<Rightarrow> int" where
  "inflight_of m a = (case map_of m a of None \<Rightarrow> 0 | Some n \<Rightarrow> n)"

text \<open>What a release function holds: nothing (unlimited), or a slot of an account.\<close>

datatype release = NoRelease | Release int64

definition conc_TryAcquire :: "inflight \<Rightarrow> int64 \<Rightarrow> int \<Rightarrow> inflight \<times> release option" where
  "conc_TryAcquire l accountID limit =
     (if limit \<le> 0 \<or> accountID \<le> 0 then (l, Some NoRelease)
      else if inflight_of l accountID \<ge> limit then (l, None)
      else (put accountID (inflight_of l accountID + 1) l, Some (Release accountID)))"

text \<open>The body of the release function, run at most once.\<close>

definition release_slot :: "inflight \<Rightarrow> int64 \<Rightarrow> inflight" where
  "release_slot l accountID =
     (if inflight_of l accountID \<le> 1 then delete_key accountID l
      else put accountID (inflight_of l accountID - 1) l)"

definition Inflight :: "inflight \<Rightarrow> int64 \<Rightarrow> int" where
  "Inflight l a = inflight_of l a"

text \<open>The limiter and the handles given out, each with its account and whether it has been called.\<close>

record conc_state =
  cs_inflight :: inflight
  cs_handles :: "(release \<times> bool) list"

definition new_conc :: conc_state where
  "new_conc = \<lparr>cs_inflight = [], cs_handles = []\<rparr>"

definition do_acquire :: "conc_state \<Rightarrow> int64 \<Rightarrow> int \<Rightarrow> conc_state" where
  "do_acquire s a limit = (case conc_TryAcquire (cs_inflight s) a limit of
     (l, None) \<Rightarrow> s\<lparr>cs_inflight := l\<rparr>
   | (l, Some r) \<Rightarrow> s\<lparr>cs_inflight := l, cs_handles := cs_handles s @ [(r, False)]\<rparr>)"

definition do_release :: "conc_state \<Rightarrow> nat \<Rightarrow> conc_state" where
  "do_release s i =
     (if i < length (cs_handles s) then
        (case cs_handles s ! i of
           (r, done) \<Rightarrow>
             if done then s
             else (let s' = s\<lparr>cs_handles := (cs_handles s)[i := (r, True)]\<rparr> in
               case r of NoRelease \<Rightarrow> s' | Release a \<Rightarrow> s'\<lparr>cs_inflight := release_slot (cs_inflight s) a\<rparr>))
      else s)"

inductive conc_step :: "conc_state \<Rightarrow> conc_state \<Rightarrow> bool" where
  step_acquire: "conc_step s (do_acquire s a limit)"
| step_release: "conc_step s (do_release s i)"

inductive_cases conc_stepE: "conc_step s s'"

inductive conc_reach :: "conc_state \<Rightarrow> bool" where
  reach_new: "conc_reach new_conc"
| reach_step: "conc_reach s \<Longrightarrow> conc_step s s' \<Longrightarrow> conc_reach s'"

definition held :: "conc_state \<Rightarrow> int64 \<Rightarrow> nat" where
  "held s a = length (filter (\<lambda>h. h = (Release a, False)) (cs_handles s))"

definition conc_inv :: "conc_state \<Rightarrow> bool" where
  "conc_inv s \<longleftrightarrow> (\<forall>a. inflight_of (cs_inflight s) a = int (held s a))
     \<and> (\<forall>(a, n) \<in> set (cs_inflight s). 0 < n) \<and> distinct (map fst (cs_inflight s))"

lemma inflight_put [simp]: "inflight_of (put a n l) b = (if b = a then n else inflight_of l b)"
  by (simp add: inflight_of_def)

lemma inflight_delete [simp]: "inflight_of (delete_key a l) b = (if b = a then 0 else inflight_of l b)"
  by (simp add: inflight_of_def map_of_delete_key)

lemma set_put_sub: "set (put k v es) \<subseteq> insert (k, v) (set es)"
  by (induction es) auto

lemma distinct_delete_key: "distinct (map fst es) \<Longrightarrow> distinct (map fst (delete_key k es))"
  unfolding delete_key_def by (rule distinct_map_filter)

lemma set_delete_key: "set (delete_key k es) \<subseteq> set es"
  by (auto simp: delete_key_def)

lemma conc_inv_new: "conc_inv new_conc"
  by (simp add: conc_inv_def new_conc_def inflight_of_def held_def)

lemma conc_inv_acquire: "conc_inv s \<Longrightarrow> conc_inv (do_acquire s a limit)"
  using set_put_sub [of a "inflight_of (cs_inflight s) a + 1" "cs_inflight s"]
  by (auto simp: conc_inv_def do_acquire_def conc_TryAcquire_def held_def)

lemma filter_update_length:
  "i < length xs \<Longrightarrow> P (xs ! i) \<Longrightarrow> \<not> P y \<Longrightarrow> length (filter P xs) = Suc (length (filter P (xs[i := y])))"
  by (induction xs arbitrary: i) (auto simp: nth_Cons' split: nat.splits)

lemma filter_update_same:
  "i < length xs \<Longrightarrow> P (xs ! i) = P y \<Longrightarrow> length (filter P (xs[i := y])) = length (filter P xs)"
  by (induction xs arbitrary: i) (auto simp: nth_Cons' split: nat.splits)

lemma conc_inv_release: "conc_inv s \<Longrightarrow> conc_inv (do_release s i)"
proof -
  assume inv: "conc_inv s"
  show ?thesis
  proof (cases "i < length (cs_handles s) \<and> \<not> snd (cs_handles s ! i)")
    case False
    then have "do_release s i = s" by (auto simp: do_release_def split: prod.splits)
    with inv show ?thesis by simp
  next
    case True
    then obtain r where r: "cs_handles s ! i = (r, False)" "i < length (cs_handles s)"
      by (cases "cs_handles s ! i") auto
    let ?hs = "(cs_handles s)[i := (r, True)]"
    have same: "length (filter (\<lambda>h. h = (Release b, False)) ?hs)
        = (if r = Release b then held s b - 1 else held s b)" for b
      using filter_update_length [of i "cs_handles s" "\<lambda>h. h = (Release b, False)" "(r, True)"]
        filter_update_same [of i "cs_handles s" "\<lambda>h. h = (Release b, False)" "(r, True)"] r
      by (auto simp: held_def)
    show ?thesis
    proof (cases r)
      case NoRelease
      then have "do_release s i = s\<lparr>cs_handles := ?hs\<rparr>" using r by (simp add: do_release_def)
      with inv same NoRelease show ?thesis by (simp add: conc_inv_def held_def)
    next
      case (Release a)
      have "(Release a, False) \<in> set (cs_handles s)" using r Release by (metis nth_mem)
      then have pos: "0 < held s a" unfolding held_def
        by (metis (mono_tags, lifting) filter_empty_conv length_greater_0_conv)
      have d: "do_release s i = s\<lparr>cs_handles := ?hs, cs_inflight := release_slot (cs_inflight s) a\<rparr>"
        using r Release by (simp add: do_release_def)
      have "inflight_of (release_slot (cs_inflight s) a) b
          = int (if Release a = Release b then held s b - 1 else held s b)" for b
        using inv pos by (auto simp: conc_inv_def release_slot_def)
      moreover have "\<forall>(a, n) \<in> set (release_slot (cs_inflight s) a). 0 < n"
        using inv set_put_sub [of a "inflight_of (cs_inflight s) a - 1" "cs_inflight s"]
          set_delete_key [of a "cs_inflight s"]
        by (auto simp: conc_inv_def release_slot_def)
      moreover have "distinct (map fst (release_slot (cs_inflight s) a))"
        using inv by (simp add: conc_inv_def release_slot_def distinct_delete_key)
      ultimately show ?thesis
        using same Release unfolding d by (simp add: conc_inv_def held_def)
    qed
  qed
qed

lemma conc_reach_inv: "conc_reach s \<Longrightarrow> conc_inv s"
  by (induction rule: conc_reach.induct)
    (auto intro: conc_inv_new elim!: conc_stepE intro: conc_inv_acquire conc_inv_release)

lemma do_release_idem: "do_release (do_release s i) i = do_release s i"
  by (auto simp: do_release_def Let_def split: prod.splits release.splits)

text \<open>C20. Concurrency slots never leak and never exceed the limit: in every reachable interleaving of
  acquisitions and releases the counter of an account is the number of its unreleased handles, a
  request is admitted exactly below the limit (or when unlimited), admission never takes an account
  above the limit asked for, calling a release again changes nothing, and an account without
  handles leaves no entry behind.\<close>

theorem concurrency_slots_exact:
  assumes "conc_reach s"
  shows "Inflight (cs_inflight s) a = int (held s a)
    \<and> (snd (conc_TryAcquire (cs_inflight s) a limit) \<noteq> None \<longleftrightarrow> limit \<le> 0 \<or> a \<le> 0 \<or> int (held s a) < limit)
    \<and> (0 < limit \<and> 0 < a \<longrightarrow> int (held (do_acquire s a limit) a) \<le> max (int (held s a)) limit)
    \<and> do_release (do_release s i) i = do_release s i
    \<and> (held s a = 0 \<longrightarrow> map_of (cs_inflight s) a = None)"
proof -
  note inv = conc_reach_inv [OF assms]
  then have h: "inflight_of (cs_inflight s) b = int (held s b)" for b by (simp add: conc_inv_def)
  have h': "inflight_of (cs_inflight (do_acquire s a limit)) a = int (held (do_acquire s a limit) a)"
    using conc_inv_acquire [OF inv] by (simp add: conc_inv_def)
  have "map_of (cs_inflight s) a = None" if "held s a = 0"
  proof (rule ccontr)
    assume "map_of (cs_inflight s) a \<noteq> None"
    then obtain n where n: "map_of (cs_inflight s) a = Some n" by blast
    then have "0 < n" using inv by (auto simp: conc_inv_def dest: map_of_SomeD)
    with n h [of a] that show False by (simp add: inflight_of_def)
  qed
  moreover have "int (held (do_acquire s a limit) a) \<le> max (int (held s a)) limit" if "0 < limit" "0 < a"
    using that unfolding h' [symmetric] by (simp add: do_acquire_def conc_TryAcquire_def h)
  ultimately show ?thesis
    using h by (auto simp: Inflight_def conc_TryAcquire_def do_release_idem)
qed

lemma concurrency_slots_exact_witness:
  "let s = do_acquire (do_acquire new_conc 3 1) 3 1
   in held s 3 = 1 \<and> snd (conc_TryAcquire (cs_inflight s) 3 1) = None
     \<and> map_of (cs_inflight (do_release s 0)) 3 = None"
proof -
  let ?s = "do_acquire (do_acquire new_conc 3 1) 3 1"
  have r: "conc_reach ?s" and r': "conc_reach (do_release ?s 0)"
    by (blast intro: conc_reach.intros conc_step.intros)+
  have "held ?s 3 = 1" "held (do_release ?s 0) 3 = 0" by code_simp+
  with concurrency_slots_exact [OF r, of 3 1 0] concurrency_slots_exact [OF r', of 3 1 0] show ?thesis
    by (simp add: Let_def)
qed

subsection \<open>Requests per minute\<close>

type_synonym rpm_events = "(int64 \<times> int64 list) list"

definition events_of :: "rpm_events \<Rightarrow> int64 \<Rightarrow> int64 list" where
  "events_of m a = (case map_of m a of None \<Rightarrow> [] | Some es \<Rightarrow> es)"

definition pruneRPMEvents :: "int64 list \<Rightarrow> int64 \<Rightarrow> int64 list" where
  "pruneRPMEvents events cutoff = dropWhile (\<lambda>e. e \<le> cutoff) events"

definition rpm_TryAcquire :: "gotime \<Rightarrow> rpm_events \<Rightarrow> int64 \<Rightarrow> int \<Rightarrow> rpm_events \<times> bool" where
  "rpm_TryAcquire now l accountID limit =
     (if limit \<le> 0 \<or> accountID \<le> 0 then (l, True)
      else let nowMs = UnixMilli now; cutoff = UnixMilli (now - 60000000000);
               kept = pruneRPMEvents (events_of l accountID) cutoff in
        if int (length kept) \<ge> limit then (put accountID kept l, False)
        else (put accountID (kept @ [nowMs]) l, True))"

text \<open>The Redis limiter: \<open>reply\<close> is the script's answer, \<open>None\<close> an error of the call.\<close>

definition redis_rpm_TryAcquire ::
  "int option \<Rightarrow> gotime \<Rightarrow> rpm_events \<Rightarrow> int64 \<Rightarrow> int \<Rightarrow> rpm_events \<times> bool" where
  "redis_rpm_TryAcquire reply now fallback accountID limit =
     (if limit \<le> 0 \<or> accountID \<le> 0 then (fallback, True)
      else case reply of
        None \<Rightarrow> rpm_TryAcquire now fallback accountID limit
      | Some granted \<Rightarrow> (fallback, granted \<noteq> 0))"

text \<open>The answers to a sequence of requests, each an instant and an account.\<close>

fun rpm_run :: "(int64 \<Rightarrow> int) \<Rightarrow> (gotime \<times> int64) list \<Rightarrow> rpm_events \<Rightarrow> bool list" where
  "rpm_run lim [] l = []"
| "rpm_run lim ((now, a) # reqs) l =
     (case rpm_TryAcquire now l a (lim a) of (l', ok) \<Rightarrow> ok # rpm_run lim reqs l')"

text \<open>
  The specification keeps the whole log of admitted requests and admits one exactly when fewer than
  the limit were admitted in the minute before it.
\<close>

definition window_count :: "(int64 \<times> int64) list \<Rightarrow> int64 \<Rightarrow> int64 \<Rightarrow> nat" where
  "window_count log a t = length (filter (\<lambda>(b, e). b = a \<and> t - 60000 < e \<and> e \<le> t) log)"

definition window_admit :: "(int64 \<Rightarrow> int) \<Rightarrow> (int64 \<times> int64) list \<Rightarrow> gotime \<Rightarrow> int64 \<Rightarrow> bool" where
  "window_admit lim log now a \<longleftrightarrow> lim a \<le> 0 \<or> a \<le> 0 \<or> int (window_count log a (UnixMilli now)) < lim a"

fun window_run :: "(int64 \<Rightarrow> int) \<Rightarrow> (gotime \<times> int64) list \<Rightarrow> (int64 \<times> int64) list
    \<Rightarrow> bool list \<times> (int64 \<times> int64) list" where
  "window_run lim [] log = ([], log)"
| "window_run lim ((now, a) # reqs) log =
     (let ok = window_admit lim log now a in
      case window_run lim reqs (if ok then log @ [(a, UnixMilli now)] else log) of
        (oks, log') \<Rightarrow> (ok # oks, log'))"

lemma UnixMilli_minute: "UnixMilli (now - 60000000000) = UnixMilli now - 60000"
proof -
  have "now - 60000000000 - unix_epoch_ns = (now - unix_epoch_ns) + (- 60000) * 1000000" by simp
  then show ?thesis unfolding UnixMilli_def by (metis add_uminus_conv_diff div_mult_self1 zero_neq_numeral add.commute)
qed

lemma UnixMilli_mono: "s \<le> t \<Longrightarrow> UnixMilli s \<le> UnixMilli t"
  by (simp add: UnixMilli_def zdiv_mono1)

lemma prune_sorted: "sorted es \<Longrightarrow> pruneRPMEvents es c = filter (\<lambda>e. c < e) es"
  unfolding pruneRPMEvents_def
proof (induction es)
  case (Cons e es)
  then show ?case by (auto intro!: filter_True [symmetric])
qed simp

definition log_of :: "(int64 \<times> int64) list \<Rightarrow> int64 \<Rightarrow> int64 list" where
  "log_of log a = map snd (filter (\<lambda>x. fst x = a) log)"

lemma log_of_append [simp]: "log_of (log @ [(b, e)]) a = log_of log a @ (if b = a then [e] else [])"
  by (simp add: log_of_def)

lemma window_count_log_of: "window_count log a t = length (filter (\<lambda>e. t - 60000 < e \<and> e \<le> t) (log_of log a))"
  unfolding window_count_def log_of_def
  by (induction log) auto

text \<open>The limiter's events of a limited account are the part of its log that the last cutoff left.\<close>

definition rpm_rel :: "(int64 \<Rightarrow> int) \<Rightarrow> rpm_events \<Rightarrow> (int64 \<times> int64) list \<Rightarrow> int64 \<Rightarrow> bool" where
  "rpm_rel lim l log t0 \<longleftrightarrow> (\<forall>a. 0 < lim a \<longrightarrow> 0 < a \<longrightarrow>
     sorted (log_of log a) \<and> (\<forall>e \<in> set (log_of log a). e \<le> t0)
     \<and> (\<exists>c \<le> t0 - 60000. events_of l a = filter (\<lambda>e. c < e) (log_of log a)))"

lemma events_put [simp]: "events_of (put a es l) b = (if b = a then es else events_of l b)"
  by (simp add: events_of_def)

lemma rpm_rel_later: "rpm_rel lim l log t0 \<Longrightarrow> t0 \<le> t1 \<Longrightarrow> rpm_rel lim l log t1"
  unfolding rpm_rel_def by (meson diff_right_mono order_trans)

lemma rpm_rel_step:
  assumes rel: "rpm_rel lim l log t0" and le: "t0 \<le> UnixMilli now"
  shows "snd (rpm_TryAcquire now l a (lim a)) = window_admit lim log now a
    \<and> rpm_rel lim (fst (rpm_TryAcquire now l a (lim a)))
        (if window_admit lim log now a then log @ [(a, UnixMilli now)] else log) (UnixMilli now)"
proof (cases "lim a \<le> 0 \<or> a \<le> 0")
  case True
  have "rpm_rel lim l (log @ [(a, UnixMilli now)]) (UnixMilli now)"
    using rpm_rel_later [OF rel le] True unfolding rpm_rel_def by auto
  with True show ?thesis by (auto simp: rpm_TryAcquire_def window_admit_def)
next
  case False
  let ?n = "UnixMilli now"
  from rel False obtain c where s: "sorted (log_of log a)" and ub: "\<forall>e \<in> set (log_of log a). e \<le> t0"
      and c: "c \<le> t0 - 60000" "events_of l a = filter (\<lambda>e. c < e) (log_of log a)"
    unfolding rpm_rel_def by (meson not_le)
  have kept: "pruneRPMEvents (events_of l a) (?n - 60000) = filter (\<lambda>e. ?n - 60000 < e) (log_of log a)"
    using c le by (subst prune_sorted) (auto simp: s sorted_filter [of id, simplified] intro!: filter_cong)
  have "filter (\<lambda>e. ?n - 60000 < e \<and> e \<le> ?n) (log_of log a) = filter (\<lambda>e. ?n - 60000 < e) (log_of log a)"
    using ub le by (intro filter_cong) auto
  then have count: "window_count log a ?n = length (filter (\<lambda>e. ?n - 60000 < e) (log_of log a))"
    by (simp add: window_count_log_of)
  have other: "rpm_rel lim l log ?n" using rpm_rel_later [OF rel le] .
  have s': "sorted (log_of log a @ [?n])" and ub': "\<forall>e \<in> set (log_of log a). e \<le> ?n"
    using s ub le by (auto simp: sorted_append)
  show ?thesis
  proof (cases "window_admit lim log now a")
    case True
    with False count have "rpm_TryAcquire now l a (lim a)
        = (put a (filter (\<lambda>e. ?n - 60000 < e) (log_of log a) @ [?n]) l, True)"
      by (simp add: rpm_TryAcquire_def window_admit_def UnixMilli_minute kept Let_def)
    with True other s' ub' show ?thesis unfolding rpm_rel_def by (auto intro!: exI [of _ "?n - 60000"])
  next
    case no: False
    with False count have "rpm_TryAcquire now l a (lim a)
        = (put a (filter (\<lambda>e. ?n - 60000 < e) (log_of log a)) l, False)"
      by (simp add: rpm_TryAcquire_def window_admit_def UnixMilli_minute kept Let_def)
    with no other s ub' show ?thesis unfolding rpm_rel_def by (auto intro!: exI [of _ "?n - 60000"])
  qed
qed

lemma rpm_run_refines:
  "rpm_rel lim l log t0 \<Longrightarrow> sorted (map fst reqs) \<Longrightarrow> (\<forall>r \<in> set reqs. t0 \<le> UnixMilli (fst r)) \<Longrightarrow>
   rpm_run lim reqs l = fst (window_run lim reqs log)"
proof (induction reqs arbitrary: l log t0)
  case Nil
  then show ?case by simp
next
  case (Cons r reqs)
  obtain now a where r: "r = (now, a)" by fastforce
  from Cons.prems r have le: "t0 \<le> UnixMilli now" by simp
  note st = rpm_rel_step [OF Cons.prems(1) le, of a]
  obtain l' ok where t: "rpm_TryAcquire now l a (lim a) = (l', ok)" by fastforce
  have "\<forall>r' \<in> set reqs. UnixMilli now \<le> UnixMilli (fst r')"
    using Cons.prems(2) r by (auto intro: UnixMilli_mono)
  with Cons.IH [of l' _ "UnixMilli now"] st t Cons.prems(2)
  show ?case by (simp add: r Let_def split: prod.split) (metis fst_conv)
qed

lemma filter_length_mono:
  "(\<And>x. x \<in> set xs \<Longrightarrow> P x \<Longrightarrow> Q x) \<Longrightarrow> length (filter P xs) \<le> length (filter Q xs)"
  by (induction xs) (auto intro: le_SucI)

text \<open>The log of the specification never holds more than the limit in any minute.\<close>

lemma window_count_snoc:
  "window_count (log @ [(b, e)]) a t = window_count log a t + (if b = a \<and> t - 60000 < e \<and> e \<le> t then 1 else 0)"
  by (simp add: window_count_def)

lemma window_run_bound:
  assumes "0 < lim a" and "0 < a"
  shows "sorted (map fst reqs) \<Longrightarrow> (\<forall>r \<in> set reqs. \<forall>x \<in> set log. snd x \<le> UnixMilli (fst r)) \<Longrightarrow>
    (\<And>t. int (window_count log a t) \<le> lim a) \<Longrightarrow>
    int (window_count (snd (window_run lim reqs log)) a t) \<le> lim a"
proof (induction reqs arbitrary: log)
  case Nil
  then show ?case by simp
next
  case (Cons r reqs)
  obtain now b where r: "r = (now, b)" by fastforce
  let ?n = "UnixMilli now"
  let ?log = "if window_admit lim log now b then log @ [(b, ?n)] else log"
  have later: "\<forall>r' \<in> set reqs. ?n \<le> UnixMilli (fst r')"
    using Cons.prems(1) r by (auto intro: UnixMilli_mono)
  have old: "\<forall>x \<in> set log. snd x \<le> ?n" using Cons.prems(2) r by simp
  have "int (window_count ?log a t) \<le> lim a" for t
  proof (cases "window_admit lim log now b \<and> b = a \<and> t - 60000 < ?n \<and> ?n \<le> t")
    case True
    have "window_count log a t \<le> window_count log a ?n"
      unfolding window_count_log_of using True old
      by (intro filter_length_mono) (auto simp: log_of_def)
    moreover have "int (window_count log a ?n) < lim a"
      using True assms by (auto simp: window_admit_def)
    ultimately show ?thesis using True by (simp add: window_count_snoc)
  next
    case False
    then show ?thesis using Cons.prems(3) [of t] by (auto simp: window_count_snoc)
  qed
  moreover have "\<forall>r' \<in> set reqs. \<forall>x \<in> set ?log. snd x \<le> UnixMilli (fst r')"
    using later old by (auto intro: order_trans)
  ultimately have "int (window_count (snd (window_run lim reqs ?log)) a t) \<le> lim a"
    using Cons.IH [of ?log] Cons.prems(1) r by simp
  then show ?case by (simp add: r Let_def case_prod_beta)
qed

text \<open>C21. The per-minute limiter is an exact sliding window: for requests in time order it answers as
  the specification that remembers every admitted request and admits below the limit, and in that
  log no minute ever holds more requests of a limited account than its limit. The pruned event
  lists lose nothing.\<close>

theorem rpm_sliding_window:
  assumes "sorted (map fst reqs)"
  shows "rpm_run lim reqs [] = fst (window_run lim reqs [])
    \<and> (0 < lim a \<and> 0 < a \<longrightarrow> int (window_count (snd (window_run lim reqs [])) a t) \<le> lim a)"
proof
  let ?t0 = "case reqs of [] \<Rightarrow> 0 | r # _ \<Rightarrow> UnixMilli (fst r)"
  have "rpm_rel lim [] [] ?t0" by (auto simp: rpm_rel_def log_of_def events_of_def)
  moreover have "\<forall>r \<in> set reqs. ?t0 \<le> UnixMilli (fst r)"
    using assms by (cases reqs) (auto intro: UnixMilli_mono)
  ultimately show "rpm_run lim reqs [] = fst (window_run lim reqs [])"
    using rpm_run_refines assms by blast
  show "0 < lim a \<and> 0 < a \<longrightarrow> int (window_count (snd (window_run lim reqs [])) a t) \<le> lim a"
    using window_run_bound [of lim a reqs "[]" t] assms by (auto simp: window_count_def)
qed

definition demo_reqs :: "(gotime \<times> int64) list" where
  "demo_reqs = [(of_UnixMilli 0, 3), (of_UnixMilli 1, 3), (of_UnixMilli 2, 3), (of_UnixMilli 60000, 3), (of_UnixMilli 60000, 3)]"

lemma rpm_sliding_window_witness:
  "rpm_run (\<lambda>_. 2) demo_reqs [] = [True, True, False, True, False]"
proof -
  have s: "sorted (map fst demo_reqs)" by code_simp
  have "fst (window_run (\<lambda>_. 2) demo_reqs []) = [True, True, False, True, False]" by code_simp
  with rpm_sliding_window [OF s] show ?thesis by metis
qed

subsection \<open>Retry budget\<close>

definition newRetryBudget :: int where "newRetryBudget = 100"

definition budget_primary :: "int \<Rightarrow> int" where
  "budget_primary credits = min 100 (credits + 1)"

definition budget_allow :: "int \<Rightarrow> int \<times> bool" where
  "budget_allow credits = (if credits < 10 then (credits, False) else (credits - 10, True))"

datatype budget_op = Primary | Retry

text \<open>\<open>RecordPrimaryAttempt\<close> and \<open>AllowUpstreamRetry\<close>: a channel without a configuration revision
  (\<open>None\<close> is a nil channel) is outside the budget.\<close>

definition RecordPrimaryAttempt :: "int \<Rightarrow> string option \<Rightarrow> int" where
  "RecordPrimaryAttempt credits revision = (case revision of
     None \<Rightarrow> credits | Some rvn \<Rightarrow> if rvn \<noteq> [] then budget_primary credits else credits)"

definition AllowUpstreamRetry :: "int \<Rightarrow> string option \<Rightarrow> int \<times> bool" where
  "AllowUpstreamRetry credits revision = (case revision of
     None \<Rightarrow> (credits, True) | Some rvn \<Rightarrow> if rvn = [] then (credits, True) else budget_allow credits)"

fun budget_run :: "(budget_op \<times> string) list \<Rightarrow> int \<Rightarrow> int \<times> int" where
  "budget_run [] credits = (credits, 0)"
| "budget_run ((Primary, rvn) # ops) credits = budget_run ops (RecordPrimaryAttempt credits (Some rvn))"
| "budget_run ((Retry, rvn) # ops) credits =
     (case AllowUpstreamRetry credits (Some rvn) of (c, ok) \<Rightarrow>
        case budget_run ops c of (c', n) \<Rightarrow> (c', n + (if ok then 1 else 0)))"

lemma budget_run_bound:
  "0 \<le> credits \<Longrightarrow> credits \<le> 100 \<Longrightarrow> list_all (\<lambda>x. snd x \<noteq> []) ops \<Longrightarrow>
   0 \<le> fst (budget_run ops credits) \<and> fst (budget_run ops credits) \<le> 100
   \<and> 10 * snd (budget_run ops credits) + fst (budget_run ops credits)
       \<le> credits + int (length (filter (\<lambda>x. fst x = Primary) ops))"
proof (induction ops arbitrary: credits)
  case Nil
  then show ?case by simp
next
  case (Cons x ops)
  obtain kind rvn where x: "x = (kind, rvn)" by fastforce
  with Cons.prems have rvn: "rvn \<noteq> []" and ops: "list_all (\<lambda>x. snd x \<noteq> []) ops" by simp_all
  show ?case
  proof (cases kind)
    case Primary
    have "budget_primary credits \<le> credits + 1" "0 \<le> budget_primary credits" "budget_primary credits \<le> 100"
      using Cons.prems by (simp_all add: budget_primary_def)
    with Cons.IH [of "budget_primary credits"] ops show ?thesis
      using rvn by (simp add: x Primary RecordPrimaryAttempt_def)
  next
    case Retry
    then show ?thesis
      using Cons.IH [of credits] Cons.IH [of "credits - 10"] Cons.prems(1,2) ops rvn
      by (cases "credits < 10") (simp_all add: x AllowUpstreamRetry_def budget_allow_def case_prod_beta)
  qed
qed

text \<open>Retries never exceed a tenth of the primary calls beyond the initial ten: over any sequence of
  primary calls and retry requests on channels under the budget, ten times the granted retries plus
  the remaining credits is at most one hundred plus the number of primary calls, and the credits
  stay between zero and one hundred.\<close>

theorem retry_budget_bound:
  assumes "list_all (\<lambda>x. snd x \<noteq> []) ops"
  shows "10 * snd (budget_run ops newRetryBudget) \<le> 100 + int (length (filter (\<lambda>x. fst x = Primary) ops))
    \<and> 0 \<le> fst (budget_run ops newRetryBudget) \<and> fst (budget_run ops newRetryBudget) \<le> 100"
  using budget_run_bound [of newRetryBudget ops] assms by (simp add: newRetryBudget_def)

lemma retry_budget_bound_witness:
  "snd (budget_run (replicate 12 (Retry, ''r1'')) newRetryBudget) \<le> 10"
  using retry_budget_bound [of "replicate 12 (Retry, ''r1'')"] by (simp add: list_all_iff filter_empty_conv)

end
