(* ===== verification/Usage.thy ===== *)
theory Usage
  imports Go_Strings
begin

text \<open>
  Token usage: the projection between the five billing buckets and the inclusive OpenAI shape
  (\<open>pkg/usage/projection.go\<close>), the buckets and the wire envelope (\<open>domain/billing/usage.go\<close>), and the
  checks at the billing boundary (\<open>app/billing/internal/biz/usage_semantics.go\<close>). Token counts are
  64-bit integers; sums are written with the wrap-around of the code where the code does not guard
  them. Validation results are the reason strings, empty for a valid envelope.
\<close>

subsection \<open>Buckets and their projection\<close>

record buckets =
  bk_UncachedInputTokens :: int64
  bk_CacheReadTokens :: int64
  bk_CacheCreation5mTokens :: int64
  bk_CacheCreation1hTokens :: int64
  bk_OutputTokens :: int64

definition bucket_list :: "buckets \<Rightarrow> int64 list" where
  "bucket_list b = [bk_UncachedInputTokens b, bk_CacheReadTokens b, bk_CacheCreation5mTokens b,
     bk_CacheCreation1hTokens b, bk_OutputTokens b]"

fun first_negative :: "int64 list \<Rightarrow> int64 option" where
  "first_negative [] = None"
| "first_negative (v # vs) = (if v < 0 then Some v else first_negative vs)"

fun sum_clamped :: "int64 list \<Rightarrow> int64 \<Rightarrow> int64" where
  "sum_clamped [] ttl = ttl"
| "sum_clamped (v # vs) ttl = (if v > MaxInt64 - ttl then MaxInt64 else sum_clamped vs (ttl + v))"

definition addClamped :: "int64 list \<Rightarrow> int64" where
  "addClamped values = (case first_negative values of Some v \<Rightarrow> v | None \<Rightarrow> sum_clamped values 0)"

definition bucket_BillableTotal :: "buckets \<Rightarrow> int64" where
  "bucket_BillableTotal b = addClamped [bk_UncachedInputTokens b, bk_CacheReadTokens b,
     bk_CacheCreation5mTokens b, bk_CacheCreation1hTokens b, bk_OutputTokens b]"

definition InclusiveInputTokens :: "buckets \<Rightarrow> int64" where
  "InclusiveInputTokens b = addClamped [bk_UncachedInputTokens b, bk_CacheReadTokens b,
     bk_CacheCreation5mTokens b, bk_CacheCreation1hTokens b]"

definition InclusiveTotalTokens :: "buckets \<Rightarrow> int64" where
  "InclusiveTotalTokens b = addClamped [InclusiveInputTokens b, bk_OutputTokens b]"

record openai_projection =
  oa_PromptTokens :: int64
  oa_OutputTokens :: int64
  oa_TotalTokens :: int64
  oa_CachedTokens :: int64
  oa_CacheReadTokens :: int64
  oa_CacheCreation5mTokens :: int64
  oa_CacheCreation1hTokens :: int64

definition ProjectOpenAI :: "buckets \<Rightarrow> openai_projection" where
  "ProjectOpenAI b = \<lparr>oa_PromptTokens = InclusiveInputTokens b, oa_OutputTokens = bk_OutputTokens b,
     oa_TotalTokens = InclusiveTotalTokens b, oa_CachedTokens = bk_CacheReadTokens b,
     oa_CacheReadTokens = bk_CacheReadTokens b, oa_CacheCreation5mTokens = bk_CacheCreation5mTokens b,
     oa_CacheCreation1hTokens = bk_CacheCreation1hTokens b\<rparr>"

definition SplitInclusive :: "int64 \<Rightarrow> int64 \<Rightarrow> int64 \<Rightarrow> int64 \<Rightarrow> int64 \<Rightarrow> buckets" where
  "SplitInclusive inclusiveInput cacheRead cacheCreation5m cacheCreation1h output =
     (if inclusiveInput < 0 \<or> cacheRead < 0 \<or> cacheCreation5m < 0 \<or> cacheCreation1h < 0
      then \<lparr>bk_UncachedInputTokens = inclusiveInput, bk_CacheReadTokens = cacheRead,
            bk_CacheCreation5mTokens = cacheCreation5m, bk_CacheCreation1hTokens = cacheCreation1h,
            bk_OutputTokens = output\<rparr>
      else let cacheTotal = addClamped [cacheRead, cacheCreation5m, cacheCreation1h];
               uncached = (if cacheTotal < inclusiveInput then inclusiveInput - cacheTotal else 0)
        in \<lparr>bk_UncachedInputTokens = uncached, bk_CacheReadTokens = cacheRead,
            bk_CacheCreation5mTokens = cacheCreation5m, bk_CacheCreation1hTokens = cacheCreation1h,
            bk_OutputTokens = output\<rparr>)"

subsection \<open>The envelope\<close>

type_synonym canonical_buckets = buckets

definition canonical_BillableTotal :: "canonical_buckets \<Rightarrow> int64" where
  "canonical_BillableTotal b = wrap64 (bk_UncachedInputTokens b + bk_CacheReadTokens b
     + bk_CacheCreation5mTokens b + bk_CacheCreation1hTokens b + bk_OutputTokens b)"

record usage_envelope =
  ue_ParserRevision :: string
  ue_ContractRevision :: string
  ue_PresentPaths :: "string list"
  ue_ParseStatus :: string
  ue_Semantics :: string
  ue_Protocol :: string
  ue_FieldShape :: string
  ue_DecisionReason :: string
  ue_ReportedPromptTokens :: int64
  ue_ReportedOutputTokens :: int64
  ue_ReportedCacheReadTokens :: int64
  ue_ReportedCacheCreation5mTokens :: int64
  ue_ReportedCacheCreation1hTokens :: int64
  ue_ReportedTotalTokens :: int64
  ue_Canonical :: "canonical_buckets option"
  ue_SubsetCandidate :: "canonical_buckets option"
  ue_ExclusiveCandidate :: "canonical_buckets option"

text \<open>The fields of \<open>LedgerUsage\<close> that the usage checks read.\<close>

record ledger_usage =
  lu_PromptTokens :: int64
  lu_CompletionTokens :: int64
  lu_CacheReadTokens :: int64
  lu_CacheCreation5mTokens :: int64
  lu_CacheCreation1hTokens :: int64
  lu_UpstreamCost :: int64
  lu_PromptExclusive :: bool
  lu_UsageContractVersion :: int
  lu_Envelope :: "usage_envelope option"

definition hasNegative :: "int64 list \<Rightarrow> bool" where
  "hasNegative values = list_ex (\<lambda>v. v < 0) values"

definition hasCache :: "canonical_buckets \<Rightarrow> bool" where
  "hasCache b \<longleftrightarrow> bk_CacheReadTokens b > 0 \<or> bk_CacheCreation5mTokens b > 0 \<or> bk_CacheCreation1hTokens b > 0"

fun safe_total :: "int64 list \<Rightarrow> int64 \<Rightarrow> int64 \<times> bool" where
  "safe_total [] ttl = (ttl, False)"
| "safe_total (v # vs) ttl = (if v < 0 \<or> v > MaxInt64 - ttl then (0, True) else safe_total vs (ttl + v))"

definition safeBucketTotal :: "canonical_buckets \<Rightarrow> int64 \<times> bool" where
  "safeBucketTotal b = safe_total (bucket_list b) 0"

definition canonicalInvalidReason :: "canonical_buckets \<Rightarrow> string" where
  "canonicalInvalidReason b =
     (if hasNegative (bucket_list b) then ''negative_bucket''
      else if snd (safeBucketTotal b) then ''overflow'' else [])"

definition validCanonical :: "canonical_buckets \<Rightarrow> bool" where
  "validCanonical b \<longleftrightarrow> canonicalInvalidReason b = []"

definition known_semantics :: "string \<Rightarrow> bool" where
  "known_semantics s \<longleftrightarrow> s = ''openai_subset'' \<or> s = ''anthropic_exclusive''"

definition validate_verified :: "usage_envelope \<Rightarrow> string" where
  "validate_verified e = (case (ue_Canonical e, ue_SubsetCandidate e, ue_ExclusiveCandidate e) of
     (Some c, None, None) \<Rightarrow>
       if canonicalInvalidReason c \<noteq> [] then canonicalInvalidReason c
       else if hasCache c \<and> \<not> known_semantics (ue_Semantics e) then ''v1_contract_error''
       else if ue_Semantics e \<noteq> [] \<and> \<not> known_semantics (ue_Semantics e) then ''v1_contract_error''
       else []
   | _ \<Rightarrow> ''v1_contract_error'')"

definition validate_estimated :: "usage_envelope \<Rightarrow> string" where
  "validate_estimated e = (case (ue_Canonical e, ue_SubsetCandidate e, ue_ExclusiveCandidate e) of
     (Some c, None, None) \<Rightarrow>
       if hasCache c \<or> ue_Semantics e \<noteq> [] then ''v1_contract_error'' else canonicalInvalidReason c
   | _ \<Rightarrow> ''v1_contract_error'')"

definition validate_ambiguous :: "usage_envelope \<Rightarrow> string" where
  "validate_ambiguous e = (case (ue_Canonical e, ue_SubsetCandidate e, ue_ExclusiveCandidate e) of
     (None, Some s, Some x) \<Rightarrow>
       if ue_DecisionReason e = [] \<or> ue_Semantics e \<noteq> [] then ''v1_contract_error''
       else if canonicalInvalidReason s \<noteq> [] then canonicalInvalidReason s
       else canonicalInvalidReason x
   | _ \<Rightarrow> ''v1_contract_error'')"

definition validateV1Envelope :: "usage_envelope option \<Rightarrow> string" where
  "validateV1Envelope env = (case env of
     None \<Rightarrow> ''v1_contract_error''
   | Some e \<Rightarrow>
       if hasNegative [ue_ReportedPromptTokens e, ue_ReportedOutputTokens e, ue_ReportedCacheReadTokens e,
           ue_ReportedCacheCreation5mTokens e, ue_ReportedCacheCreation1hTokens e, ue_ReportedTotalTokens e]
       then ''negative_bucket''
       else if ue_ParseStatus e = ''verified'' then validate_verified e
       else if ue_ParseStatus e = ''estimated'' then validate_estimated e
       else if ue_ParseStatus e = ''ambiguous'' then validate_ambiguous e
       else ''v1_contract_error'')"

definition ValidateV2Envelope :: "usage_envelope option \<Rightarrow> string" where
  "ValidateV2Envelope env = (case env of
     None \<Rightarrow> ''v1_contract_error''
   | Some e \<Rightarrow>
       if ue_ParseStatus e \<in> {''missing'', ''invalid'', ''unsupported''} then
         (if ue_Canonical e \<noteq> None \<or> ue_SubsetCandidate e \<noteq> None \<or> ue_ExclusiveCandidate e \<noteq> None
            \<or> ue_DecisionReason e = [] \<or> ue_Semantics e \<noteq> [] then ''v1_contract_error'' else [])
       else validateV1Envelope env)"

definition reported_present :: "usage_envelope \<Rightarrow> bool" where
  "reported_present e \<longleftrightarrow> ue_ReportedPromptTokens e \<noteq> 0 \<or> ue_ReportedOutputTokens e \<noteq> 0
     \<or> ue_ReportedCacheReadTokens e \<noteq> 0 \<or> ue_ReportedCacheCreation5mTokens e \<noteq> 0
     \<or> ue_ReportedCacheCreation1hTokens e \<noteq> 0"

definition reported_tuple :: "'a ledger_usage_scheme \<Rightarrow> int64 \<times> int64 \<times> int64 \<times> int64 \<times> int64" where
  "reported_tuple u = (let flat = (lu_PromptTokens u, lu_CompletionTokens u, lu_CacheReadTokens u,
       lu_CacheCreation5mTokens u, lu_CacheCreation1hTokens u) in
     case lu_Envelope u of
       None \<Rightarrow> flat
     | Some e \<Rightarrow>
         if reported_present e
         then (ue_ReportedPromptTokens e, ue_ReportedOutputTokens e, ue_ReportedCacheReadTokens e,
               ue_ReportedCacheCreation5mTokens e, ue_ReportedCacheCreation1hTokens e)
         else flat)"

definition reportedCandidateBuckets :: "'a ledger_usage_scheme \<Rightarrow> canonical_buckets \<times> canonical_buckets" where
  "reportedCandidateBuckets u = (case reported_tuple u of (p0, o0, r0, c50, c10) \<Rightarrow>
     let prompt = max p0 0; output = max o0 0; cacheRead = max r0 0; c5 = max c50 0; c1 = max c10 0;
         uncached = max (wrap64 (prompt - cacheRead)) 0;
         subset = \<lparr>bk_UncachedInputTokens = uncached, bk_CacheReadTokens = cacheRead,
           bk_CacheCreation5mTokens = c5, bk_CacheCreation1hTokens = c1, bk_OutputTokens = output\<rparr>
     in (subset, subset\<lparr>bk_UncachedInputTokens := prompt\<rparr>))"

definition legacyCanonicalBuckets :: "'a ledger_usage_scheme \<Rightarrow> int64 \<Rightarrow> canonical_buckets" where
  "legacyCanonicalBuckets u actualTokens =
     (let completion = lu_CompletionTokens u; cacheRead = lu_CacheReadTokens u;
          prompt = (if lu_PromptTokens u \<le> 0 \<and> completion \<le> 0 \<and> cacheRead \<le> 0
            then actualTokens else lu_PromptTokens u);
          uncached0 = (if \<not> lu_PromptExclusive u
            then (if cacheRead < prompt then wrap64 (prompt - cacheRead) else 0) else prompt);
          uncached = (if uncached0 < 0 then 0 else uncached0)
      in \<lparr>bk_UncachedInputTokens = uncached, bk_CacheReadTokens = cacheRead,
          bk_CacheCreation5mTokens = lu_CacheCreation5mTokens u,
          bk_CacheCreation1hTokens = lu_CacheCreation1hTokens u, bk_OutputTokens = completion\<rparr>)"

subsection \<open>Sums\<close>

definition nonneg_buckets :: "buckets \<Rightarrow> bool" where
  "nonneg_buckets b \<longleftrightarrow> list_all (\<lambda>v. 0 \<le> v) (bucket_list b)"

definition bucket_sum :: "buckets \<Rightarrow> int" where
  "bucket_sum b = sum_list (bucket_list b)"

lemma sum_list_nonneg: "list_all (\<lambda>v. 0 \<le> v) vs \<Longrightarrow> 0 \<le> sum_list (vs :: int list)"
  by (induction vs) auto

lemma sum_clamped_eq:
  "list_all (\<lambda>v. 0 \<le> v) vs \<Longrightarrow> 0 \<le> ttl \<Longrightarrow> ttl \<le> MaxInt64 \<Longrightarrow>
   sum_clamped vs ttl = min MaxInt64 (ttl + sum_list vs)"
proof (induction vs arbitrary: ttl)
  case (Cons v vs)
  then show ?case using sum_list_nonneg [of vs] by auto
qed simp

lemma first_negative_None: "first_negative vs = None \<longleftrightarrow> list_all (\<lambda>v. 0 \<le> v) vs"
  by (induction vs) auto

lemma addClamped_nonneg:
  "list_all (\<lambda>v. 0 \<le> v) vs \<Longrightarrow> addClamped vs = min MaxInt64 (sum_list vs)"
  using sum_clamped_eq [of vs 0] first_negative_None [of vs]
  by (simp add: addClamped_def int_limits)

lemma addClamped_negative: "first_negative vs = Some v \<Longrightarrow> addClamped vs = v \<and> v < 0"
  by (simp add: addClamped_def) (induction vs; auto split: if_splits)

lemma safe_total_eq:
  "0 \<le> ttl \<Longrightarrow> ttl \<le> MaxInt64 \<Longrightarrow> safe_total vs ttl =
     (if list_all (\<lambda>v. 0 \<le> v) vs \<and> ttl + sum_list vs \<le> MaxInt64 then (ttl + sum_list vs, False) else (0, True))"
proof (induction vs arbitrary: ttl)
  case (Cons v vs)
  then show ?case using sum_list_nonneg [of vs] by auto
qed simp

lemma canonicalInvalidReason_valid:
  "canonicalInvalidReason b = [] \<longleftrightarrow> nonneg_buckets b \<and> bucket_sum b \<le> MaxInt64"
  by (auto simp: canonicalInvalidReason_def safeBucketTotal_def safe_total_eq hasNegative_def
      nonneg_buckets_def bucket_sum_def list_all_iff list_ex_iff int_limits not_less not_le)

text \<open>C26. The clamped total is the exact sum cut at the largest integer: for non-negative buckets the
  billable total, the inclusive input and the inclusive total saturate instead of wrapping, the
  inclusive total never falls below the input, and a negative bucket is passed through as a
  negative total, so that it stays visible.\<close>

theorem projection_saturates:
  assumes "nonneg_buckets b"
  shows "bucket_BillableTotal b = min MaxInt64 (bucket_sum b)
    \<and> InclusiveTotalTokens b = bucket_BillableTotal b
    \<and> 0 \<le> InclusiveInputTokens b \<and> InclusiveInputTokens b \<le> InclusiveTotalTokens b
    \<and> oa_TotalTokens (ProjectOpenAI b) = min MaxInt64 (oa_PromptTokens (ProjectOpenAI b) + oa_OutputTokens (ProjectOpenAI b))
    \<and> (v < 0 \<longrightarrow> bucket_BillableTotal (b\<lparr>bk_OutputTokens := v\<rparr>) = v)"
  using assms
  by (auto simp: nonneg_buckets_def bucket_list_def bucket_BillableTotal_def InclusiveTotalTokens_def
      InclusiveInputTokens_def addClamped_nonneg bucket_sum_def ProjectOpenAI_def int_limits min_def)
    (simp add: addClamped_def)

definition demo_buckets :: "int64 \<Rightarrow> buckets" where
  "demo_buckets u = \<lparr>bk_UncachedInputTokens = u, bk_CacheReadTokens = 5, bk_CacheCreation5mTokens = 2,
     bk_CacheCreation1hTokens = 1, bk_OutputTokens = 7\<rparr>"

lemma projection_saturates_witness:
  "bucket_BillableTotal (demo_buckets MaxInt64) = MaxInt64 \<and> bucket_BillableTotal (demo_buckets 3) = 18"
proof -
  have n: "nonneg_buckets (demo_buckets MaxInt64)" "nonneg_buckets (demo_buckets 3)"
    by (simp_all add: nonneg_buckets_def bucket_list_def demo_buckets_def int_limits)
  have "bucket_sum (demo_buckets MaxInt64) = MaxInt64 + 15" "bucket_sum (demo_buckets 3) = 18"
    by (simp_all add: bucket_sum_def bucket_list_def demo_buckets_def)
  with projection_saturates [OF n(1)] projection_saturates [OF n(2)] show ?thesis by (simp add: int_limits)
qed

text \<open>The projection loses nothing: splitting the inclusive OpenAI shape of non-negative buckets
  whose input sum is representable gives the same buckets back, and splitting any non-negative
  shape whose cache parts fit the input projects to that same input.\<close>

theorem SplitInclusive_roundtrip:
  "(nonneg_buckets b \<and> bucket_sum b - bk_OutputTokens b \<le> MaxInt64 \<longrightarrow>
      SplitInclusive (oa_PromptTokens (ProjectOpenAI b)) (oa_CacheReadTokens (ProjectOpenAI b))
        (oa_CacheCreation5mTokens (ProjectOpenAI b)) (oa_CacheCreation1hTokens (ProjectOpenAI b))
        (oa_OutputTokens (ProjectOpenAI b)) = b)
   \<and> (0 \<le> r \<and> 0 \<le> c5 \<and> 0 \<le> c1 \<and> r + c5 + c1 \<le> i \<and> i \<le> MaxInt64 \<longrightarrow>
      oa_PromptTokens (ProjectOpenAI (SplitInclusive i r c5 c1 w)) = i)"
proof (intro conjI impI)
  assume a: "nonneg_buckets b \<and> bucket_sum b - bk_OutputTokens b \<le> MaxInt64"
  let ?u = "bk_UncachedInputTokens b" and ?r = "bk_CacheReadTokens b"
    and ?c5 = "bk_CacheCreation5mTokens b" and ?c1 = "bk_CacheCreation1hTokens b"
  from a have n: "0 \<le> ?u" "0 \<le> ?r" "0 \<le> ?c5" "0 \<le> ?c1" "?u + ?r + ?c5 + ?c1 \<le> MaxInt64"
    by (simp_all add: nonneg_buckets_def bucket_list_def bucket_sum_def)
  have p: "InclusiveInputTokens b = ?u + ?r + ?c5 + ?c1"
    using n by (simp add: InclusiveInputTokens_def addClamped_nonneg)
  have c: "addClamped [?r, ?c5, ?c1] = ?r + ?c5 + ?c1"
    using n by (simp add: addClamped_nonneg)
  show "SplitInclusive (oa_PromptTokens (ProjectOpenAI b)) (oa_CacheReadTokens (ProjectOpenAI b))
        (oa_CacheCreation5mTokens (ProjectOpenAI b)) (oa_CacheCreation1hTokens (ProjectOpenAI b))
        (oa_OutputTokens (ProjectOpenAI b)) = b"
    using n by (simp add: ProjectOpenAI_def SplitInclusive_def p c Let_def)
next
  assume a: "0 \<le> r \<and> 0 \<le> c5 \<and> 0 \<le> c1 \<and> r + c5 + c1 \<le> i \<and> i \<le> MaxInt64"
  then have "addClamped [r, c5, c1] = r + c5 + c1" by (simp add: addClamped_nonneg)
  with a show "oa_PromptTokens (ProjectOpenAI (SplitInclusive i r c5 c1 w)) = i"
    by (simp add: ProjectOpenAI_def SplitInclusive_def InclusiveInputTokens_def addClamped_nonneg Let_def)
qed

lemma SplitInclusive_roundtrip_witness:
  "SplitInclusive 11 5 2 1 7 = demo_buckets 3 \<and> oa_PromptTokens (ProjectOpenAI (SplitInclusive 11 5 2 1 7)) = 11"
proof -
  have "nonneg_buckets (demo_buckets 3) \<and> bucket_sum (demo_buckets 3) - bk_OutputTokens (demo_buckets 3) \<le> MaxInt64"
    by (simp add: nonneg_buckets_def bucket_list_def demo_buckets_def bucket_sum_def int_limits)
  moreover have "ProjectOpenAI (demo_buckets 3) = \<lparr>oa_PromptTokens = 11, oa_OutputTokens = 7, oa_TotalTokens = 18,
     oa_CachedTokens = 5, oa_CacheReadTokens = 5, oa_CacheCreation5mTokens = 2, oa_CacheCreation1hTokens = 1\<rparr>"
    by code_simp
  ultimately show ?thesis using SplitInclusive_roundtrip [of "demo_buckets 3" 5 2 1 11 7] by (simp add: int_limits)
qed

text \<open>What an accepted envelope is.\<close>

definition envelope_wf :: "usage_envelope \<Rightarrow> bool" where
  "envelope_wf e \<longleftrightarrow>
     (case (ue_Canonical e, ue_SubsetCandidate e, ue_ExclusiveCandidate e) of
        (Some c, None, None) \<Rightarrow> validCanonical c
          \<and> (ue_ParseStatus e = ''verified'' \<and> (known_semantics (ue_Semantics e) \<or> ue_Semantics e = [] \<and> \<not> hasCache c)
             \<or> ue_ParseStatus e = ''estimated'' \<and> ue_Semantics e = [] \<and> \<not> hasCache c)
      | (None, Some s, Some x) \<Rightarrow> validCanonical s \<and> validCanonical x \<and> ue_ParseStatus e = ''ambiguous''
          \<and> ue_DecisionReason e \<noteq> [] \<and> ue_Semantics e = []
      | _ \<Rightarrow> False)"

lemma known_semantics_not_Nil: "known_semantics s \<Longrightarrow> s \<noteq> []"
  by (auto simp: known_semantics_def)

lemma verified_iff: "ue_ParseStatus e = ''verified'' \<Longrightarrow> validate_verified e = [] \<longleftrightarrow> envelope_wf e"
  by (auto simp: validate_verified_def envelope_wf_def validCanonical_def dest: known_semantics_not_Nil
      split: option.splits)

lemma estimated_iff: "ue_ParseStatus e = ''estimated'' \<Longrightarrow> validate_estimated e = [] \<longleftrightarrow> envelope_wf e"
  by (auto simp: validate_estimated_def envelope_wf_def validCanonical_def split: option.splits)

lemma ambiguous_iff: "ue_ParseStatus e = ''ambiguous'' \<Longrightarrow> validate_ambiguous e = [] \<longleftrightarrow> envelope_wf e"
  by (auto simp: validate_ambiguous_def envelope_wf_def validCanonical_def split: option.splits)

lemma other_not_wf:
  "ue_ParseStatus e \<noteq> ''verified'' \<Longrightarrow> ue_ParseStatus e \<noteq> ''estimated'' \<Longrightarrow> ue_ParseStatus e \<noteq> ''ambiguous''
   \<Longrightarrow> \<not> envelope_wf e"
  by (auto simp: envelope_wf_def split: option.splits)

lemma wrap_sum: "nonneg_buckets c \<Longrightarrow> bucket_sum c \<le> MaxInt64 \<Longrightarrow> canonical_BillableTotal c = bucket_sum c"
  unfolding canonical_BillableTotal_def
  by (subst wrap64_nonneg_id) (auto simp: nonneg_buckets_def bucket_list_def bucket_sum_def)

text \<open>The billing boundary accepts a version-1 envelope exactly when the reported values are
  non-negative and the verdict is well formed: one set of canonical buckets with proven semantics
  where cache is present (verified), without cache (estimated), or exactly both candidates with a
  reason (ambiguous). The buckets it accepts are non-negative and their billable total does not
  wrap around.\<close>

theorem validateV1Envelope_iff:
  "(validateV1Envelope (Some e) = [] \<longleftrightarrow>
      envelope_wf e \<and> \<not> hasNegative [ue_ReportedPromptTokens e, ue_ReportedOutputTokens e,
        ue_ReportedCacheReadTokens e, ue_ReportedCacheCreation5mTokens e,
        ue_ReportedCacheCreation1hTokens e, ue_ReportedTotalTokens e])
   \<and> (envelope_wf e \<longrightarrow> (\<forall>c \<in> set_option (ue_Canonical e) \<union> set_option (ue_SubsetCandidate e)
        \<union> set_option (ue_ExclusiveCandidate e).
        nonneg_buckets c \<and> canonical_BillableTotal c = bucket_sum c))"
proof
  show "validateV1Envelope (Some e) = [] \<longleftrightarrow>
      envelope_wf e \<and> \<not> hasNegative [ue_ReportedPromptTokens e, ue_ReportedOutputTokens e,
        ue_ReportedCacheReadTokens e, ue_ReportedCacheCreation5mTokens e,
        ue_ReportedCacheCreation1hTokens e, ue_ReportedTotalTokens e]"
    using verified_iff [of e] estimated_iff [of e] ambiguous_iff [of e] other_not_wf [of e]
    by (auto simp: validateV1Envelope_def)
  show "envelope_wf e \<longrightarrow> (\<forall>c \<in> set_option (ue_Canonical e) \<union> set_option (ue_SubsetCandidate e)
        \<union> set_option (ue_ExclusiveCandidate e).
        nonneg_buckets c \<and> canonical_BillableTotal c = bucket_sum c)"
    by (auto simp: envelope_wf_def validCanonical_def canonicalInvalidReason_valid wrap_sum split: option.splits)
qed

definition demo_envelope :: "string \<Rightarrow> string \<Rightarrow> usage_envelope" where
  "demo_envelope status sem = \<lparr>ue_ParserRevision = [], ue_ContractRevision = [], ue_PresentPaths = [],
     ue_ParseStatus = status, ue_Semantics = sem, ue_Protocol = [], ue_FieldShape = [], ue_DecisionReason = [],
     ue_ReportedPromptTokens = 8, ue_ReportedOutputTokens = 7, ue_ReportedCacheReadTokens = 5,
     ue_ReportedCacheCreation5mTokens = 2, ue_ReportedCacheCreation1hTokens = 1, ue_ReportedTotalTokens = 15,
     ue_Canonical = Some (demo_buckets 3), ue_SubsetCandidate = None, ue_ExclusiveCandidate = None\<rparr>"

lemma validateV1Envelope_iff_witness:
  "validateV1Envelope (Some (demo_envelope ''verified'' ''openai_subset'')) = []
   \<and> canonical_BillableTotal (demo_buckets 3) = 18
   \<and> validateV1Envelope (Some (demo_envelope ''verified'' [])) \<noteq> []"
proof -
  let ?e = "demo_envelope ''verified'' ''openai_subset''"
  have w: "envelope_wf ?e" "\<not> envelope_wf (demo_envelope ''verified'' [])" by code_simp+
  have n: "\<not> hasNegative [ue_ReportedPromptTokens ?e, ue_ReportedOutputTokens ?e, ue_ReportedCacheReadTokens ?e,
      ue_ReportedCacheCreation5mTokens ?e, ue_ReportedCacheCreation1hTokens ?e, ue_ReportedTotalTokens ?e]"
    by code_simp
  have "ue_Canonical ?e = Some (demo_buckets 3)" by (simp add: demo_envelope_def)
  moreover have "bucket_sum (demo_buckets 3) = 18" by code_simp
  ultimately show ?thesis
    using validateV1Envelope_iff [of ?e] validateV1Envelope_iff [of "demo_envelope ''verified'' []"] w n by simp
qed

text \<open>An envelope that breaks the contract is priced between two readings that bracket each other:
  the candidate buckets are non-negative, agree in every bucket but the uncached input, and the
  exclusive reading exceeds the subset reading by the cached part of the prompt and by nothing
  else, without wrap-around.\<close>

theorem candidates_bracket:
  assumes "reportedCandidateBuckets u = (sbs, xcl)"
    and "list_all in_int64 [lu_PromptTokens u, lu_CacheReadTokens u]"
    and "\<And>e. lu_Envelope u = Some e \<Longrightarrow> list_all in_int64 [ue_ReportedPromptTokens e, ue_ReportedCacheReadTokens e]"
  shows "nonneg_buckets sbs \<and> nonneg_buckets xcl
    \<and> xcl = sbs\<lparr>bk_UncachedInputTokens := bk_UncachedInputTokens xcl\<rparr>
    \<and> bk_UncachedInputTokens xcl - bk_UncachedInputTokens sbs
        = min (bk_UncachedInputTokens xcl) (bk_CacheReadTokens xcl)"
proof -
  obtain p0 o0 r0 c50 c10 where t: "reported_tuple u = (p0, o0, r0, c50, c10)" using prod_cases5 by blast
  have r: "in_int64 p0 \<and> in_int64 r0"
    using t assms(2,3) by (auto simp: reported_tuple_def Let_def split: option.splits if_splits)
  have w: "wrap64 (max p0 0 - max r0 0) = max p0 0 - max r0 0"
    using r by (intro wrap64_id) (auto simp: in_int64_def int_limits)
  show ?thesis
    using assms(1) unfolding reportedCandidateBuckets_def t Let_def prod.case w
    by (auto simp: nonneg_buckets_def bucket_list_def)
qed

definition demo_usage :: ledger_usage where
  "demo_usage = \<lparr>lu_PromptTokens = 0, lu_CompletionTokens = 0, lu_CacheReadTokens = 0,
     lu_CacheCreation5mTokens = 0, lu_CacheCreation1hTokens = 0, lu_UpstreamCost = 0,
     lu_PromptExclusive = False, lu_UsageContractVersion = 1,
     lu_Envelope = Some (demo_envelope ''verified'' [])\<rparr>"

lemma candidates_bracket_witness:
  "bk_UncachedInputTokens (fst (reportedCandidateBuckets demo_usage)) = 3
   \<and> bk_UncachedInputTokens (snd (reportedCandidateBuckets demo_usage)) = 8"
proof -
  let ?s = "fst (reportedCandidateBuckets demo_usage)" and ?x = "snd (reportedCandidateBuckets demo_usage)"
  have e: "bk_UncachedInputTokens ?x = 8" "bk_CacheReadTokens ?x = 5" by code_simp+
  have "list_all in_int64 [lu_PromptTokens demo_usage, lu_CacheReadTokens demo_usage]"
    "\<And>e. lu_Envelope demo_usage = Some e \<Longrightarrow> list_all in_int64 [ue_ReportedPromptTokens e, ue_ReportedCacheReadTokens e]"
    by (auto simp: demo_usage_def demo_envelope_def in_int64_def int_limits)
  from candidates_bracket [OF prod.collapse [symmetric] this] e show ?thesis by simp
qed

text \<open>The legacy fields give the buckets the flat counts mean: under exclusive prompts the uncached
  input is the prompt, otherwise the prompt without its cached part, never negative; when nothing
  was reported the whole estimate is billed as uncached input.\<close>

theorem legacy_buckets_meaning:
  assumes "0 \<le> lu_CacheReadTokens u" and "lu_PromptTokens u \<le> MaxInt64"
    and "0 \<le> lu_PromptTokens u" and "0 \<le> actual" and "actual \<le> MaxInt64"
  shows "bk_UncachedInputTokens (legacyCanonicalBuckets u actual) =
     (if lu_PromptTokens u = 0 \<and> lu_CompletionTokens u \<le> 0 \<and> lu_CacheReadTokens u = 0 then actual
      else if lu_PromptExclusive u then lu_PromptTokens u
      else max 0 (lu_PromptTokens u - lu_CacheReadTokens u))
    \<and> bk_OutputTokens (legacyCanonicalBuckets u actual) = lu_CompletionTokens u
    \<and> bk_CacheReadTokens (legacyCanonicalBuckets u actual) = lu_CacheReadTokens u"
proof -
  have "wrap64 (lu_PromptTokens u - lu_CacheReadTokens u) = lu_PromptTokens u - lu_CacheReadTokens u"
    if "lu_CacheReadTokens u < lu_PromptTokens u"
    using that assms by (intro wrap64_nonneg_id) auto
  moreover have "wrap64 actual = actual" using assms by (intro wrap64_nonneg_id)
  ultimately show ?thesis using assms by (auto simp: legacyCanonicalBuckets_def Let_def)
qed

lemma legacy_buckets_meaning_witness:
  "bk_UncachedInputTokens (legacyCanonicalBuckets (demo_usage\<lparr>lu_PromptTokens := 10, lu_CacheReadTokens := 4\<rparr>) 99) = 6"
  using legacy_buckets_meaning [of "demo_usage\<lparr>lu_PromptTokens := 10, lu_CacheReadTokens := 4\<rparr>" 99]
  by (simp add: demo_usage_def int_limits)

end
