(* ===== verification/Go_Float.thy ===== *)
theory Go_Float
  imports Go_Prelude Complex_Main
begin

text \<open>
  Go's \<open>float64\<close>: a finite value is its exact rational, and every operation computes the exact result
  and rounds it once to the nearest double (53 bits of significand, exponents from -1074, ties to
  even, overflow to an infinity). The sign of zero is not represented; the program never divides by
  a zero or inspects a sign bit. The theory proves what the pricing and quota proofs need: rounding
  keeps signs, is monotone and is exact on integers up to \<open>2 ^ 53\<close>.
\<close>

subsection \<open>Values and comparison\<close>

datatype float64 = Fin rat | NaN | PosInf | NegInf

fun f_less :: "float64 \<Rightarrow> float64 \<Rightarrow> bool" where
  "f_less (Fin x) (Fin y) = (x < y)"
| "f_less NaN _ = False"
| "f_less _ NaN = False"
| "f_less PosInf _ = False"
| "f_less NegInf y = (y \<noteq> NegInf)"
| "f_less (Fin _) PosInf = True"
| "f_less (Fin _) NegInf = False"

definition f_le :: "float64 \<Rightarrow> float64 \<Rightarrow> bool" where
  "f_le x y \<longleftrightarrow> f_less x y \<or> (x = y \<and> x \<noteq> NaN)"

definition f_special :: "float64 \<Rightarrow> bool" where
  "f_special x \<longleftrightarrow> x = NaN \<or> x = PosInf \<or> x = NegInf"

lemma f_special_iff: "\<not> f_special x \<longleftrightarrow> (\<exists>q. x = Fin q)"
  by (cases x) (auto simp: f_special_def)

lemma f_le_zero [simp]: "f_le (Fin q) (Fin 0) \<longleftrightarrow> q \<le> 0"
  by (auto simp: f_le_def)


lemma f_le_edge [simp]: "\<not> f_le NaN y" "\<not> f_le x NaN" "f_le PosInf y \<longleftrightarrow> y = PosInf" "f_le x NegInf \<longleftrightarrow> x = NegInf"
  by (cases x; cases y; simp add: f_le_def)+

lemma f_le_Fin [simp]: "f_le (Fin x) (Fin y) \<longleftrightarrow> x \<le> y"
  by (auto simp: f_le_def)

subsection \<open>Rounding\<close>

text \<open>The bit length of a positive integer.\<close>

function bit_len :: "int \<Rightarrow> int" where
  "bit_len n = (if n \<le> 0 then 0 else bit_len (n div 2) + 1)"
  by auto
termination by (relation "measure nat") auto

declare bit_len.simps [simp del]

text \<open>The exponent of a positive rational: \<open>2 powi exponent_of a \<le> a < 2 powi (exponent_of a + 1)\<close>.\<close>

definition exponent_of :: "rat \<Rightarrow> int" where
  "exponent_of a = (case quotient_of a of (n, d) \<Rightarrow>
     let e = bit_len n - bit_len d in
     if 2 powi e \<le> a then e else e - 1)"

definition round_half_even :: "rat \<Rightarrow> int" where
  "round_half_even q =
     (let f = \<lfloor>q\<rfloor>; r = q - of_int f in
      if r < 1 / 2 then f else if r > 1 / 2 then f + 1 else if even f then f else f + 1)"

definition ulp_exponent :: "rat \<Rightarrow> int" where
  "ulp_exponent a = max (exponent_of a - 52) (- 1074)"

definition round_pos :: "rat \<Rightarrow> rat" where
  "round_pos a = of_int (round_half_even (a / 2 powi ulp_exponent a)) * 2 powi ulp_exponent a"

definition max_double :: rat where
  "max_double = 2 ^ 1024"

text \<open>Evaluation compares with the literal instead of computing the power at every rounding.\<close>

lemma max_double_literal [code]:
  "max_double = of_int
     179769313486231590772930519078902473361797697894230657273430081157732675805500963132708477322407536021120113879871393357658789768814416622492847430639474124377767893424865485276302219601246094119453082952085005768838150682342462881473913110540827237163350510684586298239947245938479716304835356329624224137216"
  by (simp add: max_double_def)

definition fround :: "rat \<Rightarrow> float64" where
  "fround q =
     (if q = 0 then Fin 0
      else if q > 0 then (let v = round_pos q in if v \<ge> max_double then PosInf else Fin v)
      else (let v = round_pos (- q) in if v \<ge> max_double then NegInf else Fin (- v)))"

subsection \<open>Arithmetic\<close>

fun f_neg :: "float64 \<Rightarrow> float64" where
  "f_neg (Fin x) = Fin (- x)"
| "f_neg NaN = NaN"
| "f_neg PosInf = NegInf"
| "f_neg NegInf = PosInf"

fun f_add :: "float64 \<Rightarrow> float64 \<Rightarrow> float64" where
  "f_add (Fin x) (Fin y) = fround (x + y)"
| "f_add NaN _ = NaN"
| "f_add _ NaN = NaN"
| "f_add PosInf NegInf = NaN"
| "f_add NegInf PosInf = NaN"
| "f_add PosInf _ = PosInf"
| "f_add _ PosInf = PosInf"
| "f_add NegInf _ = NegInf"
| "f_add _ NegInf = NegInf"

definition f_sub :: "float64 \<Rightarrow> float64 \<Rightarrow> float64" where
  "f_sub x y = f_add x (f_neg y)"

definition inf_of :: "rat \<Rightarrow> float64" where
  "inf_of s = (if s = 0 then NaN else if s > 0 then PosInf else NegInf)"

fun f_mul :: "float64 \<Rightarrow> float64 \<Rightarrow> float64" where
  "f_mul (Fin x) (Fin y) = fround (x * y)"
| "f_mul NaN _ = NaN"
| "f_mul _ NaN = NaN"
| "f_mul (Fin x) PosInf = inf_of x"
| "f_mul (Fin x) NegInf = inf_of (- x)"
| "f_mul PosInf (Fin y) = inf_of y"
| "f_mul NegInf (Fin y) = inf_of (- y)"
| "f_mul PosInf PosInf = PosInf"
| "f_mul NegInf NegInf = PosInf"
| "f_mul PosInf NegInf = NegInf"
| "f_mul NegInf PosInf = NegInf"

fun f_div :: "float64 \<Rightarrow> float64 \<Rightarrow> float64" where
  "f_div (Fin x) (Fin y) = (if y = 0 then inf_of x else fround (x / y))"
| "f_div NaN _ = NaN"
| "f_div _ NaN = NaN"
| "f_div (Fin x) _ = Fin 0"
| "f_div PosInf (Fin y) = (if y < 0 then NegInf else PosInf)"
| "f_div NegInf (Fin y) = (if y < 0 then PosInf else NegInf)"
| "f_div _ _ = NaN"

definition f_of_int :: "int \<Rightarrow> float64" where
  "f_of_int n = fround (of_int n)"

text \<open>\<open>math.Floor\<close>, \<open>math.Ceil\<close> and \<open>math.Round\<close> (half away from zero): exact on doubles.\<close>

definition map_fin :: "(rat \<Rightarrow> rat) \<Rightarrow> float64 \<Rightarrow> float64" where
  "map_fin g x = (case x of Fin q \<Rightarrow> Fin (g q) | _ \<Rightarrow> x)"

definition f_floor :: "float64 \<Rightarrow> float64" where
  "f_floor = map_fin (\<lambda>q. of_int \<lfloor>q\<rfloor>)"

definition f_ceil :: "float64 \<Rightarrow> float64" where
  "f_ceil = map_fin (\<lambda>q. of_int \<lceil>q\<rceil>)"

definition round_away :: "rat \<Rightarrow> int" where
  "round_away q = (if q < 0 then - \<lfloor>- q + 1 / 2\<rfloor> else \<lfloor>q + 1 / 2\<rfloor>)"

definition f_round :: "float64 \<Rightarrow> float64" where
  "f_round = map_fin (\<lambda>q. of_int (round_away q))"

text \<open>
  Conversion to \<open>int64\<close> truncates; out of range it is implementation-defined in Go, and the value here
  is the one amd64 gives.
\<close>

definition f_to_int64 :: "float64 \<Rightarrow> int64" where
  "f_to_int64 x = (case x of
     Fin q \<Rightarrow> (let n = (if q < 0 then \<lceil>q\<rceil> else \<lfloor>q\<rfloor>) in if in_int64 n then n else MinInt64)
   | _ \<Rightarrow> MinInt64)"

text \<open>\<open>math.Max\<close> and \<open>math.Min\<close>.\<close>

definition f_max :: "float64 \<Rightarrow> float64 \<Rightarrow> float64" where
  "f_max x y = (if x = PosInf \<or> y = PosInf then PosInf else if x = NaN \<or> y = NaN then NaN
     else if f_less x y then y else x)"

definition f_min :: "float64 \<Rightarrow> float64 \<Rightarrow> float64" where
  "f_min x y = (if x = NegInf \<or> y = NegInf then NegInf else if x = NaN \<or> y = NaN then NaN
     else if f_less y x then y else x)"

text \<open>\<open>float64(math.MaxInt64)\<close>, which rounds up.\<close>

abbreviation f_MaxInt64 :: float64 where
  "f_MaxInt64 \<equiv> Fin 9223372036854775808"

subsection \<open>The exponent\<close>

lemma bit_len_nonneg: "0 \<le> bit_len n"
  by (induction n rule: bit_len.induct) (simp add: bit_len.simps)

lemma bit_len_bounds:
  "0 < n \<Longrightarrow> 2 ^ nat (bit_len n - 1) \<le> n \<and> n < 2 ^ nat (bit_len n)"
proof (induction n rule: bit_len.induct)
  case (1 n)
  show ?case
  proof (cases "n = 1")
    case True
    have "bit_len 1 = 1" by (simp add: bit_len.simps [of 1] bit_len.simps [of 0])
    with True show ?thesis by simp
  next
    case False
    let ?h = "n div 2"
    have h: "0 < ?h" using False 1(2) by simp
    have l: "bit_len n = bit_len ?h + 1" using 1(2) by (simp add: bit_len.simps [of n])
    have p: "0 < bit_len ?h" using h bit_len_nonneg [of "?h div 2"] by (simp add: bit_len.simps [of ?h])
    have e: "nat (bit_len n) = Suc (nat (bit_len ?h))" "nat (bit_len n - 1) = Suc (nat (bit_len ?h - 1))"
      using l p by simp_all
    have b: "x \<le> ?h \<Longrightarrow> ?h < y \<Longrightarrow> 2 * x \<le> n \<and> n < 2 * y" for x y by linarith
    have "2 ^ nat (bit_len ?h - 1) \<le> ?h \<and> ?h < 2 ^ nat (bit_len ?h)" using 1 h by auto
    then show ?thesis unfolding e power_Suc by (intro b) simp_all
  qed
qed

lemma bit_len_pos: "0 < n \<Longrightarrow> 0 < bit_len n"
  using bit_len_nonneg [of "n div 2"] by (simp add: bit_len.simps [of n])

lemma bit_len_powi:
  assumes "n > 0"
  shows "2 powi (bit_len n - 1) \<le> (of_int n :: rat)" "(of_int n :: rat) < 2 powi bit_len n"
proof -
  have "rat_of_int (2 ^ nat (bit_len n - 1)) \<le> rat_of_int n" "rat_of_int n < rat_of_int (2 ^ nat (bit_len n))"
    using bit_len_bounds [OF assms] by (simp_all only: of_int_le_iff of_int_less_iff)
  then show "2 powi (bit_len n - 1) \<le> (of_int n :: rat)" "(of_int n :: rat) < 2 powi bit_len n"
    using bit_len_pos [OF assms] by (simp_all add: power_int_def)
qed

lemma pow2_quotient: "(2::rat) powi p / 2 powi q = 2 powi (p - q)"
  by (simp add: power_int_diff)

lemma exponent_of_bounds:
  assumes "a > 0"
  shows "2 powi exponent_of a \<le> a" "a < 2 powi (exponent_of a + 1)"
proof -
  obtain n d where q: "quotient_of a = (n, d)" by (cases "quotient_of a")
  have d: "d > 0" using quotient_of_denom_pos [OF q] .
  have a: "a = of_int n / of_int d" by (rule quotient_of_div [OF q])
  have n: "n > 0" using assms d unfolding a by (simp add: zero_less_divide_iff)
  let ?e = "bit_len n - bit_len d"
  note nb = bit_len_powi [OF n] and db = bit_len_powi [OF d]
  have up: "a < 2 powi (?e + 1)"
  proof -
    have "a < 2 powi bit_len n / 2 powi (bit_len d - 1)"
      unfolding a using nb(2) db(1) d n by (intro frac_less) simp_all
    also have "\<dots> = 2 powi (?e + 1)" unfolding pow2_quotient by (simp add: algebra_simps)
    finally show ?thesis .
  qed
  have lo: "2 powi (?e - 1) \<le> a"
  proof -
    have "2 powi (?e - 1) = 2 powi (bit_len n - 1) / (2 powi bit_len d :: rat)"
      unfolding pow2_quotient by (simp add: algebra_simps)
    also have "\<dots> \<le> a" unfolding a using nb(1) db(2) d n by (intro frac_le) simp_all
    finally show ?thesis .
  qed
  show "2 powi exponent_of a \<le> a" using lo by (simp add: exponent_of_def q Let_def)
  show "a < 2 powi (exponent_of a + 1)" using up by (simp add: exponent_of_def q Let_def)
qed

lemma exponent_of_mono:
  assumes "0 < a" "a \<le> b"
  shows "exponent_of a \<le> exponent_of b"
proof (rule ccontr)
  assume "\<not> exponent_of a \<le> exponent_of b"
  then have "exponent_of b + 1 \<le> exponent_of a" by simp
  then have "(2::rat) powi (exponent_of b + 1) \<le> 2 powi exponent_of a" by (intro power_int_increasing) simp_all
  with exponent_of_bounds [of a] exponent_of_bounds [of b] assms show False by linarith
qed

subsection \<open>Rounding is monotone\<close>

lemma round_half_even_mono: "p \<le> q \<Longrightarrow> round_half_even p \<le> round_half_even q"
proof -
  assume le: "p \<le> q"
  then have fl: "\<lfloor>p\<rfloor> \<le> \<lfloor>q\<rfloor>" by (rule floor_mono)
  have b: "round_half_even x \<in> {\<lfloor>x\<rfloor>, \<lfloor>x\<rfloor> + 1}" for x by (simp add: round_half_even_def Let_def)
  show ?thesis
  proof (cases "\<lfloor>p\<rfloor> = \<lfloor>q\<rfloor>")
    case True
    with le show ?thesis by (auto simp: round_half_even_def Let_def)
  next
    case False
    with fl b [of p] b [of q] show ?thesis by auto
  qed
qed

lemma round_half_even_of_int [simp]: "round_half_even (of_int n) = n"
  by (simp add: round_half_even_def)

lemma round_pos_int:
  assumes "of_int m * 2 powi ulp_exponent a \<le> a"
  shows "of_int m * 2 powi ulp_exponent a \<le> round_pos a"
proof -
  have "of_int m \<le> a / 2 powi ulp_exponent a" using assms by (simp add: field_simps)
  then have "m \<le> round_half_even (a / 2 powi ulp_exponent a)"
    using round_half_even_mono [of "of_int m"] by simp
  then show ?thesis by (simp add: round_pos_def)
qed

lemma round_pos_int_le:
  assumes "a \<le> of_int m * 2 powi ulp_exponent a"
  shows "round_pos a \<le> of_int m * 2 powi ulp_exponent a"
proof -
  have "a / 2 powi ulp_exponent a \<le> of_int m" using assms by (simp add: field_simps)
  then have "round_half_even (a / 2 powi ulp_exponent a) \<le> m"
    using round_half_even_mono [of _ "of_int m"] by fastforce
  then show ?thesis by (simp add: round_pos_def)
qed

lemma ulp_exponent_mono: "0 < a \<Longrightarrow> a \<le> b \<Longrightarrow> ulp_exponent a \<le> ulp_exponent b"
  using exponent_of_mono [of a b] by (simp add: ulp_exponent_def)

lemma round_pos_nonneg: "0 < a \<Longrightarrow> 0 \<le> round_pos a"
  using round_pos_int [of 0 a] by simp

lemma round_pos_mono:
  assumes "0 < a" "a \<le> b"
  shows "round_pos a \<le> round_pos b"
proof (cases "ulp_exponent a = ulp_exponent b")
  case True
  have "a / 2 powi ulp_exponent b \<le> b / 2 powi ulp_exponent b" using assms(2) by (intro divide_right_mono) simp_all
  then show ?thesis unfolding round_pos_def True using round_half_even_mono by simp
next
  case False
  with ulp_exponent_mono [OF assms] have less: "ulp_exponent a < ulp_exponent b" by simp
  have ub: "ulp_exponent b = exponent_of b - 52" using less by (auto simp: ulp_exponent_def split: if_splits)
  have p53: "of_int (2 ^ 53) * (2::rat) powi ulp_exponent a = 2 powi (ulp_exponent a + 53)"
    by (simp add: power_int_add)
  have p52: "of_int (2 ^ 52) * (2::rat) powi ulp_exponent b = 2 powi exponent_of b"
  proof -
    have "(2::rat) powi exponent_of b = 2 powi (ulp_exponent b + 52)" using ub by simp
    also have "\<dots> = 2 powi ulp_exponent b * 2 ^ 52" by (simp add: power_int_add)
    finally show ?thesis by simp
  qed
  have "a < 2 powi (exponent_of a + 1)" by (rule exponent_of_bounds [OF assms(1)])
  also have "\<dots> \<le> 2 powi (ulp_exponent a + 53)" by (intro power_int_increasing) (simp_all add: ulp_exponent_def)
  finally have "round_pos a \<le> of_int (2 ^ 53) * 2 powi ulp_exponent a" by (intro round_pos_int_le) (simp only: p53 less_imp_le)
  also have "\<dots> \<le> 2 powi exponent_of b" unfolding p53 using less ub by (intro power_int_increasing) simp_all
  also have "\<dots> = of_int (2 ^ 52) * 2 powi ulp_exponent b" using p52 by simp
  also have "\<dots> \<le> round_pos b"
    by (rule round_pos_int) (use p52 exponent_of_bounds(1) [of b] assms in simp)
  finally show ?thesis .
qed

lemma f_le_trans: "f_le x y \<Longrightarrow> f_le y z \<Longrightarrow> f_le x z"
  by (cases x; cases y; cases z; auto simp: f_le_def)

lemma fround_mono: "p \<le> q \<Longrightarrow> f_le (fround p) (fround q)"
proof -
  assume le: "p \<le> q"
  consider (pos) "0 < p" | (neg) "q < 0" | (mid) "p \<le> 0" "0 \<le> q" by linarith
  then show ?thesis
  proof cases
    case pos
    with le round_pos_mono [of p q] round_pos_nonneg [of p] show ?thesis
      by (auto simp: fround_def Let_def f_le_def)
  next
    case neg
    with le round_pos_mono [of "- q" "- p"] round_pos_nonneg [of "- q"] show ?thesis
      by (auto simp: fround_def Let_def f_le_def)
  next
    case mid
    then have "f_le (fround p) (Fin 0)" "f_le (Fin 0) (fround q)"
      using round_pos_nonneg [of "- p"] round_pos_nonneg [of q]
      by (auto simp: fround_def Let_def f_le_def)
    then show ?thesis by (rule f_le_trans)
  qed
qed

lemma fround_nonneg: "0 \<le> q \<Longrightarrow> f_le (Fin 0) (fround q)"
  using fround_mono [of 0 q] by (simp add: fround_def)

lemma fround_not_NaN [simp]: "fround q \<noteq> NaN" "NaN \<noteq> fround q"
  by (auto simp: fround_def Let_def)

text \<open>Integers up to \<open>2 ^ 53\<close> are doubles.\<close>

lemma fround_int:
  assumes "\<bar>n\<bar> \<le> 9007199254740992"
  shows "fround (of_int n) = Fin (of_int n)"
proof -
  have pos: "round_pos (of_int m) = of_int m" if m: "0 < m" "m \<le> 9007199254740992" for m :: int
  proof (cases "ulp_exponent (of_int m) \<le> 0")
    case True
    then have "(of_int m :: rat) = of_int (m * 2 ^ nat (- ulp_exponent (of_int m))) * 2 powi ulp_exponent (of_int m)"
      by (simp add: power_int_def field_simps)
    then have "round_half_even (of_int m / 2 powi ulp_exponent (of_int m)) = m * 2 ^ nat (- ulp_exponent (of_int m))"
      by (metis nonzero_mult_div_cancel_right power_int_not_zero round_half_even_of_int zero_neq_numeral)
    then show ?thesis unfolding round_pos_def
      using \<open>(of_int m :: rat) = of_int (m * 2 ^ nat (- ulp_exponent (of_int m))) * 2 powi ulp_exponent (of_int m)\<close>
      by metis
  next
    case False
    then have e: "exponent_of (of_int m) \<ge> 53" by (simp add: ulp_exponent_def max_def split: if_splits)
    have "(2::rat) powi 53 \<le> 2 powi exponent_of (of_int m)" using e by (intro power_int_increasing) simp_all
    also have "\<dots> \<le> of_int m" using m by (intro exponent_of_bounds) simp
    finally have "rat_of_int 9007199254740992 \<le> rat_of_int m" by simp
    then have "9007199254740992 \<le> m" by (simp only: of_int_le_iff)
    with m have m53: "m = 9007199254740992" by simp
    have "exponent_of 9007199254740992 = 53" by code_simp
    then have "ulp_exponent 9007199254740992 = 1" by (simp add: ulp_exponent_def)
    then show ?thesis using round_half_even_of_int [of 4503599627370496] by (simp add: round_pos_def m53)
  qed
  have small: "round_pos (of_int m) < max_double" if "0 < m" "m \<le> 9007199254740992" for m :: int
  proof -
    have "rat_of_int m \<le> rat_of_int 9007199254740992" using that(2) by (simp only: of_int_le_iff)
    then show ?thesis unfolding pos [OF that] max_double_def by simp
  qed
  show ?thesis
  proof (cases n "0 :: int" rule: linorder_cases)
    case less
    with assms pos [of "- n"] small [of "- n"] show ?thesis by (simp add: fround_def Let_def)
  next
    case greater
    with assms pos [of n] small [of n] show ?thesis by (simp add: fround_def Let_def)
  qed (simp add: fround_def)
qed

subsection \<open>The rounding error\<close>

lemma round_half_even_error: "\<bar>of_int (round_half_even q) - q\<bar> \<le> 1 / 2"
proof -
  have "of_int \<lfloor>q\<rfloor> \<le> q" "q < of_int \<lfloor>q\<rfloor> + 1" by linarith+
  then show ?thesis by (auto simp: round_half_even_def Let_def abs_le_iff)
qed

text \<open>Half a unit in the last place: a relative part for normal numbers, an absolute one for subnormals.\<close>

lemma round_pos_error:
  assumes "0 < a"
  shows "\<bar>round_pos a - a\<bar> \<le> a * 2 powi (- 53) + 2 powi (- 1075)"
proof -
  let ?e = "ulp_exponent a"
  have "round_pos a - a = (of_int (round_half_even (a / 2 powi ?e)) - a / 2 powi ?e) * 2 powi ?e"
    by (simp add: round_pos_def left_diff_distrib)
  then have "\<bar>round_pos a - a\<bar> = \<bar>of_int (round_half_even (a / 2 powi ?e)) - a / 2 powi ?e\<bar> * 2 powi ?e"
    by (simp add: abs_mult)
  also have "\<dots> \<le> 1 / 2 * 2 powi ?e"
    using round_half_even_error by (intro mult_right_mono) simp_all
  also have "1 / 2 * 2 powi ?e \<le> a * 2 powi (- 53) + (2::rat) powi (- 1075)"
  proof (cases "exponent_of a - 52 \<ge> - 1074")
    case True
    then have "?e = exponent_of a - 52" by (simp add: ulp_exponent_def)
    then have "1 / 2 * (2::rat) powi ?e = 2 powi exponent_of a * 2 powi (- 53)"
      by (simp add: power_int_add [symmetric] power_int_diff)
    also have "\<dots> \<le> a * 2 powi (- 53)" using exponent_of_bounds(1) [OF assms] by (intro mult_right_mono) simp_all
    finally show ?thesis by (simp add: add_increasing2)
  next
    case False
    then have "?e = - 1074" by (simp add: ulp_exponent_def)
    moreover have "(2::rat) powi (- 1074) = 2 * 2 powi (- 1075)"
      using power_int_add [of "2::rat" 1 "- 1075"] by simp
    ultimately have "1 / 2 * (2::rat) powi ?e = 2 powi (- 1075)" by (simp only:)
    then show ?thesis using assms by (simp add: add_increasing)
  qed
  finally show ?thesis .
qed

lemma fround_error:
  assumes "0 \<le> a" "fround a = Fin v"
  shows "0 \<le> v" "v \<le> a * (1 + 2 powi (- 53)) + 2 powi (- 1075)" "a * (1 - 2 powi (- 53)) - 2 powi (- 1075) \<le> v"
proof -
  have "0 \<le> v \<and> v \<le> a * (1 + 2 powi (- 53)) + 2 powi (- 1075) \<and> a * (1 - 2 powi (- 53)) - 2 powi (- 1075) \<le> v"
  proof (cases "a = 0")
    case True
    with assms show ?thesis by (simp add: fround_def)
  next
    case False
    with assms have a: "0 < a" and v: "v = round_pos a" by (auto simp: fround_def Let_def split: if_splits)
    have "\<bar>round_pos a - a\<bar> \<le> a * 2 powi (- 53) + 2 powi (- 1075)" by (rule round_pos_error [OF a])
    then have "v - a \<le> a * 2 powi (- 53) + 2 powi (- 1075)" "a - v \<le> a * 2 powi (- 53) + 2 powi (- 1075)"
      unfolding v by linarith+
    then show ?thesis using round_pos_nonneg [OF a] v by (simp add: algebra_simps)
  qed
  then show "0 \<le> v" "v \<le> a * (1 + 2 powi (- 53)) + 2 powi (- 1075)" "a * (1 - 2 powi (- 53)) - 2 powi (- 1075) \<le> v"
    by auto
qed

text \<open>From \<open>2 ^ 53\<close> on every double is an integer.\<close>

lemma fround_integer:
  assumes "9007199254740992 \<le> a" "fround a = Fin v"
  shows "\<exists>n. v = of_int n"
proof -
  have a: "0 < a" using assms(1) by simp
  with assms(2) have v: "v = round_pos a" by (auto simp: fround_def Let_def split: if_splits)
  have "(2::rat) powi 53 \<le> a" using assms(1) by simp
  also have "\<dots> < 2 powi (exponent_of a + 1)" by (rule exponent_of_bounds(2) [OF a])
  finally have lt: "(2::rat) powi 53 < 2 powi (exponent_of a + 1)" .
  have "53 < exponent_of a + 1"
  proof (rule ccontr)
    assume "\<not> ?thesis"
    then have "(2::rat) powi (exponent_of a + 1) \<le> 2 powi 53" by (intro power_int_increasing) simp_all
    with lt show False by linarith
  qed
  then have e: "0 \<le> ulp_exponent a" by (simp add: ulp_exponent_def)
  then have "v = of_int (round_half_even (a / 2 powi ulp_exponent a) * 2 ^ nat (ulp_exponent a))"
    unfolding v round_pos_def by (simp add: power_int_def)
  then show ?thesis by blast
qed

end
