(* ===== verification/Subscription.thy ===== *)
theory Subscription
  imports Go_Float Routing_Context
begin

text \<open>
  Subscriptions: contracts and their routing coverage (\<open>domain/subscription/biz/contract.go\<close>), the
  conversion of a CNY price to wallet units (\<open>price.go\<close>), the frozen plan snapshot of an order
  (\<open>plan_snapshot.go\<close>) and the life cycle of a user's subscription (\<open>subscription_usecase.go\<close>).
  Floating-point numbers are only compared here, so a \<open>float64\<close> is its exact value or one of the
  special values; the recharge rate is its shortest decimal form, as the code reads it into a
  rational. The contract hash (SHA-256 of JSON) and the JSON decoders are parameters.
\<close>

subsection \<open>Contracts\<close>

record routing_coverage =
  cv_GroupID :: int64
  cv_GroupKey :: string
  cv_GrantsAccess :: bool

record quota_policy =
  qp_ID :: int64
  qp_Version :: string
  qp_DailyLimit :: "float64 option"
  qp_WeeklyLimit :: "float64 option"
  qp_MonthlyLimit :: "float64 option"
  qp_RateMultiplier :: float64

record contract =
  ct_Version :: int
  ct_CoverageMode :: string
  ct_Coverage :: "routing_coverage list"
  ct_QuotaPolicy :: quota_policy
  ct_Digest :: string

record subscription_group =
  sg_ID :: int64
  sg_DailyLimitUSD :: "float64 option"
  sg_WeeklyLimitUSD :: "float64 option"
  sg_MonthlyLimitUSD :: "float64 option"
  sg_RateMultiplier :: float64
  sg_Status :: int

text \<open>\<open>contractHash\<close> on the two types it is applied to.\<close>

record hashes =
  hash_policy :: "quota_policy \<Rightarrow> string"
  hash_contract :: "contract \<Rightarrow> string"

fun coverage_loop :: "routing_coverage list \<Rightarrow> int64 \<Rightarrow> bool" where
  "coverage_loop [] previous = True"
| "coverage_loop (g # gs) previous =
     (if cv_GroupID g \<le> previous \<or> trim_space (cv_GroupKey g) = [] then False
      else coverage_loop gs (cv_GroupID g))"

definition limits_ok :: "quota_policy \<Rightarrow> bool" where
  "limits_ok q \<longleftrightarrow> \<not> (f_le (qp_RateMultiplier q) (Fin 0) \<or> f_special (qp_RateMultiplier q))
     \<and> list_all (\<lambda>n. case n of None \<Rightarrow> True | Some x \<Rightarrow> \<not> (f_less x (Fin 0) \<or> f_special x))
         [qp_DailyLimit q, qp_WeeklyLimit q, qp_MonthlyLimit q]"

definition contract_Validate :: "hashes \<Rightarrow> contract option \<Rightarrow> bool" where
  "contract_Validate H co = (case co of
     None \<Rightarrow> False
   | Some c \<Rightarrow>
       if ct_Version c \<noteq> 2 \<or> ct_CoverageMode c \<noteq> ''selected_groups'' \<or> ct_Coverage c = []
          \<or> qp_ID (ct_QuotaPolicy c) \<le> 0 then False
       else if \<not> limits_ok (ct_QuotaPolicy c) then False
       else let q = (ct_QuotaPolicy c)\<lparr>qp_Version := []\<rparr>; version = qp_Version (ct_QuotaPolicy c) in
         if version = [] \<or> version \<noteq> hash_policy H q then False
         else if \<not> coverage_loop (ct_Coverage c) 0 then False
         else \<not> (ct_Digest c = [] \<or> ct_Digest c \<noteq> hash_contract H (c\<lparr>ct_Digest := []\<rparr>)))"

definition NewContract :: "hashes \<Rightarrow> subscription_group option \<Rightarrow> routing_coverage list \<Rightarrow> contract option" where
  "NewContract H grp coverage = (case grp of
     None \<Rightarrow> None
   | Some g \<Rightarrow>
       if sg_ID g \<le> 0 \<or> coverage = [] then None
       else let q0 = \<lparr>qp_ID = sg_ID g, qp_Version = [], qp_DailyLimit = sg_DailyLimitUSD g,
                  qp_WeeklyLimit = sg_WeeklyLimitUSD g, qp_MonthlyLimit = sg_MonthlyLimitUSD g,
                  qp_RateMultiplier = sg_RateMultiplier g\<rparr>;
                q = q0\<lparr>qp_Version := hash_policy H q0\<rparr>;
                c0 = \<lparr>ct_Version = 2, ct_CoverageMode = ''selected_groups'',
                  ct_Coverage = sort_key cv_GroupID coverage, ct_QuotaPolicy = q, ct_Digest = []\<rparr>;
                c = c0\<lparr>ct_Digest := hash_contract H c0\<rparr>
         in if contract_Validate H (Some c) then Some c else None)"

definition contract_Covers :: "contract option \<Rightarrow> int64 \<Rightarrow> bool" where
  "contract_Covers co groupID = (case co of None \<Rightarrow> True
   | Some c \<Rightarrow> list_ex (\<lambda>g. cv_GroupID g = groupID) (ct_Coverage c))"

definition contract_Group :: "contract option \<Rightarrow> subscription_group option" where
  "contract_Group co = map_option (\<lambda>c. let q = ct_QuotaPolicy c in
     \<lparr>sg_ID = qp_ID q, sg_DailyLimitUSD = qp_DailyLimit q, sg_WeeklyLimitUSD = qp_WeeklyLimit q,
      sg_MonthlyLimitUSD = qp_MonthlyLimit q, sg_RateMultiplier = qp_RateMultiplier q, sg_Status = 1\<rparr>) co"

subsection \<open>User subscriptions\<close>

text \<open>
  The row of a user's subscription but for its usage and window columns. Those are the record
  \<open>usage_windows\<close> of \<open>Usage_Windows\<close>, kept beside the row: in \<open>db_Usage\<close> of the billing store and in
  \<open>subscription_row\<close> of \<open>Subscription_Life\<close>.
\<close>

record user_subscription =
  us_PricePaid :: int64
  us_Contract :: "contract option"
  us_SourceOrder :: string
  us_EntitlementRevision :: int64
  us_ID :: int64
  us_UserID :: int64
  us_GroupID :: int64
  us_SubscriptionName :: string
  us_Status :: string
  us_StartsAt :: int64
  us_ExpiresAt :: int64
  us_RenewalStrategy :: string
  us_Metadata :: string
  us_CreatedAt :: int64
  us_UpdatedAt :: int64

definition RoutingGrants :: "hashes \<Rightarrow> user_subscription option \<Rightarrow> int64 \<Rightarrow> user_group_grant list" where
  "RoutingGrants H so now = (case so of
     None \<Rightarrow> []
   | Some s \<Rightarrow>
       if us_Contract s = None \<or> \<not> contract_Validate H (us_Contract s) \<or> us_Status s \<noteq> ''active''
          \<or> us_StartsAt s > now \<or> us_ExpiresAt s \<le> now then []
       else (case us_Contract s of None \<Rightarrow> []
         | Some c \<Rightarrow> map (\<lambda>g. \<lparr>ug_GroupID = cv_GroupID g, ug_SourceType = ''subscription'',
               ug_SourceRef = FormatInt (us_ID s), ug_StartsAt = us_StartsAt s,
               ug_ExpiresAt = us_ExpiresAt s, ug_Status = ''active''\<rparr>)
             (filter cv_GrantsAccess (ct_Coverage c))))"

datatype subscription_error = ErrContractInvalid | ErrNotFound | ErrRevoked | ErrContractConflict
  | ErrSubtractSeconds | ErrRepo | ErrAlreadyAssigned | ErrNotActive | ErrInvalidQuotaScope | ErrInvalidChange

text \<open>
  \<open>GetRoutingEntitlements\<close> from the answer of the repository: the active subscription of the user
  (\<open>None\<close> is a nil row) or an error.
\<close>

definition no_entitlements :: entitlement_facts where
  "no_entitlements = \<lparr>en_SubscriptionID = 0, en_Revision = 0, en_Grants = []\<rparr>"

definition GetRoutingEntitlements :: "hashes \<Rightarrow> subscription_error + user_subscription option \<Rightarrow> int64
    \<Rightarrow> subscription_error + entitlement_facts" where
  "GetRoutingEntitlements H row now = (case row of
     Inl e \<Rightarrow> if e = ErrNotFound then Inr no_entitlements else Inl e
   | Inr None \<Rightarrow> Inr no_entitlements
   | Inr (Some s) \<Rightarrow>
       if us_Status s \<noteq> ''active'' \<or> us_StartsAt s > now \<or> us_ExpiresAt s \<le> now then Inr no_entitlements
       else if us_Contract s \<noteq> None \<and> \<not> contract_Validate H (us_Contract s) then Inl ErrContractInvalid
       else Inr \<lparr>en_SubscriptionID = us_ID s, en_Revision = us_EntitlementRevision s,
                 en_Grants = RoutingGrants H (Some s) now\<rparr>)"

definition same_digest :: "contract option \<Rightarrow> contract option \<Rightarrow> bool" where
  "same_digest a b = (case (a, b) of (Some c, Some d) \<Rightarrow> ct_Digest c = ct_Digest d | _ \<Rightarrow> False)"

text \<open>\<open>pending\<close> is the change recorded in the metadata: target group and contract.\<close>

definition ValidateRenewalContract :: "(string \<Rightarrow> (int64 \<times> contract option) option) \<Rightarrow>
    subscription_error + user_subscription option \<Rightarrow> int64 \<Rightarrow> contract option \<Rightarrow> subscription_error option" where
  "ValidateRenewalContract pending row groupID ct = (case row of
     Inl e \<Rightarrow> if e = ErrNotFound then None else Some e
   | Inr None \<Rightarrow> None
   | Inr (Some active) \<Rightarrow>
       if us_Contract active = None \<and> ct = None \<and> us_GroupID active = groupID then None
       else if same_digest (us_Contract active) ct then None
       else case pending (us_Metadata active) of
         Some (toGroup, pc) \<Rightarrow>
           if toGroup = groupID \<and> ((pc = None \<and> ct = None) \<or> same_digest pc ct)
           then None else Some ErrContractConflict
       | None \<Rightarrow> Some ErrContractConflict)"

subsection \<open>Life cycle\<close>

text \<open>\<open>merge\<close> is the JSON merge of a revocation reason into the metadata.\<close>

definition RevokeInTx :: "(string \<Rightarrow> string \<Rightarrow> string) \<Rightarrow> int64 \<Rightarrow> user_subscription \<Rightarrow> string \<Rightarrow> user_subscription" where
  "RevokeInTx merge now s reason =
     (if us_Status s = ''revoked'' then s
      else s\<lparr>us_Status := ''revoked'', us_UpdatedAt := now, us_Metadata := merge (us_Metadata s) reason\<rparr>)"

definition ShortenInTx :: "int64 \<Rightarrow> user_subscription \<Rightarrow> int64 \<Rightarrow> subscription_error + user_subscription" where
  "ShortenInTx now s subtractSeconds =
     (if subtractSeconds \<le> 0 then Inl ErrSubtractSeconds
      else if us_Status s = ''revoked'' then Inl ErrRevoked
      else Inr (s\<lparr>us_ExpiresAt := max (wrap64 (us_ExpiresAt s - subtractSeconds)) now, us_UpdatedAt := now\<rparr>))"

definition Extend :: "int64 \<Rightarrow> user_subscription \<Rightarrow> int64 \<Rightarrow> subscription_error + user_subscription" where
  "Extend now s newExpiresAt =
     (if us_Status s = ''revoked'' then Inl ErrRevoked
      else Inr (s\<lparr>us_ExpiresAt := newExpiresAt, us_RenewalStrategy := ''extend'',
        us_Status := (if us_Status s = ''expired'' then ''active'' else us_Status s), us_UpdatedAt := now\<rparr>))"

subsection \<open>Prices\<close>

definition convertedWalletAmount :: "int64 \<Rightarrow> int \<Rightarrow> float64 \<Rightarrow> int64 option" where
  "convertedWalletAmount price priceScale multiplier = (case multiplier of
     Fin rate \<Rightarrow>
       if price < 0 \<or> rate \<le> 0 then None
       else (case quotient_of (of_int price * rate * (10000 / of_int priceScale)) of (num, den) \<Rightarrow>
         let q = num div den; r = num mod den;
             rounded = (if 2 * r \<ge> den then q + 1 else q)
         in if \<not> in_int64 rounded \<or> (price > 0 \<and> rounded \<le> 0) then None else Some rounded)
   | _ \<Rightarrow> None)"

definition WalletAmountForMoneyCents :: "int64 \<Rightarrow> float64 \<Rightarrow> int64 option" where
  "WalletAmountForMoneyCents moneyCents multiplier = convertedWalletAmount moneyCents 100 multiplier"

definition walletPriceAmount :: "int64 \<Rightarrow> float64 \<Rightarrow> int64 option" where
  "walletPriceAmount priceCNY multiplier = convertedWalletAmount priceCNY 1 multiplier"

record price_conversion =
  pc_Version :: int
  pc_RechargeMultiplier :: float64
  pc_WalletAmount :: int64

definition CapturePriceConversion :: "float64 \<Rightarrow> int64 \<Rightarrow> price_conversion option" where
  "CapturePriceConversion rate priceCNY =
     (if priceCNY \<le> 0 then None
      else map_option (\<lambda>amount. \<lparr>pc_Version = 1, pc_RechargeMultiplier = rate, pc_WalletAmount = amount\<rparr>)
        (walletPriceAmount priceCNY rate))"

definition conversion_validate :: "price_conversion option \<Rightarrow> int64 \<Rightarrow> bool" where
  "conversion_validate po priceCNY = (case po of None \<Rightarrow> True
   | Some p \<Rightarrow>
       if pc_Version p \<noteq> 1 \<or> priceCNY \<le> 0 then False
       else walletPriceAmount priceCNY (pc_RechargeMultiplier p) = Some (pc_WalletAmount p))"

record plan_snapshot =
  ps_Version :: int
  ps_Contract :: "contract option"
  ps_PlanID :: int64
  ps_GroupID :: int64
  ps_PriceQuota :: int64
  ps_ValidityDays :: int
  ps_PriceConversion :: "price_conversion option"

definition zero_snapshot :: plan_snapshot where
  "zero_snapshot = \<lparr>ps_Version = 0, ps_Contract = None, ps_PlanID = 0, ps_GroupID = 0, ps_PriceQuota = 0,
     ps_ValidityDays = 0, ps_PriceConversion = None\<rparr>"

definition DecodePlanSnapshot :: "hashes \<Rightarrow> (string \<Rightarrow> plan_snapshot option) \<Rightarrow> string \<Rightarrow> plan_snapshot option" where
  "DecodePlanSnapshot H json raw =
     (if raw = [] then Some zero_snapshot
      else case json raw of
        None \<Rightarrow> None
      | Some s \<Rightarrow>
          if ps_Version s \<noteq> 0 \<and> ps_Version s \<noteq> 2 then None
          else if ps_Version s = 2 \<and> (case ps_Contract s of None \<Rightarrow> True
              | Some c \<Rightarrow> \<not> contract_Validate H (Some c) \<or> qp_ID (ct_QuotaPolicy c) \<noteq> ps_GroupID s) then None
          else if ps_Version s = 0 \<and> ps_Contract s \<noteq> None then None
          else if \<not> conversion_validate (ps_PriceConversion s) (ps_PriceQuota s) then None
          else Some s)"

subsection \<open>Lemmas on contracts\<close>

lemma coverage_loop_iff:
  "coverage_loop gs p \<longleftrightarrow> sorted_wrt (<) (p # map cv_GroupID gs) \<and> (\<forall>g \<in> set gs. trim_space (cv_GroupKey g) \<noteq> [])"
proof (induction gs arbitrary: p)
  case Nil
  then show ?case by simp
next
  case (Cons g gs)
  show ?case unfolding coverage_loop.simps Cons.IH by (auto intro: less_trans)
qed

lemma sort_key_Nil [simp]: "sort_key f xs = [] \<longleftrightarrow> xs = []"
  by (metis length_0_conv length_sort)

lemma sorted_wrt_less_sort_key:
  "sorted_wrt (<) (p # map f (sort_key f xs)) \<longleftrightarrow> distinct (map f xs) \<and> (\<forall>x \<in> set xs. (p :: int) < f x)"
proof -
  have "distinct (map f (sort_key f xs)) \<longleftrightarrow> distinct (map f xs)"
    by (simp add: distinct_map)
  moreover have "sorted (map f (sort_key f xs))" by simp
  ultimately have "sorted_wrt (<) (map f (sort_key f xs)) \<longleftrightarrow> distinct (map f xs)"
    unfolding strict_sorted_iff by blast
  then show ?thesis by auto
qed

text \<open>A contract is made exactly from a valid quota policy and a coverage of distinct, positive,
  named groups; it then validates, lists the groups in order, covers exactly them, and a copy with
  any other digest is refused.\<close>

theorem NewContract_ok:
  assumes "hash_policy H (\<lparr>qp_ID = sg_ID g, qp_Version = [], qp_DailyLimit = sg_DailyLimitUSD g,
        qp_WeeklyLimit = sg_WeeklyLimitUSD g, qp_MonthlyLimit = sg_MonthlyLimitUSD g,
        qp_RateMultiplier = sg_RateMultiplier g\<rparr>) \<noteq> []"
    and "\<And>c. hash_contract H c \<noteq> []"
  shows "(NewContract H (Some g) coverage \<noteq> None \<longleftrightarrow>
      0 < sg_ID g \<and> coverage \<noteq> [] \<and> distinct (map cv_GroupID coverage)
      \<and> (\<forall>x \<in> set coverage. 0 < cv_GroupID x \<and> trim_space (cv_GroupKey x) \<noteq> [])
      \<and> limits_ok \<lparr>qp_ID = sg_ID g, qp_Version = [], qp_DailyLimit = sg_DailyLimitUSD g,
        qp_WeeklyLimit = sg_WeeklyLimitUSD g, qp_MonthlyLimit = sg_MonthlyLimitUSD g,
        qp_RateMultiplier = sg_RateMultiplier g\<rparr>)
    \<and> (NewContract H (Some g) coverage = Some c \<longrightarrow>
        contract_Validate H (Some c) \<and> sorted (map cv_GroupID (ct_Coverage c))
        \<and> (contract_Covers (Some c) i \<longleftrightarrow> i \<in> cv_GroupID ` set coverage)
        \<and> (d \<noteq> ct_Digest c \<longrightarrow> \<not> contract_Validate H (Some (c\<lparr>ct_Digest := d\<rparr>))))"
proof -
  let ?qa = "\<lparr>qp_ID = sg_ID g, qp_Version = [], qp_DailyLimit = sg_DailyLimitUSD g,
      qp_WeeklyLimit = sg_WeeklyLimitUSD g, qp_MonthlyLimit = sg_MonthlyLimitUSD g,
      qp_RateMultiplier = sg_RateMultiplier g\<rparr>"
  let ?q = "?qa\<lparr>qp_Version := hash_policy H ?qa\<rparr>"
  let ?ca = "\<lparr>ct_Version = 2, ct_CoverageMode = ''selected_groups'',
      ct_Coverage = sort_key cv_GroupID coverage, ct_QuotaPolicy = ?q, ct_Digest = []\<rparr>"
  let ?c = "?ca\<lparr>ct_Digest := hash_contract H ?ca\<rparr>"
  have lim: "limits_ok (?qa\<lparr>qp_Version := v\<rparr>) = limits_ok ?qa" for v by (simp add: limits_ok_def)
  have v: "contract_Validate H (Some ?c) \<longleftrightarrow> coverage \<noteq> [] \<and> 0 < sg_ID g \<and> limits_ok ?qa
      \<and> distinct (map cv_GroupID coverage) \<and> (\<forall>x \<in> set coverage. 0 < cv_GroupID x \<and> trim_space (cv_GroupKey x) \<noteq> [])"
    using assms lim by (auto simp: contract_Validate_def Let_def coverage_loop_iff sorted_wrt_less_sort_key
        simp del: sorted_wrt.simps)
  have n: "NewContract H (Some g) coverage = (if contract_Validate H (Some ?c) then Some ?c else None)"
    using v by (auto simp: NewContract_def Let_def)
  have sorted: "sorted (map cv_GroupID (sort_key cv_GroupID coverage))" by simp
  have dig: "contract_Validate H (Some (?c\<lparr>ct_Digest := d\<rparr>)) \<Longrightarrow> d = ct_Digest ?c"
    by (auto simp: contract_Validate_def Let_def split: if_splits)
  have cov: "contract_Covers (Some ?c) i \<longleftrightarrow> i \<in> cv_GroupID ` set coverage"
    by (auto simp: contract_Covers_def list_ex_iff)
  have "NewContract H (Some g) coverage \<noteq> None \<longleftrightarrow>
      0 < sg_ID g \<and> coverage \<noteq> [] \<and> distinct (map cv_GroupID coverage)
      \<and> (\<forall>x \<in> set coverage. 0 < cv_GroupID x \<and> trim_space (cv_GroupKey x) \<noteq> []) \<and> limits_ok ?qa"
    unfolding n using v by auto
  moreover have "contract_Validate H (Some c) \<and> sorted (map cv_GroupID (ct_Coverage c))
      \<and> (contract_Covers (Some c) i \<longleftrightarrow> i \<in> cv_GroupID ` set coverage)
      \<and> (d \<noteq> ct_Digest c \<longrightarrow> \<not> contract_Validate H (Some (c\<lparr>ct_Digest := d\<rparr>)))"
    if "NewContract H (Some g) coverage = Some c"
  proof -
    from that have c: "c = ?c" and ok: "contract_Validate H (Some ?c)" unfolding n by (auto split: if_splits)
    have "sorted (map cv_GroupID (ct_Coverage ?c))" using sorted by simp
    with ok cov dig show ?thesis unfolding c by blast
  qed
  ultimately show ?thesis by blast
qed

definition demo_hashes :: hashes where
  "demo_hashes = \<lparr>hash_policy = (\<lambda>q. ''p'' @ FormatInt (qp_ID q)), hash_contract = (\<lambda>c. ''c'' @ concat (map cv_GroupKey (ct_Coverage c)))\<rparr>"

definition demo_sub_group :: subscription_group where
  "demo_sub_group = \<lparr>sg_ID = 4, sg_DailyLimitUSD = Some (Fin 10), sg_WeeklyLimitUSD = None,
     sg_MonthlyLimitUSD = None, sg_RateMultiplier = Fin 1, sg_Status = 1\<rparr>"

definition demo_coverage :: "routing_coverage list" where
  "demo_coverage = [\<lparr>cv_GroupID = 9, cv_GroupKey = ''vip'', cv_GrantsAccess = True\<rparr>,
     \<lparr>cv_GroupID = 5, cv_GroupKey = ''std'', cv_GrantsAccess = False\<rparr>]"

lemma NewContract_ok_witness:
  "\<exists>c. NewContract demo_hashes (Some demo_sub_group) demo_coverage = Some c
     \<and> contract_Covers (Some c) 5 \<and> \<not> contract_Covers (Some c) 6
     \<and> \<not> contract_Validate demo_hashes (Some (c\<lparr>ct_Digest := ''x''\<rparr>))"
proof -
  have h: "\<And>q. hash_policy demo_hashes q \<noteq> []" "\<And>c. hash_contract demo_hashes c \<noteq> []"
    by (simp_all add: demo_hashes_def)
  note ok = NewContract_ok [of demo_hashes demo_sub_group, OF h, of demo_coverage]
  have t: "trim_space ''vip'' \<noteq> []" "trim_space ''std'' \<noteq> []" by code_simp+
  have "limits_ok \<lparr>qp_ID = 4, qp_Version = [], qp_DailyLimit = Some (Fin 10), qp_WeeklyLimit = None,
      qp_MonthlyLimit = None, qp_RateMultiplier = Fin 1\<rparr>"
    by (simp add: limits_ok_def f_le_def f_special_def)
  with ok [THEN conjunct1] t obtain c where c: "NewContract demo_hashes (Some demo_sub_group) demo_coverage = Some c"
    by (auto simp: demo_sub_group_def demo_coverage_def)
  have "ct_Digest c \<noteq> ''x''"
    using c by (auto simp: NewContract_def demo_sub_group_def demo_hashes_def Let_def split: if_splits)
  with ok [THEN conjunct2, of c 5 "''x''"] ok [THEN conjunct2, of c 6 "''x''"] c show ?thesis
    by (auto simp: demo_coverage_def)
qed

lemma RoutingGrants_usable:
  assumes "us_Status s = ''active''" and "us_StartsAt s \<le> now" and "now < us_ExpiresAt s"
    and "us_Contract s = Some c" and "contract_Validate H (Some c)"
  shows "(\<exists>x \<in> set (RoutingGrants H (Some s) now). grant_usable gid now x) \<longleftrightarrow>
    (\<exists>g \<in> set (ct_Coverage c). cv_GroupID g = gid \<and> cv_GrantsAccess g)"
  using assms by (auto simp: RoutingGrants_def grant_usable_def)

text \<open>C27. A subscription opens exactly the groups its contract grants, while it runs: for a subject
  without public access or other grants, the entitlements read from an active subscription with a
  valid contract give access to an enabled group precisely when the contract covers it with access,
  and an expired, not yet started, revoked or contract-free subscription gives none.\<close>

theorem subscription_access:
  assumes "GetRoutingEntitlements H (Inr (Some s)) now = Inr e"
    and "WithEntitlements (Some f) (Some e) = Some f'"
    and "sf_PublicGroupAccess f = []" and "sf_Grants f = []" and "rg_Status g = ''enabled''"
  shows "AccessSources (Some f') (Some g) now \<noteq> [] \<longleftrightarrow>
    us_Status s = ''active'' \<and> us_StartsAt s \<le> now \<and> now < us_ExpiresAt s
    \<and> (\<exists>c. us_Contract s = Some c \<and> (\<exists>x \<in> set (ct_Coverage c). cv_GroupID x = rg_ID g \<and> cv_GrantsAccess x))"
proof -
  let ?live = "us_Status s = ''active'' \<and> us_StartsAt s \<le> now \<and> now < us_ExpiresAt s"
  have f': "f' = f\<lparr>sf_Grants := en_Grants e, sf_SubscriptionID := en_SubscriptionID e,
       sf_SubscriptionEntitlementVersion := en_Revision e\<rparr>"
    using assms(2,4) by (simp add: WithEntitlements_def)
  have acc: "AccessSources (Some f') (Some g) now \<noteq> [] \<longleftrightarrow> (\<exists>x \<in> set (en_Grants e). grant_usable (rg_ID g) now x)"
    using assms(3,5) by (auto simp: AccessSources_def f' filter_empty_conv)
  show ?thesis
  proof (cases ?live)
    case False
    then have "en_Grants e = []"
      using assms(1) by (auto simp: GetRoutingEntitlements_def no_entitlements_def split: if_splits)
    with False acc show ?thesis by auto
  next
    case True
    show ?thesis
    proof (cases "us_Contract s")
      case None
      then have "en_Grants e = []"
        using assms(1) by (auto simp: GetRoutingEntitlements_def no_entitlements_def RoutingGrants_def split: if_splits)
      with None acc show ?thesis by simp
    next
      case (Some c)
      with assms(1) True have v: "contract_Validate H (Some c)" and e: "en_Grants e = RoutingGrants H (Some s) now"
        by (auto simp: GetRoutingEntitlements_def split: if_splits)
      show ?thesis
        unfolding acc e using RoutingGrants_usable [OF _ _ _ Some v, of now "rg_ID g"] True Some by simp
    qed
  qed
qed

definition demo_contract :: contract where
  "demo_contract = the (NewContract demo_hashes (Some demo_sub_group) demo_coverage)"

definition demo_sub :: "int64 \<Rightarrow> user_subscription" where
  "demo_sub ends = \<lparr>us_PricePaid = 0, us_Contract = NewContract demo_hashes (Some demo_sub_group) demo_coverage,
     us_SourceOrder = [], us_EntitlementRevision = 1, us_ID = 11, us_UserID = 7, us_GroupID = 4,
     us_SubscriptionName = [], us_Status = ''active'', us_StartsAt = 10, us_ExpiresAt = ends,
     us_RenewalStrategy = [], us_Metadata = [], us_CreatedAt = 0, us_UpdatedAt = 0\<rparr>"

lemma subscription_access_witness:
  "let f = demo_subject\<lparr>sf_PublicGroupAccess := []\<rparr>;
       acc = (\<lambda>now gid. case GetRoutingEntitlements demo_hashes (Inr (Some (demo_sub 100))) now of
         Inl _ \<Rightarrow> False | Inr e \<Rightarrow> AccessSources (WithEntitlements (Some f) (Some e)) (Some (demo_group gid)) now \<noteq> [])
   in acc 50 9 \<and> \<not> acc 50 5 \<and> \<not> acc 100 9"
proof -
  let ?f = "demo_subject\<lparr>sf_PublicGroupAccess := []\<rparr>"
  have h: "\<And>q. hash_policy demo_hashes q \<noteq> []" "\<And>c. hash_contract demo_hashes c \<noteq> []"
    by (simp_all add: demo_hashes_def)
  obtain c where c: "NewContract demo_hashes (Some demo_sub_group) demo_coverage = Some c"
    using NewContract_ok_witness by blast
  then have v: "contract_Validate demo_hashes (Some c)"
    by (auto simp: NewContract_def Let_def split: option.splits if_splits)
  have cov: "set (ct_Coverage c) = set demo_coverage"
    using c by (auto simp: NewContract_def Let_def demo_sub_group_def split: if_splits)
  have f: "sf_PublicGroupAccess ?f = []" "sf_Grants ?f = []" by (simp_all add: demo_subject_def)
  have g: "rg_Status (demo_group i) = ''enabled''" "rg_ID (demo_group i) = i" for i by (simp_all add: demo_group_def)
  have "\<exists>e. GetRoutingEntitlements demo_hashes (Inr (Some (demo_sub 100))) now = Inr e" for now
    using v by (auto simp: GetRoutingEntitlements_def demo_sub_def c)
  then have acc: "(case GetRoutingEntitlements demo_hashes (Inr (Some (demo_sub 100))) now of Inl _ \<Rightarrow> False
      | Inr e \<Rightarrow> AccessSources (WithEntitlements (Some ?f) (Some e)) (Some (demo_group gid)) now \<noteq> [])
    \<longleftrightarrow> 10 \<le> now \<and> now < 100 \<and> (\<exists>x \<in> set demo_coverage. cv_GroupID x = gid \<and> cv_GrantsAccess x)" for now gid
  proof -
    obtain e where e: "GetRoutingEntitlements demo_hashes (Inr (Some (demo_sub 100))) now = Inr e"
      using \<open>\<And>now. \<exists>e. GetRoutingEntitlements demo_hashes (Inr (Some (demo_sub 100))) now = Inr e\<close> by blast
    obtain f' where f': "WithEntitlements (Some ?f) (Some e) = Some f'" by (simp add: WithEntitlements_def)
    show ?thesis
      using subscription_access [OF e f' f g(1), of gid] unfolding e sum.case f'
      by (simp add: g demo_sub_def c cov)
  qed
  show ?thesis unfolding Let_def acc by (simp add: demo_coverage_def)
qed

lemma round_half_up:
  assumes "quotient_of x = (num, den)" and "0 \<le> x"
  shows "x - 1 / 2 \<le> of_int (if 2 * (num mod den) \<ge> den then num div den + 1 else num div den)
    \<and> of_int (if 2 * (num mod den) \<ge> den then num div den + 1 else num div den) \<le> x + 1 / 2"
proof -
  have den: "0 < den" using quotient_of_denom_pos [OF assms(1)] .
  have x: "x = of_int num / of_int den" using quotient_of_div [OF assms(1)] .
  have "of_int num = (of_int (num div den) :: rat) * of_int den + of_int (num mod den)"
    by (metis div_mult_mod_eq of_int_add of_int_mult)
  define t where "t = (of_int (num mod den) :: rat) / of_int den"
  have "0 \<le> num mod den" "num mod den < den" using den by simp_all
  then have r: "0 \<le> t" "t < 1" using den by (simp_all add: t_def)
  have xe: "x = of_int (num div den) + t"
    using \<open>of_int num = (of_int (num div den) :: rat) * of_int den + of_int (num mod den)\<close> den
    by (simp add: x t_def field_simps)
  have half: "2 * (num mod den) \<ge> den \<longleftrightarrow> 1 / 2 \<le> t"
  proof -
    have "2 * (num mod den) \<ge> den \<longleftrightarrow> (of_int den :: rat) \<le> of_int (2 * (num mod den))" by (rule of_int_le_iff [symmetric])
    also have "\<dots> \<longleftrightarrow> 1 / 2 \<le> t" using den by (simp add: t_def field_simps)
    finally show ?thesis .
  qed
  show ?thesis using r unfolding half xe by simp
qed

text \<open>The wallet price is the exact price rounded to the nearest unit, halves up: for a
  non-negative price and a positive rate the converted amount differs from price times rate in
  wallet units by at most one half, it is non-decreasing in the price, and a positive price never
  becomes free.\<close>

theorem wallet_amount_nearest:
  assumes "convertedWalletAmount price scale (Fin rate) = Some amount" and "0 < scale"
  shows "of_int price * rate * 10000 / of_int scale - 1 / 2 \<le> of_int amount
    \<and> of_int amount \<le> of_int price * rate * 10000 / of_int scale + 1 / 2
    \<and> 0 \<le> price \<and> 0 < rate \<and> in_int64 amount \<and> (0 < price \<longrightarrow> 0 < amount)"
proof -
  let ?x = "of_int price * rate * (10000 / of_int scale)"
  obtain num den where q: "quotient_of ?x = (num, den)" by fastforce
  have p: "0 \<le> price" "0 < rate" and a: "amount = (if 2 * (num mod den) \<ge> den then num div den + 1 else num div den)"
    and r: "in_int64 amount" "price > 0 \<Longrightarrow> 0 < amount"
    using assms(1) q by (auto simp: convertedWalletAmount_def Let_def split: if_splits)
  have "0 \<le> ?x" using p assms(2) by simp
  from round_half_up [OF q this] p r a show ?thesis by simp
qed

lemma wallet_amount_nearest_witness:
  "\<exists>amount. WalletAmountForMoneyCents 1999 (Fin (7 / 2)) = Some amount \<and> amount = 699650"
proof -
  have q: "quotient_of (699650 :: rat) = (699650, 1)" by (simp add: quotient_of_number)
  have e: "convertedWalletAmount 1999 100 (Fin (7 / 2)) = Some 699650"
    by (simp add: convertedWalletAmount_def q Let_def in_int64_def int_limits)
  from wallet_amount_nearest [OF e] e show ?thesis by (simp add: WalletAmountForMoneyCents_def)
qed

subsection \<open>Shortening\<close>

text \<open>
  Shortening never cuts below the present, and never lengthens a running subscription; but one that has
  already expired is moved up to the present, though the comment at \<open>Shorten\<close> says that a refund cannot
  push the expiry forward. It stays without access.
\<close>

lemma shorten_bounds:
  assumes "ShortenInTx now s k = Inr s'" and "in_int64 (us_ExpiresAt s - k)"
  shows "us_ExpiresAt s' = max (us_ExpiresAt s - k) now \<and> now \<le> us_ExpiresAt s'
    \<and> (now \<le> us_ExpiresAt s \<longrightarrow> us_ExpiresAt s' \<le> us_ExpiresAt s)
    \<and> (us_ExpiresAt s < now \<longrightarrow> us_ExpiresAt s' = now \<and> RoutingGrants H (Some s') now = [])
    \<and> us_Status s' = us_Status s \<and> us_Contract s' = us_Contract s"
  using assms by (auto simp: ShortenInTx_def wrap64_id RoutingGrants_def split: if_splits)

end
