(* ===== verification/Service_Tier.thy ===== *)
theory Service_Tier
  imports Go_Float Go_Strings
begin

text \<open>
  Tariffs: the five-bucket model price, the service tiers (\<open>domain/billing/service_tier.go\<close>), the
  long-context tariff (\<open>long_context.go\<close>) and the peak/off-peak calendar (\<open>time_pricing.go\<close>). A Go map
  of prices is the list of its entries in the order in which \<open>range\<close> yields them. The time zone
  database is a parameter: for a zone name, the local civil time of an instant.
\<close>

subsection \<open>Prices and configurations\<close>

record model_price =
  mp_Input :: float64
  mp_Output :: float64
  mp_CacheRead :: "float64 option"
  mp_Creation5m :: "float64 option"
  mp_Creation1h :: "float64 option"

type_synonym price_map = "(string \<times> model_price) list"

definition zero_price :: model_price where
  "zero_price = \<lparr>mp_Input = Fin 0, mp_Output = Fin 0, mp_CacheRead = None, mp_Creation5m = None, mp_Creation1h = None\<rparr>"

text \<open>Indexing a Go map yields the zero value for a missing key.\<close>

definition price_of :: "price_map \<Rightarrow> string \<Rightarrow> model_price" where
  "price_of m k = (case map_of m k of Some p \<Rightarrow> p | None \<Rightarrow> zero_price)"

record long_context =
  lc_ThresholdTokens :: int64
  lc_Policy :: string
  lc_Prices :: price_map
  lc_UpstreamPrices :: "price_map option"

record time_window =
  tw_Weekdays :: "int list"
  tw_StartMinute :: int
  tw_EndMinute :: int

record time_pricing =
  tp_Timezone :: string
  tp_CalendarValidThrough :: string
  tp_Holidays :: "string list"
  tp_PeakWindows :: "time_window list"
  tp_PeakPrices :: price_map
  tp_PeakUpstreamPrices :: "price_map option"
  tp_PeakLongContextPrices :: "price_map option"
  tp_PeakLongContextUpstreamPrices :: "price_map option"

record service_tier_config =
  stc_Version :: int
  stc_Enabled :: bool
  stc_SourceKind :: string
  stc_SourceID :: int64
  stc_Model :: string
  stc_Prices :: price_map
  stc_UpstreamPrices :: "price_map option"
  stc_LongContext :: "long_context option"
  stc_TimePricing :: "time_pricing option"

subsection \<open>Validation\<close>

definition tiers :: "string list" where
  "tiers = [''default'', ''priority'', ''flex'']"

definition bad_price :: "float64 \<Rightarrow> bool" where
  "bad_price v \<longleftrightarrow> f_special v \<or> f_less v (Fin 0)"

definition bad_price_opt :: "float64 option \<Rightarrow> bool" where
  "bad_price_opt v = (case v of None \<Rightarrow> False | Some x \<Rightarrow> bad_price x)"

definition tier_price_ok :: "price_map \<Rightarrow> string \<Rightarrow> bool" where
  "tier_price_ok prices tier = (case map_of prices tier of
     None \<Rightarrow> False
   | Some p \<Rightarrow> (case mp_CacheRead p of
       None \<Rightarrow> False
     | Some cr \<Rightarrow> \<not> bad_price (mp_Input p) \<and> \<not> bad_price (mp_Output p) \<and> \<not> bad_price cr
         \<and> \<not> bad_price_opt (mp_Creation5m p) \<and> \<not> bad_price_opt (mp_Creation1h p)))"

definition validateTierPrices :: "price_map \<Rightarrow> bool" where
  "validateTierPrices prices \<longleftrightarrow> length prices = 3 \<and> list_all (tier_price_ok prices) tiers"

definition validateCompleteContextPrices :: "price_map \<Rightarrow> bool" where
  "validateCompleteContextPrices prices \<longleftrightarrow> validateTierPrices prices
     \<and> list_all (\<lambda>(tier, p). mp_Creation5m p \<noteq> None \<and> mp_Creation1h p \<noteq> None) prices"

definition or_zero :: "float64 option \<Rightarrow> float64" where
  "or_zero v = (case v of None \<Rightarrow> Fin 0 | Some x \<Rightarrow> x)"

definition base_read :: "model_price \<Rightarrow> float64" where
  "base_read p = (case mp_CacheRead p of None \<Rightarrow> mp_Input p | Some x \<Rightarrow> x)"

definition below_base :: "model_price \<Rightarrow> model_price \<Rightarrow> bool" where
  "below_base price original \<longleftrightarrow> f_less (mp_Input price) (mp_Input original)
     \<or> f_less (mp_Output price) (mp_Output original)
     \<or> f_less (or_zero (mp_CacheRead price)) (base_read original)
     \<or> f_less (or_zero (mp_Creation5m price)) (or_zero (mp_Creation5m original))
     \<or> f_less (or_zero (mp_Creation1h price)) (or_zero (mp_Creation1h original))"

definition long_context_Validate :: "long_context option \<Rightarrow> price_map \<Rightarrow> bool" where
  "long_context_Validate co base = (case co of
     None \<Rightarrow> False
   | Some c \<Rightarrow>
       if lc_ThresholdTokens c < 1 \<or> lc_ThresholdTokens c > MaxInt32 \<or> lc_Policy c \<noteq> ''whole_request_input_gt_v1'' then False
       else if \<not> validateCompleteContextPrices (lc_Prices c) then False
       else if list_ex (\<lambda>(tier, price). below_base price (price_of base tier)) (lc_Prices c) then False
       else (case lc_UpstreamPrices c of None \<Rightarrow> True | Some up \<Rightarrow> validateCompleteContextPrices up))"

text \<open>\<open>pricingDate\<close>: \<open>time.Parse\<close> with the layout \<open>2006-01-02\<close> and the same text when formatted again.\<close>

definition leap_year :: "nat \<Rightarrow> bool" where
  "leap_year y \<longleftrightarrow> y mod 4 = 0 \<and> (y mod 100 \<noteq> 0 \<or> y mod 400 = 0)"

definition days_in :: "nat \<Rightarrow> nat \<Rightarrow> nat" where
  "days_in y m = (if m = 2 then (if leap_year y then 29 else 28) else if m \<in> {4, 6, 9, 11} then 30 else 31)"

definition pricingDate :: "string \<Rightarrow> bool" where
  "pricingDate v = (case v of
     [a, b, c, d, s1, m1, m2, s2, d1, d2] \<Rightarrow>
       list_all is_digit [a, b, c, d, m1, m2, d1, d2] \<and> s1 = CHR ''-'' \<and> s2 = CHR ''-''
       \<and> (let y = read_digits [a, b, c, d]; m = read_digits [m1, m2]; day = read_digits [d1, d2]
          in 1 \<le> m \<and> m \<le> 12 \<and> 1 \<le> day \<and> day \<le> days_in y m)
   | _ \<Rightarrow> False)"

text \<open>Go compares strings bytewise.\<close>

fun str_less :: "string \<Rightarrow> string \<Rightarrow> bool" where
  "str_less _ [] = False"
| "str_less [] (_ # _) = True"
| "str_less (c # cs) (d # ds) = (if c = d then str_less cs ds else (of_char c :: nat) < of_char d)"

fun holidays_ok :: "string \<Rightarrow> string list \<Rightarrow> string list \<Rightarrow> bool" where
  "holidays_ok through [] seen = True"
| "holidays_ok through (date # dates) seen =
     (if \<not> pricingDate date \<or> str_less through date \<or> date \<in> set seen then False
      else holidays_ok through dates (date # seen))"

text \<open>The table of occupied minutes; marking fails on a minute that is already occupied.\<close>

fun mark_minutes :: "int \<Rightarrow> nat \<Rightarrow> int \<Rightarrow> (int \<Rightarrow> int \<Rightarrow> bool) \<Rightarrow> (int \<Rightarrow> int \<Rightarrow> bool) option" where
  "mark_minutes start 0 day occ = Some occ"
| "mark_minutes start (Suc n) day occ =
     (if occ day start then None
      else mark_minutes (start + 1) n day (occ(day := (occ day)(start := True))))"

fun mark_days :: "time_window \<Rightarrow> int list \<Rightarrow> (int \<Rightarrow> int \<Rightarrow> bool) \<Rightarrow> (int \<Rightarrow> int \<Rightarrow> bool) option" where
  "mark_days w [] occ = Some occ"
| "mark_days w (day # days) occ =
     (if day < 1 \<or> day > 7 then None
      else case mark_minutes (tw_StartMinute w) (nat (tw_EndMinute w - tw_StartMinute w)) day occ of
        None \<Rightarrow> None
      | Some occ' \<Rightarrow> mark_days w days occ')"

fun mark_windows :: "time_window list \<Rightarrow> (int \<Rightarrow> int \<Rightarrow> bool) \<Rightarrow> (int \<Rightarrow> int \<Rightarrow> bool) option" where
  "mark_windows [] occ = Some occ"
| "mark_windows (w # ws) occ =
     (if tw_Weekdays w = [] \<or> tw_StartMinute w < 0 \<or> tw_StartMinute w \<ge> tw_EndMinute w \<or> tw_EndMinute w > 1440
      then None
      else case mark_days w (tw_Weekdays w) occ of None \<Rightarrow> None | Some occ' \<Rightarrow> mark_windows ws occ')"

text \<open>Local civil time, as far as the calendar looks at it; \<open>cv_Weekday\<close> counts from Sunday = 0.\<close>

record civil =
  cl_Date :: string
  cl_Weekday :: int
  cl_Hour :: int
  cl_Minute :: int

type_synonym zones = "string \<Rightarrow> (gotime \<Rightarrow> civil) option"

definition time_pricing_Validate :: "zones \<Rightarrow> time_pricing option \<Rightarrow> long_context option \<Rightarrow> bool" where
  "time_pricing_Validate Z co longContext = (case co of
     None \<Rightarrow> False
   | Some c \<Rightarrow>
       if tp_Timezone c = [] \<or> tp_Timezone c = ''Local'' then False
       else if Z (tp_Timezone c) = None then False
       else if \<not> pricingDate (tp_CalendarValidThrough c) then False
       else if \<not> holidays_ok (tp_CalendarValidThrough c) (tp_Holidays c) [] then False
       else if tp_PeakWindows c = [] then False
       else if mark_windows (tp_PeakWindows c) (\<lambda>_ _. False) = None then False
       else if \<not> validateCompleteContextPrices (tp_PeakPrices c) then False
       else if (case tp_PeakUpstreamPrices c of None \<Rightarrow> False | Some up \<Rightarrow> \<not> validateCompleteContextPrices up) then False
       else (case longContext of
           None \<Rightarrow> tp_PeakLongContextPrices c = None \<and> tp_PeakLongContextUpstreamPrices c = None
         | Some lc \<Rightarrow> long_context_Validate
             (Some \<lparr>lc_ThresholdTokens = lc_ThresholdTokens lc, lc_Policy = lc_Policy lc,
                lc_Prices = (case tp_PeakLongContextPrices c of None \<Rightarrow> [] | Some m \<Rightarrow> m),
                lc_UpstreamPrices = tp_PeakLongContextUpstreamPrices c\<rparr>) (tp_PeakPrices c)))"

definition version_mismatch :: "service_tier_config \<Rightarrow> bool" where
  "version_mismatch c \<longleftrightarrow>
     (stc_Version c \<noteq> 1 \<or> stc_LongContext c \<noteq> None \<or> stc_TimePricing c \<noteq> None)
     \<and> (stc_Version c \<noteq> 2 \<or> stc_LongContext c = None \<or> stc_TimePricing c \<noteq> None)
     \<and> (stc_Version c \<noteq> 3 \<or> stc_TimePricing c = None)"

definition service_tier_Validate :: "zones \<Rightarrow> service_tier_config \<Rightarrow> bool" where
  "service_tier_Validate Z c =
     (if \<not> stc_Enabled c then True
      else if version_mismatch c then False
      else if stc_SourceKind c \<noteq> ''channel'' \<or> stc_SourceID c \<le> 0 \<or> stc_Model c = []
        \<or> stc_Model c \<noteq> trim_space (stc_Model c) \<or> length (stc_Model c) > 255 then False
      else if \<not> validateTierPrices (stc_Prices c) then False
      else if stc_TimePricing c \<noteq> None \<and> \<not> time_pricing_Validate Z (stc_TimePricing c) (stc_LongContext c) then False
      else if (case stc_UpstreamPrices c of None \<Rightarrow> False | Some up \<Rightarrow> \<not> validateTierPrices up) then False
      else stc_LongContext c = None \<or> long_context_Validate (stc_LongContext c) (stc_Prices c))"

subsection \<open>Selection\<close>

definition ValidRequestedServiceTier :: "string \<Rightarrow> bool" where
  "ValidRequestedServiceTier t \<longleftrightarrow> t \<in> {[], ''auto'', ''default'', ''priority'', ''flex''}"

definition KnownActualServiceTier :: "string \<Rightarrow> bool" where
  "KnownActualServiceTier t \<longleftrightarrow> t = ''default'' \<or> t = ''priority'' \<or> t = ''flex''"

text \<open>One step of \<open>MaxTierPrice\<close>: the five running maxima.\<close>

fun max_step :: "model_price \<Rightarrow> float64 \<times> float64 \<times> float64 \<times> float64 \<times> float64
    \<Rightarrow> float64 \<times> float64 \<times> float64 \<times> float64 \<times> float64" where
  "max_step v (i, ou, cr, c5, c1) =
     (f_max i (mp_Input v), f_max ou (mp_Output v), f_max cr (base_read v),
      (case mp_Creation5m v of None \<Rightarrow> c5 | Some x \<Rightarrow> f_max c5 x),
      (case mp_Creation1h v of None \<Rightarrow> c1 | Some x \<Rightarrow> f_max c1 x))"

definition MaxTierPrice :: "price_map \<Rightarrow> model_price" where
  "MaxTierPrice prices = (case fold (\<lambda>(_, v). max_step v) prices (Fin 0, Fin 0, Fin 0, Fin 0, Fin 0) of
     (i, ou, cr, c5, c1) \<Rightarrow> \<lparr>mp_Input = i, mp_Output = ou, mp_CacheRead = Some cr,
       mp_Creation5m = Some c5, mp_Creation1h = Some c1\<rparr>)"

definition MaximumPrice :: "service_tier_config \<Rightarrow> model_price" where
  "MaximumPrice c = (let base = MaxTierPrice (stc_Prices c) in
     case stc_LongContext c of
       None \<Rightarrow> base
     | Some lc \<Rightarrow> MaxTierPrice [(''base'', base), (''long'', MaxTierPrice (lc_Prices lc))])"

definition PricesForInput :: "service_tier_config \<Rightarrow> int64 \<Rightarrow> price_map \<times> string" where
  "PricesForInput c inputTokens = (case stc_LongContext c of
     Some lc \<Rightarrow> if inputTokens > lc_ThresholdTokens lc then (lc_Prices lc, ''long'') else (stc_Prices c, ''base'')
   | None \<Rightarrow> (stc_Prices c, ''base''))"

definition BandAt :: "zones \<Rightarrow> time_pricing \<Rightarrow> gotime \<Rightarrow> string option" where
  "BandAt Z c now = (case Z (tp_Timezone c) of
     None \<Rightarrow> None
   | Some loc \<Rightarrow>
       let t = loc now; day = (if cl_Weekday t = 0 then 7 else cl_Weekday t);
           minute = cl_Hour t * 60 + cl_Minute t in
       if str_less (tp_CalendarValidThrough c) (cl_Date t) then None
       else if cl_Date t \<in> set (tp_Holidays c) then Some ''off_peak''
       else if list_ex (\<lambda>w. list_ex (\<lambda>wd. wd = day \<and> minute \<ge> tw_StartMinute w \<and> minute < tw_EndMinute w)
           (tw_Weekdays w)) (tp_PeakWindows c) then Some ''peak''
       else Some ''off_peak'')"

definition ForTimeBand :: "service_tier_config \<Rightarrow> string \<Rightarrow> service_tier_config" where
  "ForTimeBand c band = (case stc_TimePricing c of
     None \<Rightarrow> c
   | Some tp \<Rightarrow>
       if band \<noteq> ''peak'' then c
       else c\<lparr>stc_Prices := tp_PeakPrices tp, stc_UpstreamPrices := tp_PeakUpstreamPrices tp,
              stc_LongContext := map_option (\<lambda>lc. lc\<lparr>
                lc_Prices := (case tp_PeakLongContextPrices tp of None \<Rightarrow> [] | Some m \<Rightarrow> m),
                lc_UpstreamPrices := tp_PeakLongContextUpstreamPrices tp\<rparr>) (stc_LongContext c)\<rparr>)"

end
