(* ===== verification/Pricing.thy ===== *)
theory Pricing
  imports Service_Tier Usage
begin

text \<open>
  The price of a request: \<open>app/billing/internal/biz/billing.go\<close> from \<open>calculateCostWithPricing\<close> down to
  \<open>roundScaled\<close>, and the frozen service tier of \<open>app/billing/internal/biz/service_tier.go\<close>. Money is
  \<open>int64\<close> fixed point (ten thousand units to the dollar); each bucket is priced in \<open>float64\<close> and rounded
  once, in the order of the source's multiplications and without fused operations. The rollout modes of
  the use case are a record; metrics, logs and the pricing snapshot are left out.
\<close>

subsection \<open>Usage, pricing and modes\<close>

record billed_usage = ledger_usage +
  bu_ActualServiceTier :: string
  bu_ServiceTierStatus :: string
  bu_FrozenServiceTier :: "service_tier_config option"
  bu_FrozenPricingTimeBand :: string
  bu_SubscriptionAccountID :: int64
  bu_UpstreamModelID :: string
  bu_SourceKind :: string

record pricing_config =
  pr_GroupRatios :: "string \<Rightarrow> float64 option"
  pr_ModelRatios :: "string \<Rightarrow> float64 option"
  pr_CompletionRatios :: "string \<Rightarrow> float64 option"
  pr_ModelPrices :: "string \<Rightarrow> model_price option"
  pr_UpstreamPrices :: "string \<Rightarrow> model_price option"

record billing_modes =
  bm_CacheCreation :: string
  bm_Canonical :: string
  bm_ChargeAll :: bool
  bm_ChargeAllowlist :: "string list"

definition normalizePricingModelKey :: "string \<Rightarrow> string" where
  "normalizePricingModelKey model = to_lower (trim_space model)"

definition getGroupRatio :: "pricing_config \<Rightarrow> string \<Rightarrow> float64" where
  "getGroupRatio P g = (case pr_GroupRatios P g of Some r \<Rightarrow> r | None \<Rightarrow> Fin 1)"

definition getModelRatio :: "pricing_config \<Rightarrow> string \<Rightarrow> float64" where
  "getModelRatio P m = (case pr_ModelRatios P (normalizePricingModelKey m) of Some r \<Rightarrow> r | None \<Rightarrow> Fin 1)"

definition getCompletionRatio :: "pricing_config \<Rightarrow> string \<Rightarrow> float64" where
  "getCompletionRatio P m = (case pr_CompletionRatios P (normalizePricingModelKey m) of Some r \<Rightarrow> r | None \<Rightarrow> Fin 1)"

definition CacheCreationBillingMode :: "billing_modes \<Rightarrow> string" where
  "CacheCreationBillingMode M = (if bm_CacheCreation M = [] then ''observe'' else bm_CacheCreation M)"

definition CanonicalUsageMode :: "billing_modes \<Rightarrow> string" where
  "CanonicalUsageMode M = (if bm_Canonical M = [] then ''observe'' else bm_Canonical M)"

definition canonicalUsageChargeSourceKey :: "int64 \<Rightarrow> string \<Rightarrow> string" where
  "canonicalUsageChargeSourceKey accountID upstreamModelID =
     (let m = trim_space upstreamModelID in
      if accountID \<le> 0 \<or> m = [] then [] else FormatInt accountID @ '':'' @ m)"

definition CanonicalUsageModeFor :: "billing_modes \<Rightarrow> billed_usage \<Rightarrow> string" where
  "CanonicalUsageModeFor M u =
     (if CanonicalUsageMode M \<noteq> ''charge'' then CanonicalUsageMode M
      else if bm_ChargeAll M then ''charge''
      else if bu_SourceKind u \<noteq> ''subscription'' then ''observe''
      else if canonicalUsageChargeSourceKey (bu_SubscriptionAccountID u) (bu_UpstreamModelID u)
          \<notin> set (bm_ChargeAllowlist M) then ''observe''
      else ''charge'')"

text \<open>
  The allow list of \<open>BILLING_CANONICAL_USAGE_CHARGE_ALLOWLIST\<close>: whether \<open>*\<close> occurs, and the keys of the
  well-formed \<open>account:model\<close> items.
\<close>

definition allowlist_item :: "string \<Rightarrow> string option" where
  "allowlist_item raw = (let it = trim_space raw in
     if it = ''*'' then None
     else case cut_at CHR '':'' it of (account, model, ok) \<Rightarrow>
       if \<not> ok then None
       else (case ParseInt (trim_space account) of
           None \<Rightarrow> None
         | Some n \<Rightarrow> if n \<le> 0 then None
             else let key = canonicalUsageChargeSourceKey n (trim_space model) in
               if key = [] then None else Some key))"

definition resolveCanonicalUsageChargeAllowlist :: "string \<Rightarrow> bool \<times> string list" where
  "resolveCanonicalUsageChargeAllowlist raw = (let xs = split_on CHR '','' raw in
     (list_ex (\<lambda>x. trim_space x = ''*'') xs, List.map_filter allowlist_item xs))"

definition resolveCanonicalUsageMode :: "string \<Rightarrow> string" where
  "resolveCanonicalUsageMode env = (let m = to_lower (trim_space env) in
     if m = ''legacy'' \<or> m = ''charge'' then m else ''observe'')"

definition resolveCacheCreationMode :: "string \<Rightarrow> string" where
  "resolveCacheCreationMode env = (if to_lower (trim_space env) = ''charge'' then ''charge'' else ''observe'')"

subsection \<open>Buckets into money\<close>

definition AmountScale :: rat where
  "AmountScale = 10000"

definition roundScaled :: "int64 \<Rightarrow> float64 \<Rightarrow> float64 \<Rightarrow> int64" where
  "roundScaled tokens perTokenPrice multiplier =
     (if tokens \<le> 0 \<or> f_le perTokenPrice (Fin 0) then 0
      else let raw = f_mul (f_mul (f_mul (f_of_int tokens) perTokenPrice) multiplier) (Fin AmountScale) in
        if f_le raw (Fin 0) then 0
        else if f_le f_MaxInt64 raw then MaxInt64
        else f_to_int64 (f_round raw))"

fun cost_sum :: "int64 list \<Rightarrow> int64 \<Rightarrow> int64" where
  "cost_sum [] ttl = ttl"
| "cost_sum (v # vs) ttl =
     (if v \<le> 0 then cost_sum vs ttl else if v > MaxInt64 - ttl then MaxInt64 else cost_sum vs (ttl + v))"

definition saturatingCostSum :: "int64 list \<Rightarrow> int64" where
  "saturatingCostSum values = cost_sum values 0"

record cost_breakdown =
  cb_V0_10_2Cost :: int64
  cb_CanonicalCost :: int64
  cb_ShadowCost :: int64
  cb_PromptCost :: int64
  cb_CompletionCost :: int64
  cb_CacheReadCost :: int64
  cb_CacheCreation5mCost :: int64
  cb_CacheCreation1hCost :: int64
  cb_CacheCreationUnpriced :: bool

definition no_breakdown :: cost_breakdown where
  "no_breakdown = \<lparr>cb_V0_10_2Cost = 0, cb_CanonicalCost = 0, cb_ShadowCost = 0, cb_PromptCost = 0,
     cb_CompletionCost = 0, cb_CacheReadCost = 0, cb_CacheCreation5mCost = 0, cb_CacheCreation1hCost = 0,
     cb_CacheCreationUnpriced = False\<rparr>"

text \<open>An optional creation price: the cost of its bucket, and whether the bucket is unpriced.\<close>

definition creation_cost :: "int64 \<Rightarrow> float64 option \<Rightarrow> float64 \<Rightarrow> int64 \<times> bool" where
  "creation_cost tokens price multiplier =
     (if tokens > 0 then (case price of Some p \<Rightarrow> (roundScaled tokens p multiplier, False) | None \<Rightarrow> (0, True))
      else (0, False))"

definition calculateCanonicalCost :: "model_price \<Rightarrow> canonical_buckets \<Rightarrow> float64 \<Rightarrow> cost_breakdown" where
  "calculateCanonicalCost price b multiplier =
     (let inputCost = roundScaled (max (bk_UncachedInputTokens b) 0) (mp_Input price) multiplier;
          cacheReadCost = roundScaled (max (bk_CacheReadTokens b) 0) (base_read price) multiplier;
          completionCost = roundScaled (max (bk_OutputTokens b) 0) (mp_Output price) multiplier;
          v0 = saturatingCostSum [inputCost, cacheReadCost, completionCost];
          c5 = creation_cost (max (bk_CacheCreation5mTokens b) 0) (mp_Creation5m price) multiplier;
          c1 = creation_cost (max (bk_CacheCreation1hTokens b) 0) (mp_Creation1h price) multiplier;
          canonical = saturatingCostSum [saturatingCostSum [v0, fst c5], fst c1]
      in \<lparr>cb_V0_10_2Cost = v0, cb_CanonicalCost = canonical, cb_ShadowCost = max (canonical - v0) 0,
          cb_PromptCost = inputCost, cb_CompletionCost = completionCost, cb_CacheReadCost = cacheReadCost,
          cb_CacheCreation5mCost = fst c5, cb_CacheCreation1hCost = fst c1,
          cb_CacheCreationUnpriced = (snd c5 \<or> snd c1)\<rparr>)"

definition finalUserCost :: "billing_modes \<Rightarrow> cost_breakdown \<Rightarrow> int64" where
  "finalUserCost M b = (if CacheCreationBillingMode M = ''charge'' then cb_CanonicalCost b else cb_V0_10_2Cost b)"

definition calculateModelPriceCost :: "model_price \<Rightarrow> int64 \<Rightarrow> int64 \<Rightarrow> int64 \<Rightarrow> float64 \<Rightarrow> int64" where
  "calculateModelPriceCost price promptTokens completionTokens cacheReadTokens multiplier =
     (let cacheRead = min (max cacheReadTokens 0) (max promptTokens 0);
          input = max promptTokens 0 - cacheRead;
          cost = saturatingCostSum [roundScaled input (mp_Input price) multiplier,
            roundScaled cacheRead (base_read price) multiplier,
            roundScaled (max completionTokens 0) (mp_Output price) multiplier]
      in if cost \<le> 0 then 0 else cost)"

definition f_ceil_cost :: "float64 \<Rightarrow> int64" where
  "f_ceil_cost cost = (if f_le cost (Fin 0) then 0 else if f_le f_MaxInt64 cost then MaxInt64
     else f_to_int64 (f_ceil cost))"

definition calculateRatioCost :: "pricing_config \<Rightarrow> string \<Rightarrow> string \<Rightarrow> int64 \<Rightarrow> int64 \<Rightarrow> int64" where
  "calculateRatioCost P g m inputTokens outputTokens =
     f_ceil_cost (f_mul (f_mul
       (f_add (f_of_int (max inputTokens 0)) (f_mul (f_of_int (max outputTokens 0)) (getCompletionRatio P m)))
       (getModelRatio P m)) (getGroupRatio P g))"

definition safeAddInt64 :: "int64 \<Rightarrow> int64 \<Rightarrow> int64 \<times> bool" where
  "safeAddInt64 a0 b0 = (let a = max a0 0; b = max b0 0 in if b > MaxInt64 - a then (0, True) else (a + b, False))"

definition calculateRatioCanonicalCost :: "pricing_config \<Rightarrow> string \<Rightarrow> string \<Rightarrow> canonical_buckets \<Rightarrow> int64" where
  "calculateRatioCanonicalCost P g m b =
     (case safeAddInt64 (bk_UncachedInputTokens b) (bk_CacheReadTokens b) of (input, overflow) \<Rightarrow>
        calculateRatioCost P g m (if overflow then MaxInt64 else input) (bk_OutputTokens b))"

definition calculateCost :: "pricing_config \<Rightarrow> string \<Rightarrow> string \<Rightarrow> int64 \<Rightarrow> int64 \<Rightarrow> int64 \<Rightarrow> int64" where
  "calculateCost P g m promptTokens completionTokens cacheReadTokens =
     (case pr_ModelPrices P (normalizePricingModelKey m) of
        Some price \<Rightarrow> calculateModelPriceCost price promptTokens completionTokens cacheReadTokens (getGroupRatio P g)
      | None \<Rightarrow> calculateRatioCost P g m promptTokens completionTokens)"

subsection \<open>The cost a user is charged\<close>

record usage_audit =
  ua_UncachedInputTokens :: int64
  ua_ReportedPromptTokens :: int64
  ua_ReportedTotalTokens :: int64
  ua_BillableTotalTokens :: int64
  ua_UsageSemantics :: string
  ua_UsageProtocol :: string
  ua_UsageFieldShape :: string
  ua_UsageParseStatus :: string
  ua_UsageContractVersion :: int
  ua_CanonicalPresent :: bool
  ua_UsageDecisionReason :: string
  ua_SubsetCandidateCost :: int64
  ua_ExclusiveCandidateCost :: int64

definition empty_audit :: "int \<Rightarrow> usage_audit" where
  "empty_audit v = \<lparr>ua_UncachedInputTokens = 0, ua_ReportedPromptTokens = 0, ua_ReportedTotalTokens = 0,
     ua_BillableTotalTokens = 0, ua_UsageSemantics = [], ua_UsageProtocol = [], ua_UsageFieldShape = [],
     ua_UsageParseStatus = [], ua_UsageContractVersion = v, ua_CanonicalPresent = False,
     ua_UsageDecisionReason = [], ua_SubsetCandidateCost = 0, ua_ExclusiveCandidateCost = 0\<rparr>"

definition audit_envelope :: "usage_envelope option \<Rightarrow> usage_audit \<Rightarrow> usage_audit" where
  "audit_envelope env a = (case env of None \<Rightarrow> a
   | Some e \<Rightarrow> a\<lparr>ua_UsageSemantics := ue_Semantics e, ua_UsageProtocol := ue_Protocol e,
       ua_UsageFieldShape := ue_FieldShape e, ua_ReportedPromptTokens := ue_ReportedPromptTokens e,
       ua_ReportedTotalTokens := ue_ReportedTotalTokens e, ua_CanonicalPresent := (ue_Canonical e \<noteq> None)\<rparr>)"

definition audit_legacy :: "billed_usage \<Rightarrow> canonical_buckets \<Rightarrow> usage_audit \<Rightarrow> usage_audit" where
  "audit_legacy u b a = a\<lparr>ua_UsageParseStatus := ''legacy'', ua_UsageDecisionReason := ''legacy_producer'',
     ua_UncachedInputTokens := bk_UncachedInputTokens b, ua_BillableTotalTokens := canonical_BillableTotal b,
     ua_ReportedPromptTokens := lu_PromptTokens u\<rparr>"

definition audit_canonical :: "usage_envelope \<Rightarrow> canonical_buckets \<Rightarrow> usage_audit \<Rightarrow> usage_audit" where
  "audit_canonical e b a = a\<lparr>ua_UsageParseStatus := ue_ParseStatus e, ua_UsageDecisionReason := ue_DecisionReason e,
     ua_UncachedInputTokens := bk_UncachedInputTokens b, ua_BillableTotalTokens := canonical_BillableTotal b\<rparr>"

text \<open>The candidates of an ambiguous report: those of the envelope where valid, else the reported numbers.\<close>

definition valid_or :: "canonical_buckets option \<Rightarrow> canonical_buckets \<Rightarrow> canonical_buckets" where
  "valid_or c dflt = (case c of Some b \<Rightarrow> if validCanonical b then b else dflt | None \<Rightarrow> dflt)"

definition candidates :: "billed_usage \<Rightarrow> canonical_buckets \<times> canonical_buckets" where
  "candidates u = (case reportedCandidateBuckets u of (s, x) \<Rightarrow> (case lu_Envelope u of
     None \<Rightarrow> (s, x)
   | Some e \<Rightarrow> (valid_or (ue_SubsetCandidate e) s, valid_or (ue_ExclusiveCandidate e) x)))"

definition audit_ambiguous :: "string \<Rightarrow> int64 \<Rightarrow> int64 \<Rightarrow> canonical_buckets \<Rightarrow> usage_audit \<Rightarrow> usage_audit" where
  "audit_ambiguous reason subsetCost exclusiveCost subset_b a = a\<lparr>ua_UsageParseStatus := ''ambiguous'',
     ua_UsageDecisionReason := reason, ua_SubsetCandidateCost := subsetCost,
     ua_ExclusiveCandidateCost := exclusiveCost,
     ua_UncachedInputTokens := bk_UncachedInputTokens subset_b,
     ua_BillableTotalTokens := canonical_BillableTotal subset_b\<rparr>"

definition or_reported :: "usage_envelope option \<Rightarrow> usage_audit \<Rightarrow> usage_audit" where
  "or_reported env a = (case env of None \<Rightarrow> a
   | Some e \<Rightarrow> a\<lparr>ua_ReportedPromptTokens := (if ua_ReportedPromptTokens a = 0 then ue_ReportedPromptTokens e else ua_ReportedPromptTokens a),
       ua_ReportedTotalTokens := (if ua_ReportedTotalTokens a = 0 then ue_ReportedTotalTokens e else ua_ReportedTotalTokens a)\<rparr>)"

definition ambiguousUserCost :: "billing_modes \<Rightarrow> model_price \<Rightarrow> float64 \<Rightarrow> billed_usage \<Rightarrow> cost_breakdown \<Rightarrow> int64
    \<Rightarrow> usage_audit \<Rightarrow> string \<Rightarrow> int64 \<times> cost_breakdown \<times> usage_audit" where
  "ambiguousUserCost M price multiplier u legacyBreakdown legacyFinal a reason =
     (case candidates u of (s, x) \<Rightarrow>
       let sb = calculateCanonicalCost price s multiplier; xb = calculateCanonicalCost price x multiplier;
           sf = finalUserCost M sb; xf = finalUserCost M xb;
           a' = audit_ambiguous reason sf xf s (or_reported (lu_Envelope u) a)
       in if CanonicalUsageModeFor M u = ''legacy'' then (legacyFinal, legacyBreakdown, a')
          else if sf \<le> xf then (sf, sb, a') else (xf, xb, a'))"

definition resolveUserCost :: "billing_modes \<Rightarrow> model_price \<Rightarrow> float64 \<Rightarrow> int64 \<Rightarrow> billed_usage
    \<Rightarrow> int64 \<times> cost_breakdown \<times> usage_audit" where
  "resolveUserCost M price multiplier actualTokens u =
     (let a0 = empty_audit (lu_UsageContractVersion u);
          lb = legacyCanonicalBuckets u actualTokens;
          lbd = calculateCanonicalCost price lb multiplier; lf = finalUserCost M lbd
      in if lu_UsageContractVersion u \<ge> 1 then
           (let a1 = audit_envelope (lu_Envelope u) a0; bad = validateV1Envelope (lu_Envelope u) in
            if bad \<noteq> [] then ambiguousUserCost M price multiplier u lbd lf a1 bad
            else case lu_Envelope u of
              None \<Rightarrow> ambiguousUserCost M price multiplier u lbd lf a1 ''v1_contract_error''
            | Some e \<Rightarrow>
                if ue_ParseStatus e = ''verified'' \<or> ue_ParseStatus e = ''estimated'' then
                  (case ue_Canonical e of
                     None \<Rightarrow> ambiguousUserCost M price multiplier u lbd lf a1 ''v1_contract_error''
                   | Some c \<Rightarrow>
                       let cbd = calculateCanonicalCost price c multiplier; a2 = audit_canonical e c a1 in
                       if CanonicalUsageModeFor M u = ''charge'' then (finalUserCost M cbd, cbd, a2)
                       else (lf, lbd, a2))
                else if ue_ParseStatus e = ''ambiguous''
                then ambiguousUserCost M price multiplier u lbd lf a1 (ue_DecisionReason e)
                else ambiguousUserCost M price multiplier u lbd lf a1 ''v1_contract_error'')
         else (lf, lbd, audit_legacy u lb a0))"

definition resolveRatioUserCost :: "billing_modes \<Rightarrow> pricing_config \<Rightarrow> string \<Rightarrow> string \<Rightarrow> int64 \<Rightarrow> billed_usage
    \<Rightarrow> int64 \<times> cost_breakdown \<times> usage_audit" where
  "resolveRatioUserCost M P g m actualTokens u =
     (let legacyPrompt = (if lu_PromptTokens u \<le> 0 \<and> lu_CompletionTokens u \<le> 0 \<and> lu_CacheReadTokens u \<le> 0
            then actualTokens else lu_PromptTokens u);
          lc = calculateRatioCost P g m legacyPrompt (lu_CompletionTokens u);
          a0 = empty_audit (lu_UsageContractVersion u); mode = CanonicalUsageModeFor M u
      in if lu_UsageContractVersion u < 1
         then (lc, no_breakdown, audit_legacy u (legacyCanonicalBuckets u actualTokens) a0)
         else let a1 = audit_envelope (lu_Envelope u) a0; bad = validateV1Envelope (lu_Envelope u);
                  trusted = (if bad \<noteq> [] then None else case lu_Envelope u of None \<Rightarrow> None
                    | Some e \<Rightarrow> if ue_ParseStatus e = ''verified'' \<or> ue_ParseStatus e = ''estimated''
                        then map_option (\<lambda>c. (e, c)) (ue_Canonical e) else None)
              in case trusted of
                Some (e, c) \<Rightarrow> (if mode = ''charge'' then calculateRatioCanonicalCost P g m c else lc,
                  no_breakdown, audit_canonical e c a1)
              | None \<Rightarrow> (case candidates u of (s, x) \<Rightarrow>
                  let sc = calculateRatioCanonicalCost P g m s; xc = calculateRatioCanonicalCost P g m x;
                      reason = (if bad \<noteq> [] then bad else case lu_Envelope u of None \<Rightarrow> [] | Some e \<Rightarrow> ue_DecisionReason e)
                  in (if mode = ''legacy'' then lc else min sc xc, no_breakdown, audit_ambiguous reason sc xc s a1)))"

definition calculateCostWithPricing :: "billing_modes \<Rightarrow> pricing_config \<Rightarrow> string \<Rightarrow> string \<Rightarrow> int64 \<Rightarrow> billed_usage
    \<Rightarrow> int64 \<times> cost_breakdown \<times> usage_audit" where
  "calculateCostWithPricing M P g m actualTokens u =
     (case pr_ModelPrices P (normalizePricingModelKey m) of
        None \<Rightarrow> resolveRatioUserCost M P g m actualTokens u
      | Some price \<Rightarrow> resolveUserCost M price (getGroupRatio P g) actualTokens u)"

end
