(* ===== verification/Tier_Cost.thy ===== *)
theory Tier_Cost
  imports Pricing
begin

text \<open>
  The frozen service tier of a reservation and what a settlement charges under it
  (\<open>app/billing/internal/biz/service_tier.go\<close>, the tier branch of \<open>reservationCostWithPricing\<close> in
  \<open>request_snapshot.go\<close>), and the supplier side of a ledger row: cost keys, upstream cost and audit status
  (\<open>billing.go\<close>). The digest of a configuration (SHA-256 of JSON) is a parameter.
\<close>

subsection \<open>Freezing a tier\<close>

datatype tier_error = TierUnsupported | TierBoundRequired | TierBoundExceeded | SnapshotInvalid | SnapshotUnavailable

record tier_request =
  tq_RequestedServiceTier :: string
  tq_Protocol :: string
  tq_InputTokenBound :: int64
  tq_OutputTokenBound :: int64
  tq_Version :: int

record frozen_tier =
  ft_PricingTimeBand :: string
  ft_PricingTimeUnix :: int64
  ft_Config :: service_tier_config
  ft_Request :: tier_request
  ft_ConfigHash :: string
  ft_Policy :: string
  ft_MaxCost :: int64

record tier_source =
  ts_Kind :: string
  ts_Model :: string
  ts_ID :: int64

text \<open>What freezing reads of the use case and the call.\<close>

record tier_env =
  te_Zones :: zones
  te_Digest :: "service_tier_config \<Rightarrow> string"
  te_SnapshotsEnabled :: bool
  te_ExecutionIntent :: bool
  te_Source :: tier_source
  te_Request :: tier_request
  te_Now :: gotime
  te_Unix :: int64

definition withServiceTierSource :: "string \<Rightarrow> string \<Rightarrow> string \<Rightarrow> int64 \<Rightarrow> string \<Rightarrow> tier_source" where
  "withServiceTierSource traceKind traceModel channelID accountID model =
     (let kind = (if traceKind = [] then ''channel'' else traceKind) in
      \<lparr>ts_Kind = kind, ts_Model = (if traceModel = [] then model else traceModel),
       ts_ID = (if kind = ''subscription'' then accountID
         else case ParseInt channelID of Some n \<Rightarrow> n | None \<Rightarrow> 0)\<rparr>)"

definition validTierBound :: "tier_request \<Rightarrow> bool" where
  "validTierBound r \<longleftrightarrow> tq_Version r = 1 \<and> ValidRequestedServiceTier (tq_RequestedServiceTier r)
     \<and> (tq_Protocol r = ''openai_chat'' \<or> tq_Protocol r = ''openai_responses'')
     \<and> tq_InputTokenBound r > 0 \<and> tq_OutputTokenBound r > 0
     \<and> tq_InputTokenBound r \<le> MaxInt32 \<and> tq_OutputTokenBound r \<le> MaxInt32"

definition tierScope :: "tier_source \<Rightarrow> service_tier_config \<Rightarrow> bool" where
  "tierScope src c \<longleftrightarrow> stc_Enabled c \<and> ts_Kind src = stc_SourceKind c \<and> ts_ID src = stc_SourceID c
     \<and> ts_Model src = stc_Model c"

definition max_opt :: "float64 option \<Rightarrow> float64 \<Rightarrow> float64" where
  "max_opt v m = (case v of None \<Rightarrow> m | Some x \<Rightarrow> f_max m x)"

definition max_input_price :: "model_price \<Rightarrow> float64" where
  "max_input_price p = max_opt (mp_Creation1h p) (max_opt (mp_Creation5m p) (max_opt (mp_CacheRead p) (mp_Input p)))"

text \<open>The bound a frozen tier puts on the cost: the worst bucket for the input, plus four for rounding.\<close>

definition tier_max_cost :: "tier_request \<Rightarrow> model_price \<Rightarrow> float64 \<Rightarrow> int64" where
  "tier_max_cost r maximum multiplier =
     (let cost = saturatingCostSum [roundScaled (tq_InputTokenBound r) (max_input_price maximum) multiplier,
            roundScaled (tq_OutputTokenBound r) (mp_Output maximum) multiplier];
          cost4 = (if cost < MaxInt64 - 4 then cost + 4 else cost)
      in if cost4 < 1 then 1 else cost4)"

definition freezeServiceTier :: "tier_env \<Rightarrow> service_tier_config \<Rightarrow> float64 \<Rightarrow> tier_error + frozen_tier option" where
  "freezeServiceTier E c multiplier =
     (let r = te_Request E in
      if \<not> ValidRequestedServiceTier (tq_RequestedServiceTier r) then Inl TierUnsupported
      else if \<not> service_tier_Validate (te_Zones E) c then Inl SnapshotInvalid
      else if \<not> tierScope (te_Source E) c then
        (if tq_RequestedServiceTier r = ''priority'' \<or> tq_RequestedServiceTier r = ''flex''
         then Inl TierUnsupported else Inr None)
      else if \<not> te_SnapshotsEnabled E then Inl SnapshotUnavailable
      else if te_ExecutionIntent E then Inl TierUnsupported
      else if \<not> validTierBound r then Inl TierBoundRequired
      else (case (case stc_TimePricing c of
             None \<Rightarrow> Some ([], 0)
           | Some tp \<Rightarrow> map_option (\<lambda>band. (band, te_Unix E)) (BandAt (te_Zones E) tp (te_Now E))) of
         None \<Rightarrow> Inl SnapshotUnavailable
       | Some (band, ux) \<Rightarrow>
           Inr (Some \<lparr>ft_PricingTimeBand = band, ft_PricingTimeUnix = ux, ft_Config = c, ft_Request = r,
             ft_ConfigHash = te_Digest E c, ft_Policy = ''actual_or_max_v1'',
             ft_MaxCost = tier_max_cost r (MaximumPrice (ForTimeBand c band)) multiplier\<rparr>)))"

definition frozen_tier_Validate :: "zones \<Rightarrow> (service_tier_config \<Rightarrow> string) \<Rightarrow> (int64 \<Rightarrow> gotime) \<Rightarrow> frozen_tier option \<Rightarrow> bool" where
  "frozen_tier_Validate Z digest instant so = (case so of
     None \<Rightarrow> False
   | Some s \<Rightarrow>
       if \<not> stc_Enabled (ft_Config s) \<or> \<not> service_tier_Validate Z (ft_Config s)
          \<or> ft_ConfigHash s \<noteq> digest (ft_Config s) \<or> ft_Policy s \<noteq> ''actual_or_max_v1''
          \<or> ft_MaxCost s < 1 \<or> \<not> validTierBound (ft_Request s) then False
       else (case stc_TimePricing (ft_Config s) of
           Some tp \<Rightarrow> BandAt Z tp (instant (ft_PricingTimeUnix s)) = Some (ft_PricingTimeBand s) \<and> ft_PricingTimeUnix s > 0
         | None \<Rightarrow> ft_PricingTimeBand s = [] \<and> ft_PricingTimeUnix s = 0))"

subsection \<open>Settling under a tier\<close>

definition contextInputTokens :: "billed_usage \<Rightarrow> int64" where
  "contextInputTokens u = (case lu_Envelope u of None \<Rightarrow> 0 | Some e \<Rightarrow> (case ue_Canonical e of
     None \<Rightarrow> 0
   | Some b \<Rightarrow> saturatingCostSum [bk_UncachedInputTokens b, bk_CacheReadTokens b, bk_CacheCreation5mTokens b,
       bk_CacheCreation1hTokens b]))"

definition tierSelection :: "frozen_tier \<Rightarrow> billed_usage \<Rightarrow> model_price \<times> string \<times> string" where
  "tierSelection f u =
     (let prices = fst (PricesForInput (ForTimeBand (ft_Config f) (ft_PricingTimeBand f)) (contextInputTokens u));
          actual = bu_ActualServiceTier u; status = bu_ServiceTierStatus u in
      if status = ''reported'' \<and> KnownActualServiceTier actual then (price_of prices actual, actual, status)
      else (MaxTierPrice prices, ''max'',
        if status \<noteq> ''conflict'' \<and> status \<noteq> ''unknown'' then (if actual = [] then ''missing'' else ''unknown'')
        else status))"

definition tierUsageBounds :: "frozen_tier \<Rightarrow> billed_usage \<Rightarrow> tier_error option" where
  "tierUsageBounds f u =
     (if lu_UsageContractVersion u \<noteq> 1 \<or> validateV1Envelope (lu_Envelope u) \<noteq> [] then Some TierUnsupported
      else case lu_Envelope u of
        None \<Rightarrow> Some TierUnsupported
      | Some e \<Rightarrow>
          if ue_ParseStatus e \<noteq> ''verified'' then Some TierUnsupported
          else (case ue_Canonical e of
            None \<Rightarrow> Some TierUnsupported
          | Some b \<Rightarrow>
              if hasNegative (bucket_list b) then Some TierBoundExceeded
              else if saturatingCostSum [bk_UncachedInputTokens b, bk_CacheReadTokens b,
                    bk_CacheCreation5mTokens b, bk_CacheCreation1hTokens b] > tq_InputTokenBound (ft_Request f)
                  \<or> bk_OutputTokens b > tq_OutputTokenBound (ft_Request f) then Some TierBoundExceeded
              else None))"

text \<open>The tier branch of \<open>reservationCostWithPricing\<close>; \<open>ratio\<close> is the frozen group ratio.\<close>

definition tier_settlement :: "billing_modes \<Rightarrow> frozen_tier \<Rightarrow> float64 \<Rightarrow> int64 \<Rightarrow> billed_usage
    \<Rightarrow> tier_error + (int64 \<times> cost_breakdown \<times> usage_audit)" where
  "tier_settlement M f ratio tokens u = (case tierUsageBounds f u of
     Some e \<Rightarrow> Inl e
   | None \<Rightarrow> (let r = resolveUserCost M (fst (tierSelection f u)) ratio tokens u in
       if fst r > ft_MaxCost f then Inl TierBoundExceeded else Inr r))"

subsection \<open>The supplier side\<close>

definition upstreamPriceKey :: "int64 \<Rightarrow> string \<Rightarrow> string" where
  "upstreamPriceKey sourceID model = (if sourceID \<le> 0 then model else FormatInt sourceID @ '':'' @ model)"

definition canonicalUpstreamPriceKey :: "string \<Rightarrow> int64 \<Rightarrow> string \<Rightarrow> string" where
  "canonicalUpstreamPriceKey sourceKind sourceID upstreamModelID =
     (let k = trim_space sourceKind; m = trim_space upstreamModelID in
      if k = [] \<or> sourceID \<le> 0 \<or> m = [] then []
      else if k = ''channel'' \<or> k = ''subscription'' then k @ '':'' @ FormatInt sourceID @ '':'' @ m else [])"

definition unpriced_bucket :: "int64 \<Rightarrow> float64 option \<Rightarrow> bool" where
  "unpriced_bucket tokens price \<longleftrightarrow> tokens > 0 \<and> price = None"

definition frozenTierSupplierPrice :: "billed_usage \<Rightarrow> model_price option" where
  "frozenTierSupplierPrice u = (case (bu_FrozenServiceTier u, lu_Envelope u) of
     (Some tier0, Some e) \<Rightarrow>
       (case ue_Canonical e of
          None \<Rightarrow> None
        | Some b \<Rightarrow>
            if bu_ServiceTierStatus u \<noteq> ''reported'' \<or> \<not> KnownActualServiceTier (bu_ActualServiceTier u)
              \<or> ue_ParseStatus e \<noteq> ''verified'' \<or> validateV1Envelope (Some e) \<noteq> [] then None
            else let tier = ForTimeBand tier0 (bu_FrozenPricingTimeBand u);
                prices = (case stc_LongContext tier of
                    Some lc \<Rightarrow> if contextInputTokens u > lc_ThresholdTokens lc then lc_UpstreamPrices lc
                      else stc_UpstreamPrices tier
                  | None \<Rightarrow> stc_UpstreamPrices tier)
              in case (case prices of None \<Rightarrow> None | Some m \<Rightarrow> map_of m (bu_ActualServiceTier u)) of
                None \<Rightarrow> None
              | Some price \<Rightarrow>
                  if unpriced_bucket (bk_CacheReadTokens b) (mp_CacheRead price)
                    \<or> unpriced_bucket (bk_CacheCreation5mTokens b) (mp_Creation5m price)
                    \<or> unpriced_bucket (bk_CacheCreation1hTokens b) (mp_Creation1h price) then None
                  else Some price)
   | _ \<Rightarrow> None)"

definition upstream_buckets :: "billed_usage \<Rightarrow> int64 \<Rightarrow> canonical_buckets" where
  "upstream_buckets u actualTokens =
     (let legacy = legacyCanonicalBuckets u actualTokens in
      if lu_UsageContractVersion u \<ge> 1 then (case lu_Envelope u of
          Some e \<Rightarrow> if ue_ParseStatus e = ''verified'' then (case ue_Canonical e of Some c \<Rightarrow> c | None \<Rightarrow> legacy) else legacy
        | None \<Rightarrow> legacy)
      else legacy)"

definition upstream_price :: "pricing_config \<Rightarrow> int64 \<Rightarrow> string \<Rightarrow> billed_usage \<Rightarrow> model_price option" where
  "upstream_price P channelID model u =
     (let sourceID = (if bu_SubscriptionAccountID u > 0 \<and> trim_space (bu_SourceKind u) = ''subscription''
            then bu_SubscriptionAccountID u else channelID);
          legacyModel = normalizePricingModelKey model in
      case pr_UpstreamPrices P (canonicalUpstreamPriceKey (bu_SourceKind u) sourceID (bu_UpstreamModelID u)) of
        Some p \<Rightarrow> Some p
      | None \<Rightarrow> (case pr_UpstreamPrices P (upstreamPriceKey channelID legacyModel) of
          Some p \<Rightarrow> Some p
        | None \<Rightarrow> pr_UpstreamPrices P legacyModel))"

definition calculateUpstreamCostWithPricing :: "pricing_config \<Rightarrow> int64 \<Rightarrow> string \<Rightarrow> int64 \<Rightarrow> billed_usage \<Rightarrow> int64" where
  "calculateUpstreamCostWithPricing P channelID model actualTokens u = (case bu_FrozenServiceTier u of
     Some _ \<Rightarrow> (case frozenTierSupplierPrice u of
         None \<Rightarrow> 0
       | Some price \<Rightarrow> (case lu_Envelope u of None \<Rightarrow> 0 | Some e \<Rightarrow> (case ue_Canonical e of None \<Rightarrow> 0
           | Some b \<Rightarrow> cb_CanonicalCost (calculateCanonicalCost price b (Fin 1)))))
   | None \<Rightarrow>
       if lu_UpstreamCost u > 0 then lu_UpstreamCost u
       else case upstream_price P channelID model u of
         None \<Rightarrow> 0
       | Some price \<Rightarrow> cb_CanonicalCost (calculateCanonicalCost price (upstream_buckets u actualTokens) (Fin 1)))"

definition upstreamCostAuditStatus :: "int64 \<Rightarrow> billed_usage \<Rightarrow> string" where
  "upstreamCostAuditStatus upstreamCost u =
     (if bu_FrozenServiceTier u \<noteq> None then
        (if frozenTierSupplierPrice u \<noteq> None then ''priced'' else ''unpriced'')
      else if lu_UsageContractVersion u \<ge> 1 \<and> (validateV1Envelope (lu_Envelope u) \<noteq> []
          \<or> (case lu_Envelope u of Some e \<Rightarrow> ue_ParseStatus e = ''ambiguous'' | None \<Rightarrow> False)) then ''ambiguous''
      else if upstreamCost > 0 then ''priced'' else ''unpriced'')"

end
