(* ===== verification/Billing_Store.thy ===== *)
theory Billing_Store
  imports Subscription Auth_Enforcer Tier_Cost "HOL-Library.Signed_Division"
begin

text \<open>
  The rows a refund reads and writes, as one explicit store, and the repository operations on them:
  \<open>UpdateBalanceInTx\<close> (\<open>account_repo.go\<close>), \<open>CreateLedgerInTx\<close> with its claim of the dedupe key
  (\<open>ledger_repo.go\<close>), the write audits and the transaction runner of
  \<open>platform/database/authzquery\<close>, the subscription row write of \<open>domain/subscription/data\<close>.
  A database statement may fail: \<open>faults\<close> says which one does and with what error, so that every
  \<open>if err != nil\<close> of the source is a branch here. A transaction that ends in an error leaves the
  store it started from.
\<close>

subsection \<open>Rows\<close>

record payment_order =
  po_ID :: int
  po_UserID :: string
  po_TradeNo :: string
  po_AssetType :: string
  po_MoneyCents :: int64
  po_Currency :: string
  po_Status :: string
  po_ProviderTradeNo :: string
  po_ProviderPayload :: string
  po_AssetIssueStatus :: string
  po_PlanSnapshot :: string
  po_SubscriptionID :: int64
  po_RefundReason :: string

text \<open>The columns of a ledger row the model keeps; \<open>lg_BucketCosts\<close> are the six cost columns from
  \<open>prompt_cost\<close> to \<open>shadow_cost\<close>.\<close>

record ledger =
  lg_UserID :: string
  lg_Amount :: int64
  lg_BalanceAfter :: int64
  lg_Type :: string
  lg_ReferenceID :: string
  lg_Remark :: string
  lg_CostSource :: string
  lg_SubscriptionCost :: int64
  lg_BalanceCost :: int64
  lg_DedupeKey :: string
  lg_UpstreamCost :: int64
  lg_CostAuditStatus :: string
  lg_Quota :: int64
  lg_BucketCosts :: "int64 list"

record write_audit =
  wa_Actor :: int64
  wa_Operation :: string
  wa_ResourceID :: string
  wa_Versions :: versions
  wa_Reason :: string
  wa_Result :: string

record store =
  db_Orders :: "payment_order list"
  db_Balances :: "string \<Rightarrow> int64 option"
  db_Claims :: "string list"
  db_Ledgers :: "ledger list"
  db_Subs :: "int64 \<Rightarrow> user_subscription option"
  db_Audits :: "write_audit list"

datatype billing_error = BAuth auth_error | BReasonRequired | BTradeNo | BPolicy | BOrderNotFound | BStatus
  | BAsset | BSnapshot | BConversion | BAccountNotFound | BInsufficient | BOverflow | BDedupeExists
  | BNoSubscription | BValidity | BSubscription subscription_error | BWriteConflict | BUintRange
  | BStorage string | BBusy
  | BReservationNotFound | BReservationReleased | BReservationClosed | BSettlementClosed | BReceiptInvalid
  | BExpiryDeferred | BRoutingInvalid | BRoutingConflict | BSnapshotUnavailable | BSnapshotInvalid
  | BSubscriptionBound | BSubscriptionQuota | BCoverageRequired | BCrossDB | BNegative | BTier tier_error

datatype db_stmt = ReadOrder | WriteOrder | ReadAccount | WriteBalance | InsertClaim | InsertLedger
  | ReadSubscription | WriteSubscription | InsertAudit string
  | ReadReservation | CasReservation string | InsertReservation | WriteActualCost | LockSubscription
  | ReadActiveSubscription | ReadGroup | SumFrozen | WriteUsage | InsertWindowCharge | InsertReceivable
  | WriteAccount | WriteUsedAmount | ReadRequest | ReadTasks | Again db_stmt

type_synonym faults = "db_stmt \<Rightarrow> billing_error option"

text \<open>The two readings of the clock: \<open>time.Now()\<close> for deadlines, Unix seconds for rows.\<close>

record clock =
  ck_Now :: gotime
  ck_Unix :: int64

subsection \<open>Statements\<close>

definition and_then :: "'e + ('a \<times> 's) \<Rightarrow> ('a \<Rightarrow> 's \<Rightarrow> 'e + ('b \<times> 's)) \<Rightarrow> 'e + ('b \<times> 's)" where
  "and_then m f = (case m of Inl e \<Rightarrow> Inl e | Inr (x, st) \<Rightarrow> f x st)"

lemma and_then_simps [simp]:
  "and_then (Inl e) f = Inl e" "and_then (Inr (x, st)) f = f x st"
  by (simp_all add: and_then_def)

lemma and_then_Inr: "and_then m f = Inr y \<longleftrightarrow> (\<exists>x st. m = Inr (x, st) \<and> f x st = Inr y)"
  by (auto simp: and_then_def split: sum.splits)

definition guard :: "billing_error option \<Rightarrow> 's \<Rightarrow> billing_error + (unit \<times> 's)" where
  "guard e st = (case e of None \<Rightarrow> Inr ((), st) | Some err \<Rightarrow> Inl err)"

lemma guard_Inr [simp]: "guard e st = Inr (u, st') \<longleftrightarrow> e = None \<and> st' = st"
  by (auto simp: guard_def split: option.splits)

definition exec :: "faults \<Rightarrow> db_stmt \<Rightarrow> ('s \<Rightarrow> 's) \<Rightarrow> 's \<Rightarrow> billing_error + (unit \<times> 's)" where
  "exec f s upd st = (case f s of Some e \<Rightarrow> Inl e | None \<Rightarrow> Inr ((), upd st))"

lemma exec_Inr [simp]: "exec f s upd st = Inr (u, st') \<longleftrightarrow> f s = None \<and> st' = upd st"
  by (auto simp: exec_def split: option.splits)

definition auth_guard :: "auth_error option \<Rightarrow> billing_error option" where
  "auth_guard e = map_option BAuth e"

lemma auth_guard_None [simp]: "auth_guard e = None \<longleftrightarrow> e = None"
  by (simp add: auth_guard_def)

subsection \<open>Authorization of writes\<close>

definition iam :: "auth_ctx \<Rightarrow> string \<Rightarrow> bool" where
  "iam ctx op \<longleftrightarrow> ax_Queries ctx op \<noteq> None"

definition RequireWrite :: "gotime \<Rightarrow> auth_ctx \<Rightarrow> string \<Rightarrow> string \<Rightarrow> object_facts \<Rightarrow> billing_error option" where
  "RequireWrite now ctx reason op facts =
     (if iam ctx op \<and> reason = [] then Some BReasonRequired else auth_guard (Require now ctx op facts))"

definition accountFacts :: "string \<Rightarrow> auth_error + object_facts" where
  "accountFacts userID = (case ParseInt userID of
     None \<Rightarrow> Inl ErrDenied
   | Some n \<Rightarrow> if n \<le> 0 then Inl ErrDenied
       else Inr \<lparr>of_Context = Platform, of_ResourceID = n, of_OwnerUserID = n, of_RoutingGroupIDs = []\<rparr>)"

definition paymentFacts :: "payment_order \<Rightarrow> auth_error + object_facts" where
  "paymentFacts ord = map_sum (\<lambda>e. e) (\<lambda>f. f\<lparr>of_ResourceID := po_ID ord\<rparr>) (accountFacts (po_UserID ord))"

definition require_payment :: "gotime \<Rightarrow> auth_ctx \<Rightarrow> payment_order \<Rightarrow> billing_error option" where
  "require_payment now ctx ord =
     (if iam ctx ''billing.payment.refund'' then
        (case paymentFacts ord of
           Inl e \<Rightarrow> Some (BAuth e)
         | Inr facts \<Rightarrow> auth_guard (Require now ctx ''billing.payment.refund'' facts))
      else None)"

definition appendAudit :: "faults \<Rightarrow> gotime \<Rightarrow> auth_ctx \<Rightarrow> string \<Rightarrow> string \<Rightarrow> int64 \<Rightarrow> string \<Rightarrow> store
    \<Rightarrow> billing_error + (unit \<times> store)" where
  "appendAudit f now ctx reason op resourceID res st = (case ax_Queries ctx op of
     None \<Rightarrow> Inr ((), st)
   | Some q \<Rightarrow>
       if qs_ActorID q \<le> 0 then Inl (BAuth ErrDenied)
       else if res = ''success'' \<and> qs_ValidUntil q \<noteq> 0 \<and> \<not> now < qs_ValidUntil q then Inl (BAuth ErrDenied)
       else exec f (InsertAudit res)
         (\<lambda>st. st\<lparr>db_Audits := db_Audits st @ [\<lparr>wa_Actor = qs_ActorID q, wa_Operation = op,
            wa_ResourceID = FormatInt resourceID, wa_Versions = qs_Versions q, wa_Reason = reason,
            wa_Result = res\<rparr>]\<rparr>) st)"

text \<open>\<open>RecordWriteFailure\<close>: after a rollback the failure is audited if that is possible.\<close>

definition RecordWriteFailure :: "faults \<Rightarrow> gotime \<Rightarrow> auth_ctx \<Rightarrow> string \<Rightarrow> string \<Rightarrow> int64 \<Rightarrow> store \<Rightarrow> store" where
  "RecordWriteFailure f now ctx reason op resourceID st =
     (case appendAudit f now ctx reason op resourceID ''failure'' st of Inl _ \<Rightarrow> st | Inr (_, st') \<Rightarrow> st')"

subsection \<open>Accounts and ledgers\<close>

text \<open>The value \<open>strconv.ParseInt\<close> returns beside its error: 0, or the bound that was exceeded.\<close>

definition ParseInt_value :: "string \<Rightarrow> int64" where
  "ParseInt_value s = (case parse_sign s of (neg, ds) \<Rightarrow>
     if ds = [] \<or> \<not> list_all is_digit ds then 0
     else max MinInt64 (min MaxInt64 (if neg then - int (read_digits ds) else int (read_digits ds))))"

definition balance_ops :: "string list" where
  "balance_ops = [''billing.account.balance.adjust'', ''billing.account.balance.reset'']"

fun authorize_balance :: "faults \<Rightarrow> gotime \<Rightarrow> auth_ctx \<Rightarrow> string \<Rightarrow> int64 \<Rightarrow> string list \<Rightarrow> store
    \<Rightarrow> billing_error + (unit \<times> store)" where
  "authorize_balance f now ctx reason n [] st = Inr ((), st)"
| "authorize_balance f now ctx reason n (op # ops) st =
     and_then (guard (RequireWrite now ctx reason op
         \<lparr>of_Context = Platform, of_ResourceID = n, of_OwnerUserID = n, of_RoutingGroupIDs = []\<rparr>) st)
       (\<lambda>_ st. and_then (appendAudit f now ctx reason op n ''success'' st)
       (\<lambda>_ st. authorize_balance f now ctx reason n ops st))"

definition UpdateBalanceInTx :: "faults \<Rightarrow> gotime \<Rightarrow> auth_ctx \<Rightarrow> string \<Rightarrow> string \<Rightarrow> int64 \<Rightarrow> store
    \<Rightarrow> billing_error + (int64 \<times> store)" where
  "UpdateBalanceInTx f now ctx reason userID delta st =
     and_then (exec f ReadAccount (\<lambda>st. st) st) (\<lambda>_ st. (case db_Balances st userID of
       None \<Rightarrow> Inl BAccountNotFound
     | Some bal \<Rightarrow>
         if delta < 0 \<and> (bal < 0 \<or> delta < wrap64 (- bal)) then Inl BInsufficient
         else if delta > 0 \<and> bal > MaxInt64 - delta then Inl BOverflow
         else let newBalance = wrap64 (bal + delta) in
           and_then (exec f WriteBalance
               (\<lambda>st. st\<lparr>db_Balances := (db_Balances st)(userID \<mapsto> newBalance)\<rparr>) st)
             (\<lambda>_ st. and_then (authorize_balance f now ctx reason (ParseInt_value userID) balance_ops st)
             (\<lambda>_ st. Inr (newBalance, st)))))"

definition absLedgerAmount :: "int64 \<Rightarrow> int64" where
  "absLedgerAmount amount = (if amount < 0 then wrap64 (- amount) else amount)"

definition legacyLedgerDedupeKey :: "gotime \<Rightarrow> ledger \<Rightarrow> string" where
  "legacyLedgerDedupeKey now l =
     (if lg_ReferenceID l \<noteq> [] then lg_ReferenceID l @ '':'' @ lg_Type l @ '':legacy''
      else ''legacy:'' @ lg_UserID l @ '':'' @ lg_Type l @ '':'' @ FormatInt now)"

text \<open>The row \<open>CreateLedgerInTx\<close> inserts; the usage and pricing columns, copied as they are, are left out.\<close>

definition ledger_row :: "gotime \<Rightarrow> ledger \<Rightarrow> ledger" where
  "ledger_row now l =
     (let costSource = (if lg_CostSource l = [] then ''balance'' else lg_CostSource l)
      in l\<lparr>lg_CostSource := costSource,
           lg_BalanceCost := (if costSource = ''balance'' \<and> lg_Type l = ''consume''
               \<and> lg_SubscriptionCost l = 0 \<and> lg_BalanceCost l = 0
             then absLedgerAmount (lg_Amount l) else lg_BalanceCost l),
           lg_DedupeKey := (if lg_DedupeKey l = [] then legacyLedgerDedupeKey now l else lg_DedupeKey l)\<rparr>)"

definition CreateLedgerInTx :: "faults \<Rightarrow> gotime \<Rightarrow> ledger \<Rightarrow> 'z store_scheme
    \<Rightarrow> billing_error + (unit \<times> 'z store_scheme)" where
  "CreateLedgerInTx f now l st =
     (let row = ledger_row now l; key = lg_DedupeKey row in
      and_then (if key = [] then Inr ((), st)
          else if f InsertClaim = None \<and> key \<in> set (db_Claims st) then Inl BDedupeExists
          else exec f InsertClaim (\<lambda>st. st\<lparr>db_Claims := key # db_Claims st\<rparr>) st)
        (\<lambda>_ st. exec f InsertLedger (\<lambda>st. st\<lparr>db_Ledgers := db_Ledgers st @ [row]\<rparr>) st))"

subsection \<open>Subscription rows\<close>

text \<open>
  \<open>subscriptionMutation\<close> for a context without an IAM query on subscriptions: \<open>cur\<close> is the locked row,
  \<open>s\<close> the subscription as the use case changed it. \<open>enabled\<close> is \<open>EntitlementsEnabled()\<close>. The outbox
  event of the change is left out.
\<close>

definition subscriptionMutation :: "hashes \<Rightarrow> bool \<Rightarrow> user_subscription \<Rightarrow> user_subscription
    \<Rightarrow> billing_error + user_subscription" where
  "subscriptionMutation H enabled cur s =
     (if \<not> enabled \<and> us_Contract s = None then Inr s
      else if us_EntitlementRevision s > 0 \<and> us_EntitlementRevision s \<noteq> us_EntitlementRevision cur
        then Inl BWriteConflict
      else if us_Contract cur \<noteq> None \<and> us_Contract s = None then Inl (BSubscription ErrContractConflict)
      else if us_Contract s \<noteq> None \<and> \<not> contract_Validate H (us_Contract s)
        then Inl (BSubscription ErrContractInvalid)
      else Inr (s\<lparr>us_EntitlementRevision := wrap64 (us_EntitlementRevision cur + 1)\<rparr>))"

text \<open>Read a row under its lock, change it, write it back.\<close>

definition change_subscription :: "faults \<Rightarrow> hashes \<Rightarrow> bool \<Rightarrow> int64
    \<Rightarrow> (user_subscription \<Rightarrow> billing_error + user_subscription option) \<Rightarrow> store \<Rightarrow> billing_error + (unit \<times> store)" where
  "change_subscription f H enabled subID change st =
     and_then (exec f ReadSubscription (\<lambda>st. st) st) (\<lambda>_ st. (case db_Subs st subID of
       None \<Rightarrow> Inl (BSubscription ErrNotFound)
     | Some cur \<Rightarrow> (case change cur of
         Inl e \<Rightarrow> Inl e
       | Inr None \<Rightarrow> Inr ((), st)
       | Inr (Some s) \<Rightarrow> (case subscriptionMutation H enabled cur s of
           Inl e \<Rightarrow> Inl e
         | Inr s' \<Rightarrow> exec f WriteSubscription (\<lambda>st. st\<lparr>db_Subs := (db_Subs st)(subID \<mapsto> s')\<rparr>) st))))"

subsection \<open>Transactions\<close>

text \<open>
  \<open>RunInTx\<close>: each attempt refreshes the authorization in the world it finds, runs the write in a
  transaction and is repeated only when the database was busy. The list holds the world and the
  faults of each attempt the budget allows; a rolled back attempt leaves the store as it was, and no
  other transaction commits between two attempts of one call.
\<close>

fun RunInTx :: "(world \<times> faults) list \<Rightarrow> auth_ctx \<Rightarrow> (faults \<Rightarrow> auth_ctx \<Rightarrow> 's \<Rightarrow> billing_error + ('a \<times> 's))
    \<Rightarrow> 's \<Rightarrow> billing_error + ('a \<times> 's)" where
  "RunInTx [] ctx write st = Inl BBusy"
| "RunInTx ((w, f) # attempts) ctx write st = (case Refresh w ctx of
     (_, Some e) \<Rightarrow> Inl (BAuth e)
   | (current, None) \<Rightarrow> (case write f current st of
       Inr r \<Rightarrow> Inr r
     | Inl e \<Rightarrow> if e = BBusy \<and> attempts \<noteq> [] then RunInTx attempts ctx write st else Inl e))"

locale transactional =
  fixes body :: "faults \<Rightarrow> auth_ctx \<Rightarrow> 's \<Rightarrow> billing_error + ('a \<times> 's)"
    and rel :: "'a \<Rightarrow> 's \<Rightarrow> 's \<Rightarrow> bool"
  assumes body_rel: "body f ctx st = Inr (x, st') \<Longrightarrow> rel x st st'"
begin

text \<open>Whatever the attempts met, a transaction that returns has run its write once, on the store it began with.\<close>

lemma run_once:
  "RunInTx attempts ctx body st = Inr (x, st') \<Longrightarrow>
   \<exists>w f current. (w, f) \<in> set attempts \<and> Refresh w ctx = (current, None) \<and> body f current st = Inr (x, st')"
proof (induction attempts)
  case (Cons a attempts)
  obtain w f where a: "a = (w, f)" by (cases a)
  obtain current e where r: "Refresh w ctx = (current, e)" by (cases "Refresh w ctx")
  from Cons.prems have e: "e = None" unfolding a by (auto simp: r split: option.splits)
  show ?case
  proof (cases "body f current st")
    case (Inr y)
    with Cons.prems have "body f current st = Inr (x, st')" unfolding a by (simp add: r e)
    with r e show ?thesis unfolding a by auto
  next
    case (Inl err)
    with Cons.prems have "RunInTx attempts ctx body st = Inr (x, st')"
      unfolding a by (auto simp: r e split: if_splits)
    from Cons.IH [OF this] show ?thesis by auto
  qed
qed simp

lemma run_rel: "RunInTx attempts ctx body st = Inr (x, st') \<Longrightarrow> rel x st st'"
  using run_once body_rel by blast

end

subsection \<open>What the operations do to the store\<close>

text \<open>\<open>frame\<close>: everything but the audits is the same.\<close>

definition same_money :: "store \<Rightarrow> store \<Rightarrow> bool" where
  "same_money st st' \<longleftrightarrow> st'\<lparr>db_Audits := db_Audits st\<rparr> = st"

lemma same_money_refl [simp]: "same_money st st"
  by (simp add: same_money_def)

lemma same_moneyD:
  "same_money st st' \<Longrightarrow> db_Orders st' = db_Orders st" "same_money st st' \<Longrightarrow> db_Balances st' = db_Balances st"
  "same_money st st' \<Longrightarrow> db_Claims st' = db_Claims st" "same_money st st' \<Longrightarrow> db_Ledgers st' = db_Ledgers st"
  "same_money st st' \<Longrightarrow> db_Subs st' = db_Subs st"
  by (cases st; cases st'; simp add: same_money_def)+

lemma same_money_trans: "same_money a b \<Longrightarrow> same_money b c \<Longrightarrow> same_money a c"
  by (cases a; cases b; cases c) (simp add: same_money_def)

lemma appendAudit_frame: "appendAudit f now ctx reason op n res st = Inr (u, st') \<Longrightarrow> same_money st st'"
  by (auto simp: appendAudit_def same_money_def split: option.splits if_splits)

lemma authorize_balance_frame:
  "authorize_balance f now ctx reason n ops st = Inr (u, st') \<Longrightarrow> same_money st st'"
  by (induction ops arbitrary: st)
    (auto simp: and_then_Inr dest!: appendAudit_frame intro: same_money_trans)

lemma RecordWriteFailure_frame: "same_money st (RecordWriteFailure f now ctx reason op n st)"
  by (auto simp: RecordWriteFailure_def split: sum.splits dest: appendAudit_frame)

text \<open>A balance write is exact: the guard against overflow leaves nothing to wrap.\<close>

lemma UpdateBalanceInTx_exact:
  assumes "UpdateBalanceInTx f now ctx reason u delta st = Inr (newb, st')"
    and "\<And>b. db_Balances st u = Some b \<Longrightarrow> in_int64 b" "in_int64 delta"
  obtains b where "db_Balances st u = Some b" "newb = b + delta" "in_int64 newb"
    "same_money (st\<lparr>db_Balances := (db_Balances st)(u \<mapsto> newb)\<rparr>) st'"
proof -
  from assms(1) obtain b where b: "db_Balances st u = Some b"
      "\<not> (delta < 0 \<and> (b < 0 \<or> delta < wrap64 (- b)))" "\<not> (delta > 0 \<and> b > MaxInt64 - delta)"
      and nb: "newb = wrap64 (b + delta)"
      and fr: "same_money (st\<lparr>db_Balances := (db_Balances st)(u \<mapsto> newb)\<rparr>) st'"
    unfolding UpdateBalanceInTx_def Let_def and_then_Inr
    by (auto simp: and_then_Inr split: option.splits if_splits dest!: authorize_balance_frame)
  have ib: "in_int64 b" by (rule assms(2) [OF b(1)])
  have "in_int64 (b + delta)"
  proof (cases "delta < 0")
    case True
    with b(2) have "0 \<le> b" "wrap64 (- b) \<le> delta" by auto
    moreover have "wrap64 (- b) = - b"
      using ib \<open>0 \<le> b\<close> by (intro wrap64_id) (simp add: in_int64_def int_limits)
    ultimately show ?thesis using ib True by (simp add: in_int64_def int_limits)
  next
    case False
    with b(3) ib show ?thesis by (auto simp: in_int64_def int_limits)
  qed
  then have "newb = b + delta" "in_int64 newb" using nb by (simp_all add: wrap64_id)
  with b(1) fr show ?thesis using that by blast
qed

lemma CreateLedgerInTx_exact:
  assumes "CreateLedgerInTx f now l st = Inr (u, st')" "lg_DedupeKey l \<noteq> []"
  shows "lg_DedupeKey l \<notin> set (db_Claims st)"
    "st' = st\<lparr>db_Claims := lg_DedupeKey l # db_Claims st, db_Ledgers := db_Ledgers st @ [ledger_row now l]\<rparr>"
  using assms unfolding CreateLedgerInTx_def Let_def and_then_Inr
  by (auto simp: ledger_row_def Let_def split: if_splits)

end
