(* ===== verification/Usage_Windows.thy ===== *)
theory Usage_Windows
  imports Subscription
begin

text \<open>
  Usage windows of a subscription and what it can absorb: the rolling windows
  (\<open>RollUsageWindows\<close> in \<open>domain/subscription/biz/subscription_usecase.go\<close>), the remaining capacity
  (\<open>subscription_absorbable.go\<close>) and the conversions between wallet units and dollars
  (\<open>app/billing/internal/biz/billing.go\<close>). Dollars are \<open>float64\<close>, instants are Unix seconds.
\<close>

subsection \<open>Rolling windows\<close>

record usage_windows =
  uw_DailyUsageUSD :: float64
  uw_WeeklyUsageUSD :: float64
  uw_MonthlyUsageUSD :: float64
  uw_DailyWindowStart :: int64
  uw_WeeklyWindowStart :: int64
  uw_MonthlyWindowStart :: int64

definition quotaDailyWindow :: int64 where "quotaDailyWindow = 86400"
definition quotaWeeklyWindow :: int64 where "quotaWeeklyWindow = 604800"
definition quotaMonthlyWindow :: int64 where "quotaMonthlyWindow = 2592000"

definition alignedWindowStart :: "int64 \<Rightarrow> int64 \<Rightarrow> int64 \<Rightarrow> int64" where
  "alignedWindowStart anchor now periodSec =
     (if now \<le> anchor then anchor else anchor + ((now - anchor) div periodSec) * periodSec)"

definition rollUsageWindow :: "float64 \<Rightarrow> int64 \<Rightarrow> int64 \<Rightarrow> int64 \<Rightarrow> int64 \<Rightarrow> float64 \<times> int64" where
  "rollUsageWindow used windowStart anchor now periodSec =
     (if periodSec \<le> 0 then (used, windowStart)
      else let a1 = (if anchor \<le> 0 then windowStart else anchor);
               a2 = (if a1 \<le> 0 then now else a1);
               currentStart = alignedWindowStart a2 now periodSec
        in if windowStart \<le> 0 then (used, currentStart)
           else if windowStart < currentStart then (Fin 0, currentStart)
           else if windowStart \<noteq> currentStart then (used, currentStart)
           else (used, windowStart))"

definition RollUsageWindows :: "int64 \<Rightarrow> usage_windows \<Rightarrow> int64 \<Rightarrow> usage_windows" where
  "RollUsageWindows startsAt u now =
     (let (d, ds) = rollUsageWindow (uw_DailyUsageUSD u) (uw_DailyWindowStart u) startsAt now quotaDailyWindow;
          (w, ws) = rollUsageWindow (uw_WeeklyUsageUSD u) (uw_WeeklyWindowStart u) startsAt now quotaWeeklyWindow;
          (m, ms) = rollUsageWindow (uw_MonthlyUsageUSD u) (uw_MonthlyWindowStart u) startsAt now quotaMonthlyWindow
      in \<lparr>uw_DailyUsageUSD = d, uw_WeeklyUsageUSD = w, uw_MonthlyUsageUSD = m,
          uw_DailyWindowStart = ds, uw_WeeklyWindowStart = ws, uw_MonthlyWindowStart = ms\<rparr>)"

subsection \<open>Dollars and wallet units\<close>

definition WalletScale :: float64 where
  "WalletScale = Fin 10000"

definition amountToUSD :: "int64 \<Rightarrow> float64" where
  "amountToUSD amount = f_div (f_of_int amount) WalletScale"

definition usdToAmountFloor :: "float64 \<Rightarrow> int64" where
  "usdToAmountFloor usd =
     (if f_le usd (Fin 0) then 0
      else let v = f_floor (f_mul usd WalletScale) in
        if f_less f_MaxInt64 v then MaxInt64 else f_to_int64 v)"

subsection \<open>Absorbable capacity\<close>

record absorbable_window =
  aw_DailyUsageUSD :: float64
  aw_WeeklyUsageUSD :: float64
  aw_MonthlyUsageUSD :: float64
  aw_DailyLimit :: "float64 option"
  aw_WeeklyLimit :: "float64 option"
  aw_MonthlyLimit :: "float64 option"
  aw_FrozenDailyAccountingUSD :: float64
  aw_FrozenWeeklyAccountingUSD :: float64
  aw_FrozenMonthlyAccountingUSD :: float64

record absorbable_result =
  ar_AbsorbableUSD :: float64
  ar_DailyRemainingAccounting :: float64
  ar_WeeklyRemainingAccounting :: float64
  ar_MonthlyRemainingAccounting :: float64
  ar_Multiplier :: float64

definition remainingAccounting :: "float64 option \<Rightarrow> float64 \<Rightarrow> float64 \<Rightarrow> float64" where
  "remainingAccounting limit usage frozen = (case limit of
     None \<Rightarrow> PosInf
   | Some l \<Rightarrow> f_sub (f_sub l usage) frozen)"

definition clip0 :: "float64 \<Rightarrow> float64" where
  "clip0 x = (if f_less x (Fin 0) then Fin 0 else x)"

text \<open>Go compares with \<open>!= 0\<close>: every value but the two zeros, a NaN included.\<close>

definition f_nonzero :: "float64 \<Rightarrow> bool" where
  "f_nonzero x \<longleftrightarrow> x \<noteq> Fin 0"

definition effective_multiplier :: "float64 \<Rightarrow> float64" where
  "effective_multiplier m = (if f_le m (Fin 0) then Fin 1 else m)"

definition ComputeAbsorbablePure :: "absorbable_window \<Rightarrow> float64 \<Rightarrow> float64 \<Rightarrow> absorbable_result" where
  "ComputeAbsorbablePure w rateMultiplier frozenAccountingUSD =
     (let multiplier = effective_multiplier rateMultiplier;
          own = (f_nonzero (aw_FrozenDailyAccountingUSD w) \<or> f_nonzero (aw_FrozenWeeklyAccountingUSD w)
            \<or> f_nonzero (aw_FrozenMonthlyAccountingUSD w));
          fd = (if own then aw_FrozenDailyAccountingUSD w else frozenAccountingUSD);
          fw = (if own then aw_FrozenWeeklyAccountingUSD w else frozenAccountingUSD);
          fm = (if own then aw_FrozenMonthlyAccountingUSD w else frozenAccountingUSD);
          daily = clip0 (remainingAccounting (aw_DailyLimit w) (aw_DailyUsageUSD w) fd);
          weekly = clip0 (remainingAccounting (aw_WeeklyLimit w) (aw_WeeklyUsageUSD w) fw);
          monthly = clip0 (remainingAccounting (aw_MonthlyLimit w) (aw_MonthlyUsageUSD w) fm);
          min1 = (if f_less weekly daily then weekly else daily);
          min2 = (if f_less monthly min1 then monthly else min1)
      in \<lparr>ar_AbsorbableUSD = clip0 (f_div min2 multiplier), ar_DailyRemainingAccounting = daily,
          ar_WeeklyRemainingAccounting = weekly, ar_MonthlyRemainingAccounting = monthly,
          ar_Multiplier = multiplier\<rparr>)"


subsection \<open>Properties\<close>

text \<open>The window of a period, counted from the anchor, that an instant lies in.\<close>

definition current_window :: "int64 \<Rightarrow> int64 \<Rightarrow> int64 \<Rightarrow> int64 \<Rightarrow> bool" where
  "current_window anchor periodSec now start \<longleftrightarrow>
     start \<le> now \<and> now < start + periodSec \<and> periodSec dvd (start - anchor)"

lemma current_window_unique:
  assumes "current_window a p t s" "current_window a p t s'"
  shows "s = s'"
proof -
  have "p dvd (s - a) - (s' - a)" using assms unfolding current_window_def by (blast intro: dvd_diff)
  then have "p dvd s - s'" by simp
  then obtain k where k: "s - s' = p * k" by (auto elim: dvdE)
  have "\<bar>s - s'\<bar> < p" using assms unfolding current_window_def by linarith
  moreover have "0 < p" using assms(1) unfolding current_window_def by linarith
  ultimately have "p * \<bar>k\<bar> < p * 1" unfolding k by (simp add: abs_mult)
  then have "\<bar>k\<bar> < 1" using \<open>0 < p\<close> by (simp only: mult_less_cancel_left_pos)
  then have "k = 0" by simp
  with k show ?thesis by simp
qed

lemma alignedWindowStart_current:
  assumes "0 < p" "a \<le> now"
  shows "current_window a p now (alignedWindowStart a now p)"
proof (cases "now = a")
  case False
  have m: "(now - a) div p * p + (now - a) mod p = now - a" by simp
  have "0 \<le> (now - a) mod p" "(now - a) mod p < p" using assms(1) by simp_all
  then have "a + (now - a) div p * p \<le> now" "now < a + (now - a) div p * p + p" using m by linarith+
  then show ?thesis using False assms(2) by (simp add: current_window_def alignedWindowStart_def)
qed (use assms in \<open>simp add: current_window_def alignedWindowStart_def\<close>)

lemma rollUsageWindow_current:
  assumes "0 < p" "0 < a" "a \<le> now"
  shows "current_window a p now (snd (rollUsageWindow u s a now p))"
    "fst (rollUsageWindow u s a now p) = (if 0 < s \<and> s < snd (rollUsageWindow u s a now p) then Fin 0 else u)"
  using assms alignedWindowStart_current [OF assms(1,3)] by (auto simp: rollUsageWindow_def Let_def)

lemma rollUsageWindow_stable:
  assumes "0 < p" "0 < a" "a \<le> now" "current_window a p now s"
  shows "rollUsageWindow u s a now p = (u, s)"
proof -
  have "alignedWindowStart a now p = s"
    using current_window_unique alignedWindowStart_current [OF assms(1,3)] assms(4) by blast
  then show ?thesis using assms by (auto simp: rollUsageWindow_def Let_def)
qed

lemma RollUsageWindows_fields:
  "uw_DailyUsageUSD (RollUsageWindows a u t) = fst (rollUsageWindow (uw_DailyUsageUSD u) (uw_DailyWindowStart u) a t quotaDailyWindow)"
  "uw_WeeklyUsageUSD (RollUsageWindows a u t) = fst (rollUsageWindow (uw_WeeklyUsageUSD u) (uw_WeeklyWindowStart u) a t quotaWeeklyWindow)"
  "uw_MonthlyUsageUSD (RollUsageWindows a u t) = fst (rollUsageWindow (uw_MonthlyUsageUSD u) (uw_MonthlyWindowStart u) a t quotaMonthlyWindow)"
  "uw_DailyWindowStart (RollUsageWindows a u t) = snd (rollUsageWindow (uw_DailyUsageUSD u) (uw_DailyWindowStart u) a t quotaDailyWindow)"
  "uw_WeeklyWindowStart (RollUsageWindows a u t) = snd (rollUsageWindow (uw_WeeklyUsageUSD u) (uw_WeeklyWindowStart u) a t quotaWeeklyWindow)"
  "uw_MonthlyWindowStart (RollUsageWindows a u t) = snd (rollUsageWindow (uw_MonthlyUsageUSD u) (uw_MonthlyWindowStart u) a t quotaMonthlyWindow)"
  by (simp_all add: RollUsageWindows_def Let_def case_prod_beta)

definition current_windows :: "int64 \<Rightarrow> int64 \<Rightarrow> usage_windows \<Rightarrow> bool" where
  "current_windows startsAt now u \<longleftrightarrow>
     current_window startsAt quotaDailyWindow now (uw_DailyWindowStart u)
     \<and> current_window startsAt quotaWeeklyWindow now (uw_WeeklyWindowStart u)
     \<and> current_window startsAt quotaMonthlyWindow now (uw_MonthlyWindowStart u)"

definition reset_before :: "int64 \<Rightarrow> int64 \<Rightarrow> float64 \<Rightarrow> float64" where
  "reset_before start new used = (if 0 < start \<and> start < new then Fin 0 else used)"

text \<open>C36. The windows of a subscription roll as counted from its start: whatever the stored windows were, a
  roll yields the one day, week and month (of 30 days) that contain the instant, aligned to the start of
  the subscription; a counter is reset to zero exactly when the start stored for it is positive and before the start of the
  window that is current now, and is kept otherwise, so also when no start or a later one was stored; and
  rolling again inside the same windows changes nothing.\<close>

theorem RollUsageWindows_current:
  fixes u :: usage_windows
  assumes "0 < startsAt" "startsAt \<le> now"
  defines "r \<equiv> RollUsageWindows startsAt u now"
  shows "current_windows startsAt now r
    \<and> uw_DailyUsageUSD r = reset_before (uw_DailyWindowStart u) (uw_DailyWindowStart r) (uw_DailyUsageUSD u)
    \<and> uw_WeeklyUsageUSD r = reset_before (uw_WeeklyWindowStart u) (uw_WeeklyWindowStart r) (uw_WeeklyUsageUSD u)
    \<and> uw_MonthlyUsageUSD r = reset_before (uw_MonthlyWindowStart u) (uw_MonthlyWindowStart r) (uw_MonthlyUsageUSD u)
    \<and> (now \<le> t \<and> current_windows startsAt t r \<longrightarrow> RollUsageWindows startsAt r t = r)"
proof -
  have p: "0 < quotaDailyWindow" "0 < quotaWeeklyWindow" "0 < quotaMonthlyWindow"
    by (simp_all add: quotaDailyWindow_def quotaWeeklyWindow_def quotaMonthlyWindow_def)
  note d = rollUsageWindow_current [OF p(1) assms(1,2)] and w = rollUsageWindow_current [OF p(2) assms(1,2)]
    and m = rollUsageWindow_current [OF p(3) assms(1,2)]
  have "RollUsageWindows startsAt r t = r" if "now \<le> t" "current_windows startsAt t r"
  proof -
    have "startsAt \<le> t" using that assms by linarith
    with that(2) p assms(1) show ?thesis
      by (simp add: RollUsageWindows_def [of _ r] rollUsageWindow_stable current_windows_def)
  qed
  then show ?thesis
    using d(1) w(1) m(1) by (simp add: r_def current_windows_def reset_before_def RollUsageWindows_fields d(2) w(2) m(2))
qed

definition demo_windows :: usage_windows where
  "demo_windows = \<lparr>uw_DailyUsageUSD = Fin 3, uw_WeeklyUsageUSD = Fin 5, uw_MonthlyUsageUSD = Fin 8,
     uw_DailyWindowStart = 1000, uw_WeeklyWindowStart = 1000, uw_MonthlyWindowStart = 1000\<rparr>"

lemma RollUsageWindows_current_witness:
  "let r = RollUsageWindows 1000 demo_windows 90000 in
    current_windows 1000 90000 r
    \<and> uw_DailyUsageUSD r = reset_before (uw_DailyWindowStart demo_windows) (uw_DailyWindowStart r) (uw_DailyUsageUSD demo_windows)
    \<and> uw_WeeklyUsageUSD r = reset_before (uw_WeeklyWindowStart demo_windows) (uw_WeeklyWindowStart r) (uw_WeeklyUsageUSD demo_windows)
    \<and> uw_MonthlyUsageUSD r = reset_before (uw_MonthlyWindowStart demo_windows) (uw_MonthlyWindowStart r) (uw_MonthlyUsageUSD demo_windows)
    \<and> RollUsageWindows 1000 r 90001 = r \<and> uw_DailyUsageUSD r = Fin 0 \<and> uw_WeeklyUsageUSD r = Fin 5"
proof -
  have c: "current_windows 1000 90001 (RollUsageWindows 1000 demo_windows 90000)"
    by (simp add: current_windows_def current_window_def RollUsageWindows_fields rollUsageWindow_def
      alignedWindowStart_def demo_windows_def quotaDailyWindow_def quotaWeeklyWindow_def quotaMonthlyWindow_def)
  have z: "uw_DailyUsageUSD (RollUsageWindows 1000 demo_windows 90000) = Fin 0"
    "uw_WeeklyUsageUSD (RollUsageWindows 1000 demo_windows 90000) = Fin 5"
    by (simp_all add: RollUsageWindows_fields rollUsageWindow_def
      alignedWindowStart_def demo_windows_def quotaDailyWindow_def quotaWeeklyWindow_def quotaMonthlyWindow_def)
  show ?thesis using RollUsageWindows_current [of 1000 90000 demo_windows 90001] c z by (simp add: Let_def)
qed


subsection \<open>The strictest window governs\<close>

lemma f_div_mono:
  assumes "f_le (Fin 0) a" "f_le a b" "0 < c"
  shows "f_le (f_div a (Fin c)) (f_div b (Fin c))" "f_le (Fin 0) (f_div a (Fin c))"
proof -
  have fr: "f_le (fround x) PosInf" if "0 \<le> x" for x
    using that by (auto simp: fround_def Let_def f_le_def)
  have c: "c \<noteq> 0" "\<not> c < 0" using assms(3) by simp_all
  show "f_le (f_div a (Fin c)) (f_div b (Fin c))"
  proof (cases "a = PosInf \<or> b = PosInf")
    case True
    with assms c show ?thesis by (cases a; cases b) (auto intro: fr)
  next
    case False
    with assms obtain x y where xy: "a = Fin x" "b = Fin y" "0 \<le> x" "x \<le> y" by (cases a; cases b) auto
    with assms(3) have "x / c \<le> y / c" by (intro divide_right_mono) simp_all
    then show ?thesis using c by (simp add: xy fround_mono)
  qed
  show "f_le (Fin 0) (f_div a (Fin c))"
    using assms c by (cases a) (auto simp: fround_nonneg)
qed

lemma f_le_refl: "x \<noteq> NaN \<Longrightarrow> f_le x x"
  by (simp add: f_le_def)

lemma f_less_le: "f_less x y \<Longrightarrow> f_le x y"
  by (simp add: f_le_def)

lemma not_f_less: "x \<noteq> NaN \<Longrightarrow> y \<noteq> NaN \<Longrightarrow> \<not> f_less x y \<Longrightarrow> f_le y x"
  by (cases x; cases y) (auto simp: f_le_def)

definition f_lower :: "float64 \<Rightarrow> float64 \<Rightarrow> float64" where
  "f_lower a b = (if f_less b a then b else a)"

lemma f_lower_bounds:
  assumes "a \<noteq> NaN" "b \<noteq> NaN"
  shows "f_lower a b = a \<or> f_lower a b = b" "f_lower a b \<noteq> NaN" "f_le (f_lower a b) a" "f_le (f_lower a b) b"
  using assms f_le_refl f_less_le not_f_less by (auto simp: f_lower_def)

text \<open>The data of a window: a finite or missing limit, finite counters that are doubles.\<close>

definition window_data :: "float64 option \<Rightarrow> float64 \<Rightarrow> float64 \<Rightarrow> bool" where
  "window_data limit usage frozen \<longleftrightarrow> (case limit of None \<Rightarrow> True | Some l \<Rightarrow> \<not> f_special l)
     \<and> \<not> f_special usage \<and> (\<exists>q. frozen = Fin q \<and> fround q = Fin q)"

definition absorb_data :: "absorbable_window \<Rightarrow> bool" where
  "absorb_data w \<longleftrightarrow> window_data (aw_DailyLimit w) (aw_DailyUsageUSD w) (aw_FrozenDailyAccountingUSD w)
     \<and> window_data (aw_WeeklyLimit w) (aw_WeeklyUsageUSD w) (aw_FrozenWeeklyAccountingUSD w)
     \<and> window_data (aw_MonthlyLimit w) (aw_MonthlyUsageUSD w) (aw_FrozenMonthlyAccountingUSD w)"

text \<open>A limit is reached when usage and frozen amounts add up to it, exactly.\<close>

definition limit_reached :: "float64 option \<Rightarrow> float64 \<Rightarrow> float64 \<Rightarrow> bool" where
  "limit_reached limit usage frozen \<longleftrightarrow> (\<exists>l u q. limit = Some (Fin l) \<and> usage = Fin u \<and> frozen = Fin q \<and> l \<le> u + q)"

lemma remaining_range:
  assumes "window_data limit usage frozen"
  shows "f_le (Fin 0) (clip0 (remainingAccounting limit usage frozen))"
    "limit_reached limit usage frozen \<Longrightarrow> clip0 (remainingAccounting limit usage frozen) = Fin 0"
proof -
  from assms obtain u q where uq: "usage = Fin u" "frozen = Fin q" "fround q = Fin q"
    by (auto simp: window_data_def f_special_iff)
  have fn: "f_neg (fround x) = fround (- x)" for x by (simp add: fround_def Let_def)
  have nn: "f_sub (f_sub (Fin l) (Fin u)) (Fin q) \<noteq> NaN" for l
    by (cases "fround (l - u)") (auto simp: f_sub_def)
  have r: "f_le (Fin 0) (clip0 x)" if "x \<noteq> NaN" for x
    using that by (cases x) (auto simp: clip0_def f_le_def)
  show "f_le (Fin 0) (clip0 (remainingAccounting limit usage frozen))"
    using assms nn by (auto simp: remainingAccounting_def window_data_def f_special_iff uq split: option.splits intro!: r)
  assume "limit_reached limit usage frozen"
  then obtain l where l: "limit = Some (Fin l)" "l \<le> u + q" by (auto simp: limit_reached_def uq)
  have "f_le (fround (l - u)) (fround q)" using l(2) by (intro fround_mono) simp
  then have le: "f_le (fround (l - u)) (Fin q)" by (simp only: uq(3))
  have "f_le (f_add (fround (l - u)) (Fin (- q))) (Fin 0)"
  proof (cases "fround (l - u)")
    case (Fin x)
    with le have "x - q \<le> 0" by simp
    then have "f_le (fround (x - q)) (fround 0)" by (intro fround_mono)
    then show ?thesis by (simp add: Fin fround_def [of 0])
  qed (use le in \<open>auto simp: f_le_def\<close>)
  then have "f_le (remainingAccounting limit usage frozen) (Fin 0)"
    by (simp add: remainingAccounting_def l uq f_sub_def)
  then show "clip0 (remainingAccounting limit usage frozen) = Fin 0"
    by (auto simp: clip0_def f_le_def)
qed

text \<open>C37. The strictest window governs what a subscription absorbs: with finite data and a positive
  multiplier the absorbable amount is one of the three remaining amounts divided by the multiplier and at
  most each of them; it is zero as soon as the settled and frozen usage of one window reach its limit, and
  unbounded when no window has a limit.\<close>

theorem absorbable_strictest:
  assumes "absorb_data w" "0 < m"
  shows "let r = ComputeAbsorbablePure w (Fin m) (Fin 0); q = (\<lambda>x. f_div x (Fin m)) in
    f_le (Fin 0) (ar_AbsorbableUSD r)
    \<and> f_le (ar_AbsorbableUSD r) (q (ar_DailyRemainingAccounting r))
    \<and> f_le (ar_AbsorbableUSD r) (q (ar_WeeklyRemainingAccounting r))
    \<and> f_le (ar_AbsorbableUSD r) (q (ar_MonthlyRemainingAccounting r))
    \<and> ar_AbsorbableUSD r \<in> {q (ar_DailyRemainingAccounting r), q (ar_WeeklyRemainingAccounting r),
        q (ar_MonthlyRemainingAccounting r)}
    \<and> (limit_reached (aw_DailyLimit w) (aw_DailyUsageUSD w) (aw_FrozenDailyAccountingUSD w)
       \<or> limit_reached (aw_WeeklyLimit w) (aw_WeeklyUsageUSD w) (aw_FrozenWeeklyAccountingUSD w)
       \<or> limit_reached (aw_MonthlyLimit w) (aw_MonthlyUsageUSD w) (aw_FrozenMonthlyAccountingUSD w)
       \<longrightarrow> ar_AbsorbableUSD r = Fin 0)
    \<and> (aw_DailyLimit w = None \<and> aw_WeeklyLimit w = None \<and> aw_MonthlyLimit w = None \<longrightarrow> ar_AbsorbableUSD r = PosInf)"
proof -
  let ?r = "ComputeAbsorbablePure w (Fin m) (Fin 0)"
  have m: "effective_multiplier (Fin m) = Fin m" using assms(2) by (simp add: effective_multiplier_def)
  define D where "D = clip0 (remainingAccounting (aw_DailyLimit w) (aw_DailyUsageUSD w) (aw_FrozenDailyAccountingUSD w))"
  define W where "W = clip0 (remainingAccounting (aw_WeeklyLimit w) (aw_WeeklyUsageUSD w) (aw_FrozenWeeklyAccountingUSD w))"
  define M where "M = clip0 (remainingAccounting (aw_MonthlyLimit w) (aw_MonthlyUsageUSD w) (aw_FrozenMonthlyAccountingUSD w))"
  have data: "window_data (aw_DailyLimit w) (aw_DailyUsageUSD w) (aw_FrozenDailyAccountingUSD w)"
    "window_data (aw_WeeklyLimit w) (aw_WeeklyUsageUSD w) (aw_FrozenWeeklyAccountingUSD w)"
    "window_data (aw_MonthlyLimit w) (aw_MonthlyUsageUSD w) (aw_FrozenMonthlyAccountingUSD w)"
    using assms(1) by (simp_all add: absorb_data_def)
  note rr = remaining_range [OF data(1), folded D_def] remaining_range [OF data(2), folded W_def]
    remaining_range [OF data(3), folded M_def]
  define mn where "mn = f_lower (f_lower D W) M"
  have nan: "D \<noteq> NaN" "W \<noteq> NaN" "M \<noteq> NaN" using rr(1,3,5) by auto
  note l1 = f_lower_bounds [OF nan(1,2)] and l2 = f_lower_bounds [OF f_lower_bounds(2) [OF nan(1,2)] nan(3), folded mn_def]
  have mn: "mn \<in> {D, W, M}" "f_le mn D" "f_le mn W" "f_le mn M"
    using l1(1) l2(1) l2(4) f_le_trans [OF l2(3) l1(3)] f_le_trans [OF l2(3) l1(4)] by auto
  have fields: "ar_DailyRemainingAccounting ?r = D" "ar_WeeklyRemainingAccounting ?r = W"
    "ar_MonthlyRemainingAccounting ?r = M" "ar_AbsorbableUSD ?r = clip0 (f_div mn (Fin m))"
    by (auto simp: ComputeAbsorbablePure_def Let_def m D_def W_def M_def mn_def f_lower_def f_nonzero_def)
  have mn0: "f_le (Fin 0) mn" using mn(1) rr(1,3,5) by auto
  have clip: "clip0 (f_div mn (Fin m)) = f_div mn (Fin m)" "f_le (Fin 0) (f_div mn (Fin m))"
  proof -
    show q0: "f_le (Fin 0) (f_div mn (Fin m))"
      by (rule f_div_mono(2) [OF mn0 _ assms(2)]) (use mn0 in \<open>cases mn; auto simp: f_le_def\<close>)
    then show "clip0 (f_div mn (Fin m)) = f_div mn (Fin m)"
      by (cases "f_div mn (Fin m)") (auto simp: clip0_def)
  qed
  have z: "mn = Fin 0" if "D = Fin 0 \<or> W = Fin 0 \<or> M = Fin 0"
    using that mn(2-4) mn0 by (cases mn) (auto simp: f_le_def)
  have reach: "D = Fin 0 \<or> W = Fin 0 \<or> M = Fin 0"
    if "limit_reached (aw_DailyLimit w) (aw_DailyUsageUSD w) (aw_FrozenDailyAccountingUSD w)
       \<or> limit_reached (aw_WeeklyLimit w) (aw_WeeklyUsageUSD w) (aw_FrozenWeeklyAccountingUSD w)
       \<or> limit_reached (aw_MonthlyLimit w) (aw_MonthlyUsageUSD w) (aw_FrozenMonthlyAccountingUSD w)"
    using that rr(2,4,6) by blast
  have free: "mn = PosInf" if "aw_DailyLimit w = None" "aw_WeeklyLimit w = None" "aw_MonthlyLimit w = None"
    using that by (simp add: mn_def D_def W_def M_def remainingAccounting_def clip0_def f_lower_def)
  have inf: "f_div PosInf (Fin m) = PosInf" "f_div (Fin 0) (Fin m) = Fin 0"
    using assms(2) by (simp_all add: fround_def)
  show ?thesis
    unfolding Let_def fields clip(1)
    using clip(2) f_div_mono(1) [OF mn0 mn(2) assms(2)] f_div_mono(1) [OF mn0 mn(3) assms(2)]
      f_div_mono(1) [OF mn0 mn(4) assms(2)] mn(1) z reach free inf by auto
qed


definition demo_absorb :: absorbable_window where
  "demo_absorb = \<lparr>aw_DailyUsageUSD = Fin 1, aw_WeeklyUsageUSD = Fin 3, aw_MonthlyUsageUSD = Fin 3,
     aw_DailyLimit = Some (Fin 5), aw_WeeklyLimit = Some (Fin 5), aw_MonthlyLimit = None,
     aw_FrozenDailyAccountingUSD = Fin 2, aw_FrozenWeeklyAccountingUSD = Fin 2, aw_FrozenMonthlyAccountingUSD = Fin 2\<rparr>"

theorem absorbable_strictest_witness:
  "let r = ComputeAbsorbablePure demo_absorb (Fin 2) (Fin 0); q = (\<lambda>x. f_div x (Fin 2)) in
    f_le (ar_AbsorbableUSD r) (q (ar_DailyRemainingAccounting r))
    \<and> f_le (ar_AbsorbableUSD r) (q (ar_WeeklyRemainingAccounting r))
    \<and> f_le (ar_AbsorbableUSD r) (q (ar_MonthlyRemainingAccounting r)) \<and> ar_AbsorbableUSD r = Fin 0"
proof -
  have d: "fround 2 = Fin 2" using fround_int [of 2] by simp
  have a: "absorb_data demo_absorb"
    by (simp add: absorb_data_def window_data_def demo_absorb_def f_special_def d)
  have l: "limit_reached (aw_WeeklyLimit demo_absorb) (aw_WeeklyUsageUSD demo_absorb) (aw_FrozenWeeklyAccountingUSD demo_absorb)"
    by (simp add: limit_reached_def demo_absorb_def)
  have m: "(0 :: rat) < 2" by simp
  show ?thesis using absorbable_strictest [OF a m, unfolded Let_def] l unfolding Let_def by blast
qed

end
