(* ===== verification/Reservation_Store.thy ===== *)
theory Reservation_Store
  imports Billing_Store Usage_Windows
begin

text \<open>
  The rows behind a reservation and the repository operations on them: account columns
  (\<open>app/billing/internal/data/account_repo.go\<close>), reservations (\<open>reservation_repo.go\<close>), receivables
  (\<open>receivable_repo.go\<close>), the usage columns and the window charges of a subscription
  (\<open>domain/subscription/data\<close>). The store of \<open>Billing_Store\<close> is extended; statements fail as there. A
  bigint column refuses a value out of range, as MySQL and PostgreSQL do.
\<close>

subsection \<open>Rows\<close>

record cost_bound =
  cn_Protocol :: string
  cn_InputTokens :: int64
  cn_UpstreamModel :: string

record frozen_pricing =
  fp_Method :: string
  fp_Price :: "model_price option"
  fp_GroupRatio :: float64
  fp_ModelRatio :: float64
  fp_CompletionRatio :: float64
  fp_CacheCreationMode :: string
  fp_CanonicalUsageMode :: string
  fp_CanonicalChargeAll :: bool
  fp_CanonicalChargeAllowlist :: "string list"

record frozen_subscription =
  fs_EntitlementRevision :: int64
  fs_Coverage :: "routing_coverage list"
  fs_SubscriptionID :: int64
  fs_PolicyID :: int64
  fs_PolicyVersion :: string
  fs_ContractVersion :: string
  fs_CoverageMode :: string
  fs_RateMultiplier :: float64
  fs_DailyLimit :: "float64 option"
  fs_WeeklyLimit :: "float64 option"
  fs_MonthlyLimit :: "float64 option"
  fs_DailyWindowStart :: int64
  fs_WeeklyWindowStart :: int64
  fs_MonthlyWindowStart :: int64

record request_snapshot =
  rs_ServiceTier :: "frozen_tier option"
  rs_CostBound :: "cost_bound option"
  rs_MaxCost :: int64
  rs_Version :: int
  rs_Routing :: "routing_context option"
  rs_GroupKey :: string
  rs_Model :: string
  rs_BillingMode :: string
  rs_BillingPolicyVersion :: string
  rs_Pricing :: frozen_pricing
  rs_Subscription :: "frozen_subscription option"

record reservation =
  rv_ID :: string
  rv_UserID :: string
  rv_RequestID :: string
  rv_RootRequestID :: string
  rv_AttemptNumber :: int
  rv_SourceKind :: string
  rv_UpstreamModelID :: string
  rv_Amount :: int64
  rv_Status :: string
  rv_Model :: string
  rv_ChannelID :: string
  rv_SubscriptionAccountID :: string
  rv_SubscriptionID :: int64
  rv_SubscriptionAmountUSD :: float64
  rv_AccountingUSD :: "float64 option"
  rv_DailyWindowStart :: int64
  rv_WeeklyWindowStart :: int64
  rv_MonthlyWindowStart :: int64
  rv_BalanceAmount :: int64
  rv_ActualCost :: int64
  rv_Snapshot :: "request_snapshot option"
  rv_ExpiredAt :: gotime

record receivable =
  rc_Owner :: string
  rc_ReservationID :: string
  rc_OverdueQuota :: int64
  rc_OverdueUSD :: float64

record window_charge =
  wc_ReservationID :: string
  wc_SubscriptionID :: int64
  wc_QuotaPolicyID :: int64
  wc_DailyWindowStart :: int64
  wc_WeeklyWindowStart :: int64
  wc_MonthlyWindowStart :: int64
  wc_AccountingUSD :: float64
  wc_CreatedAt :: int64

text \<open>The user columns beside the balance, and the other tables; \<open>db_Tasks\<close> are the reservations with an
  unfinished settlement task, \<open>db_SubIDs\<close> the keys of the subscription table.\<close>

record rstore = store +
  db_Frozen :: "string \<Rightarrow> int64"
  db_Used :: "string \<Rightarrow> int64"
  db_RequestCount :: "string \<Rightarrow> int64"
  db_UserGroup :: "string \<Rightarrow> string"
  db_Reservations :: "reservation list"
  db_Receivables :: "receivable list"
  db_SubIDs :: "int64 list"
  db_Groups :: "int64 \<Rightarrow> subscription_group option"
  db_Usage :: "int64 \<Rightarrow> usage_windows"
  db_Charges :: "window_charge list"
  db_Tasks :: "string list"

type_synonym 'a tx = "rstore \<Rightarrow> billing_error + ('a \<times> rstore)"

text \<open>A statement that occurs a second time in an operation may fail on its own.\<close>

definition again :: "faults \<Rightarrow> faults" where
  "again f = (\<lambda>s. f (Again s))"

definition out_of_range :: billing_error where
  "out_of_range = BStorage ''bigint out of range''"

subsection \<open>Account columns\<close>

record account =
  ac_UserID :: string
  ac_Group :: string
  ac_Balance :: int64
  ac_UsedAmount :: int64
  ac_RequestCount :: int64
  ac_FrozenAmount :: int64

definition getAccountForUpdate :: "faults \<Rightarrow> string \<Rightarrow> account tx" where
  "getAccountForUpdate f u st = and_then (exec f ReadAccount (\<lambda>st. st) st) (\<lambda>_ st. case db_Balances st u of
     None \<Rightarrow> Inl BAccountNotFound
   | Some b \<Rightarrow> Inr (\<lparr>ac_UserID = u, ac_Group = db_UserGroup st u, ac_Balance = b, ac_UsedAmount = db_Used st u,
       ac_RequestCount = db_RequestCount st u, ac_FrozenAmount = db_Frozen st u\<rparr>, st))"

text \<open>\<open>UPDATE users SET balance = balance + db, frozen_amount = frozen_amount + df WHERE id = u [AND cond]\<close>;
  the result says whether a row was affected.\<close>

definition update_account :: "faults \<Rightarrow> string \<Rightarrow> int \<Rightarrow> int \<Rightarrow> (int64 \<Rightarrow> bool) \<Rightarrow> bool tx" where
  "update_account f u db df cond st = and_then (exec f WriteAccount (\<lambda>st. st) st) (\<lambda>_ st. case db_Balances st u of
     None \<Rightarrow> Inr (False, st)
   | Some b \<Rightarrow>
       if \<not> cond b then Inr (False, st)
       else if \<not> in_int64 (b + db) \<or> \<not> in_int64 (db_Frozen st u + df) then Inl out_of_range
       else Inr (True, st\<lparr>db_Balances := (db_Balances st)(u \<mapsto> b + db),
         db_Frozen := (db_Frozen st)(u := db_Frozen st u + df)\<rparr>))"

definition ReserveBalanceInTx :: "faults \<Rightarrow> string \<Rightarrow> int64 \<Rightarrow> bool \<Rightarrow> (int64 \<times> int64 \<times> int64) tx" where
  "ReserveBalanceInTx f u amount allowOverdraft st =
     (if amount < 0 then Inl BNegative
      else if amount = 0 then and_then (getAccountForUpdate f u st)
        (\<lambda>a st. Inr ((ac_Balance a, ac_Balance a, ac_FrozenAmount a), st))
      else and_then (update_account f u (- amount) amount (\<lambda>b. allowOverdraft \<or> b \<ge> amount) st) (\<lambda>affected st.
        if \<not> affected then and_then (getAccountForUpdate f u st) (\<lambda>a st. Inl BInsufficient)
        else and_then (getAccountForUpdate f u st)
          (\<lambda>a st. Inr ((ac_Balance a + amount, ac_Balance a, ac_FrozenAmount a), st))))"

definition CommitBalanceInTx :: "faults \<Rightarrow> string \<Rightarrow> int64 \<Rightarrow> int64 \<Rightarrow> bool \<Rightarrow> (int64 \<times> int64) tx" where
  "CommitBalanceInTx f u reserved actual allowOverdraft st =
     (if reserved < 0 then Inl BNegative
      else if actual < 0 then Inl BNegative
      else if reserved = 0 then and_then (getAccountForUpdate f u st) (\<lambda>a st.
        if actual = 0 then Inr ((ac_Balance a, ac_Balance a), st)
        else and_then (update_account f u (- actual) 0 (\<lambda>b. allowOverdraft \<or> b + (- actual) \<ge> 0) st) (\<lambda>affected st.
          if \<not> affected then Inl BInsufficient
          else and_then (getAccountForUpdate (again f) u st) (\<lambda>a' st. Inr ((ac_Balance a, ac_Balance a'), st))))
      else let delta = reserved - actual in
        and_then (update_account f u delta (- reserved) (\<lambda>b. allowOverdraft \<or> b + delta \<ge> 0) st) (\<lambda>affected st.
          if \<not> affected then and_then (getAccountForUpdate f u st) (\<lambda>a st. Inl BInsufficient)
          else and_then (getAccountForUpdate f u st) (\<lambda>a st. Inr ((ac_Balance a - delta, ac_Balance a), st))))"

definition ReleaseBalanceInTx :: "faults \<Rightarrow> string \<Rightarrow> int64 \<Rightarrow> int64 tx" where
  "ReleaseBalanceInTx f u reserved st =
     (if reserved < 0 then Inl BNegative
      else if reserved = 0 then and_then (getAccountForUpdate f u st) (\<lambda>a st. Inr (ac_Balance a, st))
      else and_then (update_account f u reserved (- reserved) (\<lambda>_. True) st) (\<lambda>affected st.
        if \<not> affected then Inl BAccountNotFound
        else and_then (getAccountForUpdate f u st) (\<lambda>a st. Inr (ac_Balance a, st))))"

definition usedQuotaExpr :: "int64 \<Rightarrow> int64" where
  "usedQuotaExpr delta = (if delta < 0 then 0 else delta)"

definition UpdateUsageInTx :: "faults \<Rightarrow> string \<Rightarrow> int64 \<Rightarrow> int64 \<Rightarrow> unit tx" where
  "UpdateUsageInTx f u usedDelta countDelta st = and_then (exec f WriteUsedAmount (\<lambda>st. st) st) (\<lambda>_ st.
     if db_Balances st u = None then Inr ((), st)
     else if \<not> in_int64 (db_Used st u + usedQuotaExpr usedDelta) \<or> \<not> in_int64 (db_RequestCount st u + countDelta)
     then Inl out_of_range
     else Inr ((), st\<lparr>db_Used := (db_Used st)(u := db_Used st u + usedQuotaExpr usedDelta),
       db_RequestCount := (db_RequestCount st)(u := db_RequestCount st u + countDelta)\<rparr>))"

subsection \<open>Reservations\<close>

definition find_reservation :: "reservation list \<Rightarrow> string \<Rightarrow> reservation option" where
  "find_reservation rs n = find (\<lambda>r. rv_ID r = n) rs"

definition GetReservationInTx :: "faults \<Rightarrow> string \<Rightarrow> reservation tx" where
  "GetReservationInTx f n st = and_then (exec f ReadReservation (\<lambda>st. st) st) (\<lambda>_ st.
     case find_reservation (db_Reservations st) n of None \<Rightarrow> Inl BReservationNotFound | Some r \<Rightarrow> Inr (r, st))"

definition FindByRequestID :: "faults \<Rightarrow> string \<Rightarrow> reservation option tx" where
  "FindByRequestID f requestID st = and_then (exec f ReadRequest (\<lambda>st. st) st)
     (\<lambda>_ st. Inr (find (\<lambda>r. rv_RequestID r = requestID) (db_Reservations st), st))"

definition FindByRequestIDInTx :: "faults \<Rightarrow> string \<Rightarrow> string \<Rightarrow> reservation option tx" where
  "FindByRequestIDInTx f u requestID st = and_then (exec f ReadRequest (\<lambda>st. st) st)
     (\<lambda>_ st. Inr (find (\<lambda>r. rv_UserID r = u \<and> rv_RequestID r = requestID) (db_Reservations st), st))"

text \<open>The unique keys are the reservation id and, for a request id that is not empty, the pair of user and
  request (\<open>uq_billing_reservations_user_request\<close>).\<close>

definition key_clash :: "reservation \<Rightarrow> reservation \<Rightarrow> bool" where
  "key_clash r r' \<longleftrightarrow> rv_ID r' = rv_ID r
     \<or> rv_RequestID r \<noteq> [] \<and> rv_UserID r' = rv_UserID r \<and> rv_RequestID r' = rv_RequestID r"

definition insert_reservation :: "faults \<Rightarrow> reservation \<Rightarrow> unit tx" where
  "insert_reservation f r st = and_then (exec f InsertReservation (\<lambda>st. st) st) (\<lambda>_ st.
     if list_ex (key_clash r) (db_Reservations st) then Inl (BStorage ''unique constraint failed'')
     else Inr ((), st\<lparr>db_Reservations := db_Reservations st @ [r]\<rparr>))"

definition set_status :: "string \<Rightarrow> string \<Rightarrow> string \<Rightarrow> reservation list \<Rightarrow> reservation list" where
  "set_status n from_status to_status rs =
     map (\<lambda>r. if rv_ID r = n \<and> rv_Status r = from_status then r\<lparr>rv_Status := to_status\<rparr> else r) rs"

definition CASReservationStatus :: "faults \<Rightarrow> string \<Rightarrow> string \<Rightarrow> string \<Rightarrow> bool tx" where
  "CASReservationStatus f n from_status to_status st =
     and_then (exec f (CasReservation to_status) (\<lambda>st. st) st) (\<lambda>_ st.
       Inr (list_ex (\<lambda>r. rv_ID r = n \<and> rv_Status r = from_status) (db_Reservations st),
         st\<lparr>db_Reservations := set_status n from_status to_status (db_Reservations st)\<rparr>))"

definition IsReserved :: "reservation \<Rightarrow> bool" where
  "IsReserved r \<longleftrightarrow> rv_Status r = ''reserved''"

definition IsTerminal :: "reservation \<Rightarrow> bool" where
  "IsTerminal r \<longleftrightarrow> rv_Status r \<in> {''committed'', ''released'', ''expired''}"

definition HasSubscription :: "reservation \<Rightarrow> bool" where
  "HasSubscription r \<longleftrightarrow> rv_SubscriptionID r > 0"

text \<open>An expiry is refused while the reservation is not due or an unfinished settlement task holds it; the
  zero time stands for a missing expiry.\<close>

definition CASExpiredReservationStatus :: "faults \<Rightarrow> string \<Rightarrow> gotime \<Rightarrow> bool tx" where
  "CASExpiredReservationStatus f n now st = and_then (GetReservationInTx f n st) (\<lambda>r st.
     if \<not> IsReserved r \<or> rv_ExpiredAt r = 0 \<or> \<not> rv_ExpiredAt r < now then Inr (False, st)
     else and_then (exec f ReadTasks (\<lambda>st. st) st) (\<lambda>_ st.
       if n \<in> set (db_Tasks st) then Inr (False, st)
       else CASReservationStatus f n ''reserved'' ''releasing'' st))"

definition SetActualCostInTx :: "faults \<Rightarrow> string \<Rightarrow> int64 \<Rightarrow> unit tx" where
  "SetActualCostInTx f n cost st = exec f WriteActualCost (\<lambda>st. st\<lparr>db_Reservations :=
     map (\<lambda>r. if rv_ID r = n then r\<lparr>rv_ActualCost := cost\<rparr> else r) (db_Reservations st)\<rparr>) st"

text \<open>What the active reservations of a subscription have frozen in the three windows: the dollars, and the
  accounting dollars with the multiplier each reservation was admitted at. \<open>sum\<close> is the SUM of the
  database over the rows in table order.\<close>

definition active_rows :: "string \<Rightarrow> int64 \<Rightarrow> reservation list \<Rightarrow> reservation list" where
  "active_rows u subID rs = filter (\<lambda>r. rv_UserID r = u \<and> rv_SubscriptionID r = subID \<and> rv_Status r = ''reserved'') rs"

definition coalesce_sum :: "(float64 list \<Rightarrow> float64) \<Rightarrow> float64 list \<Rightarrow> float64" where
  "coalesce_sum ttl xs = (if xs = [] then Fin 0 else ttl xs)"

definition SumActiveFrozenInTx :: "(float64 list \<Rightarrow> float64) \<Rightarrow> faults \<Rightarrow> string \<Rightarrow> int64 \<Rightarrow> int64 \<Rightarrow> int64 \<Rightarrow> int64
    \<Rightarrow> (float64 \<times> float64 \<times> float64) tx" where
  "SumActiveFrozenInTx ttl f u subID d w m st = and_then (exec f SumFrozen (\<lambda>st. st) st) (\<lambda>_ st.
     let rows = filter (\<lambda>r. rv_DailyWindowStart r = d \<or> rv_WeeklyWindowStart r = w \<or> rv_MonthlyWindowStart r = m)
           (active_rows u subID (db_Reservations st));
         col = (\<lambda>start x. coalesce_sum ttl (map (\<lambda>r. if start r = x then rv_SubscriptionAmountUSD r else Fin 0) rows))
     in Inr ((col rv_DailyWindowStart d, col rv_WeeklyWindowStart w, col rv_MonthlyWindowStart m), st))"

definition SumActiveFrozenAccountingInTx :: "(float64 list \<Rightarrow> float64) \<Rightarrow> faults \<Rightarrow> string \<Rightarrow> int64 \<Rightarrow> int64 \<Rightarrow> int64
    \<Rightarrow> int64 \<Rightarrow> float64 \<Rightarrow> (float64 \<times> float64 \<times> float64) tx" where
  "SumActiveFrozenAccountingInTx ttl f u subID d w m legacy st = and_then (exec f SumFrozen (\<lambda>st. st) st) (\<lambda>_ st.
     let rows = active_rows u subID (db_Reservations st);
         amount = (\<lambda>r. case rv_AccountingUSD r of Some a \<Rightarrow> a | None \<Rightarrow> f_mul (rv_SubscriptionAmountUSD r) legacy);
         col = (\<lambda>start x. coalesce_sum ttl (map (\<lambda>r. if start r = x then amount r else Fin 0) rows))
     in Inr ((col rv_DailyWindowStart d, col rv_WeeklyWindowStart w, col rv_MonthlyWindowStart m), st))"

subsection \<open>Receivables and subscriptions\<close>

text \<open>
  One receivable per reservation; the caller ignores a duplicate. That is MySQL and SQLite: on
  PostgreSQL the failed insert would abort the transaction around it, which is not modelled (a
  reservation is settled once, so the code's own runs meet no duplicate).
\<close>

definition CreateReceivable :: "faults \<Rightarrow> receivable \<Rightarrow> unit tx" where
  "CreateReceivable f r st = and_then (exec f InsertReceivable (\<lambda>st. st) st) (\<lambda>_ st.
     if list_ex (\<lambda>r'. rc_ReservationID r' = rc_ReservationID r) (db_Receivables st) then Inr ((), st)
     else Inr ((), st\<lparr>db_Receivables := db_Receivables st @ [r]\<rparr>))"

definition LockSubscriptionRow :: "faults \<Rightarrow> int64 \<Rightarrow> unit tx" where
  "LockSubscriptionRow f subID st = and_then (exec f LockSubscription (\<lambda>st. st) st) (\<lambda>_ st.
     if db_Subs st subID = None then Inl (BStorage ''record not found'') else Inr ((), st))"

text \<open>The active subscription of a user: the row updated last, the larger id on a tie.\<close>

definition newer_sub :: "user_subscription \<Rightarrow> user_subscription option \<Rightarrow> user_subscription option" where
  "newer_sub s best = (case best of None \<Rightarrow> Some s
   | Some b \<Rightarrow> if us_UpdatedAt s > us_UpdatedAt b \<or> (us_UpdatedAt s = us_UpdatedAt b \<and> us_ID s > us_ID b) then Some s else best)"

definition active_subscription :: "rstore \<Rightarrow> int64 \<Rightarrow> int64 \<Rightarrow> user_subscription option" where
  "active_subscription st userID now = fold newer_sub (filter (\<lambda>s. us_UserID s = userID
     \<and> us_Status s = ''active'' \<and> us_ExpiresAt s > now) (List.map_filter (db_Subs st) (db_SubIDs st))) None"

definition GetActiveSubscriptionForUser :: "faults \<Rightarrow> int64 \<Rightarrow> int64 \<Rightarrow> user_subscription tx" where
  "GetActiveSubscriptionForUser f now userID st = and_then (exec f ReadActiveSubscription (\<lambda>st. st) st) (\<lambda>_ st.
     case active_subscription st userID now of None \<Rightarrow> Inl (BSubscription ErrNotFound) | Some s \<Rightarrow> Inr (s, st))"

definition GetGroupForSubscriptionInTx :: "faults \<Rightarrow> hashes \<Rightarrow> user_subscription \<Rightarrow> subscription_group tx" where
  "GetGroupForSubscriptionInTx f H s st = (case us_Contract s of
     Some c \<Rightarrow> (case contract_Group (Some c) of
         Some g \<Rightarrow> if contract_Validate H (Some c) then Inr (g, st) else Inl (BSubscription ErrContractInvalid)
       | None \<Rightarrow> Inl (BSubscription ErrContractInvalid))
   | None \<Rightarrow> and_then (exec f ReadGroup (\<lambda>st. st) st) (\<lambda>_ st. case db_Groups st (us_GroupID s) of
       None \<Rightarrow> Inl (BStorage ''group not found'') | Some g \<Rightarrow> Inr (g, st)))"

definition add_usage :: "usage_windows \<Rightarrow> float64 \<Rightarrow> usage_windows" where
  "add_usage u cost = u\<lparr>uw_DailyUsageUSD := f_add (uw_DailyUsageUSD u) cost,
     uw_WeeklyUsageUSD := f_add (uw_WeeklyUsageUSD u) cost, uw_MonthlyUsageUSD := f_add (uw_MonthlyUsageUSD u) cost\<rparr>"

definition AddUsageByIDInTx :: "faults \<Rightarrow> int64 \<Rightarrow> float64 \<Rightarrow> int64 \<Rightarrow> unit tx" where
  "AddUsageByIDInTx f subID cost now st = and_then (exec (again f) ReadSubscription (\<lambda>st. st) st) (\<lambda>_ st.
     case db_Subs st subID of
       None \<Rightarrow> Inl (BSubscription ErrNotFound)
     | Some s \<Rightarrow> exec f WriteUsage (\<lambda>st. st\<lparr>db_Subs := (db_Subs st)(subID \<mapsto> s\<lparr>us_UpdatedAt := now\<rparr>),
         db_Usage := (db_Usage st)(subID := add_usage (RollUsageWindows (us_StartsAt s) (db_Usage st subID) now) cost)\<rparr>) st)"

definition RecordUsageForSubscriptionInTx :: "faults \<Rightarrow> hashes \<Rightarrow> int64 \<Rightarrow> float64 \<Rightarrow> int64 \<Rightarrow> unit tx" where
  "RecordUsageForSubscriptionInTx f H subID costUSD now st =
     (if f_less costUSD (Fin 0) then Inl BNegative
      else and_then (exec f ReadSubscription (\<lambda>st. st) st) (\<lambda>_ st. case db_Subs st subID of
          None \<Rightarrow> Inl (BSubscription ErrNotFound)
        | Some s \<Rightarrow> and_then (GetGroupForSubscriptionInTx f H s st) (\<lambda>g st.
            AddUsageByIDInTx f subID (if f_less (Fin 0) (sg_RateMultiplier g) then f_mul costUSD (sg_RateMultiplier g)
              else costUSD) now st)))"

text \<open>One column of a settled charge: the charge counts in the window it was admitted in, or in the current
  window when that one has rolled since.\<close>

definition charge_window :: "float64 \<times> int64 \<Rightarrow> int64 \<Rightarrow> float64 \<Rightarrow> float64 \<times> int64" where
  "charge_window uw chargeStart usd = (case uw of (used, start) \<Rightarrow>
     if start = chargeStart \<or> start = 0 then (f_add used usd, chargeStart)
     else if chargeStart > 0 \<and> chargeStart < start then (f_add used usd, start) else (used, start))"

definition charged_windows :: "usage_windows \<Rightarrow> window_charge \<Rightarrow> usage_windows" where
  "charged_windows u c = (let usd = wc_AccountingUSD c;
       (d, ds) = charge_window (uw_DailyUsageUSD u, uw_DailyWindowStart u) (wc_DailyWindowStart c) usd;
       (w, ws) = charge_window (uw_WeeklyUsageUSD u, uw_WeeklyWindowStart u) (wc_WeeklyWindowStart c) usd;
       (m, ms) = charge_window (uw_MonthlyUsageUSD u, uw_MonthlyWindowStart u) (wc_MonthlyWindowStart c) usd
     in \<lparr>uw_DailyUsageUSD = d, uw_WeeklyUsageUSD = w, uw_MonthlyUsageUSD = m,
         uw_DailyWindowStart = ds, uw_WeeklyWindowStart = ws, uw_MonthlyWindowStart = ms\<rparr>)"

definition AddFrozenUsageInTx :: "faults \<Rightarrow> window_charge \<Rightarrow> unit tx" where
  "AddFrozenUsageInTx f c st = and_then (exec f ReadSubscription (\<lambda>st. st) st) (\<lambda>_ st.
     case db_Subs st (wc_SubscriptionID c) of
       None \<Rightarrow> Inl (BSubscription ErrNotFound)
     | Some s \<Rightarrow> and_then (exec f InsertWindowCharge (\<lambda>st. st) st) (\<lambda>_ st.
         if list_ex (\<lambda>c'. wc_ReservationID c' = wc_ReservationID c) (db_Charges st)
         then Inl (BStorage ''unique constraint failed'')
         else let st' = st\<lparr>db_Charges := db_Charges st @ [c]\<rparr> in
           if us_GroupID s \<noteq> wc_QuotaPolicyID c then Inr ((), st')
           else exec f WriteUsage (\<lambda>st. st\<lparr>
             db_Subs := (db_Subs st)(wc_SubscriptionID c \<mapsto> s\<lparr>us_UpdatedAt := wc_CreatedAt c\<rparr>),
             db_Usage := (db_Usage st)(wc_SubscriptionID c := charged_windows
               (RollUsageWindows (us_StartsAt s) (db_Usage st (wc_SubscriptionID c)) (wc_CreatedAt c)) c)\<rparr>) st'))"

definition RecordFrozenUsageInTx :: "faults \<Rightarrow> window_charge \<Rightarrow> unit tx" where
  "RecordFrozenUsageInTx f c st =
     (if wc_ReservationID c = [] \<or> wc_SubscriptionID c \<le> 0 \<or> wc_QuotaPolicyID c \<le> 0
        \<or> f_less (wc_AccountingUSD c) (Fin 0) \<or> f_special (wc_AccountingUSD c)
      then Inl (BStorage ''invalid frozen usage'') else AddFrozenUsageInTx f c st)"

end
