(* ===== verification/Subscription_Life.thy ===== *)
theory Subscription_Life
  imports Reservation_Store
begin

text \<open>
  The life of one subscription row under concurrent writers: the operations of
  \<open>domain/subscription/biz/subscription_usecase.go\<close>, \<open>subscription_change.go\<close> and \<open>expiry_checker.go\<close> that
  write it, and the selective update of \<open>domain/subscription/data/subscription_repo.go\<close> with the revision
  check of \<open>contract.go\<close>. An operation reads the row, computes its new values and the columns to write,
  and writes them later; between the two, other operations run. The ones that hold the row lock from
  the read on are the schedules in which the write follows its read at once. The usage of a request is
  added under the row lock, in one step. There is no IAM query in the context (with one, every write
  compares revisions).
\<close>

subsection \<open>The row and its columns\<close>

record subscription_row =
  rw_Sub :: user_subscription
  rw_Usage :: usage_windows

datatype sub_field = FPricePaid | FContract | FStatus | FExpiresAt | FSubscriptionName | FGroupID
  | FMetadata | FRenewalStrategy | FUsageAll

primrec write_column :: "subscription_row \<Rightarrow> sub_field \<Rightarrow> subscription_row \<Rightarrow> subscription_row" where
  "write_column s FPricePaid r = r\<lparr>rw_Sub := (rw_Sub r)\<lparr>us_PricePaid := us_PricePaid (rw_Sub s)\<rparr>\<rparr>"
| "write_column s FContract r = r\<lparr>rw_Sub := (rw_Sub r)\<lparr>us_Contract := us_Contract (rw_Sub s),
     us_SourceOrder := us_SourceOrder (rw_Sub s)\<rparr>\<rparr>"
| "write_column s FStatus r = r\<lparr>rw_Sub := (rw_Sub r)\<lparr>us_Status := us_Status (rw_Sub s)\<rparr>\<rparr>"
| "write_column s FExpiresAt r = r\<lparr>rw_Sub := (rw_Sub r)\<lparr>us_ExpiresAt := us_ExpiresAt (rw_Sub s)\<rparr>\<rparr>"
| "write_column s FSubscriptionName r = r\<lparr>rw_Sub := (rw_Sub r)\<lparr>us_SubscriptionName := us_SubscriptionName (rw_Sub s)\<rparr>\<rparr>"
| "write_column s FGroupID r = r\<lparr>rw_Sub := (rw_Sub r)\<lparr>us_GroupID := us_GroupID (rw_Sub s)\<rparr>\<rparr>"
| "write_column s FMetadata r = r\<lparr>rw_Sub := (rw_Sub r)\<lparr>us_Metadata := us_Metadata (rw_Sub s)\<rparr>\<rparr>"
| "write_column s FRenewalStrategy r = r\<lparr>rw_Sub := (rw_Sub r)\<lparr>us_RenewalStrategy := us_RenewalStrategy (rw_Sub s)\<rparr>\<rparr>"
| "write_column s FUsageAll r = r\<lparr>rw_Usage := rw_Usage s\<rparr>"

text \<open>\<open>updateSubscriptionFieldsWithTxCore\<close>: the listed columns and \<open>updated_at\<close>.\<close>

definition write_columns :: "subscription_row \<Rightarrow> sub_field list \<Rightarrow> subscription_row \<Rightarrow> subscription_row" where
  "write_columns s fs cur = (if fs = [] then cur else
     (let r = fold (write_column s) fs cur in r\<lparr>rw_Sub := (rw_Sub r)\<lparr>us_UpdatedAt := us_UpdatedAt (rw_Sub s)\<rparr>\<rparr>))"

text \<open>A request to change the plan.\<close>

record change_request =
  cq_UserID :: int64
  cq_ToGroupID :: int64
  cq_ToPlanID :: int64
  cq_NewPriceQuota :: int64
  cq_OldPriceQuota :: int64
  cq_NewPlanName :: string
  cq_Contract :: "contract option"
  cq_Policy :: string
  cq_Operator :: string
  cq_Now :: int64

text \<open>
  Parameters: the hashes of contracts, \<open>EntitlementsEnabled()\<close>, the check of the billing modes of the
  groups of a new contract, and the JSON functions on the metadata: the pending change and its removal,
  the record of a change made (the request, the group left, the time) and of a change scheduled.
\<close>

record life_env =
  lf_hashes :: hashes
  lf_enabled :: bool
  lf_modes :: "contract \<Rightarrow> bool"
  lf_reason :: "string \<Rightarrow> string \<Rightarrow> string"
  lf_pending :: "string \<Rightarrow> (int64 \<times> contract option) option"
  lf_clear :: "string \<Rightarrow> string"
  lf_lastChange :: "string \<Rightarrow> change_request \<Rightarrow> int64 \<Rightarrow> int64 \<Rightarrow> string"
  lf_pendingChange :: "string \<Rightarrow> change_request \<Rightarrow> int64 \<Rightarrow> string"

text \<open>\<open>subscriptionMutation\<close> around the selective write: \<open>cur\<close> is the row locked for the write.\<close>

definition checked_write :: "life_env \<Rightarrow> subscription_row \<Rightarrow> bool" where
  "checked_write env s \<longleftrightarrow> lf_enabled env \<or> us_Contract (rw_Sub s) \<noteq> None"

definition new_contract_refused :: "life_env \<Rightarrow> subscription_row \<Rightarrow> subscription_row \<Rightarrow> bool" where
  "new_contract_refused env cur s = (case us_Contract (rw_Sub s) of None \<Rightarrow> False
     | Some c \<Rightarrow> \<not> same_digest (us_Contract (rw_Sub cur)) (Some c) \<and> \<not> lf_modes env c)"

definition UpdateSubscriptionFields :: "life_env \<Rightarrow> subscription_row \<Rightarrow> subscription_row \<Rightarrow> sub_field list
    \<Rightarrow> billing_error + subscription_row" where
  "UpdateSubscriptionFields env cur s fs =
     (case subscriptionMutation (lf_hashes env) (lf_enabled env) (rw_Sub cur) (rw_Sub s) of
        Inl e \<Rightarrow> Inl e
      | Inr s' \<Rightarrow>
          if \<not> checked_write env s then Inr (write_columns s fs cur)
          else if new_contract_refused env cur s then Inl (BSubscription ErrContractInvalid)
          else (let r = write_columns s fs cur in
            Inr (r\<lparr>rw_Sub := (rw_Sub r)\<lparr>us_EntitlementRevision := us_EntitlementRevision s'\<rparr>\<rparr>)))"

subsection \<open>Operations\<close>

text \<open>
  An operation on the row it has read: an error, nothing to write, or the row to write with the columns
  the write names. \<open>UpdateSubscription\<close>, the full write of \<open>Shorten\<close>, names all but the renewal strategy.
\<close>

type_synonym sub_write = "subscription_row \<times> sub_field list"
type_synonym prepared = "billing_error + sub_write option"

definition full_columns :: "life_env \<Rightarrow> subscription_row \<Rightarrow> sub_field list" where
  "full_columns env s = [FGroupID, FSubscriptionName, FStatus, FExpiresAt, FUsageAll, FMetadata]
     @ (if checked_write env s then [FContract, FPricePaid] else [])"

definition revoke_row :: "life_env \<Rightarrow> int64 \<Rightarrow> string \<Rightarrow> subscription_row \<Rightarrow> prepared" where
  "revoke_row env tm reason s = (if us_Status (rw_Sub s) = ''revoked'' then Inr None
     else Inr (Some (s\<lparr>rw_Sub := RevokeInTx (lf_reason env) tm (rw_Sub s) reason\<rparr>, [FStatus, FMetadata])))"

definition extend_row :: "int64 \<Rightarrow> int64 \<Rightarrow> subscription_row \<Rightarrow> prepared" where
  "extend_row tm newExpiresAt s = (case Extend tm (rw_Sub s) newExpiresAt of
     Inl e \<Rightarrow> Inl (BSubscription e)
   | Inr a \<Rightarrow> Inr (Some (s\<lparr>rw_Sub := a\<rparr>, [FExpiresAt, FRenewalStrategy]
       @ (if us_Status (rw_Sub s) = ''expired'' then [FStatus] else []))))"

definition shorten_row :: "int64 \<Rightarrow> int64 \<Rightarrow> sub_field list \<Rightarrow> subscription_row \<Rightarrow> prepared" where
  "shorten_row tm subtractSeconds columns s = (case ShortenInTx tm (rw_Sub s) subtractSeconds of
     Inl e \<Rightarrow> Inl (BSubscription e)
   | Inr a \<Rightarrow> Inr (Some (s\<lparr>rw_Sub := a\<rparr>, columns)))"

definition reset_usage :: "int64 \<Rightarrow> string \<Rightarrow> usage_windows \<Rightarrow> usage_windows option" where
  "reset_usage tm scope u =
     (if scope = ''daily'' then Some (u\<lparr>uw_DailyUsageUSD := Fin 0, uw_DailyWindowStart := tm\<rparr>)
      else if scope = ''weekly'' then Some (u\<lparr>uw_WeeklyUsageUSD := Fin 0, uw_WeeklyWindowStart := tm\<rparr>)
      else if scope = ''monthly'' then Some (u\<lparr>uw_MonthlyUsageUSD := Fin 0, uw_MonthlyWindowStart := tm\<rparr>)
      else if scope = ''all'' then Some \<lparr>uw_DailyUsageUSD = Fin 0, uw_WeeklyUsageUSD = Fin 0,
        uw_MonthlyUsageUSD = Fin 0, uw_DailyWindowStart = tm, uw_WeeklyWindowStart = tm, uw_MonthlyWindowStart = tm\<rparr>
      else None)"

definition reset_row :: "int64 \<Rightarrow> string \<Rightarrow> subscription_row \<Rightarrow> prepared" where
  "reset_row tm scope s = (case reset_usage tm scope (rw_Usage s) of
     None \<Rightarrow> Inl (BSubscription ErrInvalidQuotaScope)
   | Some u \<Rightarrow> Inr (Some (s\<lparr>rw_Usage := u, rw_Sub := (rw_Sub s)\<lparr>us_UpdatedAt := tm\<rparr>\<rparr>, [FUsageAll])))"

text \<open>One row in the loop of \<open>Tick\<close>; the notifications it collects are not modelled.\<close>

definition tick_row :: "int64 \<Rightarrow> subscription_row \<Rightarrow> prepared" where
  "tick_row tm s = (if us_Status (rw_Sub s) = ''active'' \<and> us_ExpiresAt (rw_Sub s) \<le> tm
     then Inr (Some (s\<lparr>rw_Sub := (rw_Sub s)\<lparr>us_Status := ''expired'', us_UpdatedAt := tm\<rparr>\<rparr>, [FStatus]))
     else Inr None)"

subsection \<open>Renewal\<close>

text \<open>
  \<open>assignOrExtend\<close> on the row it finds active; the request is as \<open>prepareAssignment\<close> left it, and a user
  without an active row gets a new one, which is not this row's life.
\<close>

record assign_request =
  rq_Contract :: "contract option"
  rq_SourceOrder :: string
  rq_GroupID :: int64
  rq_StartsAt :: int64
  rq_ExpiresAt :: int64
  rq_SubscriptionName :: string
  rq_Metadata :: string
  rq_PricePaid :: int64

definition mergeSubscriptionMetadata :: "string \<Rightarrow> string \<Rightarrow> string" where
  "mergeSubscriptionMetadata existing next0 = (if trim_space next0 = [] then existing else next0)"

definition contract_change :: "life_env \<Rightarrow> assign_request \<Rightarrow> user_subscription \<Rightarrow> billing_error + (user_subscription \<times> bool)" where
  "contract_change env q a =
     (if us_Contract a = None \<and> rq_Contract q = None \<or> same_digest (us_Contract a) (rq_Contract q) then Inr (a, False)
      else case lf_pending env (us_Metadata a) of
        None \<Rightarrow> Inl (BSubscription ErrContractConflict)
      | Some (toGroup, pc) \<Rightarrow>
          if \<not> same_digest pc (rq_Contract q) then Inl (BSubscription ErrContractConflict)
          else Inr (a\<lparr>us_Contract := rq_Contract q, us_SourceOrder := rq_SourceOrder q,
            us_Metadata := lf_clear env (us_Metadata a)\<rparr>, True))"

definition group_change :: "life_env \<Rightarrow> assign_request \<Rightarrow> bool \<Rightarrow> user_subscription \<Rightarrow> billing_error + (user_subscription \<times> bool)" where
  "group_change env q contractChanged a =
     (if us_GroupID a = rq_GroupID q then Inr (a, False)
      else if \<not> contractChanged \<and> \<not> (case lf_pending env (us_Metadata a) of None \<Rightarrow> False
          | Some (toGroup, pc) \<Rightarrow> toGroup = rq_GroupID q) then Inl (BSubscription ErrAlreadyAssigned)
      else Inr (a\<lparr>us_GroupID := rq_GroupID q, us_Metadata := lf_clear env (us_Metadata a)\<rparr>, True))"

definition renewed :: "int64 \<Rightarrow> assign_request \<Rightarrow> user_subscription \<Rightarrow> user_subscription" where
  "renewed tm q a =
     (let startsAt = (if rq_StartsAt q = 0 then tm else rq_StartsAt q); duration = wrap64 (rq_ExpiresAt q - startsAt)
      in a\<lparr>us_ExpiresAt := wrap64 (max (us_ExpiresAt a) tm + duration),
           us_SubscriptionName := (if rq_SubscriptionName q \<noteq> [] then rq_SubscriptionName q else us_SubscriptionName a),
           us_RenewalStrategy := ''extend'',
           us_Metadata := mergeSubscriptionMetadata (us_Metadata a) (rq_Metadata q),
           us_UpdatedAt := tm, us_PricePaid := rq_PricePaid q\<rparr>)"

definition renew_row :: "life_env \<Rightarrow> int64 \<Rightarrow> assign_request \<Rightarrow> subscription_row \<Rightarrow> prepared" where
  "renew_row env tm q s = (let a = rw_Sub s in
     if us_Status a \<noteq> ''active'' \<or> us_ExpiresAt a \<le> tm then Inr None
     else case contract_change env q a of
       Inl e \<Rightarrow> Inl e
     | Inr (a1, contractChanged) \<Rightarrow> (case group_change env q contractChanged a1 of
         Inl e \<Rightarrow> Inl e
       | Inr (a2, groupChanged) \<Rightarrow> Inr (Some (s\<lparr>rw_Sub := renewed tm q a2\<rparr>,
           [FExpiresAt, FMetadata, FRenewalStrategy, FPricePaid]
           @ (if contractChanged then [FContract] else [])
           @ (if rq_SubscriptionName q \<noteq> [] then [FSubscriptionName] else [])
           @ (if groupChanged then [FGroupID] else [])))))"

subsection \<open>Change of plan\<close>

definition change_policy :: "change_request \<Rightarrow> string" where
  "change_policy q = (if cq_Policy q \<noteq> [] then cq_Policy q
     else if cq_NewPriceQuota q \<ge> cq_OldPriceQuota q then ''immediate'' else ''next_cycle'')"

definition change_refused :: "life_env \<Rightarrow> int64 \<Rightarrow> change_request \<Rightarrow> user_subscription \<Rightarrow> subscription_error option" where
  "change_refused env tm q a =
     (if cq_UserID q \<le> 0 \<or> cq_ToGroupID q \<le> 0 \<or> cq_NewPriceQuota q < 0 \<or> cq_OldPriceQuota q < 0 then Some ErrInvalidChange
      else if us_Status a \<noteq> ''active'' then Some ErrNotActive
      else if us_UserID a \<noteq> cq_UserID q then Some ErrInvalidChange
      else if (case cq_Contract q of None \<Rightarrow> False | Some c \<Rightarrow> \<not> contract_Validate (lf_hashes env) (Some c)
          \<or> qp_ID (ct_QuotaPolicy c) \<noteq> cq_ToGroupID q) then Some ErrContractInvalid
      else if us_Contract a \<noteq> None \<and> cq_Contract q = None then Some ErrContractConflict
      else if (lf_enabled env \<or> us_Contract a \<noteq> None) \<and> (us_StartsAt a > tm \<or> us_ExpiresAt a \<le> tm) then Some ErrNotFound
      else None)"

definition change_now :: "life_env \<Rightarrow> int64 \<Rightarrow> change_request \<Rightarrow> subscription_row \<Rightarrow> sub_write" where
  "change_now env tm q s = (let a = rw_Sub s;
       priced = (cq_ToPlanID q > 0 \<or> cq_Contract q \<noteq> None \<or> cq_OldPriceQuota q > 0 \<or> cq_NewPriceQuota q > 0);
       a' = a\<lparr>us_PricePaid := (if priced then cq_NewPriceQuota q else us_PricePaid a),
         us_Contract := (if cq_Contract q \<noteq> None then cq_Contract q else us_Contract a),
         us_GroupID := cq_ToGroupID q,
         us_SubscriptionName := (if cq_NewPlanName q \<noteq> [] then cq_NewPlanName q else us_SubscriptionName a),
         us_Metadata := lf_lastChange env (us_Metadata a) q (us_GroupID a) tm,
         us_UpdatedAt := tm\<rparr>;
       fresh = (cq_ToGroupID q \<noteq> us_GroupID a \<and> us_Contract a' = None)
     in (s\<lparr>rw_Sub := a', rw_Usage := (if fresh then \<lparr>uw_DailyUsageUSD = Fin 0, uw_WeeklyUsageUSD = Fin 0,
             uw_MonthlyUsageUSD = Fin 0, uw_DailyWindowStart = tm, uw_WeeklyWindowStart = tm, uw_MonthlyWindowStart = tm\<rparr>
           else rw_Usage s)\<rparr>,
         [FGroupID, FMetadata] @ (if cq_Contract q \<noteq> None then [FContract] else [])
         @ (if priced then [FPricePaid] else [])
         @ (if cq_NewPlanName q \<noteq> [] then [FSubscriptionName] else [])
         @ (if fresh then [FUsageAll] else [])))"

definition change_row :: "life_env \<Rightarrow> int64 \<Rightarrow> change_request \<Rightarrow> subscription_row \<Rightarrow> prepared" where
  "change_row env clock q s = (let tm = (if cq_Now q = 0 then clock else cq_Now q); a = rw_Sub s in
     case change_refused env tm q a of
       Some e \<Rightarrow> Inl (BSubscription e)
     | None \<Rightarrow>
         if change_policy q = ''immediate'' then Inr (Some (change_now env tm q s))
         else if change_policy q = ''next_cycle'' then
           Inr (Some (s\<lparr>rw_Sub := a\<lparr>us_Metadata := lf_pendingChange env (us_Metadata a) q tm, us_UpdatedAt := tm\<rparr>\<rparr>, [FMetadata]))
         else Inl (BSubscription ErrInvalidChange))"

subsection \<open>Concurrent operations\<close>

datatype sub_op = OpRevoke int64 string | OpExtend int64 int64 | OpShorten int64 int64 | OpShortenInTx int64 int64
  | OpResetQuota int64 string | OpTick int64 | OpRenew int64 assign_request | OpChange int64 change_request

primrec prepare :: "life_env \<Rightarrow> sub_op \<Rightarrow> subscription_row \<Rightarrow> prepared" where
  "prepare env (OpRevoke tm reason) s = revoke_row env tm reason s"
| "prepare env (OpExtend tm newExpiresAt) s = extend_row tm newExpiresAt s"
| "prepare env (OpShorten tm k) s = shorten_row tm k (full_columns env s) s"
| "prepare env (OpShortenInTx tm k) s = shorten_row tm k [FExpiresAt] s"
| "prepare env (OpResetQuota tm scope) s = reset_row tm scope s"
| "prepare env (OpTick tm) s = tick_row tm s"
| "prepare env (OpRenew tm q) s = renew_row env tm q s"
| "prepare env (OpChange tm q) s = change_row env tm q s"

text \<open>
  The stored row and the writes in flight. A step is the read of an operation, the write of the \<open>n\<close>th
  operation in flight, or a usage added under the row lock (\<open>addUsageByIDInTxDB\<close>, \<open>AddFrozenUsageInTx\<close>).
\<close>

record life =
  stored :: subscription_row
  inflight :: "sub_write list"

datatype life_event = ReadBy sub_op | WriteBack nat | AddUsage int64 float64 | AddFrozen window_charge

definition touch :: "int64 \<Rightarrow> (usage_windows \<Rightarrow> usage_windows) \<Rightarrow> subscription_row \<Rightarrow> subscription_row" where
  "touch tm f r = r\<lparr>rw_Usage := f (RollUsageWindows (us_StartsAt (rw_Sub r)) (rw_Usage r) tm),
     rw_Sub := (rw_Sub r)\<lparr>us_UpdatedAt := tm\<rparr>\<rparr>"

primrec life_step :: "life_env \<Rightarrow> life_event \<Rightarrow> life \<Rightarrow> life" where
  "life_step env (ReadBy opn) L = (case prepare env opn (stored L) of
     Inr (Some w) \<Rightarrow> L\<lparr>inflight := inflight L @ [w]\<rparr>
   | _ \<Rightarrow> L)"
| "life_step env (WriteBack n) L = (if length (inflight L) \<le> n then L else
     (case inflight L ! n of (s, fs) \<Rightarrow>
        L\<lparr>inflight := take n (inflight L) @ drop (Suc n) (inflight L),
          stored := (case UpdateSubscriptionFields env (stored L) s fs of Inl e \<Rightarrow> stored L | Inr r \<Rightarrow> r)\<rparr>))"
| "life_step env (AddUsage tm cost) L = L\<lparr>stored := touch tm (\<lambda>u. add_usage u cost) (stored L)\<rparr>"
| "life_step env (AddFrozen c) L = (if us_GroupID (rw_Sub (stored L)) \<noteq> wc_QuotaPolicyID c then L
     else L\<lparr>stored := touch (wc_CreatedAt c) (\<lambda>u. charged_windows u c) (stored L)\<rparr>)"

definition life_run :: "life_env \<Rightarrow> life_event list \<Rightarrow> life \<Rightarrow> life" where
  "life_run env xs L = fold (life_step env) xs L"

lemma life_run_simps [simp]:
  "life_run env [] L = L" "life_run env (x # xs) L = life_run env xs (life_step env x L)"
  by (simp_all add: life_run_def)

subsection \<open>What a write can touch\<close>

named_theorems row_ops
declare revoke_row_def [row_ops] extend_row_def [row_ops] shorten_row_def [row_ops] reset_row_def [row_ops]
  tick_row_def [row_ops] renew_row_def [row_ops] change_row_def [row_ops]

lemma write_columns_usage: "FUsageAll \<notin> set fs \<Longrightarrow> rw_Usage (write_columns s fs r) = rw_Usage r"
proof -
  have "FUsageAll \<notin> set fs \<Longrightarrow> rw_Usage (fold (write_column s) fs r) = rw_Usage r" for r
  proof (induction fs arbitrary: r)
    case (Cons f fs)
    then show ?case by (cases f) simp_all
  qed simp
  then show "FUsageAll \<notin> set fs \<Longrightarrow> rw_Usage (write_columns s fs r) = rw_Usage r"
    by (simp add: write_columns_def Let_def)
qed

lemma write_columns_fixed:
  "us_StartsAt (rw_Sub (write_columns s fs r)) = us_StartsAt (rw_Sub r)
   \<and> us_EntitlementRevision (rw_Sub (write_columns s fs r)) = us_EntitlementRevision (rw_Sub r)"
proof -
  have "us_StartsAt (rw_Sub (fold (write_column s) fs r)) = us_StartsAt (rw_Sub r)
    \<and> us_EntitlementRevision (rw_Sub (fold (write_column s) fs r)) = us_EntitlementRevision (rw_Sub r)" for r
  proof (induction fs arbitrary: r)
    case (Cons f fs)
    then show ?case by (cases f) simp_all
  qed simp
  then show ?thesis by (simp add: write_columns_def Let_def)
qed

lemma write_columns_contract:
  assumes "us_Contract (rw_Sub s) \<noteq> None" and "us_Contract (rw_Sub r) \<noteq> None"
  shows "us_Contract (rw_Sub (write_columns s fs r)) \<noteq> None"
proof -
  have "us_Contract (rw_Sub r) \<noteq> None \<Longrightarrow> us_Contract (rw_Sub (fold (write_column s) fs r)) \<noteq> None" for r
  proof (induction fs arbitrary: r)
    case (Cons f fs)
    then show ?case using assms(1) by (cases f) simp_all
  qed simp
  with assms(2) show ?thesis by (auto simp: write_columns_def Let_def)
qed

lemma update_cases:
  assumes "UpdateSubscriptionFields env cur s fs = Inr r"
  obtains (Direct) "\<not> checked_write env s" "r = write_columns s fs cur"
  | (Checked) "checked_write env s" "us_EntitlementRevision (rw_Sub s) > 0 \<Longrightarrow>
        us_EntitlementRevision (rw_Sub s) = us_EntitlementRevision (rw_Sub cur)"
      "r = (write_columns s fs cur)\<lparr>rw_Sub := (rw_Sub (write_columns s fs cur))
        \<lparr>us_EntitlementRevision := wrap64 (us_EntitlementRevision (rw_Sub cur) + 1)\<rparr>\<rparr>"
  using assms
  by (auto simp: UpdateSubscriptionFields_def subscriptionMutation_def checked_write_def Let_def split: if_splits)

lemma update_usage:
  "UpdateSubscriptionFields env cur s fs = Inr r \<Longrightarrow> FUsageAll \<notin> set fs \<Longrightarrow> rw_Usage r = rw_Usage cur"
  by (erule update_cases) (simp_all add: write_columns_usage)

lemma update_StartsAt: "UpdateSubscriptionFields env cur s fs = Inr r \<Longrightarrow> us_StartsAt (rw_Sub r) = us_StartsAt (rw_Sub cur)"
  by (erule update_cases) (simp_all add: write_columns_fixed)

lemma touch_simps [simp]:
  "rw_Usage (touch tm f r) = f (RollUsageWindows (us_StartsAt (rw_Sub r)) (rw_Usage r) tm)"
  "rw_Sub (touch tm f r) = (rw_Sub r)\<lparr>us_UpdatedAt := tm\<rparr>"
  by (simp_all add: touch_def)

lemmas row_changes = RevokeInTx_def Extend_def ShortenInTx_def renewed_def contract_change_def group_change_def change_now_def

lemma renewal_keeps:
  assumes "contract_change env q a = Inr (a1, cc)" and "group_change env q cc a1 = Inr (a2, gc)"
  shows "us_EntitlementRevision a2 = us_EntitlementRevision a" and "us_Contract a \<noteq> None \<longrightarrow> us_Contract a2 \<noteq> None"
  using assms by (auto simp: contract_change_def group_change_def same_digest_def split: if_splits option.splits)

lemma renew_cases:
  assumes "renew_row env tm q s = Inr (Some (s', fs))"
  obtains a1 cc a2 gc where "contract_change env q (rw_Sub s) = Inr (a1, cc)" "group_change env q cc a1 = Inr (a2, gc)"
    "s' = s\<lparr>rw_Sub := renewed tm q a2\<rparr>"
  using assms by (auto simp: renew_row_def Let_def split: if_splits sum.splits prod.splits)

lemma prepare_keeps:
  assumes "prepare env opn s = Inr (Some (s', fs))"
  shows "us_EntitlementRevision (rw_Sub s') = us_EntitlementRevision (rw_Sub s)
    \<and> (us_Contract (rw_Sub s) \<noteq> None \<longrightarrow> us_Contract (rw_Sub s') \<noteq> None)"
proof (cases opn)
  case (OpRenew tm q)
  with assms have "renew_row env tm q s = Inr (Some (s', fs))" by simp
  then obtain a1 cc a2 gc where r: "contract_change env q (rw_Sub s) = Inr (a1, cc)"
    "group_change env q cc a1 = Inr (a2, gc)" "s' = s\<lparr>rw_Sub := renewed tm q a2\<rparr>" by (rule renew_cases)
  show ?thesis using renewal_keeps [OF r(1,2)] by (simp add: r(3) renewed_def Let_def)
next
  case (OpChange tm q)
  then show ?thesis
    using assms by (auto simp: change_row_def change_now_def change_refused_def Let_def split: if_splits option.splits)
qed (use assms in \<open>auto simp: row_ops row_changes split: if_splits sum.splits option.splits\<close>)

text \<open>On a revoked row the only operation that prepares a write is the reset of its usage.\<close>

lemma prepare_revoked:
  assumes "prepare env opn s = Inr (Some (s', fs))" and "us_Status (rw_Sub s) = ''revoked''"
  shows "fs = [FUsageAll]"
  using assms
  by (cases opn) (auto simp: row_ops row_changes change_refused_def Let_def split: if_splits sum.splits option.splits)

text \<open>The operations that own the usage columns: a reset, a change of plan, and the full write of \<open>Shorten\<close>.\<close>

definition owns_usage :: "sub_op \<Rightarrow> bool" where
  "owns_usage opn = (case opn of OpResetQuota _ _ \<Rightarrow> True | OpChange _ _ \<Rightarrow> True | OpShorten _ _ \<Rightarrow> True | _ \<Rightarrow> False)"

lemma prepare_usage:
  assumes "prepare env opn s = Inr (Some (s', fs))" and "\<not> owns_usage opn"
  shows "FUsageAll \<notin> set fs"
  using assms
  by (cases opn) (auto simp: owns_usage_def row_ops Let_def split: if_splits sum.splits option.splits)

lemma life_step_cases:
  obtains (Same) "life_step env x L = L"
  | (Read) opn s fs where "x = ReadBy opn" "prepare env opn (stored L) = Inr (Some (s, fs))"
      "life_step env x L = L\<lparr>inflight := inflight L @ [(s, fs)]\<rparr>"
  | (Failed) n where "life_step env x L = L\<lparr>inflight := take n (inflight L) @ drop (Suc n) (inflight L)\<rparr>"
  | (Write) n s fs r where "(s, fs) \<in> set (inflight L)" "UpdateSubscriptionFields env (stored L) s fs = Inr r"
      "life_step env x L = L\<lparr>inflight := take n (inflight L) @ drop (Suc n) (inflight L), stored := r\<rparr>"
  | (Use) tm f where "life_step env x L = L\<lparr>stored := touch tm f (stored L)\<rparr>"
proof (cases x)
  case (ReadBy opn)
  show ?thesis
  proof (cases "prepare env opn (stored L)")
    case (Inr w)
    show ?thesis
    proof (cases w)
      case None
      show ?thesis by (rule Same) (simp add: ReadBy Inr None)
    next
      case (Some sf)
      obtain s fs where "sf = (s, fs)" by fastforce
      then show ?thesis by (intro Read [OF ReadBy, of s fs]) (simp_all add: ReadBy Inr Some)
    qed
  next
    case (Inl e)
    show ?thesis by (rule Same) (simp add: ReadBy Inl)
  qed
next
  case (WriteBack n)
  show ?thesis
  proof (cases "length (inflight L) \<le> n")
    case False
    obtain s fs where w: "inflight L ! n = (s, fs)" by fastforce
    from False have "(s, fs) \<in> set (inflight L)" using w nth_mem [of n "inflight L"] by simp
    show ?thesis
    proof (cases "UpdateSubscriptionFields env (stored L) s fs")
      case (Inl e)
      show ?thesis by (rule Failed [of n]) (use False in \<open>simp add: WriteBack w Inl\<close>)
    next
      case (Inr r)
      show ?thesis by (rule Write [OF \<open>(s, fs) \<in> set (inflight L)\<close> Inr, of n]) (use False in \<open>simp add: WriteBack w Inr\<close>)
    qed
  next
    case True
    show ?thesis by (rule Same) (simp add: WriteBack True)
  qed
next
  case (AddUsage tm cost)
  show ?thesis by (rule Use) (simp add: AddUsage)
next
  case (AddFrozen c)
  show ?thesis
  proof (cases "us_GroupID (rw_Sub (stored L)) = wc_QuotaPolicyID c")
    case True
    show ?thesis by (rule Use) (simp add: AddFrozen True)
  next
    case False
    show ?thesis by (rule Same) (simp add: AddFrozen False)
  qed
qed

lemma set_take_drop: "w \<in> set (take n ws @ drop (Suc n) ws) \<Longrightarrow> w \<in> set ws"
  by (auto dest: in_set_takeD in_set_dropD)

subsection \<open>Revocation\<close>

text \<open>
  Every write in flight is checked and carries the revision it was read at; on a revoked row those read
  since its revocation write usage only. \<open>k\<close> steps are still to come.
\<close>

definition life_inv :: "life_env \<Rightarrow> nat \<Rightarrow> life \<Rightarrow> bool" where
  "life_inv env k L \<longleftrightarrow> (lf_enabled env \<or> us_Contract (rw_Sub (stored L)) \<noteq> None)
     \<and> 0 < us_EntitlementRevision (rw_Sub (stored L))
     \<and> us_EntitlementRevision (rw_Sub (stored L)) + int k \<le> MaxInt64
     \<and> (\<forall>(s, fs) \<in> set (inflight L). checked_write env s \<and> 0 < us_EntitlementRevision (rw_Sub s)
        \<and> us_EntitlementRevision (rw_Sub s) \<le> us_EntitlementRevision (rw_Sub (stored L))
        \<and> (us_Status (rw_Sub (stored L)) = ''revoked''
            \<and> us_EntitlementRevision (rw_Sub s) = us_EntitlementRevision (rw_Sub (stored L)) \<longrightarrow> fs = [FUsageAll]))"

text \<open>What a revoked row keeps: all but its usage, the time of its last update and its revision.\<close>

definition same_life :: "user_subscription \<Rightarrow> user_subscription \<Rightarrow> bool" where
  "same_life a b \<longleftrightarrow> a\<lparr>us_UpdatedAt := 0, us_EntitlementRevision := 0\<rparr> = b\<lparr>us_UpdatedAt := 0, us_EntitlementRevision := 0\<rparr>"

lemma same_life_refl [simp]: "same_life a a"
  by (simp add: same_life_def)

lemma same_life_trans: "same_life a b \<Longrightarrow> same_life b c \<Longrightarrow> same_life a c"
  by (simp add: same_life_def)

lemma same_life_updates [simp]:
  "same_life (a\<lparr>us_UpdatedAt := t\<rparr>) a" "same_life (a\<lparr>us_UpdatedAt := t, us_EntitlementRevision := n\<rparr>) a"
  by (simp_all add: same_life_def)

lemma same_life_status: "same_life a b \<Longrightarrow> us_Status a = us_Status b"
  by (cases a; cases b) (simp add: same_life_def)

lemma write_usage_only: "rw_Sub (write_columns s [FUsageAll] r) = (rw_Sub r)\<lparr>us_UpdatedAt := us_UpdatedAt (rw_Sub s)\<rparr>"
  by (simp add: write_columns_def)

lemma life_step_inv:
  assumes "life_inv env (Suc k) L"
  shows "life_inv env k (life_step env x L)
    \<and> (us_Status (rw_Sub (stored L)) = ''revoked'' \<longrightarrow> same_life (rw_Sub (stored (life_step env x L))) (rw_Sub (stored L)))"
proof (cases rule: life_step_cases [of env x L])
  case (Read opn s fs)
  have "checked_write env s" using prepare_keeps [OF Read(2)] assms by (auto simp: life_inv_def checked_write_def)
  moreover have "us_EntitlementRevision (rw_Sub s) = us_EntitlementRevision (rw_Sub (stored L))"
    using prepare_keeps [OF Read(2)] by blast
  ultimately show ?thesis
    unfolding Read(3) using assms prepare_revoked [OF Read(2)] by (auto simp: life_inv_def)
next
  case (Write n s fs r)
  let ?c = "rw_Sub (stored L)"
  from assms Write(1) have s: "checked_write env s" "0 < us_EntitlementRevision (rw_Sub s)"
    and usage: "us_Status ?c = ''revoked'' \<Longrightarrow> us_EntitlementRevision (rw_Sub s) = us_EntitlementRevision ?c \<Longrightarrow> fs = [FUsageAll]"
    unfolding life_inv_def by blast+
  from Write(2) s have eq: "us_EntitlementRevision (rw_Sub s) = us_EntitlementRevision ?c"
    and r: "r = (write_columns s fs (stored L))\<lparr>rw_Sub := (rw_Sub (write_columns s fs (stored L)))
        \<lparr>us_EntitlementRevision := wrap64 (us_EntitlementRevision ?c + 1)\<rparr>\<rparr>"
    by (auto elim!: update_cases)
  have rev: "us_EntitlementRevision (rw_Sub r) = us_EntitlementRevision ?c + 1"
    using assms by (simp add: r life_inv_def wrap64_id in_int64_def int_limits)
  have ct: "lf_enabled env \<or> us_Contract (rw_Sub r) \<noteq> None"
    using assms s(1) write_columns_contract [of s "stored L" fs] by (auto simp: r life_inv_def checked_write_def)
  have st: "stored (life_step env x L) = r" "inflight (life_step env x L) = take n (inflight L) @ drop (Suc n) (inflight L)"
    by (simp_all add: Write(3))
  have "life_inv env k (life_step env x L)"
    unfolding life_inv_def st
  proof (intro conjI ballI)
    fix w assume "w \<in> set (take n (inflight L) @ drop (Suc n) (inflight L))"
    then have "w \<in> set (inflight L)" by (rule set_take_drop)
    with assms rev show "case w of (s, fs) \<Rightarrow> checked_write env s \<and> 0 < us_EntitlementRevision (rw_Sub s)
        \<and> us_EntitlementRevision (rw_Sub s) \<le> us_EntitlementRevision (rw_Sub r)
        \<and> (us_Status (rw_Sub r) = ''revoked'' \<and> us_EntitlementRevision (rw_Sub s) = us_EntitlementRevision (rw_Sub r)
          \<longrightarrow> fs = [FUsageAll])"
      unfolding life_inv_def by fastforce
  qed (use assms rev ct in \<open>simp_all add: life_inv_def\<close>)
  moreover have "same_life (rw_Sub r) ?c" if "us_Status ?c = ''revoked''"
    using usage [OF that eq] by (simp add: r write_usage_only)
  ultimately show ?thesis unfolding Write(3) by simp
next
  case (Failed n)
  have "set (take n (inflight L) @ drop (Suc n) (inflight L)) \<subseteq> set (inflight L)" using set_take_drop by fast
  then show ?thesis unfolding Failed using assms unfolding life_inv_def by simp blast
next
  case (Use tm f)
  show ?thesis unfolding Use using assms by (auto simp: life_inv_def)
qed (use assms in \<open>auto simp: life_inv_def\<close>)

lemma life_run_inv: "life_inv env (length xs + k) L \<Longrightarrow> life_inv env k (life_run env xs L)"
  by (induction xs arbitrary: L) (auto dest: life_step_inv)

lemma life_run_revoked:
  assumes "life_inv env (length ys) L" and "us_Status (rw_Sub (stored L)) = ''revoked''"
  shows "same_life (rw_Sub (stored (life_run env ys L))) (rw_Sub (stored L))"
  using assms
proof (induction ys arbitrary: L)
  case (Cons y ys)
  from Cons.prems life_step_inv [of env "length ys" L y] have
    "life_inv env (length ys) (life_step env y L)" "same_life (rw_Sub (stored (life_step env y L))) (rw_Sub (stored L))" by simp_all
  with Cons.IH [of "life_step env y L"] Cons.prems(2) show ?case
    by (auto simp: same_life_status intro: same_life_trans)
qed simp

text \<open>C28. Revocation is final: where writes are checked (entitlements are enabled, or the subscription
  has a contract), whatever operations read the row and write it back in whatever interleaving, before
  and after, a row once revoked keeps its status, expiry, contract, group, metadata and all the rest but
  its usage windows, revision and time of update; it never grants a routing group again.\<close>

theorem revoked_is_final:
  assumes "lf_enabled env \<or> us_Contract (rw_Sub r0) \<noteq> None"
    and "0 < us_EntitlementRevision (rw_Sub r0)"
    and "us_EntitlementRevision (rw_Sub r0) + int (length (xs @ ys)) \<le> MaxInt64"
    and "L = life_run env xs \<lparr>stored = r0, inflight = []\<rparr>" and "us_Status (rw_Sub (stored L)) = ''revoked''"
  shows "same_life (rw_Sub (stored (life_run env ys L))) (rw_Sub (stored L))
    \<and> RoutingGrants H (Some (rw_Sub (stored (life_run env ys L)))) t = []"
proof -
  have "life_inv env (length xs + length ys) \<lparr>stored = r0, inflight = []\<rparr>"
    using assms(1-3) by (simp add: life_inv_def)
  from life_run_inv [OF this] have "life_inv env (length ys) L" unfolding assms(4) .
  from life_run_revoked [OF this assms(5)] have s: "same_life (rw_Sub (stored (life_run env ys L))) (rw_Sub (stored L))" .
  with assms(5) have "us_Status (rw_Sub (stored (life_run env ys L))) = ''revoked''" by (simp add: same_life_status)
  with s show ?thesis by (simp add: RoutingGrants_def)
qed

subsection \<open>Usage\<close>

text \<open>The usage added along a run, in order: a frozen charge counts while the row has its policy.\<close>

datatype usage_add = Cost int64 float64 | Charge window_charge

primrec apply_add :: "int64 \<Rightarrow> usage_add \<Rightarrow> usage_windows \<Rightarrow> usage_windows" where
  "apply_add startsAt (Cost tm cost) u = add_usage (RollUsageWindows startsAt u tm) cost"
| "apply_add startsAt (Charge c) u = charged_windows (RollUsageWindows startsAt u (wc_CreatedAt c)) c"

primrec added_by :: "life \<Rightarrow> life_event \<Rightarrow> usage_add list" where
  "added_by L (ReadBy opn) = []"
| "added_by L (WriteBack n) = []"
| "added_by L (AddUsage tm cost) = [Cost tm cost]"
| "added_by L (AddFrozen c) = (if us_GroupID (rw_Sub (stored L)) = wc_QuotaPolicyID c then [Charge c] else [])"

fun added :: "life_env \<Rightarrow> life_event list \<Rightarrow> life \<Rightarrow> usage_add list" where
  "added env [] L = []"
| "added env (x # xs) L = added_by L x @ added env xs (life_step env x L)"

definition spares_usage :: "life_event \<Rightarrow> bool" where
  "spares_usage x = (case x of ReadBy opn \<Rightarrow> \<not> owns_usage opn | _ \<Rightarrow> True)"

lemma spares_step:
  assumes "\<forall>(s, fs) \<in> set (inflight L). FUsageAll \<notin> set fs" and "spares_usage x"
  shows "(\<forall>(s, fs) \<in> set (inflight (life_step env x L)). FUsageAll \<notin> set fs)
    \<and> us_StartsAt (rw_Sub (stored (life_step env x L))) = us_StartsAt (rw_Sub (stored L))
    \<and> rw_Usage (stored (life_step env x L)) = fold (apply_add (us_StartsAt (rw_Sub (stored L)))) (added_by L x) (rw_Usage (stored L))"
proof (cases x)
  case (ReadBy opn)
  show ?thesis
  proof (cases "prepare env opn (stored L)")
    case (Inr w)
    then show ?thesis
      using assms prepare_usage [of env opn "stored L"]
      by (cases w) (auto simp: ReadBy spares_usage_def)
  qed (use assms in \<open>simp add: ReadBy\<close>)
next
  case (WriteBack n)
  have sub: "set (take n (inflight L) @ drop (Suc n) (inflight L)) \<subseteq> set (inflight L)" using set_take_drop by fast
  show ?thesis
  proof (cases "length (inflight L) \<le> n")
    case False
    obtain s fs where w: "inflight L ! n = (s, fs)" by fastforce
    with False have "(s, fs) \<in> set (inflight L)" using nth_mem [of n "inflight L"] by simp
    with assms(1) have "FUsageAll \<notin> set fs" by blast
    then show ?thesis
      using False assms(1) sub update_usage [of env "stored L" s fs] update_StartsAt [of env "stored L" s fs]
      by (cases "UpdateSubscriptionFields env (stored L) s fs") (auto simp: WriteBack w)
  qed (use assms in \<open>simp add: WriteBack\<close>)
qed (use assms in \<open>simp_all\<close>)

lemma spares_run:
  assumes "\<forall>(s, fs) \<in> set (inflight L). FUsageAll \<notin> set fs" and "list_all spares_usage xs"
  shows "rw_Usage (stored (life_run env xs L))
    = fold (apply_add (us_StartsAt (rw_Sub (stored L)))) (added env xs L) (rw_Usage (stored L))"
  using assms
proof (induction xs arbitrary: L)
  case (Cons x xs)
  with spares_step [of L x env] show ?case by simp
qed simp

text \<open>C29. No usage is lost: however renewals, extensions, revocations, expiry and refund shortenings read
  the row and write it back while requests are charged, the usage windows afterwards are those of the
  charges alone, rolled and added one after the other. Only the operations that own the usage columns
  are left out: the reset of a quota, the change of a plan, and the full write of \<open>Shorten\<close>, which the
  lemma after this one shows to drop a charge.\<close>

theorem usage_not_lost:
  assumes "list_all spares_usage xs" and "L = \<lparr>stored = r0, inflight = []\<rparr>"
  shows "rw_Usage (stored (life_run env xs L)) = fold (apply_add (us_StartsAt (rw_Sub r0))) (added env xs L) (rw_Usage r0)"
  using spares_run [of L xs env] assms by simp

subsection \<open>Concrete runs\<close>

definition demo_life :: life_env where
  "demo_life = \<lparr>lf_hashes = demo_hashes, lf_enabled = False, lf_modes = (\<lambda>c. True), lf_reason = (\<lambda>m r. m),
     lf_pending = (\<lambda>m. None), lf_clear = (\<lambda>m. m), lf_lastChange = (\<lambda>m q g t. m), lf_pendingChange = (\<lambda>m q t. m)\<rparr>"

definition demo_row :: "bool \<Rightarrow> subscription_row" where
  "demo_row contracted = \<lparr>rw_Sub = (demo_sub 100)\<lparr>us_Contract := (if contracted then us_Contract (demo_sub 100) else None),
       us_Status := ''expired''\<rparr>,
     rw_Usage = \<lparr>uw_DailyUsageUSD = Fin 1, uw_WeeklyUsageUSD = Fin 1, uw_MonthlyUsageUSD = Fin 1,
       uw_DailyWindowStart = 10, uw_WeeklyWindowStart = 10, uw_MonthlyWindowStart = 10\<rparr>\<rparr>"

text \<open>An extension reads an expired row, the row is revoked, a request is charged, the extension writes.\<close>

definition demo_events :: "life_event list" where
  "demo_events = [ReadBy (OpExtend 120 500), ReadBy (OpRevoke 121 []), WriteBack 1]"

lemma demo_contract_valid: "\<exists>c. us_Contract (demo_sub 100) = Some c \<and> contract_Validate demo_hashes (Some c)"
proof -
  obtain c where c: "NewContract demo_hashes (Some demo_sub_group) demo_coverage = Some c"
    using NewContract_ok_witness by blast
  then have "contract_Validate demo_hashes (Some c)"
    by (auto simp: NewContract_def Let_def split: option.splits if_splits)
  with c show ?thesis by (simp add: demo_sub_def)
qed

lemma revoked_is_final_witness:
  "let L = life_run demo_life demo_events \<lparr>stored = demo_row True, inflight = []\<rparr> in
   us_Status (rw_Sub (stored L)) = ''revoked''
   \<and> same_life (rw_Sub (stored (life_run demo_life [AddUsage 122 (Fin 2), WriteBack 0] L))) (rw_Sub (stored L))
   \<and> RoutingGrants demo_hashes (Some (rw_Sub (stored (life_run demo_life [AddUsage 122 (Fin 2), WriteBack 0] L)))) 200 = []"
proof -
  define L where "L = life_run demo_life demo_events \<lparr>stored = demo_row True, inflight = []\<rparr>"
  obtain c where c: "us_Contract (demo_sub 100) = Some c" "contract_Validate demo_hashes (Some c)"
    using demo_contract_valid by blast
  have r: "us_Status (rw_Sub (stored L)) = ''revoked''"
    using c by (simp add: L_def demo_events_def demo_row_def demo_life_def row_ops row_changes UpdateSubscriptionFields_def
        subscriptionMutation_def new_contract_refused_def same_digest_def write_columns_def checked_write_def demo_sub_def wrap64_id
        in_int64_def int_limits)
  from revoked_is_final [of demo_life "demo_row True" demo_events "[AddUsage 122 (Fin 2), WriteBack 0]" L demo_hashes 200, OF _ _ _ L_def r]
  have "same_life (rw_Sub (stored (life_run demo_life [AddUsage 122 (Fin 2), WriteBack 0] L))) (rw_Sub (stored L))
    \<and> RoutingGrants demo_hashes (Some (rw_Sub (stored (life_run demo_life [AddUsage 122 (Fin 2), WriteBack 0] L)))) 200 = []"
    using c by (simp add: demo_row_def demo_events_def demo_sub_def int_limits)
  with r show ?thesis by (simp add: L_def Let_def)
qed

text \<open>
  Without the check, for a subscription without contract while entitlements are off, the late write of
  the extension makes a revoked row active again.
\<close>

lemma legacy_extend_undoes_revoke:
  "let L = life_run demo_life demo_events \<lparr>stored = demo_row False, inflight = []\<rparr> in
   us_Status (rw_Sub (stored L)) = ''revoked'' \<and> us_Status (rw_Sub (stored (life_step demo_life (WriteBack 0) L))) = ''active''"
  by (simp add: demo_events_def demo_row_def demo_life_def row_ops row_changes UpdateSubscriptionFields_def
      subscriptionMutation_def write_columns_def checked_write_def demo_sub_def)

lemma usage_not_lost_witness:
  "rw_Usage (stored (life_run demo_life [ReadBy (OpExtend 120 500), AddUsage 122 (Fin 2), WriteBack 0]
     \<lparr>stored = demo_row False, inflight = []\<rparr>))
   = add_usage (RollUsageWindows 10 (rw_Usage (demo_row False)) 122) (Fin 2)"
proof -
  have "list_all spares_usage [ReadBy (OpExtend 120 500), AddUsage 122 (Fin 2), WriteBack 0]"
    by (simp add: spares_usage_def owns_usage_def)
  from usage_not_lost [OF this refl, of demo_life "demo_row False"] show ?thesis
    by (simp add: demo_row_def demo_sub_def)
qed

text \<open>The full write of \<open>Shorten\<close> puts back the usage it has read.\<close>

lemma shorten_drops_usage:
  "rw_Usage (stored (life_run demo_life [ReadBy (OpShorten 120 10), AddUsage 122 (Fin 2), WriteBack 0]
     \<lparr>stored = demo_row False, inflight = []\<rparr>)) = rw_Usage (demo_row False)"
  by (simp add: demo_row_def demo_life_def row_ops row_changes UpdateSubscriptionFields_def full_columns_def
      subscriptionMutation_def write_columns_def checked_write_def demo_sub_def)

end
