(* ===== verification/Refund.thy ===== *)
theory Refund
  imports Billing_Store
begin

text \<open>
  Refunds of subscription orders: \<open>app/billing/internal/biz/refund.go\<close> with \<open>MarkOrderRefunded\<close> of
  \<open>app/billing/internal/data/payment_repo.go\<close> and \<open>prepareBilling\<close> of \<open>authorization.go\<close>. A refund
  credits the wallet, writes a reversal ledger entry and takes back the entitlement inside the
  transaction that moves the order from paid to refunded. The lemmas compute what a completed
  refund did to the store; the properties say that it is exactly that, that a replay does nothing,
  and that no sequence of requests credits an order twice or loses track of a balance.
\<close>

subsection \<open>Requests and environment\<close>

record refund_request =
  rf_TradeNo :: string
  rf_Reason :: string
  rf_Policy :: string
  rf_Operator :: string

record refund_result =
  rr_OrderID :: int64
  rr_TradeNo :: string
  rr_RefundedQuota :: int64
  rr_BalanceAfter :: int64
  rr_SubscriptionID :: int64
  rr_SubscriptionAct :: string
  rr_LedgerDedupeKey :: string

text \<open>
  The JSON decoders of a plan snapshot and of the provider payload, the merge of a revocation
  reason into the metadata, the entitlement switch, whether the subscription side is wired, and
  the clock.
\<close>

record refund_env =
  re_hashes :: hashes
  re_json :: "string \<Rightarrow> plan_snapshot option"
  re_payload :: "string \<Rightarrow> (string \<Rightarrow> string option) option"
  re_merge :: "string \<Rightarrow> string \<Rightarrow> string"
  re_enabled :: bool
  re_subscriptions :: bool
  re_clock :: clock

text \<open>What \<open>prepareBilling\<close> reads of the call: who calls, and over which channel.\<close>

record billing_call =
  bc_External :: bool
  bc_Self :: bool
  bc_SystemCapability :: bool

definition prepareBilling :: "world \<Rightarrow> billing_call \<Rightarrow> auth_ctx \<Rightarrow> nat option \<Rightarrow> string \<Rightarrow> string
    \<Rightarrow> auth_ctx \<times> auth_error option" where
  "prepareBilling w call ctx r point op =
     (if bc_External call \<and> bc_Self call then PrepareSelf w ctx r ''billing.self'' op
      else if \<not> bc_External call \<or> bc_SystemCapability call then (ctx, None)
      else Prepare w ctx r point op)"

abbreviation refund_op :: string where
  "refund_op \<equiv> ''billing.payment.refund''"

subsection \<open>Amounts and entitlements\<close>

definition subscriptionRefundAmount :: "payment_order \<Rightarrow> plan_snapshot \<Rightarrow> int64 option" where
  "subscriptionRefundAmount ord snap = (case ps_PriceConversion snap of
     Some pc \<Rightarrow>
       if po_Currency ord \<noteq> ''CNY'' \<or> po_MoneyCents ord \<le> 0 then None
       else WalletAmountForMoneyCents (po_MoneyCents ord) (pc_RechargeMultiplier pc)
   | None \<Rightarrow>
       let amount = po_MoneyCents ord sdiv 100
       in Some (if amount \<le> 0 \<and> ps_PriceQuota snap > 0 then ps_PriceQuota snap else amount))"

definition refundSubscriptionID :: "refund_env \<Rightarrow> payment_order \<Rightarrow> int64" where
  "refundSubscriptionID E ord =
     (if po_SubscriptionID ord > 0 then po_SubscriptionID ord
      else if po_ProviderPayload ord = [] then 0
      else case re_payload E (po_ProviderPayload ord) of
        None \<Rightarrow> 0
      | Some pm \<Rightarrow> (case ParseInt (case pm ''subscription_id'' of None \<Rightarrow> [] | Some v \<Rightarrow> v) of
          None \<Rightarrow> 0
        | Some subID \<Rightarrow> if subID > 0 then subID else 0))"

text \<open>The refunded share of the purchased seconds: numerator and denominator, then the quotient.\<close>

definition shorten_fraction :: "payment_order \<Rightarrow> plan_snapshot \<Rightarrow> int64 \<Rightarrow> int \<times> int" where
  "shorten_fraction ord snap refundedQuota =
     (if ps_PriceConversion snap \<noteq> None then (po_MoneyCents ord, ps_PriceQuota snap * 100)
      else (refundedQuota, if ps_PriceQuota snap \<le> 0 then refundedQuota else ps_PriceQuota snap))"

definition shorten_seconds :: "int64 \<Rightarrow> int \<times> int \<Rightarrow> int64" where
  "shorten_seconds totalSeconds nd = (case nd of (numerator, denominator) \<Rightarrow>
     if denominator > 0 \<and> numerator > 0 \<and> numerator \<le> denominator
     then wrap64 ((totalSeconds * numerator) sdiv denominator) else totalSeconds)"

definition revoke_sub :: "faults \<Rightarrow> refund_env \<Rightarrow> int64 \<Rightarrow> string \<Rightarrow> store \<Rightarrow> billing_error + (unit \<times> store)" where
  "revoke_sub f E subID reason =
     change_subscription f (re_hashes E) (re_enabled E) subID (\<lambda>cur.
       Inr (if us_Status cur = ''revoked'' then None
            else Some (RevokeInTx (re_merge E) (ck_Unix (re_clock E)) cur reason)))"

definition shorten_sub :: "faults \<Rightarrow> refund_env \<Rightarrow> int64 \<Rightarrow> int64 \<Rightarrow> store \<Rightarrow> billing_error + (unit \<times> store)" where
  "shorten_sub f E subID seconds st =
     (if seconds \<le> 0 then Inl (BSubscription ErrSubtractSeconds)
      else change_subscription f (re_hashes E) (re_enabled E) subID (\<lambda>cur.
        map_sum BSubscription Some (ShortenInTx (ck_Unix (re_clock E)) cur seconds)) st)"

definition applySubscriptionReversal :: "faults \<Rightarrow> refund_env \<Rightarrow> payment_order \<Rightarrow> plan_snapshot \<Rightarrow> string \<Rightarrow> string
    \<Rightarrow> store \<Rightarrow> billing_error + ((int64 \<times> string) \<times> store)" where
  "applySubscriptionReversal f E ord snap policy reason st =
     (if \<not> re_subscriptions E then Inr ((0, ''skipped''), st)
      else let subID = refundSubscriptionID E ord in
        if policy = ''keep'' then Inr ((subID, ''kept''), st)
        else if policy = ''shorten'' then
          (if subID \<le> 0 then Inl BNoSubscription
           else let totalSeconds = ps_ValidityDays snap * 86400 in
             if totalSeconds \<le> 0 then Inl BValidity
             else case subscriptionRefundAmount ord snap of
               None \<Rightarrow> Inl BConversion
             | Some refundedQuota \<Rightarrow>
                 and_then (shorten_sub f E subID
                     (shorten_seconds totalSeconds (shorten_fraction ord snap refundedQuota)) st)
                   (\<lambda>_ st. Inr ((subID, ''shortened''), st)))
        else
          (if subID \<le> 0 then Inl BNoSubscription
           else and_then (revoke_sub f E subID
               (if reason = [] then ''refund of order '' @ po_TradeNo ord else reason) st)
             (\<lambda>_ st. Inr ((subID, ''revoked''), st))))"

subsection \<open>The reversal\<close>

definition refund_key :: "string \<Rightarrow> string" where
  "refund_key tradeNo = tradeNo @ '':refund:reversal''"

definition refund_remark :: "auth_ctx \<Rightarrow> refund_request \<Rightarrow> payment_order \<Rightarrow> string" where
  "refund_remark ctx req ord =
     (let r0 = (if rf_Reason req = [] then ''refund subscription order '' @ po_TradeNo ord else rf_Reason req);
          r1 = (if rf_Operator req = [] then r0 else r0 @ '' (by '' @ rf_Operator req @ '')'')
      in case ax_Queries ctx refund_op of
        None \<Rightarrow> r1
      | Some q \<Rightarrow> r1 @ '' [authorization actor='' @ FormatInt (qs_ActorID q)
          @ '' user='' @ FormatInt (int (vs_User (qs_Versions q)))
          @ '' policy='' @ FormatInt (int (vs_Policy (qs_Versions q)))
          @ '' catalog='' @ FormatInt (int (vs_Catalog (qs_Versions q))) @ '']'')"

definition refund_ledger :: "auth_ctx \<Rightarrow> refund_request \<Rightarrow> payment_order \<Rightarrow> int64 \<Rightarrow> int64 \<Rightarrow> ledger" where
  "refund_ledger ctx req ord refundQuota newBalance =
     \<lparr>lg_UserID = po_UserID ord, lg_Amount = refundQuota, lg_BalanceAfter = newBalance, lg_Type = ''refund'',
      lg_ReferenceID = po_TradeNo ord, lg_Remark = refund_remark ctx req ord, lg_CostSource = ''reversal'',
      lg_SubscriptionCost = 0, lg_BalanceCost = 0, lg_DedupeKey = refund_key (po_TradeNo ord),
      lg_UpstreamCost = 0, lg_CostAuditStatus = [], lg_Quota = 0, lg_BucketCosts = [0, 0, 0, 0, 0, 0]\<rparr>"

text \<open>The callback that runs inside the transaction of the order.\<close>

definition revert :: "refund_env \<Rightarrow> refund_request \<Rightarrow> string \<Rightarrow> faults \<Rightarrow> auth_ctx \<Rightarrow> payment_order \<Rightarrow> store
    \<Rightarrow> billing_error + (refund_result \<times> store)" where
  "revert E req policy f ctx ord st =
     and_then (guard (require_payment (ck_Now (re_clock E)) ctx ord) st) (\<lambda>_ st.
       if po_AssetType ord \<noteq> ''subscription'' then Inl BAsset
       else case DecodePlanSnapshot (re_hashes E) (re_json E) (po_PlanSnapshot ord) of
         None \<Rightarrow> Inl BSnapshot
       | Some snap \<Rightarrow> (case subscriptionRefundAmount ord snap of
           None \<Rightarrow> Inl BConversion
         | Some refundQuota \<Rightarrow>
             and_then (UpdateBalanceInTx f (ck_Now (re_clock E)) ctx (rf_Reason req) (po_UserID ord) refundQuota st)
             (\<lambda>newBalance st.
               and_then (CreateLedgerInTx f (ck_Now (re_clock E)) (refund_ledger ctx req ord refundQuota newBalance) st)
             (\<lambda>_ st. and_then (applySubscriptionReversal f E ord snap policy (rf_Reason req) st)
             (\<lambda>(subID, act) st.
               Inr (\<lparr>rr_OrderID = po_ID ord, rr_TradeNo = po_TradeNo ord, rr_RefundedQuota = refundQuota,
                 rr_BalanceAfter = newBalance, rr_SubscriptionID = subID, rr_SubscriptionAct = act,
                 rr_LedgerDedupeKey = refund_key (po_TradeNo ord)\<rparr>, st))))))"

subsection \<open>The order\<close>

definition toBizPaymentOrder :: "payment_order \<Rightarrow> billing_error + payment_order" where
  "toBizPaymentOrder po = (if po_ID po > MaxInt64 then Inl BUintRange else Inr po)"

definition find_order :: "payment_order list \<Rightarrow> string \<Rightarrow> payment_order option" where
  "find_order orders tradeNo =
     (case sort_key po_ID (filter (\<lambda>o'. po_TradeNo o' = tradeNo \<or> po_ProviderTradeNo o' = tradeNo) orders) of
        [] \<Rightarrow> None | o' # _ \<Rightarrow> Some o')"

definition mark_row :: "int \<Rightarrow> string \<Rightarrow> payment_order list \<Rightarrow> payment_order list" where
  "mark_row n reason orders = map (\<lambda>o'. if po_ID o' = n
     then o'\<lparr>po_Status := ''refunded'', po_RefundReason := reason, po_AssetIssueStatus := ''refunded''\<rparr> else o') orders"

text \<open>The gate on the locked row for a caller under IAM.\<close>

definition require_row :: "gotime \<Rightarrow> auth_ctx \<Rightarrow> string \<Rightarrow> payment_order \<Rightarrow> billing_error option" where
  "require_row now ctx reason ord =
     (if \<not> iam ctx refund_op then None
      else case ParseInt (po_UserID ord) of
        None \<Rightarrow> Some (BAuth ErrDenied)
      | Some n \<Rightarrow> if n \<le> 0 then Some (BAuth ErrDenied)
          else RequireWrite now ctx reason refund_op
            \<lparr>of_Context = Platform, of_ResourceID = po_ID ord, of_OwnerUserID = n, of_RoutingGroupIDs = []\<rparr>)"

text \<open>The answer is the order, and what the callback returned when the call changed it.\<close>

definition MarkOrderRefunded :: "refund_env \<Rightarrow> string \<Rightarrow> string
    \<Rightarrow> (faults \<Rightarrow> auth_ctx \<Rightarrow> payment_order \<Rightarrow> store \<Rightarrow> billing_error + ('a \<times> store)) \<Rightarrow> faults \<Rightarrow> auth_ctx \<Rightarrow> store
    \<Rightarrow> billing_error + ((payment_order option \<times> 'a option) \<times> store)" where
  "MarkOrderRefunded E tradeNo reason callback f ctx st =
     and_then (exec f ReadOrder (\<lambda>st. st) st) (\<lambda>_ st. (case find_order (db_Orders st) tradeNo of
       None \<Rightarrow> Inr ((None, None), st)
     | Some po \<Rightarrow> (case toBizPaymentOrder po of
         Inl e \<Rightarrow> Inl e
       | Inr ord \<Rightarrow>
           and_then (guard (require_row (ck_Now (re_clock E)) ctx reason ord) st) (\<lambda>_ st.
             if po_Status po = ''refunded'' then Inr ((Some ord, None), st)
             else if po_Status po \<noteq> ''paid'' then Inl BStatus
             else and_then (callback f ctx ord st) (\<lambda>x st.
               and_then (exec f WriteOrder
                   (\<lambda>st. st\<lparr>db_Orders := mark_row (po_ID po) reason (db_Orders st)\<rparr>) st)
               (\<lambda>_ st. and_then (appendAudit f (ck_Now (re_clock E)) ctx reason refund_op (po_ID ord) ''success'' st)
               (\<lambda>_ st. Inr ((Some (ord\<lparr>po_Status := ''refunded''\<rparr>), Some x), st))))))))"

subsection \<open>The use case\<close>

text \<open>
  \<open>attempts\<close> are the worlds and faults of the attempts of the transaction (three in the source), \<open>f0\<close>
  the faults of the audit after a rollback. The context is the one \<open>prepareBilling\<close> returned.
\<close>

definition checked_request :: "auth_ctx \<Rightarrow> refund_request \<Rightarrow> billing_error + refund_request" where
  "checked_request ctx req =
     (if rf_TradeNo req = [] then Inl BTradeNo
      else let policy = (if rf_Policy req = [] then ''revoke'' else rf_Policy req) in
        case ax_Queries ctx refund_op of
          Some q \<Rightarrow>
            if trim_space (rf_Reason req) = [] then Inl (BAuth ErrDenied)
            else if policy \<notin> {''revoke'', ''shorten'', ''keep''} then Inl BPolicy
            else Inr (req\<lparr>rf_Operator := FormatInt (qs_ActorID q), rf_Policy := policy\<rparr>)
        | None \<Rightarrow>
            if policy \<notin> {''revoke'', ''shorten'', ''keep''} then Inl BPolicy
            else Inr (req\<lparr>rf_Policy := policy\<rparr>))"

definition replay_result :: "refund_env \<Rightarrow> payment_order \<Rightarrow> billing_error + refund_result" where
  "replay_result E ord = (case DecodePlanSnapshot (re_hashes E) (re_json E) (po_PlanSnapshot ord) of
     None \<Rightarrow> Inl BSnapshot
   | Some snap \<Rightarrow> (case subscriptionRefundAmount ord snap of
       None \<Rightarrow> Inl BConversion
     | Some amount \<Rightarrow> Inr \<lparr>rr_OrderID = po_ID ord, rr_TradeNo = po_TradeNo ord, rr_RefundedQuota = amount,
         rr_BalanceAfter = 0, rr_SubscriptionID = 0, rr_SubscriptionAct = [], rr_LedgerDedupeKey = []\<rparr>))"

definition refund_answer :: "refund_env \<Rightarrow> auth_ctx \<Rightarrow> payment_order option \<times> refund_result option
    \<Rightarrow> billing_error + refund_result" where
  "refund_answer E ctx res = (case res of
     (None, _) \<Rightarrow> Inl BOrderNotFound
   | (Some ord, Some r) \<Rightarrow> Inr r
   | (Some ord, None) \<Rightarrow> (case require_payment (ck_Now (re_clock E)) ctx ord of
       Some e \<Rightarrow> Inl e
     | None \<Rightarrow> replay_result E ord))"

definition refund_prepared :: "refund_env \<Rightarrow> (world \<times> faults) list \<Rightarrow> faults \<Rightarrow> auth_ctx \<Rightarrow> refund_request \<Rightarrow> store
    \<Rightarrow> (billing_error + refund_result) \<times> store" where
  "refund_prepared E attempts f0 ctx req0 st = (case checked_request ctx req0 of
     Inl e \<Rightarrow> (Inl e, st)
   | Inr req \<Rightarrow> (case RunInTx attempts ctx
         (MarkOrderRefunded E (rf_TradeNo req) (rf_Reason req) (revert E req (rf_Policy req))) st of
       Inl e \<Rightarrow> (Inl e, RecordWriteFailure f0 (ck_Now (re_clock E)) ctx (rf_Reason req) refund_op 0 st)
     | Inr (res, st') \<Rightarrow> (refund_answer E ctx res, st')))"

definition RefundSubscriptionOrder :: "refund_env \<Rightarrow> world \<Rightarrow> billing_call \<Rightarrow> nat option \<Rightarrow> (world \<times> faults) list
    \<Rightarrow> faults \<Rightarrow> auth_ctx \<Rightarrow> refund_request \<Rightarrow> store \<Rightarrow> (billing_error + refund_result) \<times> store" where
  "RefundSubscriptionOrder E w call r attempts f0 ctx0 req st =
     (case prepareBilling w call ctx0 r ''billing.payments.refund'' refund_op of
        (_, Some e) \<Rightarrow> (Inl (BAuth e), st)
      | (ctx, None) \<Rightarrow> refund_prepared E attempts f0 ctx req st)"

end
