(* ===== verification/Refund_Effects.thy ===== *)
theory Refund_Effects
  imports Refund
begin

text \<open>
  What refunds do. \<open>store_ok\<close> is the invariant of the store (values of \<open>int64\<close> columns in range, order
  ids and ledger keys unique, every ledger key claimed); \<open>reversal\<close> is the effect a completed refund
  promises. The lemmas follow the callback, the order update and the transaction; the properties
  then speak of whole calls and of sequences of calls, each with its own clock, faults and context.
\<close>

subsection \<open>The invariant and the promised effect\<close>

definition store_ok :: "store \<Rightarrow> bool" where
  "store_ok st \<longleftrightarrow> (\<forall>u b. db_Balances st u = Some b \<longrightarrow> in_int64 b)
     \<and> (\<forall>o' \<in> set (db_Orders st). in_int64 (po_MoneyCents o'))
     \<and> distinct (map po_ID (db_Orders st))
     \<and> distinct (map lg_DedupeKey (db_Ledgers st))
     \<and> set (map lg_DedupeKey (db_Ledgers st)) \<subseteq> set (db_Claims st)"

text \<open>The decoder of a snapshot fills \<open>int64\<close> fields.\<close>

definition env_ok :: "refund_env \<Rightarrow> bool" where
  "env_ok E \<longleftrightarrow> (\<forall>raw s. re_json E raw = Some s \<longrightarrow> in_int64 (ps_PriceQuota s))"

definition entitlement_effect :: "refund_env \<Rightarrow> string \<Rightarrow> payment_order \<Rightarrow> plan_snapshot \<Rightarrow> int64 \<Rightarrow> store \<Rightarrow> store \<Rightarrow> bool" where
  "entitlement_effect E policy ord snap amount st st' \<longleftrightarrow>
     (if \<not> re_subscriptions E \<or> policy = ''keep'' then db_Subs st' = db_Subs st
      else refundSubscriptionID E ord > 0 \<and> (\<exists>cur cur'.
        db_Subs st (refundSubscriptionID E ord) = Some cur
        \<and> db_Subs st' = (db_Subs st)(refundSubscriptionID E ord \<mapsto> cur')
        \<and> (if policy = ''shorten''
           then us_Status cur \<noteq> ''revoked'' \<and> us_Status cur' = us_Status cur
             \<and> us_ExpiresAt cur' = max (wrap64 (us_ExpiresAt cur
                 - shorten_seconds (ps_ValidityDays snap * 86400) (shorten_fraction ord snap amount)))
                 (ck_Unix (re_clock E))
           else us_Status cur' = ''revoked'' \<and> us_ExpiresAt cur' = us_ExpiresAt cur)))"

definition reversal :: "refund_env \<Rightarrow> string \<Rightarrow> payment_order \<Rightarrow> refund_result \<Rightarrow> store \<Rightarrow> store \<Rightarrow> bool" where
  "reversal E policy ord res st st' \<longleftrightarrow> (\<exists>snap amount b l.
     po_AssetType ord = ''subscription''
     \<and> DecodePlanSnapshot (re_hashes E) (re_json E) (po_PlanSnapshot ord) = Some snap
     \<and> subscriptionRefundAmount ord snap = Some amount
     \<and> db_Balances st (po_UserID ord) = Some b \<and> in_int64 (b + amount)
     \<and> db_Balances st' = (db_Balances st)(po_UserID ord \<mapsto> b + amount)
     \<and> refund_key (po_TradeNo ord) \<notin> set (db_Claims st)
     \<and> db_Claims st' = refund_key (po_TradeNo ord) # db_Claims st
     \<and> db_Ledgers st' = db_Ledgers st @ [l]
     \<and> lg_UserID l = po_UserID ord \<and> lg_Amount l = amount \<and> lg_BalanceAfter l = b + amount
     \<and> lg_Type l = ''refund'' \<and> lg_CostSource l = ''reversal'' \<and> lg_ReferenceID l = po_TradeNo ord
     \<and> lg_DedupeKey l = refund_key (po_TradeNo ord)
     \<and> rr_OrderID res = po_ID ord \<and> rr_TradeNo res = po_TradeNo ord
     \<and> rr_RefundedQuota res = amount \<and> rr_BalanceAfter res = b + amount
     \<and> entitlement_effect E policy ord snap amount st st')"

subsection \<open>Subscription changes\<close>

lemma change_subscription_cases:
  assumes "change_subscription f H en n change st = Inr (u, st')"
  obtains (same) cur where "db_Subs st n = Some cur" "change cur = Inr None" "st' = st"
  | (written) cur s s' where "db_Subs st n = Some cur" "change cur = Inr (Some s)"
      "subscriptionMutation H en cur s = Inr s'" "st' = st\<lparr>db_Subs := (db_Subs st)(n \<mapsto> s')\<rparr>"
proof -
  from assms obtain cur where cur: "db_Subs st n = Some cur"
      and r: "(case change cur of Inl e \<Rightarrow> Inl e | Inr None \<Rightarrow> Inr ((), st)
       | Inr (Some s) \<Rightarrow> (case subscriptionMutation H en cur s of Inl e \<Rightarrow> Inl e
         | Inr s' \<Rightarrow> exec f WriteSubscription (\<lambda>st. st\<lparr>db_Subs := (db_Subs st)(n \<mapsto> s')\<rparr>) st)) = Inr (u, st')"
    unfolding change_subscription_def and_then_Inr by (force split: option.splits)
  show thesis
  proof (cases "change cur")
    case (Inl e)
    with r show thesis by simp
  next
    case (Inr so)
    show thesis
    proof (cases so)
      case None
      with r Inr show thesis by (intro same [OF cur]) simp_all
    next
      case (Some s)
      with r Inr obtain s' where "subscriptionMutation H en cur s = Inr s'"
          "st' = st\<lparr>db_Subs := (db_Subs st)(n \<mapsto> s')\<rparr>"
        by (auto split: sum.splits)
      with Inr Some show thesis by (intro written [OF cur]) simp_all
    qed
  qed
qed

lemma subscriptionMutation_fields:
  "subscriptionMutation H en cur s = Inr s' \<Longrightarrow> us_Status s' = us_Status s \<and> us_ExpiresAt s' = us_ExpiresAt s"
  unfolding subscriptionMutation_def by (auto split: if_splits)

lemma revoke_sub_effect:
  assumes "revoke_sub f E n reason st = Inr (u, st')"
  shows "\<exists>cur cur'. db_Subs st n = Some cur \<and> st' = st\<lparr>db_Subs := (db_Subs st)(n \<mapsto> cur')\<rparr>
    \<and> us_Status cur' = ''revoked'' \<and> us_ExpiresAt cur' = us_ExpiresAt cur"
  using assms unfolding revoke_sub_def
proof (cases rule: change_subscription_cases)
  case (same cur)
  then have "st' = st\<lparr>db_Subs := (db_Subs st)(n \<mapsto> cur)\<rparr>" "us_Status cur = ''revoked''"
    by (auto simp: fun_upd_idem split: if_splits)
  with same(1) show ?thesis by blast
next
  case (written cur s s')
  then show ?thesis
    by (auto simp: RevokeInTx_def split: if_splits dest!: subscriptionMutation_fields)
qed

lemma shorten_sub_effect:
  assumes "shorten_sub f E n secs st = Inr (u, st')"
  shows "\<exists>cur cur'. db_Subs st n = Some cur \<and> st' = st\<lparr>db_Subs := (db_Subs st)(n \<mapsto> cur')\<rparr>
    \<and> us_Status cur \<noteq> ''revoked'' \<and> us_Status cur' = us_Status cur
    \<and> us_ExpiresAt cur' = max (wrap64 (us_ExpiresAt cur - secs)) (ck_Unix (re_clock E))"
proof -
  from assms have c: "\<not> secs \<le> 0" "change_subscription f (re_hashes E) (re_enabled E) n (\<lambda>cur.
      map_sum BSubscription Some (ShortenInTx (ck_Unix (re_clock E)) cur secs)) st = Inr (u, st')"
    unfolding shorten_sub_def by (auto split: if_splits)
  from c(2) show ?thesis
  proof (cases rule: change_subscription_cases)
    case (same cur)
    then show ?thesis by (cases "ShortenInTx (ck_Unix (re_clock E)) cur secs") auto
  next
    case (written cur s s')
    from written(2) c(1) have "us_Status cur \<noteq> ''revoked''" "us_Status s = us_Status cur"
      "us_ExpiresAt s = max (wrap64 (us_ExpiresAt cur - secs)) (ck_Unix (re_clock E))"
      by (auto simp: ShortenInTx_def split: if_splits)
    with written subscriptionMutation_fields [OF written(3)] show ?thesis by auto
  qed
qed

lemma applySubscriptionReversal_effect:
  assumes "applySubscriptionReversal f E ord snap policy reason st = Inr (x, st')"
    and "subscriptionRefundAmount ord snap = Some amount"
  shows "entitlement_effect E policy ord snap amount st st' \<and> st'\<lparr>db_Subs := db_Subs st\<rparr> = st"
proof (cases "\<not> re_subscriptions E \<or> policy = ''keep''")
  case True
  with assms(1) show ?thesis
    by (auto simp: applySubscriptionReversal_def entitlement_effect_def Let_def split: if_splits)
next
  case False
  then have wired: "re_subscriptions E" "policy \<noteq> ''keep''" by auto
  show ?thesis
  proof (cases "policy = ''shorten''")
    case True
    from assms wired True have "refundSubscriptionID E ord > 0"
      and "\<exists>u. shorten_sub f E (refundSubscriptionID E ord)
        (shorten_seconds (ps_ValidityDays snap * 86400) (shorten_fraction ord snap amount)) st = Inr (u, st')"
      by (auto simp: applySubscriptionReversal_def Let_def and_then_Inr split: if_splits)
    with True wired show ?thesis unfolding entitlement_effect_def by (auto dest!: shorten_sub_effect)
  next
    case no: False
    from assms wired no have "refundSubscriptionID E ord > 0"
      and "\<exists>u rs. revoke_sub f E (refundSubscriptionID E ord) rs st = Inr (u, st')"
      by (auto simp: applySubscriptionReversal_def Let_def and_then_Inr split: if_splits)
    with no wired show ?thesis unfolding entitlement_effect_def by (auto dest!: revoke_sub_effect)
  qed
qed

subsection \<open>The callback\<close>

lemma convertedWalletAmount_range: "convertedWalletAmount p k m = Some a \<Longrightarrow> in_int64 a"
  unfolding convertedWalletAmount_def Let_def by (auto split: float64.splits if_splits prod.splits)

lemma sdiv_100_range: "in_int64 x \<Longrightarrow> in_int64 (x sdiv 100)"
proof -
  assume x: "in_int64 x"
  have "\<bar>x sdiv 100\<bar> \<le> \<bar>x\<bar> div 100"
    unfolding signed_divide_int_def by (simp add: abs_mult sgn_if)
  with x show "in_int64 (x sdiv 100)" unfolding in_int64_def int_limits by linarith
qed

lemma subscriptionRefundAmount_range:
  assumes "subscriptionRefundAmount ord snap = Some amount" "in_int64 (po_MoneyCents ord)" "in_int64 (ps_PriceQuota snap)"
  shows "in_int64 amount"
  using assms unfolding subscriptionRefundAmount_def WalletAmountForMoneyCents_def Let_def
  by (auto split: option.splits if_splits intro: sdiv_100_range dest: convertedWalletAmount_range)

lemma DecodePlanSnapshot_quota:
  "env_ok E \<Longrightarrow> DecodePlanSnapshot (re_hashes E) (re_json E) raw = Some snap \<Longrightarrow> in_int64 (ps_PriceQuota snap)"
  unfolding DecodePlanSnapshot_def env_ok_def zero_snapshot_def
  by (auto split: if_splits option.splits simp: in_int64_def int_limits)

lemma entitlement_effect_cong:
  "db_Subs a = db_Subs b \<Longrightarrow> entitlement_effect E policy ord snap amount a st' = entitlement_effect E policy ord snap amount b st'"
  by (simp add: entitlement_effect_def)

lemma revert_steps:
  assumes "revert E req policy f ctx ord st = Inr (res, st')"
  obtains snap amount newb st1 st2 n act where
    "po_AssetType ord = ''subscription''"
    "DecodePlanSnapshot (re_hashes E) (re_json E) (po_PlanSnapshot ord) = Some snap"
    "subscriptionRefundAmount ord snap = Some amount"
    "UpdateBalanceInTx f (ck_Now (re_clock E)) ctx (rf_Reason req) (po_UserID ord) amount st = Inr (newb, st1)"
    "CreateLedgerInTx f (ck_Now (re_clock E)) (refund_ledger ctx req ord amount newb) st1 = Inr ((), st2)"
    "applySubscriptionReversal f E ord snap policy (rf_Reason req) st2 = Inr ((n, act), st')"
    "res = \<lparr>rr_OrderID = po_ID ord, rr_TradeNo = po_TradeNo ord, rr_RefundedQuota = amount,
       rr_BalanceAfter = newb, rr_SubscriptionID = n, rr_SubscriptionAct = act,
       rr_LedgerDedupeKey = refund_key (po_TradeNo ord)\<rparr>"
proof -
  from assms obtain snap amount where a: "po_AssetType ord = ''subscription''"
    "DecodePlanSnapshot (re_hashes E) (re_json E) (po_PlanSnapshot ord) = Some snap"
    "subscriptionRefundAmount ord snap = Some amount"
    unfolding revert_def and_then_Inr by (auto split: if_splits option.splits)
  from assms show thesis
    unfolding revert_def and_then_Inr using a by (auto simp: and_then_Inr split: prod.splits intro!: that)
qed

lemma UpdateBalanceInTx_frame:
  assumes "UpdateBalanceInTx f now ctx reason u delta st = Inr (newb, st')"
  shows "db_Orders st' = db_Orders st \<and> db_Claims st' = db_Claims st \<and> db_Ledgers st' = db_Ledgers st \<and> db_Subs st' = db_Subs st"
  using assms unfolding UpdateBalanceInTx_def Let_def and_then_Inr
  by (auto simp: and_then_Inr split: option.splits if_splits dest!: authorize_balance_frame dest: same_moneyD)

lemma revert_orders: "revert E req policy f ctx ord st = Inr (res, st') \<Longrightarrow> db_Orders st' = db_Orders st"
proof (erule revert_steps)
  fix snap amount newb st1 st2 n act
  assume a: "subscriptionRefundAmount ord snap = Some amount"
    and u: "UpdateBalanceInTx f (ck_Now (re_clock E)) ctx (rf_Reason req) (po_UserID ord) amount st = Inr (newb, st1)"
    and c: "CreateLedgerInTx f (ck_Now (re_clock E)) (refund_ledger ctx req ord amount newb) st1 = Inr ((), st2)"
    and s: "applySubscriptionReversal f E ord snap policy (rf_Reason req) st2 = Inr ((n, act), st')"
  have "db_Orders st2 = db_Orders st1"
    using CreateLedgerInTx_exact(2) [OF c] by (simp add: refund_ledger_def refund_key_def)
  moreover have "db_Orders st' = db_Orders st2"
    using applySubscriptionReversal_effect [OF s a] by (cases st'; cases st2; simp)
  ultimately show "db_Orders st' = db_Orders st" using UpdateBalanceInTx_frame [OF u] by simp
qed

lemma revert_effect:
  assumes r: "revert E req policy f ctx ord st = Inr (res, st')"
    and ok: "store_ok st" "env_ok E" "in_int64 (po_MoneyCents ord)"
  shows "reversal E policy ord res st st' \<and> db_Orders st' = db_Orders st"
  using r
proof (cases rule: revert_steps)
  case (1 snap amount newb st1 st2 n act)
  have ra: "in_int64 amount"
    using subscriptionRefundAmount_range [OF 1(3) ok(3)] DecodePlanSnapshot_quota [OF ok(2) 1(2)] by blast
  have rb: "in_int64 b" if "db_Balances st (po_UserID ord) = Some b" for b
    using ok(1) that by (auto simp: store_ok_def)
  from UpdateBalanceInTx_exact [OF 1(4) rb ra] obtain b where b: "db_Balances st (po_UserID ord) = Some b"
      "newb = b + amount" "in_int64 newb"
      "same_money (st\<lparr>db_Balances := (db_Balances st)(po_UserID ord \<mapsto> newb)\<rparr>) st1" by blast
  have l: "lg_DedupeKey (refund_ledger ctx req ord amount newb) = refund_key (po_TradeNo ord)"
    "refund_key (po_TradeNo ord) \<noteq> []" by (simp_all add: refund_ledger_def refund_key_def)
  note c = CreateLedgerInTx_exact [OF 1(5), unfolded l, OF l(2)]
  note s = applySubscriptionReversal_effect [OF 1(6) 1(3)]
  have st': "db_Balances st' = db_Balances st2" "db_Orders st' = db_Orders st2"
      "db_Claims st' = db_Claims st2" "db_Ledgers st' = db_Ledgers st2"
    using s by (cases st'; cases st2; simp)+
  have subs: "db_Subs st2 = db_Subs st" using c(2) same_moneyD(5) [OF b(4)] by simp
  have e: "entitlement_effect E policy ord snap amount st st'"
    using s entitlement_effect_cong [OF subs] by blast
  show ?thesis
    unfolding reversal_def
    using 1(1-3,7) b c e st' same_moneyD [OF b(4)]
    by (auto simp: ledger_row_def refund_ledger_def refund_key_def Let_def)
qed

subsection \<open>The order\<close>

lemma find_order_Some:
  "find_order orders t = Some o' \<Longrightarrow> o' \<in> set orders \<and> (po_TradeNo o' = t \<or> po_ProviderTradeNo o' = t)"
proof -
  assume "find_order orders t = Some o'"
  then obtain os where "sort_key po_ID (filter (\<lambda>o'. po_TradeNo o' = t \<or> po_ProviderTradeNo o' = t) orders) = o' # os"
    unfolding find_order_def by (auto split: list.splits)
  then have "o' \<in> set (sort_key po_ID (filter (\<lambda>o'. po_TradeNo o' = t \<or> po_ProviderTradeNo o' = t) orders))"
    by simp
  then show ?thesis by simp
qed

lemma sort_key_map_key: "(\<And>x. k (f x) = k x) \<Longrightarrow> sort_key k (map f xs) = map f (sort_key k xs)"
proof (induction xs)
  case (Cons x xs)
  have "insort_key k (f x) (map f ys) = map f (insort_key k x ys)" for ys
    by (induction ys) (simp_all add: Cons.prems)
  with Cons show ?case by simp
qed simp

definition marked :: "int \<Rightarrow> string \<Rightarrow> payment_order \<Rightarrow> payment_order" where
  "marked n reason o' = (if po_ID o' = n
     then o'\<lparr>po_Status := ''refunded'', po_RefundReason := reason, po_AssetIssueStatus := ''refunded''\<rparr> else o')"

lemma marked_simps [simp]:
  "po_ID (marked n reason o') = po_ID o'" "po_TradeNo (marked n reason o') = po_TradeNo o'"
  "po_ProviderTradeNo (marked n reason o') = po_ProviderTradeNo o'"
  "po_MoneyCents (marked n reason o') = po_MoneyCents o'"
  "po_ID o' = n \<Longrightarrow> po_Status (marked n reason o') = ''refunded''"
  by (simp_all add: marked_def)

lemma mark_row_eq: "mark_row n reason orders = map (marked n reason) orders"
  by (simp add: mark_row_def marked_def)

lemma find_order_mark_row:
  "find_order (mark_row n reason orders) t = map_option (marked n reason) (find_order orders t)"
  unfolding find_order_def mark_row_eq filter_map o_def marked_simps sort_key_map_key [where k = po_ID, OF marked_simps(1)]
  by (simp split: list.split)

text \<open>What the transaction did, as a function of its answer.\<close>

definition marked_effect :: "refund_env \<Rightarrow> string \<Rightarrow> string \<Rightarrow> string \<Rightarrow> payment_order option \<times> refund_result option
    \<Rightarrow> store \<Rightarrow> store \<Rightarrow> bool" where
  "marked_effect E policy tradeNo reason res st st' \<longleftrightarrow> (case res of
     (None, x) \<Rightarrow> find_order (db_Orders st) tradeNo = None \<and> x = None \<and> st' = st
   | (Some ord, None) \<Rightarrow> find_order (db_Orders st) tradeNo = Some ord \<and> po_Status ord = ''refunded'' \<and> st' = st
   | (Some ord', Some r) \<Rightarrow> (\<exists>ord. find_order (db_Orders st) tradeNo = Some ord
       \<and> ord' = ord\<lparr>po_Status := ''refunded''\<rparr> \<and> po_Status ord = ''paid''
       \<and> db_Orders st' = mark_row (po_ID ord) reason (db_Orders st)
       \<and> (store_ok st \<longrightarrow> env_ok E \<longrightarrow> reversal E policy ord r st st')))"

lemma reversal_cong:
  assumes "db_Balances a = db_Balances b" "db_Claims a = db_Claims b" "db_Ledgers a = db_Ledgers b" "db_Subs a = db_Subs b"
  shows "reversal E policy ord res st a = reversal E policy ord res st b"
  using assms by (simp add: reversal_def entitlement_effect_def)

lemma MarkOrderRefunded_effect:
  assumes "MarkOrderRefunded E tradeNo reason (revert E req policy) f ctx st = Inr (res, st')"
  shows "marked_effect E policy tradeNo reason res st st'"
proof (cases "find_order (db_Orders st) tradeNo")
  case None
  with assms show ?thesis by (auto simp: MarkOrderRefunded_def and_then_Inr marked_effect_def)
next
  case (Some po)
  from assms have big: "po_ID po \<le> MaxInt64"
    by (auto simp: MarkOrderRefunded_def and_then_Inr Some toBizPaymentOrder_def split: if_splits)
  then have biz: "toBizPaymentOrder po = Inr po" by (simp add: toBizPaymentOrder_def)
  show ?thesis
  proof (cases "po_Status po = ''refunded''")
    case True
    with assms biz have "st' = st" "res = (Some po, None)"
      by (auto simp: MarkOrderRefunded_def and_then_Inr Some)
    with True Some show ?thesis by (simp add: marked_effect_def)
  next
    case False
    with assms biz obtain r st1 u where paid: "po_Status po = ''paid''"
        and r: "revert E req policy f ctx po st = Inr (r, st1)"
        and a: "appendAudit f (ck_Now (re_clock E)) ctx reason refund_op (po_ID po) ''success''
          (st1\<lparr>db_Orders := mark_row (po_ID po) reason (db_Orders st1)\<rparr>) = Inr (u, st')"
        and res: "res = (Some (po\<lparr>po_Status := ''refunded''\<rparr>), Some r)"
      by (auto simp: MarkOrderRefunded_def and_then_Inr Some split: if_splits)
    note fr = same_moneyD [OF appendAudit_frame [OF a]]
    have "reversal E policy po r st st' \<and> db_Orders st1 = db_Orders st" if "store_ok st" "env_ok E"
    proof -
      have "in_int64 (po_MoneyCents po)"
        using that(1) find_order_Some [OF Some] by (auto simp: store_ok_def)
      from revert_effect [OF r that this]
      have "reversal E policy po r st st1" "db_Orders st1 = db_Orders st" by auto
      with fr show ?thesis by (simp add: reversal_cong [where a = st' and b = st1])
    qed
    moreover have "db_Orders st1 = db_Orders st" using r by (rule revert_orders)
    ultimately show ?thesis using paid res fr Some by (auto simp: marked_effect_def)
  qed
qed

interpretation order_tx: transactional "MarkOrderRefunded E tradeNo reason (revert E req policy)"
    "marked_effect E policy tradeNo reason" for E tradeNo reason req policy
  by unfold_locales (rule MarkOrderRefunded_effect)

subsection \<open>Whole calls\<close>

definition effective_policy :: "refund_request \<Rightarrow> string" where
  "effective_policy req = (if rf_Policy req = [] then ''revoke'' else rf_Policy req)"

lemma checked_request_fields:
  "checked_request ctx req0 = Inr req \<Longrightarrow>
   rf_TradeNo req = rf_TradeNo req0 \<and> rf_Reason req = rf_Reason req0 \<and> rf_Policy req = effective_policy req0"
  unfolding checked_request_def effective_policy_def Let_def by (auto split: option.splits if_splits)

lemma RefundSubscriptionOrder_cases:
  assumes "RefundSubscriptionOrder E w call r attempts f0 ctx0 req st = (out, st')"
  obtains (failed) e where "out = Inl e" "same_money st st'"
  | (ran) ctx res where "out = refund_answer E ctx res"
      "marked_effect E (effective_policy req) (rf_TradeNo req) (rf_Reason req) res st st'"
proof -
  obtain ctx e where p: "prepareBilling w call ctx0 r ''billing.payments.refund'' refund_op = (ctx, e)"
    by (cases "prepareBilling w call ctx0 r ''billing.payments.refund'' refund_op")
  show thesis
  proof (cases e)
    case (Some err)
    with assms p show thesis by (intro failed) (auto simp: RefundSubscriptionOrder_def)
  next
    case None
    with assms p have rp: "refund_prepared E attempts f0 ctx req st = (out, st')"
      by (simp add: RefundSubscriptionOrder_def)
    show thesis
    proof (cases "checked_request ctx req")
      case (Inl err)
      with rp show thesis by (intro failed) (auto simp: refund_prepared_def)
    next
      case (Inr req')
      note fld = checked_request_fields [OF Inr]
      show thesis
      proof (cases "RunInTx attempts ctx
          (MarkOrderRefunded E (rf_TradeNo req') (rf_Reason req') (revert E req' (rf_Policy req'))) st")
        case (Inl err)
        with rp Inr show thesis
          by (intro failed [of err]) (auto simp: refund_prepared_def RecordWriteFailure_frame)
      next
        case run: (Inr y)
        obtain res st1 where y: "y = (res, st1)" by (cases y)
        from rp Inr run y have "out = refund_answer E ctx res" "st' = st1"
          by (auto simp: refund_prepared_def)
        with order_tx.run_rel [OF run [unfolded y]] fld show thesis by (intro ran) simp_all
      qed
    qed
  qed
qed

lemma marked_effect_store_ok:
  assumes "marked_effect E policy t reason res st st'" "store_ok st" "env_ok E"
  shows "store_ok st'"
proof (cases "\<exists>o' r. res = (Some o', Some r)")
  case False
  with assms(1) have "st' = st" by (auto simp: marked_effect_def split: prod.splits option.splits)
  with assms(2) show ?thesis by simp
next
  case True
  with assms obtain ord r where o1: "db_Orders st' = mark_row (po_ID ord) reason (db_Orders st)"
      and rv: "reversal E policy ord r st st'"
    by (auto simp: marked_effect_def)
  have ids: "map po_ID (db_Orders st') = map po_ID (db_Orders st)"
    and mc: "\<forall>o' \<in> set (db_Orders st'). in_int64 (po_MoneyCents o')"
    using assms(2) by (auto simp: o1 mark_row_eq store_ok_def o_def)
  from rv assms(2) ids mc show ?thesis
    unfolding reversal_def store_ok_def by (auto simp: image_subset_iff split: if_splits)
qed

text \<open>C30. A completed refund found its order. If the order had been refunded before, the store is as it was;
  otherwise the order was paid and is now refunded, its owner's balance grew by exactly the amount of the
  payment (never wrapping), one reversal entry with the claimed dedupe key of the trade number was written,
  and the subscription the order names was revoked, shortened or kept as the policy says. Nothing else changed.\<close>

theorem refund_effect:
  assumes "RefundSubscriptionOrder E w call r attempts f0 ctx0 req st = (Inr res, st')"
    and "store_ok st" "env_ok E"
  shows "\<exists>ord. find_order (db_Orders st) (rf_TradeNo req) = Some ord
    \<and> (if po_Status ord = ''refunded'' then st' = st
       else po_Status ord = ''paid''
         \<and> db_Orders st' = mark_row (po_ID ord) (rf_Reason req) (db_Orders st)
         \<and> reversal E (effective_policy req) ord res st st')"
  using assms(1)
proof (cases rule: RefundSubscriptionOrder_cases)
  case (ran ctx out)
  with assms show ?thesis
    by (auto simp: marked_effect_def refund_answer_def split: prod.splits option.splits)
qed simp

text \<open>C31. A refund that answers an error has moved no money: orders, balances, ledgers, claims and
  subscriptions are those of before, whichever check or database statement failed, in whichever attempt.\<close>

theorem refund_error_keeps_money:
  assumes "RefundSubscriptionOrder E w call r attempts f0 ctx0 req st = (Inl e, st')"
  shows "same_money st st'"
  using assms
proof (cases rule: RefundSubscriptionOrder_cases)
  case (ran ctx out)
  then show ?thesis by (auto simp: marked_effect_def refund_answer_def split: prod.splits option.splits)
qed simp

subsection \<open>Sequences of calls\<close>

record refund_call =
  rc_env :: refund_env
  rc_world :: world
  rc_call :: billing_call
  rc_resolver :: "nat option"
  rc_attempts :: "(world \<times> faults) list"
  rc_audit_faults :: faults
  rc_ctx :: auth_ctx
  rc_request :: refund_request

definition do_refund :: "refund_call \<Rightarrow> store \<Rightarrow> store" where
  "do_refund c st = snd (RefundSubscriptionOrder (rc_env c) (rc_world c) (rc_call c) (rc_resolver c)
     (rc_attempts c) (rc_audit_faults c) (rc_ctx c) (rc_request c) st)"

definition conserved :: "store \<Rightarrow> store \<Rightarrow> bool" where
  "conserved st st' \<longleftrightarrow> (\<exists>new. db_Ledgers st' = db_Ledgers st @ new
     \<and> (\<forall>u. db_Balances st' u = map_option
         (\<lambda>b. b + sum_list (map lg_Amount (filter (\<lambda>l. lg_UserID l = u) new))) (db_Balances st u))
     \<and> (\<forall>l \<in> set new. lg_DedupeKey l = refund_key (lg_ReferenceID l)))"

lemma conserved_money:
  assumes "same_money st st'"
  shows "conserved st st'"
  unfolding conserved_def same_moneyD [OF assms] by (auto simp: option.map_ident)

lemma conserved_trans: "conserved a b \<Longrightarrow> conserved b c \<Longrightarrow> conserved a c"
  unfolding conserved_def
  by (elim exE conjE, rule_tac x = "new @ newa" in exI)
    (auto simp: option.map_comp o_def add.assoc)

lemma conserved_reversal: "reversal E policy ord res st st' \<Longrightarrow> conserved st st'"
  unfolding reversal_def conserved_def by (auto simp: option.map_ident)

lemma do_refund_step:
  assumes "store_ok st" "env_ok (rc_env c)"
  shows "store_ok (do_refund c st) \<and> conserved st (do_refund c st)"
proof -
  obtain out st' where r: "RefundSubscriptionOrder (rc_env c) (rc_world c) (rc_call c) (rc_resolver c)
     (rc_attempts c) (rc_audit_faults c) (rc_ctx c) (rc_request c) st = (out, st')" by fastforce
  then have d: "do_refund c st = st'" by (simp add: do_refund_def)
  from r have "store_ok st' \<and> conserved st st'"
  proof (cases rule: RefundSubscriptionOrder_cases)
    case (failed e)
    with assms(1) show ?thesis
      by (simp add: store_ok_def same_moneyD [OF failed(2)] conserved_money)
  next
    case (ran ctx res)
    have "conserved st st'"
      using ran(2) assms by (auto simp: marked_effect_def split: prod.splits option.splits
        intro: conserved_reversal conserved_money)
    with marked_effect_store_ok [OF ran(2) assms] show ?thesis by blast
  qed
  with d show ?thesis by simp
qed

lemma refunds_run:
  "store_ok st \<Longrightarrow> \<forall>c \<in> set calls. env_ok (rc_env c) \<Longrightarrow>
   store_ok (fold do_refund calls st) \<and> conserved st (fold do_refund calls st)"
proof (induction calls arbitrary: st)
  case (Cons c calls)
  then have "store_ok (do_refund c st)" "conserved st (do_refund c st)" using do_refund_step by auto
  with Cons show ?case by (auto intro: conserved_trans)
qed (simp add: conserved_money)

text \<open>C7. Over any sequence of refund calls, with any failures, retries and callers, the balance of each user
  grows by exactly the reversal entries written for that user, the store keeps its invariant, and no
  trade number is credited twice.\<close>

theorem refunds_conserve:
  assumes "store_ok st" "\<forall>c \<in> set calls. env_ok (rc_env c)"
  shows "store_ok (fold do_refund calls st)
    \<and> (\<exists>new. db_Ledgers (fold do_refund calls st) = db_Ledgers st @ new
        \<and> distinct (map lg_ReferenceID new)
        \<and> (\<forall>u. db_Balances (fold do_refund calls st) u = map_option
             (\<lambda>b. b + sum_list (map lg_Amount (filter (\<lambda>l. lg_UserID l = u) new))) (db_Balances st u)))"
proof -
  let ?t = "fold do_refund calls st"
  from refunds_run [OF assms] obtain new where ok: "store_ok ?t" and n: "db_Ledgers ?t = db_Ledgers st @ new"
      and b: "\<forall>u. db_Balances ?t u = map_option
        (\<lambda>b. b + sum_list (map lg_Amount (filter (\<lambda>l. lg_UserID l = u) new))) (db_Balances st u)"
      and k: "\<forall>l \<in> set new. lg_DedupeKey l = refund_key (lg_ReferenceID l)"
    unfolding conserved_def by blast
  have "map lg_DedupeKey new = map refund_key (map lg_ReferenceID new)" using k by simp
  moreover have "distinct (map lg_DedupeKey new)" using ok n by (simp add: store_ok_def)
  ultimately have "distinct (map lg_ReferenceID new)" by (metis distinct_map)
  with ok n b show ?thesis by blast
qed

subsection \<open>Witnesses\<close>

definition demo_env :: "string \<Rightarrow> refund_env" where
  "demo_env json = \<lparr>re_hashes = demo_hashes,
     re_json = (\<lambda>_. Some \<lparr>ps_Version = 0, ps_Contract = None, ps_PlanID = 3, ps_GroupID = 4,
        ps_PriceQuota = 2000, ps_ValidityDays = 30, ps_PriceConversion = None\<rparr>),
     re_payload = (\<lambda>_. None), re_merge = (\<lambda>m _. m), re_enabled = True, re_subscriptions = True,
     re_clock = \<lparr>ck_Now = 100, ck_Unix = 1000\<rparr>\<rparr>"

definition demo_order :: payment_order where
  "demo_order = \<lparr>po_ID = 1, po_UserID = ''7'', po_TradeNo = ''T1'', po_AssetType = ''subscription'',
     po_MoneyCents = 100000, po_Currency = ''CNY'', po_Status = ''paid'', po_ProviderTradeNo = ''W9'',
     po_ProviderPayload = [], po_AssetIssueStatus = ''issued'', po_PlanSnapshot = ''{}'',
     po_SubscriptionID = 5, po_RefundReason = []\<rparr>"

definition demo_user_sub :: user_subscription where
  "demo_user_sub = (demo_sub 1)\<lparr>us_ID := 5, us_Contract := None, us_Status := ''active'', us_ExpiresAt := 2000000\<rparr>"

definition demo_store :: store where
  "demo_store = \<lparr>db_Orders = [demo_order], db_Balances = [''7'' \<mapsto> 500], db_Claims = [], db_Ledgers = [],
     db_Subs = [5 \<mapsto> demo_user_sub], db_Audits = []\<rparr>"

definition demo_resolver :: resolver where
  "demo_resolver = \<lparr>rs_Query = (\<lambda>_ _ _. Inl ErrDenied), rs_OptionalQuery = None, rs_ResolveActor = None\<rparr>"

definition demo_refund :: "faults \<Rightarrow> string \<Rightarrow> refund_call" where
  "demo_refund f policy = \<lparr>rc_env = demo_env [], rc_world = (\<lambda>_. demo_resolver),
     rc_call = \<lparr>bc_External = False, bc_Self = False, bc_SystemCapability = False\<rparr>, rc_resolver = None,
     rc_attempts = [(\<lambda>_. demo_resolver, f), (\<lambda>_. demo_resolver, \<lambda>_. None)],
     rc_audit_faults = (\<lambda>_. None),
     rc_ctx = \<lparr>ax_Queries = (\<lambda>_. None), ax_VerifiedActor = None, ax_LegacyAllowed = None,
        ax_Credential = [], ax_Refresh = []\<rparr>,
     rc_request = \<lparr>rf_TradeNo = ''W9'', rf_Reason = ''x'', rf_Policy = policy, rf_Operator = ''op''\<rparr>\<rparr>"

lemma demo_store_ok: "store_ok demo_store"
  by (simp add: store_ok_def demo_store_def demo_order_def in_int64_def int_limits)

lemma demo_env_ok: "env_ok (demo_env raw)"
  by (auto simp: env_ok_def demo_env_def in_int64_def int_limits)

definition run_demo :: "faults \<Rightarrow> string \<Rightarrow> (billing_error + refund_result) \<times> store" where
  "run_demo f policy = (let c = demo_refund f policy in
     RefundSubscriptionOrder (rc_env c) (rc_world c) (rc_call c) (rc_resolver c) (rc_attempts c)
       (rc_audit_faults c) (rc_ctx c) (rc_request c) demo_store)"

lemma run_demo_ok: "\<exists>res st'. run_demo (\<lambda>_. None) ''shorten'' = (Inr res, st') \<and> rr_BalanceAfter res = 1500
    \<and> map_option us_ExpiresAt (db_Subs st' 5) = Some 704000"
proof -
  have "(case run_demo (\<lambda>_. None) ''shorten'' of
      (Inr res, st') \<Rightarrow> rr_BalanceAfter res = 1500 \<and> map_option us_ExpiresAt (db_Subs st' 5) = Some 704000
    | _ \<Rightarrow> False)" by code_simp
  then show ?thesis by (auto split: prod.splits sum.splits)
qed

lemma run_demo_fails: "\<exists>st'. run_demo (\<lambda>s. if s = WriteOrder then Some (BStorage ''down'') else None) ''revoke''
    = (Inl (BStorage ''down''), st')"
proof -
  have "(case run_demo (\<lambda>s. if s = WriteOrder then Some (BStorage ''down'') else None) ''revoke'' of
      (Inl e, st') \<Rightarrow> e = BStorage ''down'' | _ \<Rightarrow> False)" by code_simp
  then show ?thesis by (auto split: prod.splits sum.splits)
qed

lemma refund_effect_witness:
  "\<exists>res st' ord. run_demo (\<lambda>_. None) ''shorten'' = (Inr res, st') \<and> rr_BalanceAfter res = 1500
     \<and> find_order (db_Orders demo_store) ''W9'' = Some ord
     \<and> reversal (demo_env []) ''shorten'' ord res demo_store st'"
proof -
  obtain res st' where r: "run_demo (\<lambda>_. None) ''shorten'' = (Inr res, st')" "rr_BalanceAfter res = 1500"
    using run_demo_ok by blast
  have o1: "find_order (db_Orders demo_store) ''W9'' = Some demo_order"
    and o2: "po_Status demo_order \<noteq> ''refunded''"
    by (simp_all add: demo_store_def demo_order_def find_order_def)
  from r(1) have c: "RefundSubscriptionOrder (demo_env []) (\<lambda>_. demo_resolver)
      (rc_call (demo_refund (\<lambda>_. None) ''shorten'')) None (rc_attempts (demo_refund (\<lambda>_. None) ''shorten''))
      (\<lambda>_. None) (rc_ctx (demo_refund (\<lambda>_. None) ''shorten'')) (rc_request (demo_refund (\<lambda>_. None) ''shorten''))
      demo_store = (Inr res, st')"
    by (simp add: run_demo_def demo_refund_def)
  have q: "rf_TradeNo (rc_request (demo_refund (\<lambda>_. None) ''shorten'')) = ''W9''"
    "effective_policy (rc_request (demo_refund (\<lambda>_. None) ''shorten'')) = ''shorten''"
    by (simp_all add: demo_refund_def effective_policy_def)
  from refund_effect [OF c demo_store_ok demo_env_ok] o1 o2
  have "reversal (demo_env []) ''shorten'' demo_order res demo_store st'" unfolding q by auto
  with r o1 show ?thesis by blast
qed

lemma refund_error_keeps_money_witness:
  "\<exists>st'. run_demo (\<lambda>s. if s = WriteOrder then Some (BStorage ''down'') else None) ''revoke''
     = (Inl (BStorage ''down''), st') \<and> same_money demo_store st'"
proof -
  obtain st' where r: "run_demo (\<lambda>s. if s = WriteOrder then Some (BStorage ''down'') else None) ''revoke''
     = (Inl (BStorage ''down''), st')" using run_demo_fails by blast
  from refund_error_keeps_money [OF r [unfolded run_demo_def Let_def]] r show ?thesis by blast
qed

lemma refunds_conserve_witness:
  "db_Balances (fold do_refund [demo_refund (\<lambda>s. if s = InsertLedger then Some BBusy else None) ''revoke'',
       demo_refund (\<lambda>_. None) ''keep''] demo_store) ''7'' = Some 1500
   \<and> store_ok (fold do_refund [demo_refund (\<lambda>s. if s = InsertLedger then Some BBusy else None) ''revoke'',
       demo_refund (\<lambda>_. None) ''keep''] demo_store)"
proof
  show "db_Balances (fold do_refund [demo_refund (\<lambda>s. if s = InsertLedger then Some BBusy else None) ''revoke'',
       demo_refund (\<lambda>_. None) ''keep''] demo_store) ''7'' = Some 1500" by code_simp
  have "\<forall>c \<in> set [demo_refund (\<lambda>s. if s = InsertLedger then Some BBusy else None) ''revoke'',
       demo_refund (\<lambda>_. None) ''keep'']. env_ok (rc_env c)"
    using demo_env_ok by (simp add: demo_refund_def)
  from refunds_conserve [OF demo_store_ok this] show "store_ok (fold do_refund
     [demo_refund (\<lambda>s. if s = InsertLedger then Some BBusy else None) ''revoke'',
       demo_refund (\<lambda>_. None) ''keep''] demo_store)" by blast
qed

end
