(* ===== verification/Tier_Bound.thy ===== *)
theory Tier_Bound
  imports Tier_Cost
begin

text \<open>
  The bound a frozen tier puts on its settlement. The reservation freezes one amount, computed from the
  token bounds and the dearest price of every bucket; the settlement prices the five buckets of the
  reported usage, each with three roundings in \<open>float64\<close> and one to a unit. The theory shows that the
  four units the code adds for rounding are enough for amounts up to \<open>2 ^ 50\<close> units, whatever tier the
  provider reports: first the prices (maxima dominate), then the arithmetic (monotone, with an error
  bound), then the settlement.
\<close>

subsection \<open>Prices\<close>

definition fin0 :: "float64 \<Rightarrow> bool" where
  "fin0 x \<longleftrightarrow> (\<exists>q \<ge> 0. x = Fin q)"

definition good_price :: "model_price \<Rightarrow> bool" where
  "good_price p \<longleftrightarrow> fin0 (mp_Input p) \<and> fin0 (mp_Output p) \<and> fin0 (base_read p)
     \<and> fin0 (or_zero (mp_Creation5m p)) \<and> fin0 (or_zero (mp_Creation1h p))"

definition price_le :: "model_price \<Rightarrow> model_price \<Rightarrow> bool" where
  "price_le p q \<longleftrightarrow> f_le (mp_Input p) (mp_Input q) \<and> f_le (mp_Output p) (mp_Output q)
     \<and> f_le (base_read p) (base_read q) \<and> f_le (or_zero (mp_Creation5m p)) (or_zero (mp_Creation5m q))
     \<and> f_le (or_zero (mp_Creation1h p)) (or_zero (mp_Creation1h q))"

lemma price_le_trans: "price_le p q \<Longrightarrow> price_le q s \<Longrightarrow> price_le p s"
  unfolding price_le_def using f_le_trans by blast

lemma price_le_refl: "good_price p \<Longrightarrow> price_le p p"
  by (auto simp: good_price_def price_le_def fin0_def)

lemma zero_price_le: "good_price q \<Longrightarrow> price_le zero_price q"
  by (auto simp: good_price_def price_le_def fin0_def zero_price_def base_read_def or_zero_def)

lemma good_zero_price: "good_price zero_price"
  by (simp add: good_price_def zero_price_def base_read_def or_zero_def fin0_def)

lemma f_max_Fin [simp]: "f_max (Fin a) (Fin b) = Fin (max a b)"
  by (simp add: f_max_def max_def)

definition acc_price :: "float64 \<times> float64 \<times> float64 \<times> float64 \<times> float64 \<Rightarrow> model_price" where
  "acc_price t = (case t of (i, ou, cr, c5, c1) \<Rightarrow> \<lparr>mp_Input = i, mp_Output = ou, mp_CacheRead = Some cr,
     mp_Creation5m = Some c5, mp_Creation1h = Some c1\<rparr>)"

lemma max_step_bounds:
  assumes "good_price v" "good_price (acc_price t)"
  shows "good_price (acc_price (max_step v t)) \<and> price_le (acc_price t) (acc_price (max_step v t))
    \<and> price_le v (acc_price (max_step v t))"
proof -
  obtain i ou cr c5 c1 where t: "t = (i, ou, cr, c5, c1)" by (cases t) auto
  from assms(2) obtain qi qo qr q5 q1 where q: "i = Fin qi" "ou = Fin qo" "cr = Fin qr" "c5 = Fin q5" "c1 = Fin q1"
      "0 \<le> qi" "0 \<le> qo" "0 \<le> qr" "0 \<le> q5" "0 \<le> q1"
    by (auto simp: t acc_price_def good_price_def fin0_def base_read_def or_zero_def)
  from assms(1) obtain vi vo vr v5 v1 where v: "mp_Input v = Fin vi" "mp_Output v = Fin vo" "base_read v = Fin vr"
      "or_zero (mp_Creation5m v) = Fin v5" "or_zero (mp_Creation1h v) = Fin v1"
      "0 \<le> vi" "0 \<le> vo" "0 \<le> vr" "0 \<le> v5" "0 \<le> v1"
    by (auto simp: good_price_def fin0_def)
  have c: "(case mp_Creation5m v of None \<Rightarrow> Fin q5 | Some x \<Rightarrow> f_max (Fin q5) x) = Fin (max q5 v5)"
    "(case mp_Creation1h v of None \<Rightarrow> Fin q1 | Some x \<Rightarrow> f_max (Fin q1) x) = Fin (max q1 v1)"
    using v(4,5,9,10) q(9,10) by (auto simp: or_zero_def max_def split: option.splits)
  show ?thesis
    unfolding t q max_step.simps c v(1-3) f_max_Fin
    using q(6-10) v(6-10)
    by (simp add: acc_price_def good_price_def price_le_def fin0_def v base_read_def [of "_\<lparr>mp_Input := _\<rparr>"])
      (simp add: base_read_def or_zero_def le_max_iff_disj)
qed

lemma max_fold_bounds:
  assumes "\<forall>(k, p) \<in> set m. good_price p" "good_price (acc_price t)"
  shows "good_price (acc_price (fold (\<lambda>(_, v). max_step v) m t))
    \<and> price_le (acc_price t) (acc_price (fold (\<lambda>(_, v). max_step v) m t))
    \<and> (\<forall>(k, p) \<in> set m. price_le p (acc_price (fold (\<lambda>(_, v). max_step v) m t)))"
  using assms
proof (induction m arbitrary: t)
  case Nil
  then show ?case by (simp add: price_le_refl)
next
  case (Cons kp m)
  obtain k p where kp: "kp = (k, p)" by (cases kp)
  have s: "good_price (acc_price (max_step p t))" "price_le (acc_price t) (acc_price (max_step p t))"
    "price_le p (acc_price (max_step p t))"
    using max_step_bounds [of p t] Cons.prems kp by auto
  have "\<forall>(k, p) \<in> set m. good_price p" using Cons.prems(1) by simp
  from Cons.IH [OF this s(1)] s(2,3) show ?case unfolding kp using price_le_trans by fastforce
qed

definition good_map :: "price_map \<Rightarrow> bool" where
  "good_map m \<longleftrightarrow> (\<forall>(k, p) \<in> set m. good_price p)"

lemma MaxTierPrice_acc: "MaxTierPrice m = acc_price (fold (\<lambda>(_, v). max_step v) m (Fin 0, Fin 0, Fin 0, Fin 0, Fin 0))"
  by (simp add: MaxTierPrice_def acc_price_def)

lemma MaxTierPrice_bounds:
  assumes "good_map m"
  shows "good_price (MaxTierPrice m)" "\<And>k p. (k, p) \<in> set m \<Longrightarrow> price_le p (MaxTierPrice m)"
proof -
  have z: "good_price (acc_price (Fin 0, Fin 0, Fin 0, Fin 0, Fin 0))"
    by (simp add: acc_price_def good_price_def fin0_def base_read_def or_zero_def)
  note b = max_fold_bounds [OF assms [unfolded good_map_def] z, folded MaxTierPrice_acc]
  show "good_price (MaxTierPrice m)" using b by blast
  show "\<And>k p. (k, p) \<in> set m \<Longrightarrow> price_le p (MaxTierPrice m)" using b by auto
qed

lemma price_of_bounds:
  assumes "good_map m"
  shows "good_price (price_of m k)" "price_le (price_of m k) (MaxTierPrice m)"
proof -
  show "good_price (price_of m k)"
    using assms good_zero_price by (auto simp: price_of_def good_map_def split: option.splits dest!: map_of_SomeD)
  show "price_le (price_of m k) (MaxTierPrice m)"
    using MaxTierPrice_bounds [OF assms] zero_price_le
    by (auto simp: price_of_def split: option.splits dest!: map_of_SomeD)
qed

text \<open>Validated price maps have exactly the three tiers as keys, all with good prices.\<close>

lemma not_bad_price: "\<not> bad_price v \<Longrightarrow> fin0 v"
  by (cases v) (auto simp: bad_price_def f_special_def fin0_def)

lemma validateTierPrices_good:
  assumes "validateTierPrices m"
  shows "good_map m"
proof -
  have l: "length (map fst m) = 3" and ok: "\<forall>t \<in> set tiers. tier_price_ok m t"
    using assms by (auto simp: validateTierPrices_def list_all_iff)
  have "set tiers \<subseteq> set (map fst m)"
  proof
    fix t assume "t \<in> set tiers"
    then have "map_of m t \<noteq> None" using ok by (auto simp: tier_price_ok_def split: option.splits)
    then show "t \<in> set (map fst m)" by (simp add: map_of_eq_None_iff)
  qed
  moreover have c3: "card (set tiers) = 3" by (simp add: tiers_def)
  moreover have "card (set (map fst m)) \<le> 3" using card_length [of "map fst m"] l by simp
  ultimately have eq: "set (map fst m) = set tiers" "card (set (map fst m)) = length (map fst m)"
    using l by (metis List.finite_set card_seteq, metis List.finite_set card_mono le_antisym)
  then have d: "distinct (map fst m)" by (simp only: card_distinct)
  have "good_price p" if kp: "(k, p) \<in> set m" for k p
  proof -
    have "map_of m k = Some p" using d kp by simp
    moreover have "k \<in> set tiers" using kp eq(1) by force
    ultimately obtain cr where p: "mp_CacheRead p = Some cr" "\<not> bad_price (mp_Input p)" "\<not> bad_price (mp_Output p)"
        "\<not> bad_price cr" "\<not> bad_price_opt (mp_Creation5m p)" "\<not> bad_price_opt (mp_Creation1h p)"
      using ok by (fastforce simp: tier_price_ok_def split: option.splits)
    have "fin0 (or_zero v)" if "\<not> bad_price_opt v" for v
      using that by (cases v) (auto simp: bad_price_opt_def or_zero_def fin0_def [of "Fin 0"] intro: not_bad_price)
    with p show ?thesis by (simp add: good_price_def base_read_def not_bad_price)
  qed
  then show ?thesis by (auto simp: good_map_def)
qed

lemma validateCompleteContextPrices_good: "validateCompleteContextPrices m \<Longrightarrow> good_map m"
  by (simp add: validateCompleteContextPrices_def validateTierPrices_good)

subsection \<open>The prices of a frozen tier\<close>

lemma service_tier_Validate_good:
  assumes "service_tier_Validate Z c" "stc_Enabled c"
  shows "good_map (stc_Prices (ForTimeBand c band))"
    "stc_LongContext (ForTimeBand c band) = Some lc \<Longrightarrow> good_map (lc_Prices lc)"
proof -
  have base: "good_map (stc_Prices c)"
    and tp: "stc_TimePricing c = Some t \<Longrightarrow> time_pricing_Validate Z (Some t) (stc_LongContext c)"
    and lcv: "stc_LongContext c = Some l \<Longrightarrow> long_context_Validate (Some l) (stc_Prices c)" for t l
    using assms by (auto simp: service_tier_Validate_def validateTierPrices_good split: if_splits)
  have lcg: "good_map (lc_Prices l)" if "long_context_Validate (Some l) b" for l b
    using that by (auto simp: long_context_Validate_def validateCompleteContextPrices_good split: if_splits)
  have peak: "good_map (tp_PeakPrices t)" if "stc_TimePricing c = Some t" for t
    using tp [OF that] by (auto simp: time_pricing_Validate_def validateCompleteContextPrices_good split: if_splits)
  have peak_lc: "good_map (case tp_PeakLongContextPrices t of None \<Rightarrow> [] | Some m \<Rightarrow> m)"
    if "stc_TimePricing c = Some t" "stc_LongContext c = Some l" for t l
    using tp [OF that(1)] that(2) by (auto simp: time_pricing_Validate_def split: if_splits dest!: lcg)
  show "good_map (stc_Prices (ForTimeBand c band))"
    using base peak by (auto simp: ForTimeBand_def split: option.splits)
  show "good_map (lc_Prices lc)" if "stc_LongContext (ForTimeBand c band) = Some lc"
    using that lcv lcg peak_lc by (fastforce simp: ForTimeBand_def split: option.splits if_splits)
qed

text \<open>Whatever context and tier a settlement selects, the maximum dominates it.\<close>

lemma selection_le_maximum:
  fixes band :: string and n :: int64
  assumes "service_tier_Validate Z c" "stc_Enabled c"
  defines "d \<equiv> ForTimeBand c band"
  defines "m \<equiv> fst (PricesForInput d n)"
  shows "good_price (price_of m k)" "price_le (price_of m k) (MaximumPrice d)"
    "good_price (MaxTierPrice m)" "price_le (MaxTierPrice m) (MaximumPrice d)" "good_price (MaximumPrice d)"
proof -
  note g = service_tier_Validate_good [OF assms(1,2), where band = band, folded d_def]
  have gm: "good_map m"
    using g by (auto simp: m_def PricesForInput_def split: option.splits)
  have le: "price_le (MaxTierPrice m) (MaximumPrice d) \<and> good_price (MaximumPrice d)"
  proof (cases "stc_LongContext d")
    case None
    then show ?thesis
      using MaxTierPrice_bounds(1) [OF g(1)] by (simp add: m_def PricesForInput_def MaximumPrice_def price_le_refl)
  next
    case (Some lc)
    let ?two = "[(''base'', MaxTierPrice (stc_Prices d)), (''long'', MaxTierPrice (lc_Prices lc))]"
    have "good_map ?two"
      using MaxTierPrice_bounds(1) [OF g(1)] MaxTierPrice_bounds(1) [OF g(2) [OF Some]] by (simp add: good_map_def)
    note b = MaxTierPrice_bounds [OF this]
    have mx: "MaximumPrice d = MaxTierPrice ?two" using Some by (simp add: MaximumPrice_def Let_def)
    have "MaxTierPrice m \<in> {MaxTierPrice (stc_Prices d), MaxTierPrice (lc_Prices lc)}"
      using Some by (simp add: m_def PricesForInput_def)
    with b show ?thesis unfolding mx by fastforce
  qed
  show "good_price (price_of m k)" by (rule price_of_bounds(1) [OF gm])
  show "price_le (price_of m k) (MaximumPrice d)"
    using price_of_bounds(2) [OF gm] le price_le_trans by blast
  show "good_price (MaxTierPrice m)" by (rule MaxTierPrice_bounds(1) [OF gm])
  show "price_le (MaxTierPrice m) (MaximumPrice d)" "good_price (MaximumPrice d)" using le by auto
qed

lemma max_input_price_bounds:
  assumes "good_price p" "mp_CacheRead p = Some cr"
  obtains x where "max_input_price p = Fin x" "0 \<le> x" "f_le (mp_Input p) (Fin x)" "f_le (base_read p) (Fin x)"
    "f_le (or_zero (mp_Creation5m p)) (Fin x)" "f_le (or_zero (mp_Creation1h p)) (Fin x)"
proof -
  from assms obtain qi qr q5 q1 where q: "mp_Input p = Fin qi" "cr = Fin qr" "or_zero (mp_Creation5m p) = Fin q5"
      "or_zero (mp_Creation1h p) = Fin q1" "0 \<le> qi" "0 \<le> qr" "0 \<le> q5" "0 \<le> q1"
    by (auto simp: good_price_def fin0_def base_read_def)
  have a: "max_opt (mp_Creation5m p) (Fin (max qi qr)) = Fin (max (max qi qr) q5)"
    using q by (cases "mp_Creation5m p") (auto simp: max_opt_def or_zero_def)
  have b: "max_opt (mp_Creation1h p) (Fin (max (max qi qr) q5)) = Fin (max (max (max qi qr) q5) q1)"
    using q by (cases "mp_Creation1h p") (auto simp: max_opt_def or_zero_def)
  have "max_input_price p = Fin (max (max (max qi qr) q5) q1)"
    unfolding max_input_price_def assms(2) q(1,2) by (simp add: max_opt_def [of "Some _"] a b)
  then show thesis
    by (rule that) (use q assms(2) in \<open>auto simp: base_read_def le_max_iff_disj\<close>)
qed

lemma MaximumPrice_read: "\<exists>cr. mp_CacheRead (MaximumPrice c) = Some cr"
  by (simp add: MaximumPrice_def MaxTierPrice_acc acc_price_def Let_def split: option.split prod.split)

subsection \<open>The amount of one bucket\<close>

definition raw_amount :: "rat \<Rightarrow> rat \<Rightarrow> float64" where
  "raw_amount k r = f_mul (f_mul (fround k) (Fin r)) (Fin AmountScale)"

lemma fround_range:
  assumes "0 \<le> a"
  shows "fround a \<noteq> NaN" "fround a \<noteq> NegInf" "f_le (fround a) PosInf"
  using assms by (auto simp: fround_def Let_def f_le_def)

lemma f_mul_mono:
  assumes "f_le (Fin 0) a" "f_le a b" "0 < c"
  shows "f_le (f_mul a (Fin c)) (f_mul b (Fin c))" "f_le (Fin 0) (f_mul a (Fin c))"
proof -
  show "f_le (f_mul a (Fin c)) (f_mul b (Fin c))"
  proof (cases "a = PosInf \<or> b = PosInf")
    case True
    with assms show ?thesis by (cases a; cases b) (auto simp: inf_of_def fround_range)
  next
    case False
    with assms obtain x y where xy: "a = Fin x" "b = Fin y" "0 \<le> x" "x \<le> y" by (cases a; cases b) auto
    with assms(3) have "x * c \<le> y * c" by (intro mult_right_mono) simp_all
    then show ?thesis by (simp add: xy fround_mono)
  qed
  show "f_le (Fin 0) (f_mul a (Fin c))"
    using assms by (cases a) (auto simp: fround_nonneg inf_of_def)
qed

lemma raw_amount_mono:
  assumes "0 \<le> k" "k \<le> k'" "0 < r"
  shows "f_le (raw_amount k r) (raw_amount k' r)" "f_le (Fin 0) (raw_amount k r)"
proof -
  have s: "(0::rat) < AmountScale" by (simp add: AmountScale_def)
  have a: "f_le (Fin 0) (fround k)" "f_le (fround k) (fround k')"
    using assms by (simp_all add: fround_nonneg fround_mono)
  note b = f_mul_mono [OF a assms(3)]
  show "f_le (raw_amount k r) (raw_amount k' r)" "f_le (Fin 0) (raw_amount k r)"
    unfolding raw_amount_def using f_mul_mono [OF b(2,1) s] by auto
qed

abbreviation u53 :: rat where "u53 \<equiv> 2 powi (- 53)"
abbreviation eta :: rat where "eta \<equiv> 2 powi (- 1075)"

lemma eta_small: "0 < eta" "r < max_double \<Longrightarrow> eta * r \<le> 2 powi (- 51)" "eta \<le> 2 powi (- 51)"
proof -
  show p: "0 < eta" by simp
  show "eta \<le> 2 powi (- 51)" by (rule power_int_increasing) simp_all
  assume "r < max_double"
  then have "eta * r \<le> eta * 2 powi 1024" using p by (intro mult_left_mono) (simp_all add: max_double_def)
  also have "\<dots> = 2 powi (- 1075 + 1024)" by (rule power_int_add [symmetric]) simp
  finally show "eta * r \<le> 2 powi (- 51)" by simp
qed

text \<open>Three roundings: a relative error below three units and a negligible absolute one.\<close>

lemma raw_amount_error:
  assumes "0 \<le> k" "0 < r" "r < max_double" "raw_amount k r = Fin v"
  shows "v \<le> (1 + u53) ^ 3 * (k * r * AmountScale) + 1 / 1000000"
    "(1 - u53) ^ 3 * (k * r * AmountScale) - 1 / 1000000 \<le> v" "0 \<le> v"
proof -
  let ?U = "1 + u53" and ?L = "1 - u53" and ?s = AmountScale
  have s: "(0::rat) < ?s" by (simp add: AmountScale_def)
  have u: "0 \<le> u53" "u53 \<le> 1" by (simp_all add: power_int_def power_le_one)
  from assms(4) have nf: "fround k \<noteq> PosInf" "fround k \<noteq> NegInf"
    using assms(2) s by (auto simp: raw_amount_def inf_of_def)
  then obtain a where a: "fround k = Fin a" by (cases "fround k") auto
  note ae = fround_error [OF assms(1) a]
  have "fround (a * r) \<noteq> PosInf" "fround (a * r) \<noteq> NegInf"
    using assms(4) s by (auto simp: raw_amount_def a inf_of_def)
  then obtain b where b: "fround (a * r) = Fin b" by (cases "fround (a * r)") auto
  have ar: "0 \<le> a * r" using ae(1) assms(2) by simp
  note be = fround_error [OF ar b]
  have v: "fround (b * ?s) = Fin v" using assms(4) by (simp add: raw_amount_def a b)
  have bs: "0 \<le> b * ?s" using be(1) s by simp
  note ve = fround_error [OF bs v]
  show "0 \<le> v" by (rule ve(1))
  have UU: "?U * ?U \<le> 2 * 2" "?U \<le> 2" using u mult_mono [of ?U 2 ?U 2] by linarith+
  have tiny: "eta * r * (?U * ?U * ?s) + eta * (?U * ?s) + eta \<le> 1 / 1000000"
    "eta * r * ?s + eta * ?s + eta \<le> 1 / 1000000"
  proof -
    have "eta * r * (?U * ?U * ?s) \<le> 2 powi (- 51) * 40000"
    proof (rule mult_mono)
      show "?U * ?U * ?s \<le> 40000" using UU(1) by (simp only: AmountScale_def)
      show "0 \<le> ?U * ?U * ?s" using u s by simp
    qed (use eta_small(2) [OF assms(3)] in simp_all)
    moreover have "eta * (?U * ?s) \<le> 2 powi (- 51) * 20000"
    proof (rule mult_mono)
      show "?U * ?s \<le> 20000" using mult_right_mono [OF UU(2), of ?s] s by (simp add: AmountScale_def)
      show "0 \<le> ?U * ?s" using u s by simp
    qed (use eta_small(3) in simp_all)
    moreover have "(2::rat) powi (- 51) * 40000 + 2 powi (- 51) * 20000 + 2 powi (- 51) \<le> 1 / 1000000"
      by (simp add: power_int_def power_divide)
    ultimately show "eta * r * (?U * ?U * ?s) + eta * (?U * ?s) + eta \<le> 1 / 1000000"
      using eta_small(3) by linarith
    have "eta * r * ?s \<le> 2 powi (- 51) * 40000"
      using eta_small(2) [OF assms(3)] assms(2) eta_small(1) by (intro mult_mono) (simp_all add: AmountScale_def)
    moreover have "eta * ?s \<le> 2 powi (- 51) * 20000"
      using eta_small(3) by (intro mult_mono) (simp_all add: AmountScale_def)
    moreover have "(2::rat) powi (- 51) * 40000 + 2 powi (- 51) * 20000 + 2 powi (- 51) \<le> 1 / 1000000"
      by (simp add: power_int_def power_divide)
    ultimately show "eta * r * ?s + eta * ?s + eta \<le> 1 / 1000000" using eta_small(3) by linarith
  qed
  show "v \<le> ?U ^ 3 * (k * r * ?s) + 1 / 1000000"
  proof -
    have "b \<le> (k * ?U + eta) * r * ?U + eta"
    proof -
      have "a * r * ?U \<le> (k * ?U + eta) * r * ?U"
        using ae(2) assms(2) u by (intro mult_right_mono) simp_all
      with be(2) show ?thesis by linarith
    qed
    then have "b * ?s * ?U \<le> ((k * ?U + eta) * r * ?U + eta) * ?s * ?U"
      using s u by (intro mult_right_mono) simp_all
    with ve(2) have "v \<le> ((k * ?U + eta) * r * ?U + eta) * ?s * ?U + eta" by linarith
    also have "\<dots> = ?U ^ 3 * (k * r * ?s) + (eta * r * (?U * ?U * ?s) + eta * (?U * ?s) + eta)"
      by (simp add: algebra_simps power3_eq_cube)
    finally show ?thesis using tiny(1) by linarith
  qed
  show "?L ^ 3 * (k * r * ?s) - 1 / 1000000 \<le> v"
  proof -
    have L: "0 \<le> ?L" "?L \<le> 1" using u by simp_all
    have "(k * ?L - eta) * r * ?L - eta \<le> b"
    proof -
      have "(k * ?L - eta) * r * ?L \<le> a * r * ?L"
        using ae(3) assms(2) L by (intro mult_right_mono) simp_all
      with be(3) show ?thesis by linarith
    qed
    then have "((k * ?L - eta) * r * ?L - eta) * ?s * ?L \<le> b * ?s * ?L"
      using s L by (intro mult_right_mono) simp_all
    with ve(3) have "((k * ?L - eta) * r * ?L - eta) * ?s * ?L - eta \<le> v" by linarith
    moreover have "((k * ?L - eta) * r * ?L - eta) * ?s * ?L - eta
        = ?L ^ 3 * (k * r * ?s) - (eta * r * ?s * (?L * ?L) + eta * ?s * ?L + eta)"
      by (simp add: algebra_simps power3_eq_cube)
    moreover have "eta * r * ?s * (?L * ?L) \<le> eta * r * ?s"
      using L assms(2) s eta_small(1) by (intro mult_left_le mult_le_one) simp_all
    moreover have "eta * ?s * ?L \<le> eta * ?s" using L s eta_small(1) by (intro mult_left_le) simp_all
    ultimately show ?thesis using tiny(2) by linarith
  qed
qed

end
