(* ===== verification/Tier_Settlement.thy ===== *)
theory Tier_Settlement
  imports Tier_Bound
begin

text \<open>
  Amounts in units and the settlement of a frozen tier: \<open>roundScaled\<close> as a function of one product, its
  monotonicity and its distance from that product, the saturating sum, and the theorem that a settlement
  within the token bounds stays within the frozen amount.
\<close>

subsection \<open>Rounding to a unit\<close>

definition amt :: "float64 \<Rightarrow> int64" where
  "amt raw = (if f_le raw (Fin 0) then 0 else if f_le f_MaxInt64 raw then MaxInt64 else f_to_int64 (f_round raw))"

text \<open>No double below \<open>2 ^ 63\<close> is rounded up to \<open>2 ^ 63\<close>: large doubles are integers already.\<close>

lemma fround_round_away:
  assumes "0 \<le> y" "fround y = Fin v" "v < 9223372036854775808"
  shows "\<lfloor>v + 1 / 2\<rfloor> < 9223372036854775808" "0 \<le> v"
proof -
  show "0 \<le> v" using fround_nonneg [OF assms(1)] assms(2) by simp
  show "\<lfloor>v + 1 / 2\<rfloor> < 9223372036854775808"
  proof (cases "9007199254740992 \<le> y")
    case True
    then obtain n where n: "v = of_int n" using fround_integer assms(2) by blast
    have "rat_of_int n < rat_of_int 9223372036854775808" using assms(3) by (simp add: n)
    then have "n < 9223372036854775808" by (simp only: of_int_less_iff)
    moreover have "\<lfloor>rat_of_int n + 1 / 2\<rfloor> = n" by linarith
    ultimately show ?thesis by (simp add: n)
  next
    case False
    then have "f_le (fround y) (fround (of_int 9007199254740992))" by (intro fround_mono) simp
    then have "v \<le> 9007199254740992" using assms(2) fround_int [of 9007199254740992] by simp
    then show ?thesis by linarith
  qed
qed

lemma raw_amount_round:
  assumes "0 \<le> k" "0 < r" "raw_amount k r = Fin v" "v < 9223372036854775808"
  shows "amt (Fin v) = \<lfloor>v + 1 / 2\<rfloor>" "0 \<le> v" "0 \<le> \<lfloor>v + 1 / 2\<rfloor>" "\<lfloor>v + 1 / 2\<rfloor> \<le> MaxInt64"
proof -
  have "f_le (Fin 0) (f_mul (fround k) (Fin r))" using f_mul_mono(2) [of "fround k" "fround k" r]
    assms(1,2) fround_nonneg [of k] fround_range by (cases "fround k") auto
  then obtain x where x: "0 \<le> x" "fround (x * 10000) = Fin v"
    using assms(3) by (cases "f_mul (fround k) (Fin r)") (auto simp: raw_amount_def AmountScale_def inf_of_def)
  from x(1) have y: "0 \<le> x * 10000" by simp
  note b = fround_round_away [OF y x(2) assms(4)]
  show v: "0 \<le> v" by (rule b(2))
  show n: "0 \<le> \<lfloor>v + 1 / 2\<rfloor>" using v by simp
  show m: "\<lfloor>v + 1 / 2\<rfloor> \<le> MaxInt64" using b(1) by (simp add: MaxInt64_def)
  have "\<not> rat_of_int \<lfloor>v + 1 / 2\<rfloor> < 0" using n by simp
  moreover have "\<lfloor>1 / 2 :: rat\<rfloor> = 0" by (simp add: floor_eq_iff)
  ultimately show "amt (Fin v) = \<lfloor>v + 1 / 2\<rfloor>"
    using v n m assms(4)
    by (auto simp: amt_def f_round_def map_fin_def round_away_def f_to_int64_def in_int64_def MinInt64_def)
qed

lemma raw_amount_cases:
  assumes "0 \<le> k" "0 < r"
  obtains (fin) v where "raw_amount k r = Fin v" "0 \<le> v" "v < 9223372036854775808" "amt (raw_amount k r) = \<lfloor>v + 1 / 2\<rfloor>"
    | (sat) "amt (raw_amount k r) = MaxInt64" "f_le f_MaxInt64 (raw_amount k r)"
proof (cases "f_le f_MaxInt64 (raw_amount k r)")
  case True
  then have "\<not> f_le (raw_amount k r) (Fin 0)" by (cases "raw_amount k r") auto
  with True have "amt (raw_amount k r) = MaxInt64" by (simp add: amt_def)
  with True show thesis by (intro sat)
next
  case False
  have "f_le (Fin 0) (raw_amount k r)" by (rule raw_amount_mono(2) [OF assms(1) order_refl assms(2)])
  with False obtain v where v: "raw_amount k r = Fin v" "v < 9223372036854775808"
    by (cases "raw_amount k r") (auto simp: f_le_def)
  from raw_amount_round [OF assms v] v show thesis by (intro fin) simp_all
qed

lemma amt_mono:
  assumes "0 \<le> k" "k \<le> k'" "0 < r"
  shows "amt (raw_amount k r) \<le> amt (raw_amount k' r)" "0 \<le> amt (raw_amount k r)" "amt (raw_amount k r) \<le> MaxInt64"
proof -
  have le: "f_le (raw_amount k r) (raw_amount k' r)" by (rule raw_amount_mono(1) [OF assms])
  have k': "0 \<le> k'" using assms by linarith
  show "0 \<le> amt (raw_amount k r)" "amt (raw_amount k r) \<le> MaxInt64"
    using raw_amount_round [OF assms(1,3)]
    by (cases rule: raw_amount_cases [OF assms(1,3)]; simp add: MaxInt64_def)+
  show "amt (raw_amount k r) \<le> amt (raw_amount k' r)"
  proof (rule raw_amount_cases [OF k' assms(3)])
    fix v'
    assume fin: "raw_amount k' r = Fin v'" "0 \<le> v'" "v' < 9223372036854775808"
      "amt (raw_amount k' r) = \<lfloor>v' + 1 / 2\<rfloor>"
    from le fin obtain v where "raw_amount k r = Fin v" "v \<le> v'"
      using raw_amount_mono(2) [OF assms(1) order_refl assms(3)] by (cases "raw_amount k r") auto
    moreover from this fin have "amt (raw_amount k r) = \<lfloor>v + 1 / 2\<rfloor>"
      using raw_amount_round(1) [OF assms(1,3)] by simp
    ultimately show ?thesis using fin(4) by (simp add: floor_mono)
  next
    assume "amt (raw_amount k' r) = MaxInt64"
    then show ?thesis using \<open>amt (raw_amount k r) \<le> MaxInt64\<close> by simp
  qed
qed

lemma roundScaled_amt:
  assumes "0 \<le> t" "t \<le> MaxInt32" "0 \<le> x"
  shows "roundScaled t (Fin x) (Fin r) = amt (raw_amount (of_int t * x) r)"
proof -
  have t: "f_of_int t = Fin (of_int t)"
    using assms by (simp add: f_of_int_def MaxInt32_def fround_int)
  have z: "raw_amount 0 r = Fin 0" by (simp add: raw_amount_def fround_def)
  show ?thesis
    using assms z by (auto simp: roundScaled_def t raw_amount_def amt_def Let_def antisym_conv)
qed


text \<open>The distance between an amount and the exact product, in units of the last place and of rounding.\<close>

lemma amt_error:
  assumes "0 \<le> k" "0 < r" "r < max_double" "amt (raw_amount k r) < MaxInt64"
  shows "of_int (amt (raw_amount k r)) \<le> (1 + u53) ^ 3 * (k * r * AmountScale) + 1 / 1000000 + 1 / 2"
    "(1 - u53) ^ 3 * (k * r * AmountScale) \<le> of_int (amt (raw_amount k r)) + 1 / 1000000 + 1 / 2"
proof -
  obtain v where v: "raw_amount k r = Fin v" "amt (raw_amount k r) = \<lfloor>v + 1 / 2\<rfloor>"
    using assms(4) by (rule_tac raw_amount_cases [OF assms(1,2)]) auto
  note e = raw_amount_error [OF assms(1-3) v(1)]
  have f: "rat_of_int \<lfloor>v + 1 / 2\<rfloor> \<le> v + 1 / 2" "v + 1 / 2 < rat_of_int \<lfloor>v + 1 / 2\<rfloor> + 1" by linarith+
  show "of_int (amt (raw_amount k r)) \<le> (1 + u53) ^ 3 * (k * r * AmountScale) + 1 / 1000000 + 1 / 2"
    using e(1) f(1) unfolding v(2) by linarith
  show "(1 - u53) ^ 3 * (k * r * AmountScale) \<le> of_int (amt (raw_amount k r)) + 1 / 1000000 + 1 / 2"
    using e(2) f(2) unfolding v(2) by linarith
qed

subsection \<open>Sums\<close>

lemma cost_sum_eq:
  "list_all (\<lambda>v. 0 \<le> v) vs \<Longrightarrow> 0 \<le> t \<Longrightarrow> t \<le> MaxInt64 \<Longrightarrow> cost_sum vs t = min MaxInt64 (t + sum_list vs)"
proof (induction vs arbitrary: t)
  case (Cons v vs)
  then have "0 \<le> sum_list vs" by (simp add: sum_list_nonneg)
  with Cons show ?case by (auto simp: min_def)
qed simp

lemma saturatingCostSum_eq:
  "list_all (\<lambda>v. 0 \<le> v) vs \<Longrightarrow> saturatingCostSum vs = min MaxInt64 (sum_list vs)"
  unfolding saturatingCostSum_def by (subst cost_sum_eq) (simp_all add: MaxInt64_def)

subsection \<open>Four buckets against one bound\<close>

text \<open>
  The amounts of four buckets whose products add up to at most \<open>K\<close> exceed the amount of \<open>K\<close> by at most
  three: four times half a unit, and the relative error of six roundings below one unit at \<open>2 ^ 50\<close>.
\<close>

lemma four_amounts:
  assumes k: "0 \<le> k1" "0 \<le> k2" "0 \<le> k3" "0 \<le> k4" "k1 + k2 + k3 + k4 \<le> K"
    and r: "0 < r" "r < max_double"
    and small: "amt (raw_amount K r) \<le> 1125899906842624"
  shows "amt (raw_amount k1 r) + amt (raw_amount k2 r) + amt (raw_amount k3 r) + amt (raw_amount k4 r)
    \<le> amt (raw_amount K r) + 3"
proof -
  let ?a = "\<lambda>k. amt (raw_amount k r)" and ?U = "(1 + u53) ^ 3" and ?L = "(1 - u53) ^ 3"
  let ?c = "1 / 1000000 + 1 / 2 :: rat" and ?s = "r * AmountScale"
  have K: "0 \<le> K" and le: "k1 \<le> K" "k2 \<le> K" "k3 \<le> K" "k4 \<le> K" using k by linarith+
  have s: "0 < ?s" using r(1) by (simp add: AmountScale_def)
  have lt: "?a K < MaxInt64" using small by (simp add: MaxInt64_def)
  have up: "of_int (?a k) \<le> ?U * (k * ?s) + ?c" if "0 \<le> k" "k \<le> K" for k
  proof -
    have "?a k < MaxInt64" using amt_mono(1) [OF that r(1)] lt by simp
    from amt_error(1) [OF that(1) r this] show ?thesis by (simp add: algebra_simps)
  qed
  have add4: "a + b + c + d \<le> A + B + C + D + 4 * e"
    if "a \<le> A + e" "b \<le> B + e" "c \<le> C + e" "d \<le> D + e" for a b c d A B C D e :: rat
    using that by linarith
  have "of_int (?a k1) + of_int (?a k2) + of_int (?a k3) + of_int (?a k4)
      \<le> ?U * (k1 * ?s) + ?U * (k2 * ?s) + ?U * (k3 * ?s) + ?U * (k4 * ?s) + 4 * ?c"
    by (rule add4 [OF up [OF k(1) le(1)] up [OF k(2) le(2)] up [OF k(3) le(3)] up [OF k(4) le(4)]])
  also have "\<dots> = ?U * ((k1 + k2 + k3 + k4) * ?s) + 4 * ?c" by (simp add: algebra_simps)
  also have "?U * ((k1 + k2 + k3 + k4) * ?s) \<le> ?U * (K * ?s)"
    using k(5) s by (intro mult_left_mono mult_right_mono) simp_all
  also have "?U * (K * ?s) \<le> (1 + 7 * u53) * ?L * (K * ?s)"
  proof (rule mult_right_mono)
    show "?U \<le> (1 + 7 * u53) * ?L" by (simp add: power_int_def power_divide field_simps power3_eq_cube)
    show "0 \<le> K * ?s" using K s by simp
  qed
  also have "(1 + 7 * u53) * ?L * (K * ?s) \<le> (1 + 7 * u53) * (of_int (?a K) + ?c)"
  proof -
    have "?L * (K * ?s) \<le> of_int (?a K) + ?c"
      using amt_error(2) [OF K r lt] by (simp add: algebra_simps)
    then have "(1 + 7 * u53) * (?L * (K * ?s)) \<le> (1 + 7 * u53) * (of_int (?a K) + ?c)"
      by (rule mult_left_mono) simp
    then show ?thesis by (simp only: mult.assoc)
  qed
  also have "(1 + 7 * u53) * (of_int (?a K) + ?c) \<le> of_int (?a K) + ?c + 7 / 8 + 1 / 1000"
  proof -
    have "rat_of_int (?a K) \<le> rat_of_int 1125899906842624" using small by (simp only: of_int_le_iff)
    then have "7 * u53 * (of_int (?a K) + ?c) \<le> 7 * u53 * (1125899906842624 + ?c)"
      by (intro mult_left_mono) simp_all
    also have "\<dots> \<le> 7 / 8 + 1 / 1000" by (simp add: power_int_def power_divide)
    finally show ?thesis by (simp add: algebra_simps)
  qed
  finally have "rat_of_int (?a k1 + ?a k2 + ?a k3 + ?a k4) < rat_of_int (?a K + 4)" by simp
  then show ?thesis by (simp only: of_int_less_iff)
qed


subsection \<open>The cost of canonical buckets\<close>

lemma amt_zero [simp]: "amt (raw_amount 0 r) = 0"
  by (simp add: amt_def raw_amount_def fround_def)

lemma creation_cost_amt:
  assumes "0 \<le> t" "t \<le> MaxInt32" "or_zero price = Fin q" "0 \<le> q"
  shows "fst (creation_cost t price (Fin r)) = amt (raw_amount (of_int t * q) r)"
  using assms by (auto simp: creation_cost_def or_zero_def roundScaled_amt split: option.splits)

definition bucket_bounds :: "canonical_buckets \<Rightarrow> bool" where
  "bucket_bounds b \<longleftrightarrow> (\<forall>v \<in> set (bucket_list b). 0 \<le> v \<and> v \<le> MaxInt32)"

lemma canonical_cost_amounts:
  assumes b: "bucket_bounds b" and r: "0 < r"
    and p: "mp_Input p = Fin qi" "base_read p = Fin qr" "or_zero (mp_Creation5m p) = Fin q5"
      "or_zero (mp_Creation1h p) = Fin q1" "mp_Output p = Fin qo"
    and q: "0 \<le> qi" "0 \<le> qr" "0 \<le> q5" "0 \<le> q1" "0 \<le> qo"
  defines "d \<equiv> calculateCanonicalCost p b (Fin r)"
  shows "cb_CanonicalCost d \<le> amt (raw_amount (of_int (bk_UncachedInputTokens b) * qi) r)
      + amt (raw_amount (of_int (bk_CacheReadTokens b) * qr) r)
      + amt (raw_amount (of_int (bk_CacheCreation5mTokens b) * q5) r)
      + amt (raw_amount (of_int (bk_CacheCreation1hTokens b) * q1) r)
      + amt (raw_amount (of_int (bk_OutputTokens b) * qo) r)"
    "cb_V0_10_2Cost d \<le> cb_CanonicalCost d" "0 \<le> cb_V0_10_2Cost d"
proof -
  let ?A = "\<lambda>t q. amt (raw_amount (of_int t * q) r)"
  have n: "0 \<le> bk_UncachedInputTokens b" "0 \<le> bk_CacheReadTokens b" "0 \<le> bk_CacheCreation5mTokens b"
      "0 \<le> bk_CacheCreation1hTokens b" "0 \<le> bk_OutputTokens b"
      "bk_UncachedInputTokens b \<le> MaxInt32" "bk_CacheReadTokens b \<le> MaxInt32" "bk_CacheCreation5mTokens b \<le> MaxInt32"
      "bk_CacheCreation1hTokens b \<le> MaxInt32" "bk_OutputTokens b \<le> MaxInt32"
    using b by (simp_all add: bucket_bounds_def bucket_list_def)
  have nn: "0 \<le> ?A t q" if "0 \<le> t" "0 \<le> q" for t q
    using that r by (intro amt_mono(2) [OF _ order_refl]) simp_all
  note A = nn [OF n(1) q(1)] nn [OF n(2) q(2)] nn [OF n(3) q(3)] nn [OF n(4) q(4)] nn [OF n(5) q(5)]
  let ?v0 = "min MaxInt64 (?A (bk_UncachedInputTokens b) qi + (?A (bk_CacheReadTokens b) qr + ?A (bk_OutputTokens b) qo))"
  have v0: "cb_V0_10_2Cost d = ?v0"
    using n q A by (simp add: d_def calculateCanonicalCost_def Let_def p roundScaled_amt max_absorb1 saturatingCostSum_eq)
  have z: "0 \<le> ?v0" using A by (simp add: MaxInt64_def)
  have c: "cb_CanonicalCost d = min MaxInt64 (min MaxInt64 (?v0 + ?A (bk_CacheCreation5mTokens b) q5)
      + ?A (bk_CacheCreation1hTokens b) q1)"
    using n q A z
    by (simp add: d_def calculateCanonicalCost_def Let_def p roundScaled_amt max_absorb1 saturatingCostSum_eq
        creation_cost_amt [OF _ _ p(3)] creation_cost_amt [OF _ _ p(4)] MaxInt64_def)
  show "cb_V0_10_2Cost d \<le> cb_CanonicalCost d" "0 \<le> cb_V0_10_2Cost d" using A z unfolding v0 c by linarith+
  show "cb_CanonicalCost d \<le> ?A (bk_UncachedInputTokens b) qi + ?A (bk_CacheReadTokens b) qr
      + ?A (bk_CacheCreation5mTokens b) q5 + ?A (bk_CacheCreation1hTokens b) q1 + ?A (bk_OutputTokens b) qo"
    unfolding c by linarith
qed

lemma finalUserCost_le:
  "cb_V0_10_2Cost d \<le> cb_CanonicalCost d \<Longrightarrow> finalUserCost M d \<le> cb_CanonicalCost d"
  by (simp add: finalUserCost_def)

subsection \<open>A settlement and its frozen amount\<close>

lemma freezeServiceTier_SomeD:
  assumes "freezeServiceTier E c m = Inr (Some f)"
  shows "service_tier_Validate (te_Zones E) c" "stc_Enabled c" "validTierBound (ft_Request f)" "ft_Config f = c"
    "ft_MaxCost f = tier_max_cost (ft_Request f) (MaximumPrice (ForTimeBand c (ft_PricingTimeBand f))) m"
  using assms by (auto simp: freezeServiceTier_def Let_def tierScope_def split: if_splits option.splits)

lemma tierUsageBounds_NoneD:
  assumes "tierUsageBounds f u = None"
  obtains e b where "lu_Envelope u = Some e" "ue_Canonical e = Some b" "ue_ParseStatus e = ''verified''"
    "lu_UsageContractVersion u = 1" "validateV1Envelope (Some e) = []" "list_all (\<lambda>v. 0 \<le> v) (bucket_list b)"
    "saturatingCostSum [bk_UncachedInputTokens b, bk_CacheReadTokens b, bk_CacheCreation5mTokens b,
       bk_CacheCreation1hTokens b] \<le> tq_InputTokenBound (ft_Request f)"
    "bk_OutputTokens b \<le> tq_OutputTokenBound (ft_Request f)"
  using assms by (fastforce simp: tierUsageBounds_def hasNegative_def list_all_iff list_ex_iff not_less
      split: option.splits if_splits)


lemma tier_max_cost_amounts:
  assumes "validTierBound q" "max_input_price m = Fin x" "0 \<le> x" "mp_Output m = Fin y" "0 \<le> y" "0 < r"
    "tier_max_cost q m (Fin r) \<le> 1125899906842624"
  shows "amt (raw_amount (of_int (tq_InputTokenBound q) * x) r)
      + amt (raw_amount (of_int (tq_OutputTokenBound q) * y) r) + 4 \<le> tier_max_cost q m (Fin r)"
proof -
  have b: "0 < tq_InputTokenBound q" "0 < tq_OutputTokenBound q" "tq_InputTokenBound q \<le> MaxInt32"
      "tq_OutputTokenBound q \<le> MaxInt32"
    using assms(1) by (simp_all add: validTierBound_def)
  let ?i = "amt (raw_amount (of_int (tq_InputTokenBound q) * x) r)"
  let ?o = "amt (raw_amount (of_int (tq_OutputTokenBound q) * y) r)"
  have n: "0 \<le> ?i" "0 \<le> ?o"
    using amt_mono(2) [OF _ order_refl assms(6)] b assms by simp_all
  have "roundScaled (tq_InputTokenBound q) (max_input_price m) (Fin r) = ?i"
    "roundScaled (tq_OutputTokenBound q) (mp_Output m) (Fin r) = ?o"
    using b assms by (simp_all add: roundScaled_amt)
  with n assms(7) show ?thesis
    by (auto simp: tier_max_cost_def Let_def saturatingCostSum_eq MaxInt64_def split: if_splits)
qed

lemma tier_selection_prices:
  assumes "freezeServiceTier E c (Fin r) = Inr (Some f)"
  defines "m \<equiv> MaximumPrice (ForTimeBand c (ft_PricingTimeBand f))"
  shows "good_price (fst (tierSelection f u))" "price_le (fst (tierSelection f u)) m" "good_price m"
  using selection_le_maximum [OF freezeServiceTier_SomeD(1,2) [OF assms(1)]] freezeServiceTier_SomeD(4) [OF assms(1)]
  by (auto simp: tierSelection_def Let_def m_def)

text \<open>C10. A frozen amount covers its settlement: when a tier was frozen for a reservation with a finite positive
  group ratio and an amount of at most \<open>2 ^ 50\<close> units, a verified usage within the reserved token bounds
  settles in charge mode, at a cost within the frozen amount, whatever tier the provider reports and
  whichever buckets the input tokens fall into: the four units allowed for rounding are enough.
\<close>

theorem tier_settlement_within_bound:
  assumes f: "freezeServiceTier E c (Fin r) = Inr (Some f)"
    and r: "0 < r" "r < max_double" and small: "ft_MaxCost f \<le> 1125899906842624"
    and charge: "CanonicalUsageModeFor M u = ''charge''" and u: "tierUsageBounds f u = None"
  shows "\<exists>cost d a. tier_settlement M f (Fin r) tokens u = Inr (cost, d, a) \<and> 0 \<le> cost \<and> cost < ft_MaxCost f"
proof -
  let ?q = "ft_Request f" and ?p = "fst (tierSelection f u)"
  define m where "m = MaximumPrice (ForTimeBand c (ft_PricingTimeBand f))"
  note F = freezeServiceTier_SomeD [OF f, folded m_def]
  note P = tier_selection_prices(1,2) [OF f, where u = u, folded m_def] tier_selection_prices(3) [OF f, folded m_def]
  obtain e b where eb: "lu_Envelope u = Some e" "ue_Canonical e = Some b" "ue_ParseStatus e = ''verified''"
    "lu_UsageContractVersion u = 1" "validateV1Envelope (Some e) = []" and nn: "list_all (\<lambda>v. 0 \<le> v) (bucket_list b)"
    and tin: "saturatingCostSum [bk_UncachedInputTokens b, bk_CacheReadTokens b, bk_CacheCreation5mTokens b,
       bk_CacheCreation1hTokens b] \<le> tq_InputTokenBound ?q"
    and tout: "bk_OutputTokens b \<le> tq_OutputTokenBound ?q"
    by (rule tierUsageBounds_NoneD [OF u])
  obtain cr where cr: "mp_CacheRead m = Some cr" using MaximumPrice_read m_def by blast
  obtain x where x: "max_input_price m = Fin x" "0 \<le> x" "f_le (mp_Input m) (Fin x)" "f_le (base_read m) (Fin x)"
    "f_le (or_zero (mp_Creation5m m)) (Fin x)" "f_le (or_zero (mp_Creation1h m)) (Fin x)"
    by (rule max_input_price_bounds [OF P(3) cr])
  obtain y where y: "mp_Output m = Fin y" "0 \<le> y" using P(3) by (auto simp: good_price_def fin0_def)
  have bnd: "tq_InputTokenBound ?q \<le> MaxInt32" "tq_OutputTokenBound ?q \<le> MaxInt32"
    using F(3) by (simp_all add: validTierBound_def)
  from P(1) obtain qi qr q5 q1 qo where p: "mp_Input ?p = Fin qi" "base_read ?p = Fin qr"
      "or_zero (mp_Creation5m ?p) = Fin q5" "or_zero (mp_Creation1h ?p) = Fin q1" "mp_Output ?p = Fin qo"
      and q: "0 \<le> qi" "0 \<le> qr" "0 \<le> q5" "0 \<le> q1" "0 \<le> qo"
    by (auto simp: good_price_def fin0_def)
  have qx: "qi \<le> x" "qr \<le> x" "q5 \<le> x" "q1 \<le> x" "qo \<le> y"
    using P(2) f_le_trans x(3-6) y unfolding price_le_def p by (metis f_le_Fin)+
  have t: "bk_UncachedInputTokens b + bk_CacheReadTokens b + bk_CacheCreation5mTokens b + bk_CacheCreation1hTokens b
      \<le> tq_InputTokenBound ?q"
    using tin nn bnd(1) by (auto simp: saturatingCostSum_eq bucket_list_def MaxInt64_def MaxInt32_def min_def split: if_splits)
  have bb: "bucket_bounds b"
    using nn t tout bnd by (auto simp: bucket_bounds_def bucket_list_def)
  let ?d = "calculateCanonicalCost ?p b (Fin r)"
  note cost = canonical_cost_amounts [OF bb r(1) p q]
  have T: "tq_InputTokenBound ?q \<ge> 0" using F(3) by (simp add: validTierBound_def)
  have mc: "amt (raw_amount (of_int (tq_InputTokenBound ?q) * x) r)
      + amt (raw_amount (of_int (tq_OutputTokenBound ?q) * y) r) + 4 \<le> ft_MaxCost f"
    using tier_max_cost_amounts [OF F(3) x(1,2) y r(1)] small unfolding F(5) by simp
  have oo: "amt (raw_amount (of_int (bk_OutputTokens b) * qo) r) \<le> amt (raw_amount (of_int (tq_OutputTokenBound ?q) * y) r)"
    using nn q qx tout by (intro amt_mono(1) [OF _ mult_mono r(1)]) (simp_all add: bucket_list_def)
  have ii: "amt (raw_amount (of_int (bk_UncachedInputTokens b) * qi) r)
      + amt (raw_amount (of_int (bk_CacheReadTokens b) * qr) r)
      + amt (raw_amount (of_int (bk_CacheCreation5mTokens b) * q5) r)
      + amt (raw_amount (of_int (bk_CacheCreation1hTokens b) * q1) r)
      \<le> amt (raw_amount (of_int (tq_InputTokenBound ?q) * x) r) + 3"
  proof (rule four_amounts [OF _ _ _ _ _ r])
    have "of_int (bk_UncachedInputTokens b) * qi + of_int (bk_CacheReadTokens b) * qr
        + of_int (bk_CacheCreation5mTokens b) * q5 + of_int (bk_CacheCreation1hTokens b) * q1
        \<le> of_int (bk_UncachedInputTokens b) * x + of_int (bk_CacheReadTokens b) * x
        + of_int (bk_CacheCreation5mTokens b) * x + of_int (bk_CacheCreation1hTokens b) * x"
      using nn qx by (intro add_mono mult_left_mono) (simp_all add: bucket_list_def)
    also have "\<dots> = of_int (bk_UncachedInputTokens b + bk_CacheReadTokens b + bk_CacheCreation5mTokens b
        + bk_CacheCreation1hTokens b) * x" by (simp add: algebra_simps)
    also have "\<dots> \<le> of_int (tq_InputTokenBound ?q) * x"
      using t x(2) by (intro mult_right_mono) (simp_all only: of_int_le_iff)
    finally show "of_int (bk_UncachedInputTokens b) * qi + of_int (bk_CacheReadTokens b) * qr
        + of_int (bk_CacheCreation5mTokens b) * q5 + of_int (bk_CacheCreation1hTokens b) * q1
        \<le> of_int (tq_InputTokenBound ?q) * x" .
    have "0 \<le> amt (raw_amount (of_int (tq_OutputTokenBound ?q) * y) r)"
      using F(3) y by (intro amt_mono(2) [OF _ order_refl r(1)]) (simp add: validTierBound_def)
    then show "amt (raw_amount (of_int (tq_InputTokenBound ?q) * x) r) \<le> 1125899906842624"
      using mc small by linarith
  qed (use nn q in \<open>simp_all add: bucket_list_def\<close>)
  have "cb_CanonicalCost ?d < ft_MaxCost f" using cost(1) ii oo mc by linarith
  moreover have "resolveUserCost M ?p (Fin r) tokens u
      = (finalUserCost M ?d, ?d, audit_canonical e b (audit_envelope (Some e) (empty_audit 1)))"
    using eb charge by (simp add: resolveUserCost_def Let_def)
  moreover have "0 \<le> finalUserCost M ?d" using cost(2,3) by (simp add: finalUserCost_def)
  ultimately show ?thesis
    using finalUserCost_le [OF cost(2), of M] by (simp add: tier_settlement_def u Let_def)
qed


text \<open>A sample tariff: three tiers, prices of a few millionths of a dollar per token.\<close>

definition demo_tariff :: "rat \<Rightarrow> model_price" where
  "demo_tariff q = \<lparr>mp_Input = Fin (3 * q), mp_Output = Fin (12 * q), mp_CacheRead = Some (Fin q),
     mp_Creation5m = Some (Fin (4 * q)), mp_Creation1h = None\<rparr>"

definition demo_tier :: service_tier_config where
  "demo_tier = \<lparr>stc_Version = 1, stc_Enabled = True, stc_SourceKind = ''channel'', stc_SourceID = 7,
     stc_Model = ''gpt'', stc_Prices = [(''default'', demo_tariff (1 / 1048576)), (''priority'', demo_tariff (1 / 524288)),
       (''flex'', demo_tariff (1 / 2097152))], stc_UpstreamPrices = None, stc_LongContext = None, stc_TimePricing = None\<rparr>"

definition demo_tier_env :: tier_env where
  "demo_tier_env = \<lparr>te_Zones = (\<lambda>_. None), te_Digest = (\<lambda>_. ''digest''), te_SnapshotsEnabled = True,
     te_ExecutionIntent = False, te_Source = \<lparr>ts_Kind = ''channel'', ts_Model = ''gpt'', ts_ID = 7\<rparr>,
     te_Request = \<lparr>tq_RequestedServiceTier = ''priority'', tq_Protocol = ''openai_chat'',
       tq_InputTokenBound = 1000, tq_OutputTokenBound = 100, tq_Version = 1\<rparr>, te_Now = 0, te_Unix = 0\<rparr>"

definition demo_buckets :: canonical_buckets where
  "demo_buckets = \<lparr>bk_UncachedInputTokens = 400, bk_CacheReadTokens = 300, bk_CacheCreation5mTokens = 200,
     bk_CacheCreation1hTokens = 50, bk_OutputTokens = 90\<rparr>"

definition demo_envelope :: usage_envelope where
  "demo_envelope = \<lparr>ue_ParserRevision = [], ue_ContractRevision = [], ue_PresentPaths = [],
     ue_ParseStatus = ''verified'', ue_Semantics = ''openai_subset'', ue_Protocol = [], ue_FieldShape = [],
     ue_DecisionReason = [], ue_ReportedPromptTokens = 950, ue_ReportedOutputTokens = 90,
     ue_ReportedCacheReadTokens = 300, ue_ReportedCacheCreation5mTokens = 200,
     ue_ReportedCacheCreation1hTokens = 50, ue_ReportedTotalTokens = 1040, ue_Canonical = Some demo_buckets,
     ue_SubsetCandidate = None, ue_ExclusiveCandidate = None\<rparr>"

definition demo_billed :: billed_usage where
  "demo_billed = \<lparr>lu_PromptTokens = 950, lu_CompletionTokens = 90, lu_CacheReadTokens = 300,
     lu_CacheCreation5mTokens = 200, lu_CacheCreation1hTokens = 50, lu_UpstreamCost = 0, lu_PromptExclusive = False,
     lu_UsageContractVersion = 1, lu_Envelope = Some demo_envelope, bu_ActualServiceTier = ''priority'',
     bu_ServiceTierStatus = ''reported'', bu_FrozenServiceTier = Some demo_tier, bu_FrozenPricingTimeBand = [],
     bu_SubscriptionAccountID = 0, bu_UpstreamModelID = ''gpt'', bu_SourceKind = ''channel''\<rparr>"

definition demo_modes :: billing_modes where
  "demo_modes = \<lparr>bm_CacheCreation = ''charge'', bm_Canonical = ''charge'', bm_ChargeAll = True, bm_ChargeAllowlist = []\<rparr>"

definition demo_frozen :: frozen_tier where
  "demo_frozen = \<lparr>ft_PricingTimeBand = [], ft_PricingTimeUnix = 0, ft_Config = demo_tier,
     ft_Request = te_Request demo_tier_env, ft_ConfigHash = ''digest'', ft_Policy = ''actual_or_max_v1'',
     ft_MaxCost = 103\<rparr>"

lemma demo_frozen_eq: "freezeServiceTier demo_tier_env demo_tier (Fin 1) = Inr (Some demo_frozen)"
  by code_simp

theorem tier_settlement_within_bound_witness:
  "\<exists>cost d a. tier_settlement demo_modes demo_frozen (Fin 1) 1040 demo_billed = Inr (cost, d, a)
     \<and> 0 \<le> cost \<and> cost < ft_MaxCost demo_frozen"
proof (rule tier_settlement_within_bound [OF demo_frozen_eq])
  show "ft_MaxCost demo_frozen \<le> 1125899906842624" by (simp add: demo_frozen_def)
  show "CanonicalUsageModeFor demo_modes demo_billed = ''charge''" by code_simp
  show "tierUsageBounds demo_frozen demo_billed = None" by code_simp
qed (simp_all add: max_double_def)


text \<open>C34. A frozen tier passes its own validation: what the reservation stored is accepted when the settlement
  reads it back, as long as the configuration has the same digest and the stored second falls into the
  same price band as the instant of freezing; and it is frozen only for the source and model of the
  configuration, with an amount of at least one unit.\<close>

theorem frozen_tier_valid:
  assumes f: "freezeServiceTier E c m = Inr (Some f)"
    and clock: "0 < te_Unix E" "\<And>tp. BandAt (te_Zones E) tp (instant (te_Unix E)) = BandAt (te_Zones E) tp (te_Now E)"
  shows "frozen_tier_Validate (te_Zones E) (te_Digest E) instant (Some f) \<and> tierScope (te_Source E) (ft_Config f)
    \<and> ft_Config f = c \<and> 1 \<le> ft_MaxCost f"
proof -
  have "1 \<le> tier_max_cost q p x" for q p x by (simp add: tier_max_cost_def Let_def)
  with f show ?thesis
    by (auto simp: freezeServiceTier_def Let_def frozen_tier_Validate_def tierScope_def clock not_less
        split: if_splits option.splits)
qed

theorem frozen_tier_valid_witness:
  "frozen_tier_Validate (te_Zones (demo_tier_env\<lparr>te_Unix := 5\<rparr>)) (te_Digest (demo_tier_env\<lparr>te_Unix := 5\<rparr>)) (\<lambda>_. 0) (Some demo_frozen)
    \<and> tierScope (te_Source (demo_tier_env\<lparr>te_Unix := 5\<rparr>)) (ft_Config demo_frozen)
    \<and> ft_Config demo_frozen = demo_tier \<and> 1 \<le> ft_MaxCost demo_frozen"
proof (rule frozen_tier_valid)
  show "freezeServiceTier (demo_tier_env\<lparr>te_Unix := 5\<rparr>) demo_tier (Fin 1) = Inr (Some demo_frozen)" by code_simp
qed (simp_all add: demo_tier_env_def)

end
