(* ===== verification/User_Cost.thy ===== *)
theory User_Cost
  imports Tier_Settlement
begin

text \<open>
  What a user pays (\<open>app/billing/internal/biz/billing.go\<close>): the parts of a cost breakdown add up, more
  tokens never cost less, and a report that admits two readings is charged at the cheaper one. The last
  part shows that an accepted peak calendar never counts a minute twice.
\<close>

subsection \<open>More tokens never cost less\<close>

lemma f_of_int_int64:
  assumes "0 \<le> t" "t \<le> MaxInt64"
  obtains a where "f_of_int t = Fin a" "0 \<le> a"
proof -
  have "f_le (f_of_int t) (fround 9223372036854775808)"
    using assms unfolding f_of_int_def by (intro fround_mono) (simp add: MaxInt64_def)
  moreover have "fround 9223372036854775808 = Fin 9223372036854775808" by code_simp
  moreover have "f_le (Fin 0) (f_of_int t)" using assms by (simp add: f_of_int_def fround_nonneg)
  ultimately show thesis by (cases "f_of_int t") (auto intro: that)
qed

lemma roundScaled_mono:
  assumes "t \<le> t'" "t' \<le> MaxInt64" "0 < r"
  shows "roundScaled t (Fin x) (Fin r) \<le> roundScaled t' (Fin x) (Fin r)" "0 \<le> roundScaled t (Fin x) (Fin r)"
    "roundScaled t (Fin x) (Fin r) \<le> MaxInt64"
proof -
  have eq: "\<exists>a. f_of_int t = Fin a \<and> 0 \<le> a \<and> roundScaled t (Fin x) (Fin r) = amt (raw_amount (a * x) r)"
    if "0 < t" "t \<le> MaxInt64" "0 < x" for t
  proof -
    have t: "0 \<le> t" "t \<le> MaxInt64" using that by simp_all
    obtain a where a: "f_of_int t = Fin a" "0 \<le> a" by (rule f_of_int_int64 [OF t])
    with that show ?thesis by (simp add: roundScaled_def raw_amount_def amt_def Let_def)
  qed
  have z: "roundScaled t (Fin x) (Fin r) = 0" if "t \<le> 0 \<or> x \<le> 0" for t
    using that by (auto simp: roundScaled_def)
  have ran: "0 \<le> roundScaled t (Fin x) (Fin r) \<and> roundScaled t (Fin x) (Fin r) \<le> MaxInt64"
    if t: "t \<le> MaxInt64" for t
  proof (cases "t \<le> 0 \<or> x \<le> 0")
    case True
    with z show ?thesis by (simp add: MaxInt64_def)
  next
    case False
    with eq t obtain a where a: "0 \<le> a" "roundScaled t (Fin x) (Fin r) = amt (raw_amount (a * x) r)"
      by (metis not_le)
    have "0 \<le> a * x" using a(1) False by simp
    from amt_mono(2,3) [OF this order_refl assms(3)] show ?thesis by (simp add: a(2))
  qed
  show "0 \<le> roundScaled t (Fin x) (Fin r)" "roundScaled t (Fin x) (Fin r) \<le> MaxInt64"
    using ran assms(1,2) by (meson order_trans)+
  show "roundScaled t (Fin x) (Fin r) \<le> roundScaled t' (Fin x) (Fin r)"
  proof (cases "t \<le> 0 \<or> x \<le> 0")
    case True
    with z ran assms(2) show ?thesis by simp
  next
    case False
    then have p: "0 < t" "0 < t'" "0 < x" "t \<le> MaxInt64" using assms by auto
    obtain a where a: "f_of_int t = Fin a" "0 \<le> a" "roundScaled t (Fin x) (Fin r) = amt (raw_amount (a * x) r)"
      using eq [OF p(1,4,3)] by blast
    obtain a' where a': "f_of_int t' = Fin a'" "roundScaled t' (Fin x) (Fin r) = amt (raw_amount (a' * x) r)"
      using eq [OF p(2) assms(2) p(3)] by blast
    have "f_le (Fin a) (Fin a')"
      unfolding a(1) [symmetric] a'(1) [symmetric] f_of_int_def using assms(1) by (intro fround_mono) simp
    then have "a * x \<le> a' * x" using p(3) by (intro mult_right_mono) simp_all
    then show ?thesis unfolding a(3) a'(2) using a(2) p(3) assms(3) by (intro amt_mono(1)) simp_all
  qed
qed


lemma fin0_Fin [simp]: "fin0 (Fin q) \<longleftrightarrow> 0 \<le> q"
  by (simp add: fin0_def)

text \<open>The costs of the five buckets of \<open>calculateCanonicalCost\<close>, in the order in which they are added.\<close>

definition bucket_costs :: "model_price \<Rightarrow> canonical_buckets \<Rightarrow> float64 \<Rightarrow> int64 list" where
  "bucket_costs p b m =
     [roundScaled (bk_UncachedInputTokens b) (mp_Input p) m, roundScaled (bk_CacheReadTokens b) (base_read p) m,
      roundScaled (bk_OutputTokens b) (mp_Output p) m, roundScaled (bk_CacheCreation5mTokens b) (or_zero (mp_Creation5m p)) m,
      roundScaled (bk_CacheCreation1hTokens b) (or_zero (mp_Creation1h p)) m]"

definition buckets_le :: "canonical_buckets \<Rightarrow> canonical_buckets \<Rightarrow> bool" where
  "buckets_le b c \<longleftrightarrow> list_all2 (\<le>) (bucket_list b) (bucket_list c)"

definition int64_buckets :: "canonical_buckets \<Rightarrow> bool" where
  "int64_buckets b \<longleftrightarrow> list_all (\<lambda>v. v \<le> MaxInt64) (bucket_list b)"

lemma roundScaled_clip [simp]: "roundScaled (max t 0) x m = roundScaled t x m"
  by (simp add: roundScaled_def max_def)

lemma creation_cost_fst: "fst (creation_cost (max t 0) p m) = roundScaled t (or_zero p) m"
  by (auto simp: creation_cost_def or_zero_def roundScaled_def max_def split: option.splits)

lemma roundScaled_fin0_nonneg:
  "fin0 x \<Longrightarrow> 0 < r \<Longrightarrow> t \<le> MaxInt64 \<Longrightarrow> 0 \<le> roundScaled t x (Fin r)"
  by (auto simp: fin0_def roundScaled_mono(2) [OF order_refl])

lemma bucket_costs_nonneg:
  assumes "good_price p" "int64_buckets b" "0 < r"
  shows "list_all (\<lambda>v. 0 \<le> v) (bucket_costs p b (Fin r))"
  using assms by (simp add: bucket_costs_def good_price_def int64_buckets_def bucket_list_def roundScaled_fin0_nonneg)

lemma canonical_cost_sums:
  assumes "good_price p" "int64_buckets b" "0 < r"
  defines "d \<equiv> calculateCanonicalCost p b (Fin r)" and "cs \<equiv> bucket_costs p b (Fin r)"
  shows "cb_V0_10_2Cost d = min MaxInt64 (sum_list (take 3 cs))" "cb_CanonicalCost d = min MaxInt64 (sum_list cs)"
    "cb_ShadowCost d = cb_CanonicalCost d - cb_V0_10_2Cost d"
proof -
  note nn = bucket_costs_nonneg [OF assms(1-3), folded cs_def]
  obtain a b' c' e f where cs: "cs = [a, b', c', e, f]" by (simp add: cs_def bucket_costs_def)
  have n: "0 \<le> a" "0 \<le> b'" "0 \<le> c'" "0 \<le> e" "0 \<le> f" using nn by (simp_all add: cs)
  have v0: "cb_V0_10_2Cost d = saturatingCostSum [a, b', c']"
    using cs by (simp add: d_def cs_def calculateCanonicalCost_def bucket_costs_def Let_def)
  have cc: "cb_CanonicalCost d = saturatingCostSum [saturatingCostSum [saturatingCostSum [a, b', c'], e], f]"
    using cs by (simp add: d_def cs_def calculateCanonicalCost_def bucket_costs_def Let_def creation_cost_fst)
  show "cb_V0_10_2Cost d = min MaxInt64 (sum_list (take 3 cs))"
    unfolding v0 using n by (simp add: cs saturatingCostSum_eq)
  show "cb_CanonicalCost d = min MaxInt64 (sum_list cs)"
    unfolding cc using n by (simp add: cs saturatingCostSum_eq MaxInt64_def)
  have "cb_V0_10_2Cost d \<le> cb_CanonicalCost d"
    unfolding v0 cc using n by (simp add: saturatingCostSum_eq MaxInt64_def)
  moreover have "cb_ShadowCost d = max (cb_CanonicalCost d - cb_V0_10_2Cost d) 0"
    by (simp add: d_def calculateCanonicalCost_def Let_def)
  ultimately show "cb_ShadowCost d = cb_CanonicalCost d - cb_V0_10_2Cost d" by simp
qed

text \<open>C32. More tokens never cost less: for valid prices and a finite positive group ratio, a usage that has at
  least as many tokens in every bucket costs at least as much, with and without the cache-creation
  buckets, in spite of the floating-point products, the rounding per bucket and the saturating sums.
\<close>

theorem canonical_cost_mono:
  assumes p: "good_price p" and b: "buckets_le b c" "int64_buckets c" and r: "0 < r"
  shows "finalUserCost M (calculateCanonicalCost p b (Fin r)) \<le> finalUserCost M (calculateCanonicalCost p c (Fin r))"
proof -
  let ?b = "bucket_costs p b (Fin r)" and ?c = "bucket_costs p c (Fin r)"
  have ib: "int64_buckets b"
    using b by (auto simp: buckets_le_def int64_buckets_def bucket_list_def)
  have le: "list_all2 (\<le>) ?b ?c"
    using p b r by (auto simp: bucket_costs_def good_price_def fin0_def buckets_le_def int64_buckets_def bucket_list_def
        intro!: roundScaled_mono(1))
  have s: "sum_list xs \<le> sum_list ys" if "list_all2 (\<le>) xs ys" for xs ys :: "int list"
    using that by (induction rule: list_all2_induct) simp_all
  have "sum_list (take 3 ?b) \<le> sum_list (take 3 ?c)" by (rule s) (simp add: list_all2_takeI le)
  moreover have "sum_list ?b \<le> sum_list ?c" by (rule s [OF le])
  ultimately show ?thesis
    using canonical_cost_sums [OF p ib r] canonical_cost_sums [OF p b(2) r] by (auto simp: finalUserCost_def)
qed

theorem canonical_cost_mono_witness:
  "finalUserCost demo_modes (calculateCanonicalCost (demo_tariff (1 / 524288)) demo_buckets (Fin 1))
     \<le> finalUserCost demo_modes (calculateCanonicalCost (demo_tariff (1 / 524288)) (demo_buckets\<lparr>bk_OutputTokens := 120\<rparr>) (Fin 1))"
  by (rule canonical_cost_mono)
    (simp_all add: demo_tariff_def demo_buckets_def good_price_def base_read_def or_zero_def buckets_le_def
      int64_buckets_def bucket_list_def MaxInt64_def)

subsection \<open>Ambiguous reports\<close>

text \<open>C33. A report with two readings is charged at the cheaper one: when the envelope of a report is invalid,
  missing or ambiguous and the producer is not on the legacy contract or mode, the price of the model is
  applied to the subset reading and to the exclusive reading, both amounts are kept for the audit, and
  the charge is the smaller; the same rule holds for ratio pricing.
\<close>

theorem ambiguous_pays_lower:
  assumes "lu_UsageContractVersion u \<ge> 1" "CanonicalUsageModeFor M u \<noteq> ''legacy''"
    and "validateV1Envelope (lu_Envelope u) \<noteq> [] \<or> (\<exists>e. lu_Envelope u = Some e \<and> ue_ParseStatus e = ''ambiguous'')"
  shows "case calculateCostWithPricing M P g model tokens u of (cost, _, a) \<Rightarrow>
    cost = min (ua_SubsetCandidateCost a) (ua_ExclusiveCandidateCost a) \<and> ua_UsageParseStatus a = ''ambiguous''
    \<and> (case pr_ModelPrices P (normalizePricingModelKey model) of
        None \<Rightarrow> ua_SubsetCandidateCost a = calculateRatioCanonicalCost P g model (fst (candidates u))
          \<and> ua_ExclusiveCandidateCost a = calculateRatioCanonicalCost P g model (snd (candidates u))
      | Some price \<Rightarrow>
          ua_SubsetCandidateCost a = finalUserCost M (calculateCanonicalCost price (fst (candidates u)) (getGroupRatio P g))
          \<and> ua_ExclusiveCandidateCost a
            = finalUserCost M (calculateCanonicalCost price (snd (candidates u)) (getGroupRatio P g)))"
proof -
  let ?m = "getGroupRatio P g"
  have amb: "case ambiguousUserCost M price ?m u bd lf a reason of (cost, _, a) \<Rightarrow>
      cost = min (ua_SubsetCandidateCost a) (ua_ExclusiveCandidateCost a) \<and> ua_UsageParseStatus a = ''ambiguous''
      \<and> ua_SubsetCandidateCost a = finalUserCost M (calculateCanonicalCost price (fst (candidates u)) ?m)
      \<and> ua_ExclusiveCandidateCost a = finalUserCost M (calculateCanonicalCost price (snd (candidates u)) ?m)"
    for price bd lf a reason
    using assms(2) by (cases "candidates u") (simp add: ambiguousUserCost_def Let_def audit_ambiguous_def)
  show ?thesis
  proof (cases "pr_ModelPrices P (normalizePricingModelKey model)")
    case None
    then show ?thesis
      using assms by (cases "candidates u")
        (auto simp: calculateCostWithPricing_def resolveRatioUserCost_def Let_def audit_ambiguous_def)
  next
    case (Some price)
    have "\<exists>bd lf a reason. resolveUserCost M price ?m tokens u = ambiguousUserCost M price ?m u bd lf a reason"
    proof (cases "validateV1Envelope (lu_Envelope u) = []")
      case True
      with assms(3) obtain e where "lu_Envelope u = Some e" "ue_ParseStatus e = ''ambiguous''" by auto
      with True assms(1) show ?thesis by (auto simp: resolveUserCost_def Let_def)
    qed (use assms(1) in \<open>auto simp: resolveUserCost_def Let_def\<close>)
    then obtain bd lf a reason
      where eq: "resolveUserCost M price ?m tokens u = ambiguousUserCost M price ?m u bd lf a reason" by blast
    show ?thesis
      using amb [of price bd lf a reason] Some by (auto simp: calculateCostWithPricing_def eq split: prod.splits)
  qed
qed


definition demo_prices :: pricing_config where
  "demo_prices = \<lparr>pr_GroupRatios = Map.empty, pr_ModelRatios = Map.empty, pr_CompletionRatios = Map.empty,
     pr_ModelPrices = [''gpt'' \<mapsto> demo_tariff (1 / 1048576)], pr_UpstreamPrices = Map.empty\<rparr>"

theorem ambiguous_pays_lower_witness:
  "case calculateCostWithPricing demo_modes demo_prices ''default'' ''gpt'' 1040 (demo_billed\<lparr>lu_Envelope := None\<rparr>) of
    (cost, _, a) \<Rightarrow>
    cost = min (ua_SubsetCandidateCost a) (ua_ExclusiveCandidateCost a) \<and> ua_UsageParseStatus a = ''ambiguous''
    \<and> (case pr_ModelPrices demo_prices (normalizePricingModelKey ''gpt'') of
        None \<Rightarrow> ua_SubsetCandidateCost a = calculateRatioCanonicalCost demo_prices ''default'' ''gpt''
            (fst (candidates (demo_billed\<lparr>lu_Envelope := None\<rparr>)))
          \<and> ua_ExclusiveCandidateCost a = calculateRatioCanonicalCost demo_prices ''default'' ''gpt''
            (snd (candidates (demo_billed\<lparr>lu_Envelope := None\<rparr>)))
      | Some price \<Rightarrow>
          ua_SubsetCandidateCost a = finalUserCost demo_modes (calculateCanonicalCost price
            (fst (candidates (demo_billed\<lparr>lu_Envelope := None\<rparr>))) (getGroupRatio demo_prices ''default''))
          \<and> ua_ExclusiveCandidateCost a = finalUserCost demo_modes (calculateCanonicalCost price
            (snd (candidates (demo_billed\<lparr>lu_Envelope := None\<rparr>))) (getGroupRatio demo_prices ''default'')))"
  by (rule ambiguous_pays_lower)
    (simp_all add: demo_billed_def demo_modes_def CanonicalUsageModeFor_def CanonicalUsageMode_def validateV1Envelope_def)

subsection \<open>Peak calendars\<close>

definition in_window :: "time_window \<Rightarrow> int \<Rightarrow> bool" where
  "in_window w m \<longleftrightarrow> tw_StartMinute w \<le> m \<and> m < tw_EndMinute w"

definition valid_window :: "time_window \<Rightarrow> bool" where
  "valid_window w \<longleftrightarrow> tw_Weekdays w \<noteq> [] \<and> 0 \<le> tw_StartMinute w \<and> tw_StartMinute w < tw_EndMinute w
     \<and> tw_EndMinute w \<le> 1440 \<and> list_all (\<lambda>d. 1 \<le> d \<and> d \<le> 7) (tw_Weekdays w) \<and> distinct (tw_Weekdays w)"

definition separate_windows :: "time_window \<Rightarrow> time_window \<Rightarrow> bool" where
  "separate_windows v w \<longleftrightarrow> (\<forall>d m. \<not> (d \<in> set (tw_Weekdays v) \<and> in_window v m \<and> d \<in> set (tw_Weekdays w) \<and> in_window w m))"

lemma mark_minutes_eq:
  "mark_minutes s n d occ = (if \<exists>m. s \<le> m \<and> m < s + int n \<and> occ d m then None
     else Some (\<lambda>d' m. occ d' m \<or> (d' = d \<and> s \<le> m \<and> m < s + int n)))"
proof (induction n arbitrary: s occ)
  case (Suc n)
  have split: "(s \<le> m \<and> m < s + int (Suc n)) = (m = s \<or> (s + 1 \<le> m \<and> m < s + 1 + int n))" for m by auto
  show ?case
  proof (cases "occ d s")
    case True
    then have "\<exists>m. s \<le> m \<and> m < s + int (Suc n) \<and> occ d m" by (intro exI [of _ s]) simp
    with True show ?thesis by simp
  next
    case False
    then have "(\<exists>m. s \<le> m \<and> m < s + int (Suc n) \<and> occ d m) = (\<exists>m. s + 1 \<le> m \<and> m < s + 1 + int n \<and> occ d m)"
      using split by (metis (no_types, lifting))
    moreover have "(\<lambda>d' m. (if d' = d then (occ d)(s := True) else occ d') m \<or> d' = d \<and> s + 1 \<le> m \<and> m < s + 1 + int n)
        = (\<lambda>d' m. occ d' m \<or> (d' = d \<and> s \<le> m \<and> m < s + int (Suc n)))"
      unfolding split by (auto simp: fun_eq_iff)
    ultimately show ?thesis
      using False by (simp only: mark_minutes.simps Suc.IH if_False fun_upd_apply) (auto simp: fun_eq_iff fun_upd_def)
  qed
qed (auto simp: fun_eq_iff)

lemma mark_days_eq:
  assumes "tw_StartMinute w < tw_EndMinute w"
  shows "mark_days w ds occ =
    (if list_all (\<lambda>d. 1 \<le> d \<and> d \<le> 7) ds \<and> distinct ds \<and> (\<forall>d m. d \<in> set ds \<and> in_window w m \<longrightarrow> \<not> occ d m)
     then Some (\<lambda>d m. occ d m \<or> (d \<in> set ds \<and> in_window w m)) else None)"
proof (induction ds arbitrary: occ)
  case (Cons d ds)
  have e: "(\<exists>m. tw_StartMinute w \<le> m \<and> m < tw_StartMinute w + int (nat (tw_EndMinute w - tw_StartMinute w)) \<and> occ d m)
      = (\<exists>m. in_window w m \<and> occ d m)"
    using assms by (auto simp: in_window_def)
  have f: "(\<lambda>d' m. occ d' m \<or> (d' = d \<and> tw_StartMinute w \<le> m
        \<and> m < tw_StartMinute w + int (nat (tw_EndMinute w - tw_StartMinute w))))
      = (\<lambda>d' m. occ d' m \<or> (d' = d \<and> in_window w m))"
    using assms by (auto simp: in_window_def fun_eq_iff)
  have ne: "in_window w (tw_StartMinute w)" using assms by (simp add: in_window_def)
  show ?case
    unfolding mark_days.simps mark_minutes_eq e f using ne by (auto simp: Cons.IH fun_eq_iff)
qed simp

lemma mark_windows_eq:
  "mark_windows ws occ = None \<longleftrightarrow> \<not> (list_all valid_window ws \<and> sorted_wrt separate_windows ws
     \<and> (\<forall>w d m. w \<in> set ws \<and> d \<in> set (tw_Weekdays w) \<and> in_window w m \<longrightarrow> \<not> occ d m))"
proof (induction ws arbitrary: occ)
  case (Cons w ws)
  show ?case
  proof (cases "tw_Weekdays w = [] \<or> tw_StartMinute w < 0 \<or> tw_StartMinute w \<ge> tw_EndMinute w \<or> tw_EndMinute w > 1440")
    case True
    then show ?thesis by (auto simp: valid_window_def)
  next
    case False
    then have "tw_StartMinute w < tw_EndMinute w" by simp
    note d = mark_days_eq [OF this]
    let ?free = "\<forall>d m. d \<in> set (tw_Weekdays w) \<and> in_window w m \<longrightarrow> \<not> occ d m"
    let ?occ = "\<lambda>d m. occ d m \<or> d \<in> set (tw_Weekdays w) \<and> in_window w m"
    have v: "valid_window w \<longleftrightarrow> list_all (\<lambda>d. 1 \<le> d \<and> d \<le> 7) (tw_Weekdays w) \<and> distinct (tw_Weekdays w)"
      using False by (auto simp: valid_window_def)
    have step: "mark_windows (w # ws) occ = (if valid_window w \<and> ?free then mark_windows ws ?occ else None)"
      using False unfolding mark_windows.simps v by (auto simp: d)
    show ?thesis
    proof (cases "valid_window w \<and> ?free")
      case True
      have "mark_windows (w # ws) occ = None \<longleftrightarrow> mark_windows ws ?occ = None"
        unfolding step if_P [OF True] by (rule refl)
      also have "\<dots> \<longleftrightarrow> \<not> (list_all valid_window ws \<and> sorted_wrt separate_windows ws
          \<and> (\<forall>v d m. v \<in> set ws \<and> d \<in> set (tw_Weekdays v) \<and> in_window v m \<longrightarrow> \<not> ?occ d m))"
        by (rule Cons.IH)
      finally show ?thesis
        using True unfolding list.pred_inject sorted_wrt.simps list.set insert_iff separate_windows_def by blast
    next
      case False
      with step show ?thesis by auto
    qed
  qed
qed simp

lemma holidays_ok_eq: "holidays_ok through ds seen \<longleftrightarrow>
    list_all (\<lambda>d. pricingDate d \<and> \<not> str_less through d) ds \<and> distinct ds \<and> set ds \<inter> set seen = {}"
  by (induction ds arbitrary: seen) auto

text \<open>The price tables of the peak band; a long context needs peak tables of its own.\<close>

definition peak_prices_ok :: "time_pricing \<Rightarrow> long_context option \<Rightarrow> bool" where
  "peak_prices_ok c longContext \<longleftrightarrow> validateCompleteContextPrices (tp_PeakPrices c)
     \<and> (case tp_PeakUpstreamPrices c of None \<Rightarrow> True | Some up \<Rightarrow> validateCompleteContextPrices up)
     \<and> (case longContext of
          None \<Rightarrow> tp_PeakLongContextPrices c = None \<and> tp_PeakLongContextUpstreamPrices c = None
        | Some lc \<Rightarrow> long_context_Validate (Some (lc\<lparr>
            lc_Prices := (case tp_PeakLongContextPrices c of None \<Rightarrow> [] | Some m \<Rightarrow> m),
            lc_UpstreamPrices := tp_PeakLongContextUpstreamPrices c\<rparr>)) (tp_PeakPrices c))"

text \<open>C35. A peak calendar is accepted exactly when it names a known time zone other than \<open>Local\<close>, is valid
  through a date, lists distinct holidays not after that date, has windows of which every one is well
  formed and names no weekday twice and no two share a minute of a weekday, and its price tables are
  complete. So an accepted calendar never counts a minute twice, although the code finds that out by
  marking the minutes one by one.\<close>

theorem peak_windows_exact:
  "time_pricing_Validate Z (Some c) longContext \<longleftrightarrow>
     tp_Timezone c \<notin> {[], ''Local''} \<and> Z (tp_Timezone c) \<noteq> None
     \<and> pricingDate (tp_CalendarValidThrough c)
     \<and> list_all (\<lambda>d. pricingDate d \<and> \<not> str_less (tp_CalendarValidThrough c) d) (tp_Holidays c)
     \<and> distinct (tp_Holidays c)
     \<and> tp_PeakWindows c \<noteq> [] \<and> list_all valid_window (tp_PeakWindows c)
     \<and> sorted_wrt separate_windows (tp_PeakWindows c)
     \<and> peak_prices_ok c longContext"
proof -
  have lc: "\<lparr>lc_ThresholdTokens = lc_ThresholdTokens lc, lc_Policy = lc_Policy lc, lc_Prices = a, lc_UpstreamPrices = b\<rparr>
      = lc\<lparr>lc_Prices := a, lc_UpstreamPrices := b\<rparr>" for lc :: long_context and a b by (cases lc) simp
  have w: "mark_windows (tp_PeakWindows c) (\<lambda>_ _. False) = None \<longleftrightarrow>
      \<not> (list_all valid_window (tp_PeakWindows c) \<and> sorted_wrt separate_windows (tp_PeakWindows c))"
    by (simp add: mark_windows_eq)
  have up: "(case tp_PeakUpstreamPrices c of None \<Rightarrow> False | Some up \<Rightarrow> \<not> validateCompleteContextPrices up)
      \<longleftrightarrow> \<not> (case tp_PeakUpstreamPrices c of None \<Rightarrow> True | Some up \<Rightarrow> validateCompleteContextPrices up)"
    by (simp split: option.split)
  show ?thesis
    unfolding time_pricing_Validate_def peak_prices_ok_def option.case w up holidays_ok_eq lc by auto
qed

end
