(* ===== verification/Upstream_Errors.thy ===== *)
theory Upstream_Errors
  imports Go_Strings
begin

text \<open>
  The error values of the relay and what it reads out of them (\<open>internal/biz/retry.go\<close>,
  \<open>domain/upstream/provider/health.go\<close>, \<open>internal/biz/upstream_observation.go\<close>). A Go error is a
  tree of wrapped errors, a nil error is \<open>None\<close>. \<open>errors.As\<close> and \<open>errors.Is\<close> search \<open>err_chain\<close>,
  the tree in pre-order; \<open>AsRetryableError\<close> follows single wraps only. The classifications decide
  three things: whether a failed attempt is tried again, what it says of the health of the
  source, and what it says of the model on that source. \<open>json_valid\<close> stands for the JSON
  library, \<open>done\<close> tells whether the request context has ended.
\<close>

subsection \<open>Error values\<close>

datatype err =
    Errorf string
  | Wrapped string err
  | Joined string "err list"
  | Canceled
  | DeadlineExceeded
  | ErrEOF
  | ErrUnexpectedEOF
  | ErrQuarantined
  | NetError string "err option"
  | RetryableError int "err option" "bool option" bool
  | PostForwardError err bool
  | ProtocolCapabilityError err
  | PreForwardError err
  | ConfigurationError err
  | ExecutionCapacityError err
  | CapabilityError string
  | UpstreamHTTPError int int string
  | Rejection err

text \<open>\<open>Error()\<close> of each type.\<close>

fun error_text :: "err \<Rightarrow> string" where
  "error_text (Errorf s) = s"
| "error_text (Wrapped s e) = s"
| "error_text (Joined s es) = s"
| "error_text Canceled = ''context canceled''"
| "error_text DeadlineExceeded = ''context deadline exceeded''"
| "error_text ErrEOF = ''EOF''"
| "error_text ErrUnexpectedEOF = ''unexpected EOF''"
| "error_text ErrQuarantined = ''protocol incident is quarantined''"
| "error_text (NetError s e) = s"
| "error_text (RetryableError status e retry local) = ''status='' @ FormatInt status @ '', '' @
     (case e of None \<Rightarrow> ''<nil>'' | Some x \<Rightarrow> error_text x)"
| "error_text (PostForwardError e u) = error_text e"
| "error_text (ProtocolCapabilityError e) = error_text e"
| "error_text (PreForwardError e) = error_text e"
| "error_text (ConfigurationError e) = error_text e"
| "error_text (ExecutionCapacityError e) = error_text e"
| "error_text (CapabilityError feature) =
     feature @ '' is not implemented or is incompatible with the selected provider''"
| "error_text (UpstreamHTTPError after status body) =
     ''upstream error: status='' @ FormatInt status @ '', body='' @ body"
| "error_text (Rejection e) = error_text e"

text \<open>The errors \<open>errors.As\<close> and \<open>errors.Is\<close> look at, in their order.\<close>

fun err_chain :: "err \<Rightarrow> err list" where
  "err_chain (Wrapped s e) = Wrapped s e # err_chain e"
| "err_chain (Joined s es) = Joined s es # concat (map err_chain es)"
| "err_chain (NetError s e) = NetError s e # (case e of None \<Rightarrow> [] | Some x \<Rightarrow> err_chain x)"
| "err_chain (RetryableError status e retry local) =
     RetryableError status e retry local # (case e of None \<Rightarrow> [] | Some x \<Rightarrow> err_chain x)"
| "err_chain (PostForwardError e u) = PostForwardError e u # err_chain e"
| "err_chain (ProtocolCapabilityError e) = ProtocolCapabilityError e # err_chain e"
| "err_chain (PreForwardError e) = PreForwardError e # err_chain e"
| "err_chain (ConfigurationError e) = ConfigurationError e # err_chain e"
| "err_chain (ExecutionCapacityError e) = ExecutionCapacityError e # err_chain e"
| "err_chain (Rejection e) = Rejection e # err_chain e"
| "err_chain e = [e]"

definition chain :: "err option \<Rightarrow> err list" where
  "chain err = (case err of None \<Rightarrow> [] | Some e \<Rightarrow> err_chain e)"

text \<open>\<open>errors.As\<close> with a target type given by what it yields of an error of that type.\<close>

fun first_as :: "(err \<Rightarrow> 'a option) \<Rightarrow> err list \<Rightarrow> 'a option" where
  "first_as f [] = None"
| "first_as f (e # es) = (case f e of Some x \<Rightarrow> Some x | None \<Rightarrow> first_as f es)"

definition errors_As :: "(err \<Rightarrow> 'a option) \<Rightarrow> err option \<Rightarrow> 'a option" where
  "errors_As f err = first_as f (chain err)"

definition errors_Is :: "err option \<Rightarrow> err \<Rightarrow> bool" where
  "errors_Is err target \<longleftrightarrow> target \<in> set (chain err)"

definition message_of :: "err option \<Rightarrow> string" where
  "message_of err = (case err of None \<Rightarrow> [] | Some e \<Rightarrow> error_text e)"

subsection \<open>Target types\<close>

fun as_retryable :: "err \<Rightarrow> (int \<times> bool option \<times> bool) option" where
  "as_retryable (RetryableError status e retry local) = Some (status, retry, local)"
| "as_retryable e = None"

fun as_http :: "err \<Rightarrow> (int \<times> int \<times> string) option" where
  "as_http (UpstreamHTTPError after status body) = Some (after, status, body)"
| "as_http e = None"

text \<open>The types with a method \<open>UpstreamStatusCode\<close>.\<close>

fun as_status :: "err \<Rightarrow> int option" where
  "as_status (RetryableError status e retry local) = Some status"
| "as_status (UpstreamHTTPError after status body) = Some status"
| "as_status e = None"

fun as_post_forward :: "err \<Rightarrow> bool option" where
  "as_post_forward (PostForwardError e u) = Some u"
| "as_post_forward e = None"

text \<open>\<open>net.Error\<close>: the network errors, and the deadline error of a context.\<close>

fun is_net_error :: "err \<Rightarrow> bool" where
  "is_net_error (NetError s e) = True"
| "is_net_error DeadlineExceeded = True"
| "is_net_error e = False"

fun is_capability :: "err \<Rightarrow> bool" where
  "is_capability (CapabilityError feature) = True"
| "is_capability e = False"

fun is_protocol_capability :: "err \<Rightarrow> bool" where
  "is_protocol_capability (ProtocolCapabilityError e) = True"
| "is_protocol_capability e = False"

fun is_pre_forward :: "err \<Rightarrow> bool" where
  "is_pre_forward (PreForwardError e) = True"
| "is_pre_forward e = False"

fun is_rejection :: "err \<Rightarrow> bool" where
  "is_rejection (Rejection e) = True"
| "is_rejection e = False"

fun is_configuration :: "err \<Rightarrow> bool" where
  "is_configuration (ConfigurationError e) = True"
| "is_configuration e = False"

fun is_capacity :: "err \<Rightarrow> bool" where
  "is_capacity (ExecutionCapacityError e) = True"
| "is_capacity e = False"

subsection \<open>Markers\<close>

definition IsLocalAdmissionError :: "err option \<Rightarrow> bool" where
  "IsLocalAdmissionError err = (case errors_As as_retryable err of
     None \<Rightarrow> False | Some (status, retry, local) \<Rightarrow> local)"

definition IsPostForwardError :: "err option \<Rightarrow> bool" where
  "IsPostForwardError err \<longleftrightarrow> errors_As as_post_forward err \<noteq> None"

text \<open>Only \<open>Rejection\<close> has the method \<open>BeforeUpstream\<close>, and it answers true.\<close>

definition IsPreForwardError :: "err option \<Rightarrow> bool" where
  "IsPreForwardError err \<longleftrightarrow> list_ex is_rejection (chain err) \<or> list_ex is_pre_forward (chain err)"

definition IsExplicitCapabilityError :: "err option \<Rightarrow> bool" where
  "IsExplicitCapabilityError err \<longleftrightarrow>
     list_ex is_capability (chain err) \<or> list_ex is_protocol_capability (chain err)"

definition BeforeForward :: "err option \<Rightarrow> err option" where
  "BeforeForward err = (case err of None \<Rightarrow> None
     | Some e \<Rightarrow> if IsPreForwardError err then err else Some (PreForwardError e))"

definition InvalidConfiguration :: "err option \<Rightarrow> err option" where
  "InvalidConfiguration err = (case err of None \<Rightarrow> None
     | Some e \<Rightarrow>
         if list_ex is_net_error (chain err) \<or> errors_Is err Canceled \<or> errors_Is err DeadlineExceeded
         then BeforeForward err else BeforeForward (Some (ConfigurationError e)))"

definition MarkPostForwardError :: "err option \<Rightarrow> err option" where
  "MarkPostForwardError err = (case err of None \<Rightarrow> None
     | Some e \<Rightarrow> if IsPostForwardError err then err else Some (PostForwardError e False))"

definition MarkUnverifiedResponseError :: "err option \<Rightarrow> err option" where
  "MarkUnverifiedResponseError err = (case err of None \<Rightarrow> None | Some e \<Rightarrow> Some (PostForwardError e True))"

subsection \<open>Status\<close>

text \<open>\<open>strings.Cut\<close> with a longer separator: what follows its first occurrence.\<close>

fun after_sub :: "string \<Rightarrow> string \<Rightarrow> string option" where
  "after_sub p [] = (if p = [] then Some [] else None)"
| "after_sub p (c # s) = (if has_prefix (c # s) p then Some (drop (length p) (c # s)) else after_sub p s)"

fun status_digits :: "int \<Rightarrow> string \<Rightarrow> int" where
  "status_digits status [] = status"
| "status_digits status (c # s) = (if is_digit c
     then status_digits (wrap64 (wrap64 (status * 10) + int (digit_val c))) s else status)"

definition extractStatus :: "string \<Rightarrow> int" where
  "extractStatus msg = (case after_sub ''status='' msg of
     Some after \<Rightarrow> status_digits 0 after | None \<Rightarrow> 0)"

text \<open>\<open>AsRetryableError\<close> unwraps by \<open>Unwrap() error\<close>, which a joined error does not have.\<close>

fun AsRetryableError :: "err \<Rightarrow> int option" where
  "AsRetryableError (RetryableError status e retry local) = Some status"
| "AsRetryableError (Wrapped s e) = AsRetryableError e"
| "AsRetryableError (NetError s e) = (case e of None \<Rightarrow> None | Some x \<Rightarrow> AsRetryableError x)"
| "AsRetryableError (PostForwardError e u) = AsRetryableError e"
| "AsRetryableError (ProtocolCapabilityError e) = AsRetryableError e"
| "AsRetryableError (PreForwardError e) = AsRetryableError e"
| "AsRetryableError (ConfigurationError e) = AsRetryableError e"
| "AsRetryableError (ExecutionCapacityError e) = AsRetryableError e"
| "AsRetryableError (Rejection e) = AsRetryableError e"
| "AsRetryableError e = None"

definition UpstreamStatus :: "err option \<Rightarrow> int" where
  "UpstreamStatus err =
     (if list_ex is_rejection (chain err) then (if errors_Is err ErrQuarantined then 503 else 400)
      else if IsExplicitCapabilityError err then 501
      else case err of None \<Rightarrow> 0
        | Some e \<Rightarrow> (case AsRetryableError e of Some status \<Rightarrow> status
            | None \<Rightarrow> (case errors_As as_http err of Some (after, status, body) \<Rightarrow> status
                | None \<Rightarrow> extractStatus (error_text e))))"

subsection \<open>Bodies and messages\<close>

text \<open>
  \<open>strings.ToLower\<close> as far as a search for an ASCII text can tell: beside \<open>A\<close> to \<open>Z\<close> two runes
  have an ASCII lower case, the Kelvin sign and the dotted capital I. Every other rune stays
  outside ASCII.
\<close>

fun lower_text :: "string \<Rightarrow> string" where
  "lower_text [] = []"
| "lower_text (c # s) =
     (if has_prefix (c # s) [CHR 0xE2, CHR 0x84, CHR 0xAA] then CHR ''k'' # lower_text (drop 2 s)
      else if has_prefix (c # s) [CHR 0xC4, CHR 0xB0] then CHR ''i'' # lower_text (drop 1 s)
      else lower_char c # lower_text s)"

definition capability_hint :: string where
  "capability_hint = ''reasoning_content in the thinking mode must be passed back''"

definition IsProtocolCapabilityMismatch :: "err option \<Rightarrow> bool" where
  "IsProtocolCapabilityMismatch err \<longleftrightarrow>
     (list_ex is_capability (chain err) \<or> list_ex is_protocol_capability (chain err)
      \<or> UpstreamStatus err = 400
        \<and> contains_sub (lower_text (message_of err)) capability_hint)"

definition MarkProtocolCapabilityError :: "err option \<Rightarrow> err option" where
  "MarkProtocolCapabilityError err = (case err of None \<Rightarrow> None
     | Some e \<Rightarrow> if IsProtocolCapabilityMismatch err then err else Some (ProtocolCapabilityError e))"

definition isRetryableNetworkError :: "err option \<Rightarrow> bool" where
  "isRetryableNetworkError err = (case err of None \<Rightarrow> False
     | Some e \<Rightarrow> list_ex (contains_sub (error_text e))
         [''connection refused'', ''timeout'', ''EOF'', ''dial tcp'', ''no such host'',
          ''temporary failure in name resolution'', ''server misbehaving''])"

definition isTimeoutError :: "err option \<Rightarrow> bool" where
  "isTimeoutError err = (case err of None \<Rightarrow> False
     | Some e \<Rightarrow> contains_sub (lower_text (error_text e)) ''timeout''
         \<or> contains_sub (lower_text (error_text e)) ''deadline exceeded'')"

definition upstream404IndicatesModel :: "(string \<Rightarrow> bool) \<Rightarrow> string \<Rightarrow> bool" where
  "upstream404IndicatesModel json_valid body = (let trimmed = trim_space body in
     if trimmed = [] then False
     else if json_valid trimmed then True
     else contains_sub (lower_text trimmed) ''model'')"

definition isUpstreamModelUnavailable :: "(string \<Rightarrow> bool) \<Rightarrow> err option \<Rightarrow> bool" where
  "isUpstreamModelUnavailable json_valid err = (case errors_As as_http err of
     None \<Rightarrow> False
   | Some (after, status, body) \<Rightarrow>
       if status = 404 then upstream404IndicatesModel json_valid body
       else contains_sub (lower_text body) ''service do not have healthy model''
          \<or> contains_sub (lower_text body) ''no healthy model'')"

definition isUpstreamPolicyRejection :: "err option \<Rightarrow> bool" where
  "isUpstreamPolicyRejection err = (case errors_As as_http err of
     None \<Rightarrow> False
   | Some (after, status, body) \<Rightarrow>
       contains_sub (lower_text body) ''sensitive_words_detected''
       \<or> contains_sub (lower_text body) ''cyber_policy''
       \<or> contains_sub (lower_text body) ''cyber safety'')"

subsection \<open>Retry and fallback\<close>

text \<open>\<open>RetryableStatus\<close> is the map of the policy, read at a status (an absent key is false).\<close>

definition IsRetryable :: "(int \<Rightarrow> bool) \<Rightarrow> err option \<Rightarrow> bool" where
  "IsRetryable RetryableStatus err =
     (if err = None then False
      else if IsPostForwardError err \<or> IsProtocolCapabilityMismatch err \<or> IsPreForwardError err then False
      else case errors_As as_retryable err of
        Some (status, Some retry, local) \<Rightarrow> retry
      | _ \<Rightarrow> if 0 < UpstreamStatus err then RetryableStatus (UpstreamStatus err)
             else isRetryableNetworkError err)"

definition DefaultRetryableStatus :: "int \<Rightarrow> bool" where
  "DefaultRetryableStatus status \<longleftrightarrow> status \<in> set [429, 500, 502, 503]"

definition ClassifyRetryFallbackReason :: "(string \<Rightarrow> bool) \<Rightarrow> err option \<Rightarrow> string" where
  "ClassifyRetryFallbackReason json_valid firstErr =
     (if firstErr = None then ''''
      else let status = UpstreamStatus firstErr in
        if IsProtocolCapabilityMismatch firstErr then ''capability_mismatch''
        else if isUpstreamModelUnavailable json_valid firstErr then ''model_unavailable''
        else if isUpstreamPolicyRejection firstErr then ''policy_rejection''
        else if status = 429 then ''rate_limited''
        else if 500 \<le> status then ''upstream_5xx''
        else if status = 0 \<and> (errors_Is firstErr DeadlineExceeded \<or> isTimeoutError firstErr) then ''timeout''
        else if status = 0 then ''network''
        else ''other'')"

subsection \<open>Health\<close>

datatype health = HealthNeutral | HealthSuccess | HealthFailure

definition HealthDisposition :: "bool \<Rightarrow> err option \<Rightarrow> health" where
  "HealthDisposition done err =
     (if err = None then HealthSuccess
      else if done \<or> errors_Is err Canceled \<or> IsPreForwardError err then HealthNeutral
      else case errors_As as_status err of
        Some code \<Rightarrow>
          if 0 < code then (if code < 500 \<or> code = 529 then HealthNeutral else HealthFailure)
          else if list_ex is_net_error (chain err) \<or> errors_Is err DeadlineExceeded
                  \<or> errors_Is err ErrEOF \<or> errors_Is err ErrUnexpectedEOF then HealthFailure
          else HealthNeutral
      | None \<Rightarrow>
          if list_ex is_net_error (chain err) \<or> errors_Is err DeadlineExceeded
             \<or> errors_Is err ErrEOF \<or> errors_Is err ErrUnexpectedEOF then HealthFailure
          else HealthNeutral)"

definition UpstreamHealthDisposition :: "(string \<Rightarrow> bool) \<Rightarrow> bool \<Rightarrow> err option \<Rightarrow> health" where
  "UpstreamHealthDisposition json_valid done err =
     (if IsLocalAdmissionError err \<or> IsProtocolCapabilityMismatch err
         \<or> isUpstreamModelUnavailable json_valid err \<or> isUpstreamPolicyRejection err then HealthNeutral
      else case errors_As as_post_forward err of
        Some unverified \<Rightarrow> if unverified then HealthNeutral else HealthSuccess
      | None \<Rightarrow> HealthDisposition done err)"

text \<open>\<open>modelHealthDisposition\<close>: whether to record the model route, and its outcome.\<close>

definition modelHealthDisposition :: "(string \<Rightarrow> bool) \<Rightarrow> bool \<Rightarrow> err option \<Rightarrow> bool \<times> bool" where
  "modelHealthDisposition json_valid done err =
     (if err = None then (True, True)
      else if done \<or> IsLocalAdmissionError err \<or> IsPostForwardError err \<or> IsProtocolCapabilityMismatch err
              \<or> isUpstreamPolicyRejection err \<or> IsPreForwardError err \<or> errors_Is err Canceled
           then (False, False)
      else if isUpstreamModelUnavailable json_valid err then (True, False)
      else if HealthDisposition done err = HealthFailure then (True, False)
      else (False, False))"

definition upstreamFailureKind :: "(string \<Rightarrow> bool) \<Rightarrow> bool \<Rightarrow> err option \<Rightarrow> string" where
  "upstreamFailureKind json_valid done err =
     (if err = None \<or> done \<or> errors_Is err Canceled \<or> IsLocalAdmissionError err \<or> IsPostForwardError err then ''''
      else if list_ex is_configuration (chain err) then ''configuration''
      else if IsPreForwardError err \<or> IsProtocolCapabilityMismatch err \<or> isUpstreamPolicyRejection err then ''''
      else if isUpstreamModelUnavailable json_valid err then ''model''
      else if UpstreamStatus err \<in> set [429, 423, 529] then ''capacity''
      else if UpstreamStatus err \<in> set [401, 403, 404] then ''configuration''
      else '''')"

subsection \<open>The two dimensions of health agree\<close>

lemma HealthDisposition_Failure:
  "HealthDisposition done err = HealthFailure \<Longrightarrow> err \<noteq> None \<and> \<not> done \<and> \<not> errors_Is err Canceled \<and> \<not> IsPreForwardError err"
  by (auto simp: HealthDisposition_def split: if_split_asm)

text \<open>An outcome counts against a source exactly when it counts against the model on that source for
  another reason than the model being unavailable there. What never reached an upstream, or completed
  there, counts against neither.
\<close>

lemma failure_dimensions:
  "(UpstreamHealthDisposition jv ended err = HealthFailure
      \<longleftrightarrow> modelHealthDisposition jv ended err = (True, False) \<and> \<not> isUpstreamModelUnavailable jv err)
   \<and> \<not> (modelHealthDisposition jv ended err = (True, False)
        \<and> (IsLocalAdmissionError err \<or> IsPreForwardError err \<or> IsPostForwardError err))"
proof -
  have "UpstreamHealthDisposition jv ended err = HealthFailure \<longleftrightarrow>
      \<not> IsLocalAdmissionError err \<and> \<not> IsProtocolCapabilityMismatch err \<and> \<not> isUpstreamModelUnavailable jv err
      \<and> \<not> isUpstreamPolicyRejection err \<and> \<not> IsPostForwardError err \<and> HealthDisposition ended err = HealthFailure"
    by (auto simp: UpstreamHealthDisposition_def IsPostForwardError_def split: option.split)
  moreover have "modelHealthDisposition jv ended err = (True, False) \<longleftrightarrow>
      err \<noteq> None \<and> \<not> (ended \<or> IsLocalAdmissionError err \<or> IsPostForwardError err \<or> IsProtocolCapabilityMismatch err
              \<or> isUpstreamPolicyRejection err \<or> IsPreForwardError err \<or> errors_Is err Canceled)
      \<and> (isUpstreamModelUnavailable jv err \<or> HealthDisposition ended err = HealthFailure)"
    by (auto simp: modelHealthDisposition_def)
  ultimately show ?thesis using HealthDisposition_Failure [of ended err] by auto
qed

end
