(* ===== verification/Upstream_Model.thy ===== *)
theory Upstream_Model
  imports Go_Strings Wildcard
begin

text \<open>
  The model name sent to an upstream (\<open>domain/upstream/provider/model.go\<close>): the client-side context
  hint is stripped, the mapping of the source applies, then an explicit upstream model, then the
  spelling of the source's own model list. \<open>decode\<close> stands for the JSON library: it gives the
  entries of the mapping in the order Go's map iteration happens to visit them, or \<open>None\<close> when
  the text does not decode. One order serves both loops of a call, for the second is reached only
  when the first found nothing, in whatever order. \<open>u\<close> holds the case tables of Unicode (\<open>Wildcard\<close>).
\<close>

type_synonym mapping = "(string \<times> string) list"

text \<open>The suffix compared is four bytes, and no other rune folds to one of \<open>[1m]\<close>: ASCII case is enough.\<close>

definition ModelName :: "string \<Rightarrow> string" where
  "ModelName model = (let m = trim_space model in
     if 4 \<le> length m \<and> equal_fold (drop (length m - 4) m) ''[1m]''
     then trim_space (take (length m - 4) m) else m)"

text \<open>The wildcard pass over the mapping; the accumulators are the catch-all destination, the best
  destination, its key and its specificity.\<close>

fun mapping_loop :: "unicode \<Rightarrow> string \<Rightarrow> mapping \<Rightarrow> string \<times> string \<times> string \<times> nat \<Rightarrow> string \<times> string \<times> string \<times> nat" where
  "mapping_loop u model [] acc = acc"
| "mapping_loop u model ((key, dst) # rest) (catchAll, best, bestKey, bestSpec) =
     (if \<not> IsPattern key \<or> dst = [] then mapping_loop u model rest (catchAll, best, bestKey, bestSpec)
      else if key = ''*'' then mapping_loop u model rest (dst, best, bestKey, bestSpec)
      else if \<not> Match u key model then mapping_loop u model rest (catchAll, best, bestKey, bestSpec)
      else if bestSpec < Specificity key \<or> Specificity key = bestSpec \<and> length bestKey < length key
      then mapping_loop u model rest (catchAll, dst, key, Specificity key)
      else mapping_loop u model rest (catchAll, best, bestKey, bestSpec))"

definition mapped_wildcard :: "unicode \<Rightarrow> mapping \<Rightarrow> string \<Rightarrow> string option" where
  "mapped_wildcard u m model = (case mapping_loop u model m ([], [], [], 0) of (catchAll, best, bestKey, bestSpec) \<Rightarrow>
     if best \<noteq> [] then Some best else if catchAll \<noteq> [] then Some catchAll else None)"

definition mapped_exact :: "mapping \<Rightarrow> string \<Rightarrow> string option" where
  "mapped_exact m model = (case map_of m model of Some dst \<Rightarrow> if dst \<noteq> [] then Some dst else None | None \<Rightarrow> None)"

definition mapped_folded :: "unicode \<Rightarrow> mapping \<Rightarrow> string \<Rightarrow> string option" where
  "mapped_folded u m model = map_option snd
     (find (\<lambda>(key, dst). \<not> IsPattern key \<and> dst \<noteq> [] \<and> EqualFold u (ModelName key) model) m)"

definition resolveModelMapping :: "unicode \<Rightarrow> (string \<Rightarrow> mapping option) \<Rightarrow> string \<Rightarrow> string \<Rightarrow> string option" where
  "resolveModelMapping u decode mappingJSON model0 =
     (let model = ModelName model0; text = trim_space mappingJSON in
      if text = [] then None
      else case decode text of
        None \<Rightarrow> None
      | Some m \<Rightarrow> (case mapped_exact m model of Some dst \<Rightarrow> Some dst
          | None \<Rightarrow> (case mapped_exact m (ToLower u model) of Some dst \<Rightarrow> Some dst
              | None \<Rightarrow> (case mapped_folded u m model of Some dst \<Rightarrow> Some dst
                  | None \<Rightarrow> mapped_wildcard u m model))))"

fun configured_spelling :: "unicode \<Rightarrow> string \<Rightarrow> string list \<Rightarrow> string option" where
  "configured_spelling u model [] = None"
| "configured_spelling u model (c # cs) = (let configured = ModelName c in
     if configured \<noteq> [] \<and> \<not> IsPattern configured \<and> EqualFold u configured model then Some configured
     else configured_spelling u model cs)"

definition provider_ResolveModel :: "unicode \<Rightarrow> (string \<Rightarrow> mapping option) \<Rightarrow> string \<Rightarrow> string \<Rightarrow> string \<Rightarrow> string list \<Rightarrow> string" where
  "provider_ResolveModel u decode model0 mappingJSON upstreamModel configuredModels =
     (let model = ModelName model0 in
      case resolveModelMapping u decode mappingJSON model of
        Some mapped \<Rightarrow> ModelName mapped
      | None \<Rightarrow> let upstream = trim_space upstreamModel in
          if upstream \<noteq> [] then ModelName upstream
          else (case configured_spelling u model configuredModels of Some c \<Rightarrow> c | None \<Rightarrow> model))"

text \<open>
  Two patterns of one specificity and one length tie, and the visiting order decides: the comment
  at the loop calls the outcome deterministic.
\<close>

lemma mapping_tie:
  "mapped_wildcard demo_unicode [(''ab*'', ''x''), (''*bc'', ''y'')] ''abc'' = Some ''x''"
  "mapped_wildcard demo_unicode [(''*bc'', ''y''), (''ab*'', ''x'')] ''abc'' = Some ''y''"
  by code_simp+

text \<open>What the stripped hint leaves: without a hint and without outer space a name is its own.\<close>

lemma configured_spelling_found:
  "configured_spelling u model cs = Some c \<Longrightarrow> c \<noteq> [] \<and> \<not> IsPattern c \<and> EqualFold u c model"
  by (induction cs) (auto simp: Let_def split: if_splits)

end
