(* ===== verification/Route_Selector.thy ===== *)
theory Route_Selector
  imports Go_Strings "HOL-Library.Multiset"
begin

text \<open>
  The choice between routing sources of one priority (\<open>internal/biz/upstream_selector.go\<close>): the
  highest tier wins, and within it a smooth weighted round robin with a current weight per source
  and scope. \<open>None\<close> for the selector is the nil pointer. The lemmas carry the invariant of the
  round robin: the current weights of a tier sum to zero and stay above the negative total.
\<close>

subsection \<open>The selector\<close>

datatype route_kind = UpstreamRouteNone | UpstreamRouteChannel | UpstreamRouteSubscription

fun kind_number :: "route_kind \<Rightarrow> int" where
  "kind_number UpstreamRouteNone = 0"
| "kind_number UpstreamRouteChannel = 1"
| "kind_number UpstreamRouteSubscription = 2"

fun kind_String :: "route_kind \<Rightarrow> string" where
  "kind_String UpstreamRouteChannel = ''channel''"
| "kind_String UpstreamRouteSubscription = ''subscription''"
| "kind_String UpstreamRouteNone = ''unknown''"

record route_candidate =
  rc_Kind :: route_kind
  rc_ID :: int64
  rc_Priority :: int64
  rc_Weight :: int64

type_synonym weights = "(string \<times> int64) list"
type_synonym selector = "(string \<times> weights) list"

definition NewUpstreamRouteSelector :: selector where
  "NewUpstreamRouteSelector = []"

definition no_candidate :: route_candidate where
  "no_candidate = \<lparr>rc_Kind = UpstreamRouteNone, rc_ID = 0, rc_Priority = 0, rc_Weight = 0\<rparr>"

definition routeCandidateKey :: "route_candidate \<Rightarrow> string" where
  "routeCandidateKey c = FormatInt (kind_number (rc_Kind c)) @ '':'' @ FormatInt (rc_ID c)"

fun max_priority :: "int64 \<Rightarrow> route_candidate list \<Rightarrow> int64" where
  "max_priority p [] = p"
| "max_priority p (c # cs) = max_priority (if p < rc_Priority c then rc_Priority c else p) cs"

definition top_tier :: "route_candidate list \<Rightarrow> route_candidate list" where
  "top_tier cs = map (\<lambda>c. if rc_Weight c \<le> 0 then c\<lparr>rc_Weight := 1\<rparr> else c)
     (filter (\<lambda>c. rc_Priority c = max_priority (rc_Priority (hd cs)) (tl cs)) cs)"

text \<open>A read of a Go map: zero where the key is absent.\<close>

definition weight_of :: "weights \<Rightarrow> string \<Rightarrow> int64" where
  "weight_of m k = (case map_of m k of Some v \<Rightarrow> v | None \<Rightarrow> 0)"

text \<open>The loop over the tier; \<open>first\<close> is the test \<open>i == 0\<close>.\<close>

fun tier_loop :: "bool \<Rightarrow> route_candidate list \<Rightarrow> weights \<Rightarrow> int64 \<Rightarrow> route_candidate
    \<Rightarrow> weights \<times> int64 \<times> route_candidate" where
  "tier_loop first [] m W best = (m, W, best)"
| "tier_loop first (c # cs) m W best =
     (let m' = put (routeCandidateKey c) (wrap64 (weight_of m (routeCandidateKey c) + rc_Weight c)) m in
      tier_loop False cs m' (wrap64 (W + rc_Weight c))
        (if first \<or> weight_of m' (routeCandidateKey best) < weight_of m' (routeCandidateKey c) then c else best))"

definition pick :: "route_candidate list \<Rightarrow> weights \<Rightarrow> route_candidate \<times> weights" where
  "pick tier m = (case tier_loop True tier m 0 (hd tier) of (m', W, best) \<Rightarrow>
     (best, put (routeCandidateKey best) (wrap64 (weight_of m' (routeCandidateKey best) - W)) m'))"

definition scope_key :: "string \<Rightarrow> string \<Rightarrow> string" where
  "scope_key g model = g @ [CHR 0x00] @ model"

definition Select :: "selector option \<Rightarrow> string \<Rightarrow> string \<Rightarrow> route_candidate list
    \<Rightarrow> route_candidate \<times> selector option" where
  "Select s g model cs =
     (if cs = [] then (no_candidate, s)
      else let tier = top_tier cs in
        case s of None \<Rightarrow> (hd tier, s)
        | Some weights0 \<Rightarrow>
            if length tier = 1 then (hd tier, s)
            else let
              kept = (if 4096 \<le> length weights0 then [] else weights0);
              m = (case map_of kept (scope_key g model) of Some w \<Rightarrow> w | None \<Rightarrow> [])
            in case pick tier m of (best, m') \<Rightarrow> (best, Some (put (scope_key g model) m' kept)))"

text \<open>A sequence of selections from one scope.\<close>

fun select_run :: "nat \<Rightarrow> selector option \<Rightarrow> string \<Rightarrow> string \<Rightarrow> route_candidate list \<Rightarrow> route_candidate list" where
  "select_run 0 s g model cs = []"
| "select_run (Suc n) s g model cs =
     (case Select s g model cs of (c, s') \<Rightarrow> c # select_run n s' g model cs)"

subsection \<open>The tier\<close>

lemma max_priority_attained: "max_priority p cs = p \<or> max_priority p cs \<in> rc_Priority ` set cs"
  by (induction cs arbitrary: p) auto

lemma top_tier_nonempty: "cs \<noteq> [] \<Longrightarrow> top_tier cs \<noteq> []"
proof (cases cs)
  case (Cons c rest)
  from max_priority_attained [of "rc_Priority c" rest] Cons show ?thesis
    by (auto simp: top_tier_def filter_empty_conv)
qed simp

lemma top_tier_positive: "c \<in> set (top_tier cs) \<Longrightarrow> 0 < rc_Weight c"
  by (auto simp: top_tier_def split: if_split_asm)

lemma weight_of_put [simp]: "weight_of (put k v m) k' = (if k' = k then v else weight_of m k')"
  by (simp add: weight_of_def map_of_put)

subsection \<open>One round\<close>

abbreviation current :: "weights \<Rightarrow> route_candidate \<Rightarrow> int64" where
  "current m c \<equiv> weight_of m (routeCandidateKey c)"

definition total_weight :: "route_candidate list \<Rightarrow> int64" where
  "total_weight tier = (\<Sum>c \<leftarrow> tier. rc_Weight c)"

definition sound_tier :: "route_candidate list \<Rightarrow> bool" where
  "sound_tier tier \<longleftrightarrow> tier \<noteq> [] \<and> distinct (map routeCandidateKey tier) \<and> (\<forall>c \<in> set tier. 0 < rc_Weight c)
     \<and> int (length tier) * total_weight tier < 2 ^ 62"

lemma put_sum:
  "distinct (map routeCandidateKey tier) \<Longrightarrow> c \<in> set tier \<Longrightarrow>
   (\<Sum>x \<leftarrow> tier. current (put (routeCandidateKey c) v m) x) = (\<Sum>x \<leftarrow> tier. current m x) - current m c + v"
proof (induction tier)
  case (Cons x tier)
  show ?case
  proof (cases "c = x")
    case True
    with Cons.prems have "(\<Sum>y \<leftarrow> tier. current (put (routeCandidateKey c) v m) y) = (\<Sum>y \<leftarrow> tier. current m y)"
      by (intro arg_cong [where f = sum_list] map_cong) (auto simp: image_iff)
    with True show ?thesis by simp
  next
    case False
    with Cons show ?thesis by (auto simp: image_iff)
  qed
qed simp

text \<open>The invariant of the current weights between two selections.\<close>

definition balanced :: "route_candidate list \<Rightarrow> weights \<Rightarrow> bool" where
  "balanced tier m \<longleftrightarrow> (\<Sum>c \<leftarrow> tier. current m c) = 0 \<and> (\<forall>c \<in> set tier. - total_weight tier < current m c)"

lemma sum_list_ge_bound:
  "(\<And>x. x \<in> set xs \<Longrightarrow> (b :: int) \<le> f x) \<Longrightarrow> int (length xs) * b \<le> (\<Sum>x \<leftarrow> xs. f x)"
  by (induction xs) (fastforce simp: algebra_simps)+

lemma sum_list_le_zero: "(\<And>x. x \<in> set xs \<Longrightarrow> f x \<le> (0 :: int)) \<Longrightarrow> (\<Sum>x \<leftarrow> xs. f x) \<le> 0"
  by (induction xs) (auto intro: add_nonpos_nonpos)

lemma total_weight_nonneg: "(\<And>c. c \<in> set ps \<Longrightarrow> 0 < rc_Weight c) \<Longrightarrow> 0 \<le> total_weight ps"
  unfolding total_weight_def by (induction ps) (auto intro: add_nonneg_nonneg less_imp_le)

lemma total_weight_append [simp]:
  "total_weight (xs @ ys) = total_weight xs + total_weight ys" "total_weight (c # xs) = rc_Weight c + total_weight xs"
  "total_weight [] = 0"
  by (simp_all add: total_weight_def)

lemma sum_list_split:
  "c \<in> set xs \<Longrightarrow> (\<Sum>x \<leftarrow> xs. f x) = f c + (\<Sum>x \<leftarrow> remove1 c xs. (f x :: int))"
  by (induction xs) auto

lemma total_weight_bounds:
  assumes "sound_tier tier"
  shows "0 < total_weight tier" "c \<in> set tier \<Longrightarrow> rc_Weight c \<le> total_weight tier"
    "total_weight tier < 2 ^ 62"
proof -
  from assms have pos: "\<And>c. c \<in> set tier \<Longrightarrow> 0 < rc_Weight c" and ne: "tier \<noteq> []"
    by (auto simp: sound_tier_def)
  have w: "rc_Weight c \<le> total_weight tier" if "c \<in> set tier" for c
  proof -
    have "0 \<le> (\<Sum>x \<leftarrow> remove1 c tier. rc_Weight x)"
      using pos by (intro sum_list_nonneg) (auto dest: notin_set_remove1 less_imp_le)
    with sum_list_split [OF that, of rc_Weight] show ?thesis by (simp add: total_weight_def)
  qed
  from ne obtain d where "d \<in> set tier" by fastforce
  with w pos show p: "0 < total_weight tier" by fastforce
  from w show "c \<in> set tier \<Longrightarrow> rc_Weight c \<le> total_weight tier" .
  from ne have "1 * total_weight tier \<le> int (length tier) * total_weight tier"
    using p by (intro mult_right_mono) (auto simp: Suc_leI)
  with assms show "total_weight tier < 2 ^ 62" by (simp add: sound_tier_def)
qed

lemma balanced_bounds:
  assumes "sound_tier tier" "balanced tier m" "c \<in> set tier"
  shows "current m c + rc_Weight c < 2 ^ 62" "- (2 ^ 62) < current m c"
proof -
  let ?W = "total_weight tier"
  have ge: "\<And>x. x \<in> set (remove1 c tier) \<Longrightarrow> - ?W \<le> current m x"
    using assms(2) by (auto simp: balanced_def dest!: notin_set_remove1 [THEN contrapos_pp, rotated] less_imp_le)
  have "int (length (remove1 c tier)) * - ?W \<le> (\<Sum>x \<leftarrow> remove1 c tier. current m x)"
    using ge by (rule sum_list_ge_bound)
  moreover have "(\<Sum>x \<leftarrow> tier. current m x) = current m c + (\<Sum>x \<leftarrow> remove1 c tier. current m x)"
    using assms(3) by (rule sum_list_split)
  moreover have "int (length (remove1 c tier)) = int (length tier) - 1"
    using assms(3) by (simp add: length_remove1) (metis One_nat_def Suc_leI length_pos_if_in_set of_nat_1 of_nat_diff)
  ultimately have "current m c \<le> (int (length tier) - 1) * ?W"
    using assms(2) by (simp add: balanced_def)
  then have "current m c + rc_Weight c \<le> int (length tier) * ?W"
    using total_weight_bounds(2) [OF assms(1,3)] by (simp add: algebra_simps)
  with assms(1) show "current m c + rc_Weight c < 2 ^ 62" by (simp add: sound_tier_def)
  from assms(2,3) total_weight_bounds(3) [OF assms(1)] show "- (2 ^ 62) < current m c"
    by (force simp: balanced_def)
qed

lemma tier_loop_effect:
  assumes "\<And>c. c \<in> set (ps @ cs) \<Longrightarrow> - (2 ^ 62) < current m0 c \<and> current m0 c + rc_Weight c < 2 ^ 62 \<and> 0 < rc_Weight c"
    and "distinct (map routeCandidateKey (ps @ cs))" "total_weight (ps @ cs) < 2 ^ 62"
    and "\<And>c. c \<in> set ps \<Longrightarrow> current m c = current m0 c + rc_Weight c"
    and "\<And>c. c \<in> set cs \<Longrightarrow> current m c = current m0 c"
    and "W = total_weight ps"
    and "ps \<noteq> [] \<Longrightarrow> best \<in> set ps \<and> (\<forall>c \<in> set ps. current m c \<le> current m best)"
    and "ps @ cs \<noteq> []"
  shows "\<exists>m' b. tier_loop (ps = []) cs m W best = (m', total_weight (ps @ cs), b) \<and> b \<in> set (ps @ cs)
     \<and> (\<forall>c \<in> set (ps @ cs). current m' c = current m0 c + rc_Weight c \<and> current m' c \<le> current m' b)"
  using assms
proof (induction cs arbitrary: ps m W best)
  case Nil
  then show ?case by auto
next
  case (Cons c cs)
  let ?m = "put (routeCandidateKey c) (wrap64 (current m c + rc_Weight c)) m"
  let ?b = "if ps = [] \<or> current ?m best < current ?m c then c else best"
  from Cons.prems(1) [of c] Cons.prems(5) [of c]
  have nw: "wrap64 (current m c + rc_Weight c) = current m0 c + rc_Weight c"
    by (intro trans [OF wrap64_id]) (auto simp: in_int64_def int_limits)
  have nn: "0 \<le> total_weight ps" "0 < rc_Weight c" "0 \<le> total_weight cs"
    using Cons.prems(1) by (simp_all add: total_weight_nonneg)
  with Cons.prems(3,6) have W: "wrap64 (W + rc_Weight c) = total_weight (ps @ [c])"
    by (intro trans [OF wrap64_id]) (auto simp: in_int64_def int_limits)
  have keys: "routeCandidateKey c \<notin> routeCandidateKey ` set ps" "routeCandidateKey c \<notin> routeCandidateKey ` set cs" using Cons.prems(2) by auto
  have "\<exists>m' b. tier_loop ((ps @ [c]) = []) cs ?m (total_weight (ps @ [c])) ?b = (m', total_weight ((ps @ [c]) @ cs), b)
     \<and> b \<in> set ((ps @ [c]) @ cs)
     \<and> (\<forall>d \<in> set ((ps @ [c]) @ cs). current m' d = current m0 d + rc_Weight d \<and> current m' d \<le> current m' b)"
  proof (rule Cons.IH)
    show "d \<in> set (ps @ [c]) \<Longrightarrow> current ?m d = current m0 d + rc_Weight d" for d
      using Cons.prems(4) nw keys by (auto simp: image_iff)
    show "d \<in> set cs \<Longrightarrow> current ?m d = current m0 d" for d
      using Cons.prems(5) keys by (auto simp: image_iff)
    show "ps @ [c] \<noteq> [] \<Longrightarrow> ?b \<in> set (ps @ [c]) \<and> (\<forall>d \<in> set (ps @ [c]). current ?m d \<le> current ?m ?b)"
    proof -
      have old: "current ?m d = current m d" if "d \<in> set ps" for d using keys(1) that by (auto simp: image_iff)
      show ?thesis
      proof (cases "ps = [] \<or> current ?m best < current ?m c")
        case True
        have "current ?m d \<le> current ?m c" if "d \<in> set ps" for d
          using that True Cons.prems(7) old [of d] old [of best] by (cases ps) fastforce+
        with True show ?thesis by (simp only: if_True) auto
      next
        case False
        with Cons.prems(7) old show ?thesis by (simp only: if_False) auto
      qed
    qed
  qed (use Cons.prems in simp_all)
  then show ?case by (simp add: W Let_def)
qed

lemma pick_effect:
  assumes "sound_tier tier" "balanced tier m"
  shows "\<exists>b m'. pick tier m = (b, m') \<and> b \<in> set tier \<and> balanced tier m'
     \<and> (\<forall>c \<in> set tier. current m' c = current m c + rc_Weight c - (if c = b then total_weight tier else 0))"
proof -
  have pre: "\<And>c. c \<in> set tier \<Longrightarrow> - (2 ^ 62) < current m c \<and> current m c + rc_Weight c < 2 ^ 62 \<and> 0 < rc_Weight c"
    using assms balanced_bounds by (auto simp: sound_tier_def)
  obtain m1 b where l: "tier_loop True tier m 0 (hd tier) = (m1, total_weight tier, b)" and b: "b \<in> set tier"
    and eff: "\<And>c. c \<in> set tier \<Longrightarrow> current m1 c = current m c + rc_Weight c \<and> current m1 c \<le> current m1 b"
    using tier_loop_effect [of "[]" tier m m 0 "hd tier"] pre assms(1) total_weight_bounds(3) [OF assms(1)]
    by (auto simp: sound_tier_def total_weight_def)
  let ?W = "total_weight tier"
  have sum1: "(\<Sum>c \<leftarrow> tier. current m1 c) = ?W"
  proof -
    have "(\<Sum>c \<leftarrow> tier. current m1 c) = (\<Sum>c \<leftarrow> tier. current m c + rc_Weight c)"
      using eff by (auto intro!: arg_cong [where f = sum_list])
    with assms(2) show ?thesis by (simp add: sum_list_addf balanced_def total_weight_def)
  qed
  have pos: "0 < current m1 b"
  proof (rule ccontr)
    assume "\<not> 0 < current m1 b"
    with eff have "\<And>c. c \<in> set tier \<Longrightarrow> current m1 c \<le> 0" by fastforce
    from sum_list_le_zero [of tier "current m1", OF this] sum1 total_weight_bounds(1) [OF assms(1)] show False by simp
  qed
  have nw: "wrap64 (current m1 b - ?W) = current m1 b - ?W"
    using pos pre [OF b] eff [OF b] total_weight_bounds [OF assms(1)] 
    by (intro wrap64_id) (auto simp: in_int64_def int_limits)
  define m' where "m' = put (routeCandidateKey b) (current m1 b - ?W) m1"
  have pk: "pick tier m = (b, m')" by (simp add: pick_def l nw m'_def)
  have inj: "\<And>c. c \<in> set tier \<Longrightarrow> routeCandidateKey c = routeCandidateKey b \<longleftrightarrow> c = b"
    using assms(1) b by (auto simp: sound_tier_def distinct_map inj_on_def)
  have new: "\<And>c. c \<in> set tier \<Longrightarrow> current m' c = current m c + rc_Weight c - (if c = b then ?W else 0)"
    using eff inj by (auto simp: m'_def)
  have "(\<Sum>c \<leftarrow> tier. current m' c) = 0"
    using put_sum [of tier b "current m1 b - ?W" m1] assms(1) b sum1 by (simp add: m'_def sound_tier_def)
  moreover have "- ?W < current m' c" if "c \<in> set tier" for c
    using new [OF that] pre [OF that] pos eff [OF b] assms(2) that by (auto simp: balanced_def)
  ultimately show ?thesis using pk b new by (auto simp: balanced_def)
qed

subsection \<open>Fairness\<close>

fun pick_run :: "nat \<Rightarrow> route_candidate list \<Rightarrow> weights \<Rightarrow> route_candidate list \<times> weights" where
  "pick_run 0 tier m = ([], m)"
| "pick_run (Suc n) tier m =
     (case pick tier m of (b, m') \<Rightarrow> case pick_run n tier m' of (bs, m'') \<Rightarrow> (b # bs, m''))"

lemma pick_run_effect:
  assumes "sound_tier tier" "balanced tier m" "pick_run n tier m = (bs, m')"
  shows "balanced tier m' \<and> length bs = n \<and> set bs \<subseteq> set tier
     \<and> (\<forall>c \<in> set tier. current m' c = current m c + int n * rc_Weight c - total_weight tier * int (count_list bs c))"
  using assms(2,3)
proof (induction n arbitrary: m bs)
  case 0
  then show ?case by auto
next
  case (Suc n)
  from pick_effect [OF assms(1) Suc.prems(1)] obtain b m1 where p: "pick tier m = (b, m1)" "b \<in> set tier"
    "balanced tier m1" "\<forall>c \<in> set tier. current m1 c = current m c + rc_Weight c - (if c = b then total_weight tier else 0)"
    by blast
  obtain bs1 m2 where r: "pick_run n tier m1 = (bs1, m2)" by fastforce
  with Suc.prems(2) p(1) have bs: "bs = b # bs1" "m' = m2" by auto
  from Suc.IH [OF p(3)] r bs(2) p(2,4) bs(1) show ?case by (auto simp: algebra_simps)
qed

lemma count_list_sum: "set bs \<subseteq> set xs \<Longrightarrow> distinct xs \<Longrightarrow> (\<Sum>x \<leftarrow> xs. int (count_list bs x)) = int (length bs)"
proof (induction bs)
  case Nil
  then show ?case by (induction xs) auto
next
  case (Cons b bs)
  have "(\<Sum>x \<leftarrow> xs. int (count_list (b # bs) x)) = (\<Sum>x \<leftarrow> xs. (if b = x then 1 else 0) + int (count_list bs x))"
    by (intro arg_cong [where f = sum_list] map_cong) auto
  also have "\<dots> = (\<Sum>x \<leftarrow> xs. if b = x then 1 else 0) + int (length bs)"
    using Cons by (simp add: sum_list_addf)
  also have "(\<Sum>x \<leftarrow> xs. if b = x then 1 else (0 :: int)) = 1"
    using Cons.prems by (simp add: sum_list_distinct_conv_sum_set)
  finally show ?case by simp
qed

lemma equal_sums:
  assumes "\<And>x. x \<in> set xs \<Longrightarrow> f x \<le> (g x :: int)" "(\<Sum>x \<leftarrow> xs. f x) = (\<Sum>x \<leftarrow> xs. g x)" "x \<in> set xs"
  shows "f x = g x"
  using assms
proof (induction xs)
  case (Cons y ys)
  have "(\<Sum>x \<leftarrow> ys. f x) \<le> (\<Sum>x \<leftarrow> ys. g x)" using Cons.prems(1) by (intro sum_list_mono) auto
  moreover have "f y \<le> g y" using Cons.prems(1) by simp
  ultimately have "f y = g y" "(\<Sum>x \<leftarrow> ys. f x) = (\<Sum>x \<leftarrow> ys. g x)" using Cons.prems(2) by simp_all
  with Cons show ?case by (cases "x = y") auto
qed simp

lemma pick_run_exact:
  assumes "sound_tier tier" "\<forall>c \<in> set tier. current m c = 0" "c \<in> set tier"
  shows "int (count_list (fst (pick_run (nat (total_weight tier)) tier m)) c) = rc_Weight c"
proof -
  let ?W = "total_weight tier"
  obtain bs m' where r: "pick_run (nat ?W) tier m = (bs, m')" by fastforce
  have W: "0 < ?W" by (rule total_weight_bounds(1) [OF assms(1)])
  have "(\<Sum>c \<leftarrow> tier. current m c) = 0" using assms(2) by (induction tier) auto
  with assms(2) W have b: "balanced tier m" by (simp add: balanced_def)
  from pick_run_effect [OF assms(1) b r] W assms(2)
  have run: "balanced tier m'" "length bs = nat ?W" "set bs \<subseteq> set tier"
    "\<And>c. c \<in> set tier \<Longrightarrow> current m' c = ?W * (rc_Weight c - int (count_list bs c))"
    by (auto simp: algebra_simps)
  have le: "int (count_list bs c) \<le> rc_Weight c" if "c \<in> set tier" for c
  proof (rule ccontr)
    assume "\<not> int (count_list bs c) \<le> rc_Weight c"
    then have "rc_Weight c - int (count_list bs c) \<le> -1" by simp
    with W have "?W * (rc_Weight c - int (count_list bs c)) \<le> ?W * -1" by (intro mult_left_mono) auto
    with run(1) run(4) [OF that] that show False by (auto simp: balanced_def)
  qed
  have "distinct tier" using assms(1) by (auto simp: sound_tier_def distinct_map)
  with run(2,3) W have "(\<Sum>c \<leftarrow> tier. int (count_list bs c)) = (\<Sum>c \<leftarrow> tier. rc_Weight c)"
    by (simp add: count_list_sum flip: total_weight_def)
  from equal_sums [OF le this assms(3)] r show ?thesis by simp
qed

lemma count_weights:
  "distinct xs \<Longrightarrow> count (\<Sum>c \<in># mset xs. replicate_mset (f c) c) x = (if x \<in> set xs then f x else 0)"
  by (induction xs) (auto simp: count_replicate_mset)

text \<open>From the selector to its scope.\<close>

lemma select_run_scope:
  assumes "cs \<noteq> []" "length (top_tier cs) \<noteq> 1" "length s < 4096"
    and "map_of s (scope_key g model) = Some m"
  shows "select_run n (Some s) g model cs = fst (pick_run n (top_tier cs) m)"
  using assms(3,4)
proof (induction n arbitrary: s m)
  case (Suc n)
  obtain b m' where p: "pick (top_tier cs) m = (b, m')" by fastforce
  have len: "length (put k v xs) = length xs" if "map_of xs k \<noteq> None" for k and v :: weights and xs :: selector
    using that by (induction xs) (auto split: if_split_asm)
  from p Suc.prems assms(1,2) have sel: "Select (Some s) g model cs = (b, Some (put (scope_key g model) m' s))"
    by (auto simp: Select_def Let_def)
  have "select_run n (Some (put (scope_key g model) m' s)) g model cs = fst (pick_run n (top_tier cs) m')"
    using Suc.prems by (intro Suc.IH) (auto simp: len)
  with sel p show ?case by (simp add: case_prod_beta)
qed simp

lemma select_run_fresh:
  assumes "cs \<noteq> []" "length s < 4095" "map_of s (scope_key g model) = None"
  shows "select_run n (Some s) g model cs =
     (if length (top_tier cs) = 1 then replicate n (hd (top_tier cs)) else fst (pick_run n (top_tier cs) []))"
proof (cases "length (top_tier cs) = 1")
  case True
  with assms(1) have "Select (Some s) g model cs = (hd (top_tier cs), Some s)" by (simp add: Select_def Let_def)
  then have "select_run n (Some s) g model cs = replicate n (hd (top_tier cs))" by (induction n) simp_all
  with True show ?thesis by simp
next
  case False
  show ?thesis
  proof (cases n)
    case (Suc k)
    obtain b m' where p: "pick (top_tier cs) [] = (b, m')" by fastforce
    have len: "length (put key0 v xs) \<le> Suc (length xs)" for key0 and v :: weights and xs :: selector
      by (induction xs) auto
    from p assms False have sel: "Select (Some s) g model cs = (b, Some (put (scope_key g model) m' s))"
      by (auto simp: Select_def Let_def)
    have "select_run k (Some (put (scope_key g model) m' s)) g model cs = fst (pick_run k (top_tier cs) m')"
      using assms False le_less_trans [OF len, of s 4096] by (intro select_run_scope) auto
    with sel p False Suc show ?thesis by (simp add: case_prod_beta)
  qed simp
qed

text \<open>C6. Within one priority tier the load follows the weights exactly: of as many selections for one
  group and model as the tier's weights add up to, each source of the tier gets as many as its
  weight (a weight of zero or less counts as one), and no source of a lower tier gets any. The scope
  is new to the selector and the selector is not full.
\<close>

theorem weighted_round_robin_exact:
  assumes "sound_tier (top_tier cs)" "map_of s (scope_key g model) = None" "length s < 4095"
  shows "mset (select_run (nat (total_weight (top_tier cs))) (Some s) g model cs)
     = (\<Sum>c \<in># mset (top_tier cs). replicate_mset (nat (rc_Weight c)) c)"
proof -
  let ?tier = "top_tier cs"
  have di: "distinct ?tier" and pos: "\<And>c. c \<in> set ?tier \<Longrightarrow> 0 < rc_Weight c" and ne: "?tier \<noteq> []"
    using assms(1) by (auto simp: sound_tier_def distinct_map)
  have cs: "cs \<noteq> []" using ne by (auto simp: top_tier_def)
  have cnt: "count (\<Sum>c \<in># mset ?tier. replicate_mset (nat (rc_Weight c)) c) x
      = (if x \<in> set ?tier then nat (rc_Weight x) else 0)" for x
    by (rule count_weights [OF di])
  show ?thesis
  proof (cases "length ?tier = 1")
    case True
    then obtain c where c: "?tier = [c]" by (auto simp: length_Suc_conv)
    with select_run_fresh [OF cs assms(3,2)] show ?thesis by simp
  next
    case False
    let ?bs = "fst (pick_run (nat (total_weight ?tier)) ?tier [])"
    have zero: "\<forall>c \<in> set ?tier. current [] c = 0" by (simp add: weight_of_def)
    obtain bs m' where r: "pick_run (nat (total_weight ?tier)) ?tier [] = (bs, m')" by fastforce
    have "(\<Sum>c \<leftarrow> ?tier. current [] c) = 0" by (simp add: weight_of_def)
    then have "balanced ?tier []"
      using total_weight_bounds(1) [OF assms(1)] by (simp add: balanced_def weight_of_def)
    from pick_run_effect [OF assms(1) this r] have sub: "set bs \<subseteq> set ?tier" by blast
    have "count (mset bs) x = (if x \<in> set ?tier then nat (rc_Weight x) else 0)" for x
      using pick_run_exact [OF assms(1) zero, of x] sub r
      by (auto simp: count_mset_0_iff count_list_0_iff simp flip: count_mset)
    with cnt have "mset bs = (\<Sum>c \<in># mset ?tier. replicate_mset (nat (rc_Weight c)) c)"
      by (intro multiset_eqI) simp
    with select_run_fresh [OF cs assms(3,2)] False r show ?thesis by simp
  qed
qed

definition demo_sources :: "route_candidate list" where
  "demo_sources =
     [\<lparr>rc_Kind = UpstreamRouteChannel, rc_ID = 7, rc_Priority = 2, rc_Weight = 3\<rparr>,
      \<lparr>rc_Kind = UpstreamRouteChannel, rc_ID = 8, rc_Priority = 1, rc_Weight = 9\<rparr>,
      \<lparr>rc_Kind = UpstreamRouteSubscription, rc_ID = 7, rc_Priority = 2, rc_Weight = 0\<rparr>]"

lemma weighted_round_robin_exact_witness:
  "mset (select_run 4 (Some NewUpstreamRouteSelector) ''team'' ''gpt'' demo_sources)
     = (\<Sum>c \<in># mset (top_tier demo_sources). replicate_mset (nat (rc_Weight c)) c)
   \<and> map rc_Weight (top_tier demo_sources) = [3, 1]"
proof -
  have t: "top_tier demo_sources =
     [\<lparr>rc_Kind = UpstreamRouteChannel, rc_ID = 7, rc_Priority = 2, rc_Weight = 3\<rparr>,
      \<lparr>rc_Kind = UpstreamRouteSubscription, rc_ID = 7, rc_Priority = 2, rc_Weight = 1\<rparr>]"
    by code_simp
  have keys: "distinct (map routeCandidateKey (top_tier demo_sources))" by code_simp
  have s: "sound_tier (top_tier demo_sources)" using keys by (simp add: sound_tier_def t)
  have w: "total_weight (top_tier demo_sources) = 4" by (simp add: t)
  from weighted_round_robin_exact [OF s, of NewUpstreamRouteSelector "''team''" "''gpt''"] w t
  show ?thesis by (simp add: NewUpstreamRouteSelector_def)
qed

end
