(* ===== verification/Retry.thy ===== *)
theory Retry
  imports Upstream_Errors Upstream_Model Account_Limits Route_Selector
begin

text \<open>
  The retry executor of the relay (\<open>internal/biz/retry.go\<close>): one client request, several upstream
  attempts, a change of source in between, and the health each source earns. The world the
  executor talks to (the channel service, the upstream, the clock, the request context) is a
  state of type \<open>'w\<close> behind the functions of the record \<open>executor\<close>; what the executor itself does
  is written out. \<open>effects\<close> records, in order, every upstream call with its outcome, every attempt
  refused before the call (admission, routing recheck) or denied (authorization), and every health
  sample; the first three kinds exist in the model only, the others are calls of the selector. A record value with \<open>Addr\<close> stands for the Go struct at that address, where the code
  compares pointers. Request tracing and log lines are left out.
\<close>

subsection \<open>Sources\<close>

record source_identity =
  Kind :: route_kind
  SourceID :: int64

text \<open>The fields of \<open>Channel\<close> routing reads.\<close>

record channel =
  Addr :: nat
  ID :: int64
  SubscriptionAccountID :: int64
  Priority :: int64
  Weight :: int
  UpstreamConfigurationRevision :: string
  HealthProbeID :: string
  Models :: "string list"
  ModelMapping :: string
  UpstreamModelID :: string

definition RoutingSourceIdentityForChannel :: "channel option \<Rightarrow> source_identity" where
  "RoutingSourceIdentityForChannel ch = (case ch of
     None \<Rightarrow> \<lparr>Kind = UpstreamRouteNone, SourceID = 0\<rparr>
   | Some c \<Rightarrow> if 0 < SubscriptionAccountID c
       then \<lparr>Kind = UpstreamRouteSubscription, SourceID = SubscriptionAccountID c\<rparr>
       else \<lparr>Kind = UpstreamRouteChannel, SourceID = ID c\<rparr>)"

definition SameRoutingSource :: "channel option \<Rightarrow> channel option \<Rightarrow> bool" where
  "SameRoutingSource left right = (case (left, right) of
     (Some l, Some r) \<Rightarrow>
       if 0 < SubscriptionAccountID l \<or> 0 < SubscriptionAccountID r
       then 0 < SubscriptionAccountID l \<and> 0 < SubscriptionAccountID r
            \<and> SubscriptionAccountID l = SubscriptionAccountID r
       else ID l = ID r
   | _ \<Rightarrow> left = None \<and> right = None)"

record routing_candidate =
  Identity :: source_identity
  Channel :: "channel option"

definition ResolveChannelModel :: "unicode \<Rightarrow> (string \<Rightarrow> mapping option) \<Rightarrow> channel \<Rightarrow> string \<Rightarrow> string" where
  "ResolveChannelModel u decode ch model =
     provider_ResolveModel u decode model (ModelMapping ch) (UpstreamModelID ch) (Models ch)"

subsection \<open>Effects, the world and the state of an execution\<close>

record observation =
  SourceKind :: string
  ObservedID :: int64
  ConfigurationRevision :: string
  ProbeID :: string
  ObservationID :: string
  StartedAt :: int64
  Outcome :: health
  FailureKind :: string
  ObservedModel :: string
  ErrorText :: string
  ResponseTime :: int64
  RetryAfter :: int64

datatype effect =
    Forwarded channel "err option"
  | Refused channel err
  | Denied channel err
  | ChannelHealth int64 bool string int64
  | AccountHealth int64 bool
  | ModelHealth string int64 string string bool string int64
  | Observed observation

record 'w executor =
  MaxAttempts :: int
  RetryableStatus :: "int \<Rightarrow> bool"
  crossSourceFallback :: bool
  externalSubscriptionHealth :: bool
  deferStreamHealth :: bool
  observes :: bool
  recordsModels :: bool
  SelectChannel :: "string \<Rightarrow> string \<Rightarrow> bool \<Rightarrow> 'w \<Rightarrow> (err + channel option) \<times> 'w"
  SelectChannelExcluding :: "(string \<Rightarrow> string \<Rightarrow> int64 list \<Rightarrow> 'w \<Rightarrow> (err + channel option) \<times> 'w) option"
  fallback :: "(string \<Rightarrow> string \<Rightarrow> string \<Rightarrow> source_identity list \<Rightarrow> 'w \<Rightarrow> (err + channel option) \<times> 'w) option"
  authorize :: "(string \<Rightarrow> string \<Rightarrow> string \<Rightarrow> channel \<Rightarrow> 'w \<Rightarrow> (err + string) \<times> 'w) option"
  executionAdmission :: "(channel \<Rightarrow> 'w \<Rightarrow> (err + channel) \<times> 'w) option"
  forward :: "channel \<Rightarrow> 'w \<Rightarrow> err option \<times> 'w"
  recheck :: "'w \<Rightarrow> err option \<times> 'w"
  backoff :: "int \<Rightarrow> 'w \<Rightarrow> bool \<times> 'w"
  ctx_Err :: "'w \<Rightarrow> err option"
  now :: "'w \<Rightarrow> int64"
  elapsed_ms :: "int64 \<Rightarrow> 'w \<Rightarrow> int64"
  new_uuid :: "'w \<Rightarrow> string"
  notify :: "effect \<Rightarrow> 'w \<Rightarrow> 'w"
  sanitize :: "string \<Rightarrow> string"
  json_valid :: "string \<Rightarrow> bool"
  decode :: "string \<Rightarrow> mapping option"
  tables :: unicode

text \<open>How the callback of the request is wrapped, see \<open>run_fn\<close>.\<close>

datatype wrapping = Bare | WithAccountHealth int64 | WithCandidates int64

record request =
  req_group :: string
  req_model :: string
  req_clientModel :: string
  req_healthModel :: string
  initialChannel :: "channel option"
  candidates :: "routing_candidate list option"
  wrapping :: wrapping

record pending =
  p_channel :: channel
  p_outcome :: health
  p_err :: "err option"
  p_startedAt :: int64
  p_modelRecord :: bool
  p_modelOK :: bool
  p_message :: string
  p_responseTime :: int64

record 'w exec_state =
  world :: 'w
  effects :: "effect list"
  credits :: "int option"
  lastErr :: "err option"
  lastChannel :: "channel option"
  firstErr :: "err option"
  switched :: bool
  primaryRecorded :: bool
  excluded :: "source_identity list"
  pendingHealth :: "pending option"

record execute_result =
  res_Channel :: "channel option"
  res_Err :: "err option"
  res_Attempt :: int
  res_Fallback :: bool
  res_FallbackReason :: string
  res_FirstErr :: "err option"

text \<open>\<open>NilChannel\<close> is the nil dereference after a selection that answered neither channel nor error.\<close>

datatype outcome = Returned execute_result | NilChannel

definition context_done :: "'w executor \<Rightarrow> 'w exec_state \<Rightarrow> bool" where
  "context_done e s \<longleftrightarrow> ctx_Err e (world s) \<noteq> None"

definition tell :: "'w executor \<Rightarrow> effect \<Rightarrow> 'w exec_state \<Rightarrow> 'w exec_state" where
  "tell e x s = s\<lparr>effects := effects s @ [x], world := notify e x (world s)\<rparr>"

subsection \<open>Health\<close>

definition observed_retry_after :: "err option \<Rightarrow> int64" where
  "observed_retry_after err =
     (let after = (case errors_As as_http err of Some (after, status, body) \<Rightarrow> min after 300000000000 | None \<Rightarrow> 0) in
      if UpstreamStatus err = 529 \<and> after \<le> 0 then 30000000000 else after)"

definition TruncateString :: "string \<Rightarrow> nat \<Rightarrow> string" where
  "TruncateString s maxLen = (if length s \<le> maxLen then s else take maxLen s @ ''...'')"

definition recordUpstreamObservation ::
  "'w executor \<Rightarrow> channel \<Rightarrow> err option \<Rightarrow> int64 \<Rightarrow> int64 \<Rightarrow> 'w exec_state \<Rightarrow> bool \<times> 'w exec_state" where
  "recordUpstreamObservation e ch err responseTime startedAt s =
     (if \<not> observes e \<or> UpstreamConfigurationRevision ch = [] then (False, s)
      else let
        outcome = UpstreamHealthDisposition (json_valid e) (context_done e s) err;
        kind = upstreamFailureKind (json_valid e) (context_done e s) err
      in
        if outcome = HealthNeutral \<and> kind = [] \<and> HealthProbeID ch = [] then (True, s)
        else (True, tell e (Observed \<lparr>
            SourceKind = (if 0 < SubscriptionAccountID ch then ''subscription'' else ''channel''),
            ObservedID = (if 0 < SubscriptionAccountID ch then SubscriptionAccountID ch else ID ch),
            ConfigurationRevision = UpstreamConfigurationRevision ch, ProbeID = HealthProbeID ch,
            ObservationID = new_uuid e (world s), StartedAt = startedAt, Outcome = outcome, FailureKind = kind,
            ObservedModel = UpstreamModelID ch,
            ErrorText = (if err = None then [] else TruncateString (sanitize e (message_of err)) 2048),
            ResponseTime = responseTime, RetryAfter = observed_retry_after err\<rparr>) s))"

definition recordHealth ::
  "'w executor \<Rightarrow> string \<Rightarrow> string \<Rightarrow> channel \<Rightarrow> health \<Rightarrow> bool \<Rightarrow> bool \<Rightarrow> string \<Rightarrow> int64 \<Rightarrow> bool \<Rightarrow> 'w exec_state \<Rightarrow> 'w exec_state" where
  "recordHealth e modelID baseModel ch channelOutcome modelRecord modelOK message responseTime observed s0 =
     (if externalSubscriptionHealth e \<and> 0 < SubscriptionAccountID ch then s0
      else let
        s = (if \<not> observed \<and> 0 < ID ch \<and> SubscriptionAccountID ch \<le> 0 \<and> channelOutcome \<noteq> HealthNeutral
             then tell e (ChannelHealth (ID ch) (channelOutcome = HealthSuccess)
                    (if channelOutcome = HealthSuccess then [] else message) responseTime) s0
             else s0);
        sourceKind = (if 0 < SubscriptionAccountID ch then ''subscription'' else ''channel'');
        sourceID = (if 0 < SubscriptionAccountID ch then SubscriptionAccountID ch else ID ch)
      in
        if \<not> modelRecord \<or> \<not> recordsModels e \<or> sourceID \<le> 0 then s
        else tell e (ModelHealth sourceKind sourceID (ModelName modelID)
               (ResolveChannelModel (tables e) (decode e) ch baseModel) modelOK message responseTime) s)"

definition flushHealth :: "'w executor \<Rightarrow> request \<Rightarrow> 'w exec_state \<Rightarrow> 'w exec_state" where
  "flushHealth e r s = (case pendingHealth s of
     None \<Rightarrow> s
   | Some p \<Rightarrow>
       (case (if \<not> externalSubscriptionHealth e \<or> SubscriptionAccountID (p_channel p) \<le> 0
              then recordUpstreamObservation e
                     ((p_channel p)\<lparr>UpstreamModelID := ResolveChannelModel (tables e) (decode e) (p_channel p) (req_model r)\<rparr>)
                     (p_err p) (p_responseTime p) (p_startedAt p) s
              else (False, s)) of
          (observed, s1) \<Rightarrow>
            (recordHealth e (req_healthModel r) (req_model r) (p_channel p) (p_outcome p) (p_modelRecord p)
               (p_modelOK p) (p_message p) (p_responseTime p) observed s1)\<lparr>pendingHealth := None\<rparr>))"

definition queueHealth :: "'w executor \<Rightarrow> request \<Rightarrow> channel \<Rightarrow> err option \<Rightarrow> int64 \<Rightarrow> int64 \<Rightarrow> 'w exec_state \<Rightarrow> 'w exec_state" where
  "queueHealth e r ch err responseTime startedAt s0 =
     (if IsLocalAdmissionError err
      then let s = flushHealth e r s0 in
        (if HealthProbeID ch \<noteq> [] then snd (recordUpstreamObservation e ch err responseTime startedAt s) else s)
      else let
        channelOutcome = UpstreamHealthDisposition (json_valid e) (context_done e s0) err;
        model = modelHealthDisposition (json_valid e) (context_done e s0) err;
        message = message_of err
      in case pendingHealth s0 of
        Some p \<Rightarrow>
          if SameRoutingSource (Some (p_channel p)) (Some ch)
          then s0\<lparr>pendingHealth := Some (p\<lparr>p_outcome := channelOutcome, p_err := err, p_startedAt := startedAt,
                   p_modelRecord := fst model, p_modelOK := snd model, p_message := message,
                   p_responseTime := wrap64 (p_responseTime p + responseTime)\<rparr>)\<rparr>
          else (flushHealth e r s0)\<lparr>pendingHealth := Some \<lparr>p_channel = ch, p_outcome = channelOutcome, p_err = err,
                   p_startedAt = startedAt, p_modelRecord = fst model, p_modelOK = snd model, p_message = message,
                   p_responseTime = responseTime\<rparr>\<rparr>
      | None \<Rightarrow>
          s0\<lparr>pendingHealth := Some \<lparr>p_channel = ch, p_outcome = channelOutcome, p_err = err,
                   p_startedAt = startedAt, p_modelRecord = fst model, p_modelOK = snd model, p_message = message,
                   p_responseTime = responseTime\<rparr>\<rparr>)"

definition RecordAccountHealth :: "'w executor \<Rightarrow> int64 \<Rightarrow> bool \<Rightarrow> 'w exec_state \<Rightarrow> 'w exec_state" where
  "RecordAccountHealth e accountID success s =
     (if accountID \<le> 0 then s else tell e (AccountHealth accountID success) s)"

subsection \<open>The callback and its wrappers\<close>

text \<open>\<open>ch == initialChannel\<close> compares addresses.\<close>

definition is_initial :: "request \<Rightarrow> channel \<Rightarrow> bool" where
  "is_initial r ch = (case initialChannel r of None \<Rightarrow> False | Some c \<Rightarrow> Addr c = Addr ch)"

definition call_upstream :: "'w executor \<Rightarrow> channel \<Rightarrow> 'w exec_state \<Rightarrow> err option \<times> 'w exec_state" where
  "call_upstream e ch s = (case forward e ch (world s) of
     (err, w) \<Rightarrow> (err, s\<lparr>world := w, effects := effects s @ [Forwarded ch err]\<rparr>))"

definition fn_with_account :: "'w executor \<Rightarrow> request \<Rightarrow> int64 \<Rightarrow> channel \<Rightarrow> 'w exec_state \<Rightarrow> err option \<times> 'w exec_state" where
  "fn_with_account e r accountID ch s = (case call_upstream e ch s of
     (err, s1) \<Rightarrow>
       if deferStreamHealth e \<and> err = None then (None, s1)
       else let outcome = UpstreamHealthDisposition (json_valid e) (context_done e s1) err in
         (err, if is_initial r ch \<and> outcome \<noteq> HealthNeutral
               then RecordAccountHealth e accountID (outcome = HealthSuccess) s1 else s1))"

definition fn_with_candidates :: "'w executor \<Rightarrow> request \<Rightarrow> int64 \<Rightarrow> channel \<Rightarrow> 'w exec_state \<Rightarrow> err option \<times> 'w exec_state" where
  "fn_with_candidates e r accountID ch s0 = (case recheck e (world s0) of
     (Some err, w) \<Rightarrow> (Some err, s0\<lparr>world := w, effects := effects s0 @ [Refused ch err]\<rparr>)
   | (None, w) \<Rightarrow>
       (case call_upstream e ch (s0\<lparr>world := w\<rparr>) of
          (err, s1) \<Rightarrow>
            let outcome = UpstreamHealthDisposition (json_valid e) (context_done e s1) err in
            (err, if \<not> externalSubscriptionHealth e \<and> \<not> (deferStreamHealth e \<and> err = None)
                     \<and> UpstreamConfigurationRevision ch = [] \<and> outcome \<noteq> HealthNeutral
                  then RecordAccountHealth e
                         (if SubscriptionAccountID ch \<le> 0 \<and> is_initial r ch then accountID else SubscriptionAccountID ch)
                         (outcome = HealthSuccess) s1
                  else s1)))"

definition run_fn :: "'w executor \<Rightarrow> request \<Rightarrow> channel \<Rightarrow> 'w exec_state \<Rightarrow> err option \<times> 'w exec_state" where
  "run_fn e r ch s = (case wrapping r of
     Bare \<Rightarrow> call_upstream e ch s
   | WithAccountHealth accountID \<Rightarrow> fn_with_account e r accountID ch s
   | WithCandidates accountID \<Rightarrow> fn_with_candidates e r accountID ch s)"

subsection \<open>Choosing the next source\<close>

fun walk_candidates :: "bool \<Rightarrow> route_kind \<Rightarrow> source_identity list \<Rightarrow> routing_candidate list \<Rightarrow> channel option" where
  "walk_candidates cross initialKind excl [] = None"
| "walk_candidates cross initialKind excl (c # cs) = (case Channel c of
     None \<Rightarrow> walk_candidates cross initialKind excl cs
   | Some ch \<Rightarrow>
       let kind = (if 0 < SubscriptionAccountID ch then UpstreamRouteSubscription else UpstreamRouteChannel) in
       if Identity c \<in> set excl then walk_candidates cross initialKind excl cs
       else if \<not> cross \<and> kind \<noteq> initialKind then walk_candidates cross initialKind excl cs
       else Some ch)"

text \<open>A selection that fails, or answers no channel, is no selection.\<close>

definition chosen :: "(err + channel option) \<times> 'w \<Rightarrow> channel option \<times> 'w" where
  "chosen a = (case a of (Inr (Some ch), w) \<Rightarrow> (Some ch, w) | (_, w) \<Rightarrow> (None, w))"

definition excluded_channels :: "source_identity list \<Rightarrow> int64 list" where
  "excluded_channels excl = map SourceID (filter (\<lambda>x. Kind x = UpstreamRouteChannel \<and> 0 < SourceID x) excl)"

definition selectNextForRetry :: "'w executor \<Rightarrow> request \<Rightarrow> source_identity list \<Rightarrow> 'w \<Rightarrow> channel option \<times> 'w" where
  "selectNextForRetry e r excl w = (let
     initialKind = (case candidates r of None \<Rightarrow> UpstreamRouteNone
       | Some cs \<Rightarrow> (case initialChannel r of
            Some ch \<Rightarrow> if 0 < SubscriptionAccountID ch then UpstreamRouteSubscription else UpstreamRouteChannel
          | None \<Rightarrow> UpstreamRouteChannel));
     walked = (case candidates r of None \<Rightarrow> None
       | Some cs \<Rightarrow> walk_candidates (crossSourceFallback e) initialKind excl cs)
   in
     if walked \<noteq> None then (walked, w)
     else if candidates r = None \<or> crossSourceFallback e then
       (case fallback e of
          Some f \<Rightarrow> chosen (f (req_group r) (req_clientModel r) (req_model r) excl w)
        | None \<Rightarrow> chosen (SelectChannel e (req_group r) (req_model r) True w))
     else if initialKind = UpstreamRouteChannel then
       (case SelectChannelExcluding e of
          Some f \<Rightarrow> chosen (f (req_group r) (req_model r) (excluded_channels excl) w)
        | None \<Rightarrow> chosen (SelectChannel e (req_group r) (req_model r) True w))
     else
       (case fallback e of
          Some f \<Rightarrow> chosen (f (req_group r) (req_clientModel r) (req_model r) excl w)
        | None \<Rightarrow> (None, w)))"

subsection \<open>One attempt\<close>

definition result_of :: "'w executor \<Rightarrow> int \<Rightarrow> err option \<Rightarrow> 'w exec_state \<Rightarrow> execute_result" where
  "result_of e attempt err s = \<lparr>res_Channel = lastChannel s, res_Err = err, res_Attempt = attempt,
     res_Fallback = switched s, res_FallbackReason = ClassifyRetryFallbackReason (json_valid e) (firstErr s),
     res_FirstErr = firstErr s\<rparr>"

text \<open>
  The relay's retry budget, shared by its requests: \<open>credits\<close> is what this execution sees of it, and no other
  request spends or earns credit while it runs. The properties hold for every initial credit.
\<close>

definition budget_check :: "'w exec_state \<Rightarrow> bool \<times> 'w exec_state" where
  "budget_check s = (case (lastChannel s, credits s) of
     (Some ch, Some c) \<Rightarrow>
       if UpstreamConfigurationRevision ch \<noteq> [] \<and> \<not> IsLocalAdmissionError (lastErr s)
       then (case budget_allow c of (c', ok) \<Rightarrow> (ok, s\<lparr>credits := Some c'\<rparr>))
       else (True, s)
   | _ \<Rightarrow> (True, s))"

text \<open>A step returns the outcome of the execution, or the state to go on with.\<close>

definition first_source :: "'w executor \<Rightarrow> request \<Rightarrow> int \<Rightarrow> 'w exec_state \<Rightarrow> outcome option \<times> 'w exec_state" where
  "first_source e r attempt s = (case initialChannel r of
     Some ch \<Rightarrow> (None, s\<lparr>lastChannel := Some ch\<rparr>)
   | None \<Rightarrow>
       (case SelectChannel e (req_group r) (req_model r) False (world s) of
          (Inl selErr, w) \<Rightarrow>
            (Some (Returned \<lparr>res_Channel = None, res_Err = Some selErr, res_Attempt = attempt, res_Fallback = False,
                     res_FallbackReason = [], res_FirstErr = None\<rparr>), s\<lparr>world := w\<rparr>)
        | (Inr ch, w) \<Rightarrow> (None, s\<lparr>world := w, lastChannel := ch\<rparr>)))"

definition switch_source :: "'w executor \<Rightarrow> request \<Rightarrow> channel \<Rightarrow> 'w exec_state \<Rightarrow> 'w exec_state" where
  "switch_source e r ch s0 =
     (let s1 = (if SameRoutingSource (Some ch) (lastChannel s0) then s0 else flushHealth e r s0);
          s2 = (if \<not> SameRoutingSource (Some ch) (lastChannel s0) \<and> firstErr s1 = None
                then s1\<lparr>firstErr := lastErr s1, switched := True\<rparr> else s1)
      in s2\<lparr>lastChannel := Some ch\<rparr>)"

definition exclude_last :: "'w exec_state \<Rightarrow> 'w exec_state" where
  "exclude_last s = (case lastChannel s of None \<Rightarrow> s
     | Some ch \<Rightarrow> s\<lparr>excluded := push_new (RoutingSourceIdentityForChannel (Some ch)) (excluded s)\<rparr>)"

definition reselect :: "'w executor \<Rightarrow> request \<Rightarrow> int \<Rightarrow> 'w exec_state \<Rightarrow> outcome option \<times> 'w exec_state" where
  "reselect e r attempt s0 =
     (let s1 = exclude_last s0 in
      case selectNextForRetry e r (excluded s1) (world s1) of
        (Some ch, w) \<Rightarrow> (None, switch_source e r ch (s1\<lparr>world := w\<rparr>))
      | (None, w) \<Rightarrow>
          (if lastChannel s1 = None
           then Some (Returned ((result_of e attempt (lastErr s1) s1)\<lparr>res_Channel := None\<rparr>)) else None,
           s1\<lparr>world := w\<rparr>))"

definition next_source :: "'w executor \<Rightarrow> request \<Rightarrow> int \<Rightarrow> 'w exec_state \<Rightarrow> outcome option \<times> 'w exec_state" where
  "next_source e r attempt s0 = (case budget_check s0 of
     (False, s1) \<Rightarrow>
       let s2 = flushHealth e r s1 in
       (Some (Returned (result_of e (attempt - 1) (lastErr s2) s2)), s2)
   | (True, s1) \<Rightarrow>
       (case backoff e (attempt - 1) (world s1) of
          (False, w) \<Rightarrow>
            let s2 = flushHealth e r (s1\<lparr>world := w\<rparr>) in
            (Some (Returned (result_of e attempt (ctx_Err e w) s2)), s2)
        | (True, w) \<Rightarrow> reselect e r attempt (s1\<lparr>world := w\<rparr>)))"

text \<open>
  \<open>authorizeRetry\<close> writes the granted upstream model through the pointer it is given; a queued health
  sample of the same struct sees the write.
\<close>

definition set_model :: "channel \<Rightarrow> string \<Rightarrow> 'w exec_state \<Rightarrow> 'w exec_state" where
  "set_model ch model s = s\<lparr>lastChannel := Some (ch\<lparr>UpstreamModelID := model\<rparr>),
     pendingHealth := map_option (\<lambda>p. if Addr (p_channel p) = Addr ch
       then p\<lparr>p_channel := (p_channel p)\<lparr>UpstreamModelID := model\<rparr>\<rparr> else p) (pendingHealth s)\<rparr>"

definition authorize_attempt :: "'w executor \<Rightarrow> request \<Rightarrow> int \<Rightarrow> 'w exec_state \<Rightarrow> outcome option \<times> 'w exec_state" where
  "authorize_attempt e r attempt s = (case (lastChannel s, authorize e) of
     (Some ch, Some check) \<Rightarrow>
       if attempt \<le> 0 then (None, s)
       else (case check (req_group r) (req_clientModel r) (req_model r) ch (world s) of
          (Inl err, w) \<Rightarrow>
            let s2 = flushHealth e r (s\<lparr>world := w, effects := effects s @ [Denied ch err]\<rparr>) in
            (Some (Returned (result_of e attempt (Some err) s2)), s2)
        | (Inr model, w) \<Rightarrow> (None, set_model ch model (s\<lparr>world := w\<rparr>)))
   | _ \<Rightarrow> (None, s))"

definition admit :: "'w executor \<Rightarrow> request \<Rightarrow> channel \<Rightarrow> 'w exec_state \<Rightarrow> (err + channel) \<times> 'w exec_state" where
  "admit e r ch s = (case executionAdmission e of
     None \<Rightarrow> (Inr ch, s)
   | Some f \<Rightarrow>
       (case f (ch\<lparr>UpstreamModelID := ResolveChannelModel (tables e) (decode e) ch (req_model r)\<rparr>) (world s) of
          (Inl err, w) \<Rightarrow> (Inl err, s\<lparr>world := w, effects := effects s @ [Refused ch err]\<rparr>)
        | (Inr admitted, w) \<Rightarrow> (Inr admitted, s\<lparr>world := w, lastChannel := Some admitted\<rparr>)))"

definition record_primary :: "'w executor \<Rightarrow> channel \<Rightarrow> err option \<Rightarrow> 'w exec_state \<Rightarrow> 'w exec_state" where
  "record_primary e ch err s = (case credits s of
     None \<Rightarrow> s
   | Some c \<Rightarrow>
       if \<not> primaryRecorded s \<and> UpstreamConfigurationRevision ch \<noteq> [] \<and> \<not> IsLocalAdmissionError err
          \<and> \<not> IsPreForwardError err \<and> (\<not> externalSubscriptionHealth e \<or> SubscriptionAccountID ch \<le> 0)
       then s\<lparr>credits := Some (budget_primary c), primaryRecorded := True\<rparr> else s)"

definition conclude :: "'w executor \<Rightarrow> request \<Rightarrow> int \<Rightarrow> channel \<Rightarrow> err option \<Rightarrow> int64 \<Rightarrow> 'w exec_state \<Rightarrow> outcome option \<times> 'w exec_state" where
  "conclude e r attempt ch err startedAt s0 =
     (let responseTime = elapsed_ms e startedAt (world s0); s1 = record_primary e ch err s0 in
      if err = None then
        let s2 = flushHealth e r (if deferStreamHealth e then s1 else queueHealth e r ch None responseTime startedAt s1) in
        (Some (Returned (result_of e attempt None s2)), s2)
      else
        let s2 = queueHealth e r ch err responseTime startedAt (s1\<lparr>lastErr := err\<rparr>) in
        if \<not> IsRetryable (RetryableStatus e) err
        then let s3 = flushHealth e r s2 in (Some (Returned (result_of e attempt err s3)), s3)
        else (None, s2))"

definition run_attempt :: "'w executor \<Rightarrow> request \<Rightarrow> int \<Rightarrow> 'w exec_state \<Rightarrow> outcome option \<times> 'w exec_state" where
  "run_attempt e r attempt s0 = (case lastChannel s0 of
     None \<Rightarrow> (Some NilChannel, s0)
   | Some ch \<Rightarrow>
       let startedAt = now e (world s0) in
       (case admit e r ch s0 of
          (Inl err, s1) \<Rightarrow> conclude e r attempt ch (Some err) startedAt s1
        | (Inr admitted, s1) \<Rightarrow>
            (case run_fn e r admitted s1 of (err, s2) \<Rightarrow> conclude e r attempt admitted err startedAt s2)))"

definition one_attempt :: "'w executor \<Rightarrow> request \<Rightarrow> int \<Rightarrow> 'w exec_state \<Rightarrow> outcome option \<times> 'w exec_state" where
  "one_attempt e r attempt s0 =
     (case (if 0 < attempt then next_source e r attempt s0 else first_source e r attempt s0) of
        (Some out, s1) \<Rightarrow> (Some out, s1)
      | (None, s1) \<Rightarrow> (case authorize_attempt e r attempt s1 of
            (Some out, s2) \<Rightarrow> (Some out, s2)
          | (None, s2) \<Rightarrow> run_attempt e r attempt s2))"

subsection \<open>The loop\<close>

definition max_attempts :: "'w executor \<Rightarrow> int" where
  "max_attempts e = (if MaxAttempts e \<le> 0 then 1 else MaxAttempts e)"

partial_function (option) attempts :: "'w executor \<Rightarrow> request \<Rightarrow> int \<Rightarrow> 'w exec_state \<Rightarrow> (outcome \<times> 'w exec_state) option" where
  "attempts e r attempt s =
     (if attempt < max_attempts e then
        (case one_attempt e r attempt s of
           (Some out, s') \<Rightarrow> Some (out, s')
         | (None, s') \<Rightarrow> attempts e r (attempt + 1) s')
      else let s' = flushHealth e r s in
        Some (Returned (result_of e (max_attempts e) (lastErr s') s'), s'))"

declare attempts.simps [code]

definition new_exec :: "'w \<Rightarrow> int option \<Rightarrow> 'w exec_state" where
  "new_exec w budget = \<lparr>world = w, effects = [], credits = budget, lastErr = None, lastChannel = None,
     firstErr = None, switched = False, primaryRecorded = False, excluded = [], pendingHealth = None\<rparr>"

definition execute :: "'w executor \<Rightarrow> request \<Rightarrow> 'w \<Rightarrow> int option \<Rightarrow> (outcome \<times> 'w exec_state) option" where
  "execute e r w budget = attempts e r 0 (new_exec w budget)"

definition ExecuteWithInitialChannel :: "'w executor \<Rightarrow> string \<Rightarrow> string \<Rightarrow> channel option \<Rightarrow> 'w \<Rightarrow> int option
    \<Rightarrow> (outcome \<times> 'w exec_state) option" where
  "ExecuteWithInitialChannel e g model initial w budget = execute e
     \<lparr>req_group = g, req_model = model, req_clientModel = model, req_healthModel = model,
      initialChannel = initial, candidates = None, wrapping = Bare\<rparr> w budget"

definition Execute :: "'w executor \<Rightarrow> string \<Rightarrow> string \<Rightarrow> 'w \<Rightarrow> int option \<Rightarrow> (outcome \<times> 'w exec_state) option" where
  "Execute e g model w budget = ExecuteWithInitialChannel e g model None w budget"

definition ExecuteWithAccountHealth :: "'w executor \<Rightarrow> string \<Rightarrow> string \<Rightarrow> channel option \<Rightarrow> int64 \<Rightarrow> 'w \<Rightarrow> int option
    \<Rightarrow> (outcome \<times> 'w exec_state) option" where
  "ExecuteWithAccountHealth e g model initial accountID w budget = execute e
     \<lparr>req_group = g, req_model = model, req_clientModel = model, req_healthModel = model,
      initialChannel = initial, candidates = None, wrapping = WithAccountHealth accountID\<rparr> w budget"

text \<open>The parts of \<open>RelayPlan\<close> an execution reads; \<open>plan_group\<close> is empty without an auth snapshot.\<close>

record relay_plan =
  plan_group :: string
  ClientModel :: string
  GlobalModel :: string
  ResolvedModel :: string
  plan_Channel :: "channel option"
  plan_Candidates :: "(string \<times> routing_candidate list) option"
  plan_EventModel :: "string option"

definition BaseModel :: "relay_plan \<Rightarrow> string" where
  "BaseModel p = (let model = trim_space (GlobalModel p) in
     if model \<noteq> [] then model else trim_space (ResolvedModel p))"

definition ModelHealthID :: "relay_plan \<Rightarrow> string" where
  "ModelHealthID p =
     (let listed = (case plan_Candidates p of None \<Rightarrow> [] | Some (model, cs) \<Rightarrow> ModelName model);
          logged = (case plan_EventModel p of None \<Rightarrow> [] | Some model \<Rightarrow> ModelName model)
      in if listed \<noteq> [] then listed else if logged \<noteq> [] then logged else ModelName (BaseModel p))"

definition plan_request :: "relay_plan \<Rightarrow> int64 \<Rightarrow> request" where
  "plan_request p accountID = \<lparr>req_group = plan_group p, req_model = BaseModel p, req_clientModel = ClientModel p,
     req_healthModel = ModelHealthID p, initialChannel = plan_Channel p,
     candidates = map_option snd (plan_Candidates p), wrapping = WithCandidates accountID\<rparr>"

definition ExecuteWithCandidates :: "'w executor \<Rightarrow> relay_plan option \<Rightarrow> int64 \<Rightarrow> 'w \<Rightarrow> int option
    \<Rightarrow> (outcome \<times> 'w exec_state) option" where
  "ExecuteWithCandidates e plan accountID w budget = (case plan of
     None \<Rightarrow> Some (Returned \<lparr>res_Channel = None, res_Err = Some (Errorf ''relay plan is nil''), res_Attempt = 0,
               res_Fallback = False, res_FallbackReason = [], res_FirstErr = None\<rparr>, new_exec w budget)
   | Some p \<Rightarrow> execute e (plan_request p accountID) w budget)"

end
