(* ===== verification/Retry_Frames.thy ===== *)
theory Retry_Frames
  imports Retry
begin

text \<open>
  What the steps of the retry executor leave alone, what they log, and the rule by which an
  invariant of the attempts carries over to an execution. \<open>journal\<close> is the sequence of attempts that
  reached a source, each with its source and its outcome; the health samples are not part of it.
\<close>

named_theorems retry_frame

subsection \<open>Identities\<close>

abbreviation source_of :: "channel \<Rightarrow> source_identity" where
  "source_of ch \<equiv> RoutingSourceIdentityForChannel (Some ch)"

lemma SameRoutingSource_iff [simp]:
  "SameRoutingSource (Some l) (Some r) \<longleftrightarrow> source_of l = source_of r"
  by (auto simp: SameRoutingSource_def RoutingSourceIdentityForChannel_def)

lemma SameRoutingSource_None [simp]: "\<not> SameRoutingSource (Some l) None"
  by (simp add: SameRoutingSource_def)

lemma source_of_update [simp]: "source_of (ch\<lparr>UpstreamModelID := m\<rparr>) = source_of ch"
  by (simp add: RoutingSourceIdentityForChannel_def)

subsection \<open>The journal\<close>

fun entry_of :: "effect \<Rightarrow> (channel \<times> err option) option" where
  "entry_of (Forwarded ch err) = Some (ch, err)"
| "entry_of (Refused ch err) = Some (ch, Some err)"
| "entry_of (Denied ch err) = Some (ch, Some err)"
| "entry_of x = None"

fun call_of :: "effect \<Rightarrow> (channel \<times> err option) option" where
  "call_of (Forwarded ch err) = Some (ch, err)"
| "call_of x = None"

definition journal :: "'w exec_state \<Rightarrow> (channel \<times> err option) list" where
  "journal s = List.map_filter entry_of (effects s)"

definition calls :: "'w exec_state \<Rightarrow> (channel \<times> err option) list" where
  "calls s = List.map_filter call_of (effects s)"

abbreviation sources :: "'w exec_state \<Rightarrow> source_identity list" where
  "sources s \<equiv> map (\<lambda>x. source_of (fst x)) (journal s)"

lemma call_entry: "call_of x = Some y \<Longrightarrow> entry_of x = Some y"
  by (cases x) auto

lemma map_filter_snoc: "List.map_filter f (xs @ [x]) = List.map_filter f xs @ (case f x of None \<Rightarrow> [] | Some y \<Rightarrow> [y])"
  by (induction xs) (auto simp: List.map_filter_simps split: option.splits)

subsection \<open>Health bookkeeping is a frame\<close>

text \<open>\<open>quiet s s'\<close>: between the two states only health samples were taken.\<close>

definition quiet :: "'w exec_state \<Rightarrow> 'w exec_state \<Rightarrow> bool" where
  "quiet s s' \<longleftrightarrow> journal s' = journal s \<and> calls s' = calls s \<and> lastErr s' = lastErr s
     \<and> lastChannel s' = lastChannel s \<and> firstErr s' = firstErr s \<and> switched s' = switched s
     \<and> excluded s' = excluded s \<and> credits s' = credits s \<and> primaryRecorded s' = primaryRecorded s"

lemma quiet_refl [simp]: "quiet s s"
  by (simp add: quiet_def)

lemma quiet_trans: "quiet s s' \<Longrightarrow> quiet s' s'' \<Longrightarrow> quiet s s''"
  by (simp add: quiet_def)

lemma quiet_pending: "quiet s s' \<Longrightarrow> quiet s (s'\<lparr>pendingHealth := p\<rparr>)"
  by (simp add: quiet_def journal_def calls_def)

lemma quiet_tell:
  "quiet s s' \<Longrightarrow> entry_of x = None \<Longrightarrow> call_of x = None \<Longrightarrow> quiet s (tell e x s')"
  by (simp add: quiet_def journal_def calls_def tell_def map_filter_snoc)

lemma quiet_observation: "quiet s (snd (recordUpstreamObservation e ch err t u s))"
  by (auto simp: recordUpstreamObservation_def Let_def intro: quiet_tell)

lemma quiet_recordHealth: "quiet s s' \<Longrightarrow> quiet s (recordHealth e m b ch c mr mo msg t obs s')"
  by (auto simp: recordHealth_def Let_def intro!: quiet_tell)

lemma quiet_flush: "quiet s (flushHealth e r s)"
proof (cases "pendingHealth s")
  case None
  then show ?thesis by (simp add: flushHealth_def)
next
  case (Some p)
  have "quiet s (snd (if c then recordUpstreamObservation e ch err t u s else (False, s)))" for c ch err t u
    by (simp add: quiet_observation)
  then show ?thesis
    unfolding flushHealth_def Some option.case
    by (subst prod.case_eq_if) (blast intro: quiet_pending quiet_recordHealth)
qed

lemma quiet_queue: "quiet s (queueHealth e r ch err t u s)"
  using quiet_flush [of s e r] quiet_trans [OF quiet_flush quiet_observation]
  by (auto simp: queueHealth_def Let_def intro: quiet_pending split: option.split)

lemma flush_pending [simp]: "pendingHealth (flushHealth e r s) = None"
  by (auto simp: flushHealth_def split: option.split prod.split)

lemma quietD [retry_frame]:
  assumes "quiet s s'"
  shows "journal s' = journal s" "calls s' = calls s" "lastErr s' = lastErr s" "lastChannel s' = lastChannel s"
    "firstErr s' = firstErr s" "switched s' = switched s" "excluded s' = excluded s" "credits s' = credits s"
    "primaryRecorded s' = primaryRecorded s"
  using assms by (simp_all add: quiet_def)

lemmas flush_frame [simp] = quietD [OF quiet_flush]
lemmas queue_frame [simp] = quietD [OF quiet_queue]

text \<open>Updates of fields the journal does not read.\<close>

lemma journal_updates [simp]:
  "journal (s\<lparr>world := w\<rparr>) = journal s" "calls (s\<lparr>world := w\<rparr>) = calls s"
  "journal (s\<lparr>lastChannel := c\<rparr>) = journal s" "calls (s\<lparr>lastChannel := c\<rparr>) = calls s"
  "journal (s\<lparr>lastErr := er\<rparr>) = journal s" "calls (s\<lparr>lastErr := er\<rparr>) = calls s"
  "journal (s\<lparr>firstErr := er\<rparr>) = journal s" "calls (s\<lparr>firstErr := er\<rparr>) = calls s"
  "journal (s\<lparr>switched := b\<rparr>) = journal s" "calls (s\<lparr>switched := b\<rparr>) = calls s"
  "journal (s\<lparr>excluded := xs\<rparr>) = journal s" "calls (s\<lparr>excluded := xs\<rparr>) = calls s"
  "journal (s\<lparr>credits := cr\<rparr>) = journal s" "calls (s\<lparr>credits := cr\<rparr>) = calls s"
  "journal (s\<lparr>primaryRecorded := b\<rparr>) = journal s" "calls (s\<lparr>primaryRecorded := b\<rparr>) = calls s"
  "journal (s\<lparr>pendingHealth := p\<rparr>) = journal s" "calls (s\<lparr>pendingHealth := p\<rparr>) = calls s"
  by (simp_all add: journal_def calls_def)

lemma journal_log [simp]:
  "journal (s\<lparr>effects := effects s @ [x]\<rparr>) = journal s @ (case entry_of x of None \<Rightarrow> [] | Some y \<Rightarrow> [y])"
  "calls (s\<lparr>effects := effects s @ [x]\<rparr>) = calls s @ (case call_of x of None \<Rightarrow> [] | Some y \<Rightarrow> [y])"
  "journal (s\<lparr>world := w, effects := effects s @ [x]\<rparr>) = journal s @ (case entry_of x of None \<Rightarrow> [] | Some y \<Rightarrow> [y])"
  "calls (s\<lparr>world := w, effects := effects s @ [x]\<rparr>) = calls s @ (case call_of x of None \<Rightarrow> [] | Some y \<Rightarrow> [y])"
  by (simp_all add: journal_def calls_def map_filter_snoc)

subsection \<open>What an attempt logs\<close>

text \<open>\<open>attempted s a err s'\<close>: one more entry, for the source \<open>a\<close> with the outcome \<open>err\<close>.\<close>

definition attempted :: "'w exec_state \<Rightarrow> channel \<Rightarrow> err option \<Rightarrow> 'w exec_state \<Rightarrow> bool" where
  "attempted s a err s' \<longleftrightarrow> journal s' = journal s @ [(a, err)]
     \<and> (calls s' = calls s @ [(a, err)] \<or> calls s' = calls s \<and> err \<noteq> None)
     \<and> lastChannel s' = Some a \<and> lastErr s' = (if err = None then lastErr s else err)
     \<and> firstErr s' = firstErr s \<and> switched s' = switched s \<and> excluded s' = excluded s"

lemma call_upstream_effect:
  "call_upstream e ch s = (err, s') \<Longrightarrow> journal s' = journal s @ [(ch, err)] \<and> calls s' = calls s @ [(ch, err)]
     \<and> lastChannel s' = lastChannel s \<and> lastErr s' = lastErr s \<and> firstErr s' = firstErr s
     \<and> switched s' = switched s \<and> excluded s' = excluded s"
  by (auto simp: call_upstream_def journal_def calls_def map_filter_snoc split: prod.splits)

lemma quiet_account: "quiet s s' \<Longrightarrow> quiet s (RecordAccountHealth e i ok s')"
  by (auto simp: RecordAccountHealth_def intro: quiet_tell)

lemma run_fn_effect:
  assumes "run_fn e r ch s = (err, s')"
  shows "journal s' = journal s @ [(ch, err)] \<and> (calls s' = calls s @ [(ch, err)] \<or> calls s' = calls s \<and> err \<noteq> None)
     \<and> lastChannel s' = lastChannel s \<and> lastErr s' = lastErr s \<and> firstErr s' = firstErr s
     \<and> switched s' = switched s \<and> excluded s' = excluded s"
proof -
  have acc: "x = (if c then RecordAccountHealth e i ok t else t) \<Longrightarrow> quiet t x" for x c i ok and t :: "'a exec_state"
    by (simp add: quiet_account)
  have frame: ?thesis if "call_upstream e ch s0 = (err, s1)" "quiet s1 s'" "journal s0 = journal s" "calls s0 = calls s"
    "lastChannel s0 = lastChannel s" "lastErr s0 = lastErr s" "firstErr s0 = firstErr s"
    "switched s0 = switched s" "excluded s0 = excluded s" for s0 s1
    using call_upstream_effect [OF that(1)] quietD [OF that(2)] that(3-) by simp
  show ?thesis
  proof (cases "wrapping r")
    case Bare
    with assms show ?thesis using call_upstream_effect [of e ch s err s'] by (simp add: run_fn_def)
  next
    case (WithAccountHealth i)
    obtain er s1 where c: "call_upstream e ch s = (er, s1)" by fastforce
    with assms WithAccountHealth have "er = err" "quiet s1 s'"
      by (auto simp: run_fn_def fn_with_account_def Let_def quiet_account split: if_split_asm)
    with frame [of s s1] c show ?thesis by simp
  next
    case (WithCandidates i)
    obtain re w where rc: "recheck e (world s) = (re, w)" by fastforce
    show ?thesis
    proof (cases re)
      case (Some x)
      with assms WithCandidates rc show ?thesis
        by (auto simp: run_fn_def fn_with_candidates_def journal_def calls_def map_filter_snoc)
    next
      case None
      obtain er s1 where c: "call_upstream e ch (s\<lparr>world := w\<rparr>) = (er, s1)" by fastforce
      with assms WithCandidates rc None have "er = err" "quiet s1 s'"
        by (auto simp: run_fn_def fn_with_candidates_def Let_def quiet_account split: if_split_asm)
      with frame [of "s\<lparr>world := w\<rparr>" s1] c show ?thesis by simp
    qed
  qed
qed

lemma conclude_effect:
  assumes "conclude e r n ch err u s = (res, s')"
  shows "journal s' = journal s \<and> calls s' = calls s \<and> lastChannel s' = lastChannel s
     \<and> lastErr s' = (if err = None then lastErr s else err) \<and> firstErr s' = firstErr s
     \<and> switched s' = switched s \<and> excluded s' = excluded s
     \<and> res = (if IsRetryable (RetryableStatus e) err then None else Some (Returned (result_of e n err s')))"
proof -
  define s1 where "s1 = record_primary e ch err s"
  have f: "journal s1 = journal s \<and> calls s1 = calls s \<and> lastChannel s1 = lastChannel s \<and> lastErr s1 = lastErr s
     \<and> firstErr s1 = firstErr s \<and> switched s1 = switched s \<and> excluded s1 = excluded s"
    by (simp add: s1_def record_primary_def split: option.split)
  have none: "\<not> IsRetryable (RetryableStatus e) None" by (simp add: IsRetryable_def)
  from assms f none show ?thesis
    unfolding conclude_def s1_def [symmetric] by (auto simp: Let_def split: if_split_asm)
qed

text \<open>\<open>admitted e r ch a\<close>: the source of the attempt is the chosen one, or what the admission made of it.\<close>

definition admitted :: "'w executor \<Rightarrow> request \<Rightarrow> channel \<Rightarrow> channel \<Rightarrow> bool" where
  "admitted e r ch a \<longleftrightarrow> a = ch \<or> (\<exists>f w w'. executionAdmission e = Some f
     \<and> f (ch\<lparr>UpstreamModelID := ResolveChannelModel (tables e) (decode e) ch (req_model r)\<rparr>) w = (Inr a, w'))"

lemma run_attempt_effect:
  assumes "run_attempt e r n s = (res, s')" "lastChannel s = Some ch"
  obtains a err where "attempted s a err s'"
    "res = (if IsRetryable (RetryableStatus e) err then None else Some (Returned (result_of e n err s')))"
    "admitted e r ch a"
proof (cases "admit e r ch s")
  case (Pair adm s1)
  show ?thesis
  proof (cases adm)
    case (Inl x)
    with Pair have s1: "journal s1 = journal s @ [(ch, Some x)]" "calls s1 = calls s" "lastChannel s1 = lastChannel s"
      "lastErr s1 = lastErr s" "firstErr s1 = firstErr s" "switched s1 = switched s" "excluded s1 = excluded s"
      by (auto simp: admit_def journal_def calls_def map_filter_snoc split: option.splits prod.splits sum.splits)
    from assms Pair Inl have c: "conclude e r n ch (Some x) (now e (world s)) s1 = (res, s')"
      by (simp add: run_attempt_def Let_def)
    show ?thesis
      using conclude_effect [OF c] s1 assms(2) by (intro that [of ch "Some x"]) (auto simp: attempted_def admitted_def)
  next
    case (Inr a)
    with Pair assms(2) have s1: "journal s1 = journal s" "calls s1 = calls s" "lastChannel s1 = Some a"
      "lastErr s1 = lastErr s" "firstErr s1 = firstErr s" "switched s1 = switched s" "excluded s1 = excluded s"
      and a: "admitted e r ch a"
      by (auto simp: admitted_def admit_def journal_def calls_def split: option.splits prod.splits sum.splits)
    obtain err s2 where f: "run_fn e r a s1 = (err, s2)" by fastforce
    with assms Pair Inr have c: "conclude e r n a err (now e (world s)) s2 = (res, s')"
      by (simp add: run_attempt_def Let_def)
    show ?thesis
      using conclude_effect [OF c] run_fn_effect [OF f] s1 a by (intro that [of a err]) (auto simp: attempted_def)
  qed
qed

end
