(* ===== verification/Retry_Steps.thy ===== *)
theory Retry_Steps
  imports Retry_Frames
begin

text \<open>
  The steps between two attempts, the rule that lifts an invariant of one attempt to a whole
  execution, and the first invariant: how many upstream calls there are and what each but the last
  answered. The rule is a total one, every execution it speaks of returns.
\<close>

subsection \<open>Between two attempts\<close>

lemma budget_check_frame:
  "budget_check s = (go, s') \<Longrightarrow> journal s' = journal s \<and> calls s' = calls s \<and> lastErr s' = lastErr s
     \<and> lastChannel s' = lastChannel s \<and> firstErr s' = firstErr s \<and> switched s' = switched s
     \<and> excluded s' = excluded s \<and> world s' = world s \<and> pendingHealth s' = pendingHealth s \<and> effects s' = effects s"
  by (auto simp: budget_check_def split: option.splits if_split_asm prod.splits)

text \<open>\<open>rerouted e r s p c s'\<close>: after the source \<open>p\<close> the next attempt goes to \<open>c\<close>.\<close>

definition rerouted :: "'w executor \<Rightarrow> request \<Rightarrow> 'w exec_state \<Rightarrow> channel \<Rightarrow> channel \<Rightarrow> 'w exec_state \<Rightarrow> bool" where
  "rerouted e r s p c s' \<longleftrightarrow> journal s' = journal s \<and> calls s' = calls s \<and> lastErr s' = lastErr s
     \<and> lastChannel s' = Some c \<and> excluded s' = push_new (source_of p) (excluded s)
     \<and> (c = p \<or> (\<exists>w w'. selectNextForRetry e r (excluded s') w = (Some c, w')))
     \<and> firstErr s' = (if source_of c \<noteq> source_of p \<and> firstErr s = None then lastErr s else firstErr s)
     \<and> switched s' = (switched s \<or> source_of c \<noteq> source_of p \<and> firstErr s = None)"

lemma reselect_effect:
  assumes "reselect e r n s = (res, s')" "lastChannel s = Some p"
  shows "res = None \<and> (\<exists>c. rerouted e r s p c s')"
proof -
  obtain c w where sel: "selectNextForRetry e r (push_new (source_of p) (excluded s)) (world s) = (c, w)"
    by fastforce
  show ?thesis
  proof (cases c)
    case None
    with sel assms show ?thesis by (auto simp: reselect_def exclude_last_def rerouted_def)
  next
    case (Some x)
    with sel assms have "s' = switch_source e r x (s\<lparr>excluded := push_new (source_of p) (excluded s), world := w\<rparr>)" "res = None"
      by (simp_all add: reselect_def exclude_last_def)
    with sel Some assms(2) show ?thesis
      by (auto simp: switch_source_def Let_def rerouted_def intro!: exI [of _ x])
  qed
qed

text \<open>The execution ends between two attempts, with the channel and the log of the last one.\<close>

definition stopped :: "'w executor \<Rightarrow> 'w exec_state \<Rightarrow> int \<Rightarrow> outcome \<Rightarrow> 'w exec_state \<Rightarrow> bool" where
  "stopped e s n out s' \<longleftrightarrow> journal s' = journal s \<and> calls s' = calls s \<and> firstErr s' = firstErr s
     \<and> switched s' = switched s
     \<and> (out = Returned (result_of e (n - 1) (lastErr s) s')
        \<or> (\<exists>w w'. backoff e (n - 1) w = (False, w') \<and> out = Returned (result_of e n (ctx_Err e w') s')))"

lemma next_source_effect:
  assumes "next_source e r n s = (res, s')" "lastChannel s = Some p"
  shows "case res of Some out \<Rightarrow> stopped e s n out s' | None \<Rightarrow> \<exists>c. rerouted e r s p c s'"
proof -
  obtain go s1 where b: "budget_check s = (go, s1)" by fastforce
  note f = budget_check_frame [OF b]
  obtain ok w where k: "backoff e (n - 1) (world s1) = (ok, w)" by fastforce
  consider "\<not> go" | "go" "\<not> ok" | "go" "ok" by blast
  then show ?thesis
  proof cases
    case 1
    with assms b f show ?thesis by (auto simp: next_source_def Let_def stopped_def)
  next
    case 2
    with assms b k have s': "flushHealth e r (s1\<lparr>world := w\<rparr>) = s'"
      and "res = Some (Returned (result_of e n (ctx_Err e w) s'))"
      by (auto simp: next_source_def Let_def)
    with 2 f k flush_frame [of e r "s1\<lparr>world := w\<rparr>", unfolded s'] show ?thesis by (simp add: stopped_def) metis
  next
    case 3
    with assms b k have "reselect e r n (s1\<lparr>world := w\<rparr>) = (res, s')" by (simp add: next_source_def)
    from reselect_effect [OF this, of p] f assms(2) show ?thesis by (auto simp: rerouted_def)
  qed
qed

lemma first_source_effect:
  assumes "first_source e r n s = (res, s')"
  shows "journal s' = journal s \<and> calls s' = calls s \<and> lastErr s' = lastErr s \<and> firstErr s' = firstErr s
     \<and> switched s' = switched s \<and> excluded s' = excluded s
     \<and> (\<forall>out. res = Some out \<longrightarrow> (\<exists>x. out = Returned \<lparr>res_Channel = None, res_Err = Some x, res_Attempt = n,
          res_Fallback = False, res_FallbackReason = [], res_FirstErr = None\<rparr>))"
  using assms by (auto simp: first_source_def split: option.splits prod.splits sum.splits)

text \<open>\<open>denied\<close>: the authorization refused the attempt; otherwise the source stays.\<close>

lemma authorize_effect:
  assumes "authorize_attempt e r n s = (res, s')" "lastChannel s = Some ch"
  shows "case res of
      Some out \<Rightarrow> \<exists>x. journal s' = journal s @ [(ch, Some x)] \<and> calls s' = calls s \<and> firstErr s' = firstErr s
        \<and> switched s' = switched s \<and> out = Returned (result_of e n (Some x) s')
    | None \<Rightarrow> journal s' = journal s \<and> calls s' = calls s \<and> lastErr s' = lastErr s \<and> firstErr s' = firstErr s
        \<and> switched s' = switched s \<and> excluded s' = excluded s
        \<and> (\<exists>ch'. lastChannel s' = Some ch' \<and> source_of ch' = source_of ch)"
proof (cases "authorize e")
  case None
  with assms show ?thesis by (auto simp: authorize_attempt_def)
next
  case (Some check)
  obtain ans w where a: "check (req_group r) (req_clientModel r) (req_model r) ch (world s) = (ans, w)" by fastforce
  show ?thesis
  proof (cases "n \<le> 0")
    case True
    with assms Some show ?thesis by (auto simp: authorize_attempt_def)
  next
    case False
    with assms Some a show ?thesis
    proof (cases ans)
      case (Inl x)
      with assms Some a False show ?thesis
        by (auto simp: authorize_attempt_def Let_def)
    next
      case (Inr m)
      with assms Some a False show ?thesis
        by (auto simp: authorize_attempt_def set_model_def)
    qed
  qed
qed

subsection \<open>The rule\<close>

theorem attempts_rule:
  assumes go: "\<And>n s s'. P n s \<Longrightarrow> n < max_attempts e \<Longrightarrow> one_attempt e r n s = (None, s') \<Longrightarrow> P (n + 1) s'"
    and finish: "\<And>n s out s'. P n s \<Longrightarrow> n < max_attempts e \<Longrightarrow> one_attempt e r n s = (Some out, s') \<Longrightarrow> Q out s'"
    and spent: "\<And>n s. P n s \<Longrightarrow> max_attempts e \<le> n \<Longrightarrow>
       Q (Returned (result_of e (max_attempts e) (lastErr s) (flushHealth e r s))) (flushHealth e r s)"
    and start: "P n s"
  shows "\<exists>out s'. attempts e r n s = Some (out, s') \<and> Q out s'"
  using start
proof (induction "nat (max_attempts e - n)" arbitrary: n s)
  case 0
  then have "max_attempts e \<le> n" by simp
  with spent 0 show ?case by (subst attempts.simps) (simp add: Let_def)
next
  case (Suc k)
  then have n: "n < max_attempts e" by simp
  obtain res s' where one: "one_attempt e r n s = (res, s')" by fastforce
  show ?case
  proof (cases res)
    case (Some out)
    with one n finish [OF Suc.prems n] show ?thesis by (subst attempts.simps) simp
  next
    case None
    with one go [OF Suc.prems n] have "P (n + 1) s'" by simp
    moreover from Suc.hyps(2) have "k = nat (max_attempts e - (n + 1))" by simp
    ultimately obtain out t where "attempts e r (n + 1) s' = Some (out, t)" "Q out t"
      using Suc.hyps(1) by blast
    with one n None show ?thesis by (subst attempts.simps) simp
  qed
qed

text \<open>What one attempt comes to, in terms of the journal.\<close>

lemma one_attempt_first:
  assumes "one_attempt e r 0 s = (res, s')"
  shows "(\<exists>x. res = Some (Returned \<lparr>res_Channel = None, res_Err = Some x, res_Attempt = 0, res_Fallback = False,
             res_FallbackReason = [], res_FirstErr = None\<rparr>) \<and> journal s' = journal s \<and> calls s' = calls s
             \<and> firstErr s' = firstErr s \<and> switched s' = switched s)
       \<or> res = Some NilChannel \<and> journal s' = journal s \<and> calls s' = calls s
       \<or> (\<exists>s1 a err. journal s1 = journal s \<and> calls s1 = calls s \<and> lastErr s1 = lastErr s \<and> firstErr s1 = firstErr s
             \<and> switched s1 = switched s \<and> excluded s1 = excluded s \<and> attempted s1 a err s'
             \<and> res = (if IsRetryable (RetryableStatus e) err then None
                       else Some (Returned (result_of e 0 err s'))))"
proof -
  obtain r1 s1 where fs: "first_source e r 0 s = (r1, s1)" by fastforce
  note f = first_source_effect [OF fs]
  show ?thesis
  proof (cases r1)
    case (Some out)
    with fs assms f show ?thesis by (auto simp: one_attempt_def)
  next
    case None
    have au: "authorize_attempt e r 0 s1 = (None, s1)" by (auto simp: authorize_attempt_def split: option.split)
    with fs None assms have ra: "run_attempt e r 0 s1 = (res, s')" by (simp add: one_attempt_def)
    show ?thesis
    proof (cases "lastChannel s1")
      case None
      with ra f show ?thesis by (auto simp: run_attempt_def)
    next
      case (Some ch)
      from run_attempt_effect [OF ra Some] f show ?thesis by metis
    qed
  qed
qed

lemma one_attempt_next:
  assumes "one_attempt e r n s = (res, s')" "0 < n" "lastChannel s = Some p"
  shows "(\<exists>out. res = Some out \<and> stopped e s n out s')
       \<or> (\<exists>s1 c x. rerouted e r s p c s1 \<and> journal s' = journal s1 @ [(c, Some x)] \<and> calls s' = calls s1
             \<and> firstErr s' = firstErr s1 \<and> switched s' = switched s1
             \<and> res = Some (Returned (result_of e n (Some x) s')))
       \<or> (\<exists>s1 s2 c ch a err. rerouted e r s p c s1 \<and> source_of ch = source_of c
             \<and> journal s2 = journal s1 \<and> calls s2 = calls s1 \<and> lastErr s2 = lastErr s1 \<and> firstErr s2 = firstErr s1
             \<and> switched s2 = switched s1 \<and> excluded s2 = excluded s1 \<and> attempted s2 a err s'
             \<and> res = (if IsRetryable (RetryableStatus e) err then None
                       else Some (Returned (result_of e n err s')))
             \<and> admitted e r ch a)"
proof -
  obtain r1 s1 where ns: "next_source e r n s = (r1, s1)" by fastforce
  note f = next_source_effect [OF ns assms(3)]
  show ?thesis
  proof (cases r1)
    case (Some out)
    with ns assms f show ?thesis by (auto simp: one_attempt_def)
  next
    case None
    with f obtain c where c: "rerouted e r s p c s1" by auto
    then have lc: "lastChannel s1 = Some c" by (simp add: rerouted_def)
    obtain r2 s2 where au: "authorize_attempt e r n s1 = (r2, s2)" by fastforce
    note g = authorize_effect [OF au lc]
    show ?thesis
    proof (cases r2)
      case (Some out)
      with ns None au assms have "res = Some out" "s2 = s'" by (auto simp: one_attempt_def)
      with g Some c show ?thesis by simp blast
    next
      case r2: None
      with g obtain ch where g': "journal s2 = journal s1" "calls s2 = calls s1" "lastErr s2 = lastErr s1"
        "firstErr s2 = firstErr s1" "switched s2 = switched s1" "excluded s2 = excluded s1"
        and ch: "lastChannel s2 = Some ch" "source_of ch = source_of c" by auto
      from ns None au r2 assms have ra: "run_attempt e r n s2 = (res, s')" by (simp add: one_attempt_def)
      obtain a err where "attempted s2 a err s'"
        "res = (if IsRetryable (RetryableStatus e) err then None else Some (Returned (result_of e n err s')))"
        "admitted e r ch a"
        by (rule run_attempt_effect [OF ra ch(1)])
      with c ch(2) g' show ?thesis by blast
    qed
  qed
qed

end
