(* ===== verification/Retry_Properties.thy ===== *)
theory Retry_Properties
  imports Retry_Steps
begin

text \<open>
  What holds of every execution of the retry loop: it returns, with no more upstream calls than the
  policy allows, and only a retryable outcome is followed by another call. The locale \<open>failover\<close>
  states what a selector, an admission check and a context owe the loop; inside it the journal of an
  execution visits its sources in blocks, each source once, and the result tells the journal's story.
\<close>

subsection \<open>Termination and the number of calls\<close>

definition all_retryable :: "'w executor \<Rightarrow> (channel \<times> err option) list \<Rightarrow> bool" where
  "all_retryable e j \<longleftrightarrow> list_all (\<lambda>x. IsRetryable (RetryableStatus e) (snd x)) j"

lemma all_retryable_snoc [simp]:
  "all_retryable e (j @ [x]) \<longleftrightarrow> all_retryable e j \<and> IsRetryable (RetryableStatus e) (snd x)"
  by (auto simp: all_retryable_def)

lemma all_retryable_Nil [simp]: "all_retryable e []"
  by (simp add: all_retryable_def)

lemma all_retryable_butlast: "all_retryable e j \<Longrightarrow> all_retryable e (butlast j)"
  unfolding all_retryable_def list_all_iff by (auto dest: in_set_butlastD)

lemma retryable_Some: "IsRetryable p err \<Longrightarrow> err \<noteq> None"
  by (cases err) (auto simp: IsRetryable_def)

lemma max_attempts_eq: "max_attempts e = max 1 (MaxAttempts e)"
  by (auto simp: max_attempts_def)

text \<open>The invariant at the head of the loop.\<close>

definition counted :: "'w executor \<Rightarrow> int \<Rightarrow> 'w exec_state \<Rightarrow> bool" where
  "counted e n s \<longleftrightarrow> 0 \<le> n \<and> n \<le> max_attempts e \<and> int (length (calls s)) \<le> n
     \<and> all_retryable e (calls s) \<and> (0 < n \<longrightarrow> lastChannel s \<noteq> None)"

definition call_bounds :: "'w executor \<Rightarrow> outcome \<Rightarrow> 'w exec_state \<Rightarrow> bool" where
  "call_bounds e out s \<longleftrightarrow> int (length (calls s)) \<le> max_attempts e \<and> all_retryable e (butlast (calls s))
     \<and> (case out of Returned res \<Rightarrow> 0 \<le> res_Attempt res \<and> res_Attempt res \<le> max_attempts e
        | NilChannel \<Rightarrow> calls s = [])"

lemma result_of_fields [simp]:
  "res_Attempt (result_of e n err s) = n" "res_Err (result_of e n err s) = err"
  "res_Fallback (result_of e n err s) = switched s" "res_FirstErr (result_of e n err s) = firstErr s"
  "res_FallbackReason (result_of e n err s) = ClassifyRetryFallbackReason (json_valid e) (firstErr s)"
  "res_Channel (result_of e n err s) = lastChannel s"
  by (simp_all add: result_of_def)

lemma counted_attempt:
  assumes "attempted s2 a err s'" "calls s2 = calls s" "counted e n s" "n < max_attempts e"
  shows "IsRetryable (RetryableStatus e) err \<Longrightarrow> counted e (n + 1) s'"
    and "call_bounds e (Returned (result_of e n er s')) s'"
  using assms by (auto simp: attempted_def counted_def call_bounds_def butlast_append all_retryable_butlast)

lemma counted_step:
  assumes "counted e n s" "n < max_attempts e" "one_attempt e r n s = (res, s')"
  shows "case res of None \<Rightarrow> counted e (n + 1) s' | Some out \<Rightarrow> call_bounds e out s'"
proof (cases "n = 0")
  case True
  with assms(1) have c: "calls s = []" by (simp add: counted_def)
  from one_attempt_first [OF assms(3) [unfolded True]] show ?thesis
  proof (elim disjE exE conjE)
  qed (use counted_attempt [OF _ _ assms(1,2)] c True assms(2) in \<open>auto simp: call_bounds_def split: if_split_asm\<close>)
next
  case False
  with assms(1) obtain p where n: "0 < n" and p: "lastChannel s = Some p" by (auto simp: counted_def)
  from one_attempt_next [OF assms(3) n p] show ?thesis
  proof (elim disjE exE conjE)
    fix out
    assume "res = Some out" "stopped e s n out s'"
    with assms(1,2) n show ?thesis
      by (auto simp: stopped_def counted_def call_bounds_def all_retryable_butlast)
  next
    fix s1 c x
    assume "rerouted e r s p c s1" "calls s' = calls s1" "res = Some (Returned (result_of e n (Some x) s'))"
    with assms(1,2) n show ?thesis
      by (auto simp: rerouted_def counted_def call_bounds_def all_retryable_butlast)
  next
    fix s1 s2 c ch a err
    assume "rerouted e r s p c s1" "calls s2 = calls s1" "attempted s2 a err s'"
      "res = (if IsRetryable (RetryableStatus e) err then None else Some (Returned (result_of e n err s')))"
    with counted_attempt [OF _ _ assms(1,2), of s2 a err s'] show ?thesis
      by (auto simp: rerouted_def)
  qed
qed

lemma counted_spent:
  assumes "counted e n s" "max_attempts e \<le> n"
  shows "call_bounds e (Returned (result_of e (max_attempts e) er (flushHealth e r s))) (flushHealth e r s)"
  using assms by (auto simp: counted_def call_bounds_def all_retryable_butlast)

lemma new_exec_fields [simp]:
  "journal (new_exec w b) = []" "calls (new_exec w b) = []" "lastErr (new_exec w b) = None"
  "lastChannel (new_exec w b) = None" "firstErr (new_exec w b) = None" "switched (new_exec w b) = False"
  "excluded (new_exec w b) = []"
  by (simp_all add: new_exec_def journal_def calls_def List.map_filter_simps)

text \<open>C5. Every execution returns. It makes at most \<open>MaxAttempts\<close> upstream calls (one when the policy
  says none), every call but the last answered with an error the policy retries, so no success and
  no completed, refused or mismatched call is ever followed by another; the reported attempt number
  is within the same bound, and an execution that dereferences a missing channel has called nobody.
\<close>

theorem retry_execution_terminates:
  "\<exists>out s. execute e r w budget = Some (out, s)
     \<and> int (length (calls s)) \<le> max 1 (MaxAttempts e)
     \<and> list_all (\<lambda>x. IsRetryable (RetryableStatus e) (snd x)) (butlast (calls s))
     \<and> (case out of Returned res \<Rightarrow> 0 \<le> res_Attempt res \<and> res_Attempt res \<le> max 1 (MaxAttempts e)
        | NilChannel \<Rightarrow> calls s = [])"
proof -
  have "counted e 0 (new_exec w budget)" by (simp add: counted_def max_attempts_eq)
  then have "\<exists>out s. attempts e r 0 (new_exec w budget) = Some (out, s) \<and> call_bounds e out s"
  proof (rule attempts_rule [rotated 3])
  qed (use counted_step counted_spent in \<open>fastforce+\<close>)
  then show ?thesis
    unfolding execute_def call_bounds_def all_retryable_def max_attempts_eq by blast
qed

subsection \<open>The journal and its sources\<close>

abbreviation keyed :: "'w exec_state \<Rightarrow> (source_identity \<times> err option) list" where
  "keyed s \<equiv> map (\<lambda>x. (source_of (fst x), snd x)) (journal s)"

text \<open>The outcome at which the journal first leaves a source.\<close>

fun first_failure :: "(source_identity \<times> err option) list \<Rightarrow> err option" where
  "first_failure ((a, x) # (b, y) # j) = (if a \<noteq> b then x else first_failure ((b, y) # j))"
| "first_failure j = None"

lemma first_failure_snoc:
  "j \<noteq> [] \<Longrightarrow> list_all (\<lambda>x. snd x \<noteq> None) j \<Longrightarrow>
   first_failure (j @ [(b, y)]) =
     (if first_failure j = None \<and> fst (last j) \<noteq> b then snd (last j) else first_failure j)"
  by (induction j rule: first_failure.induct) auto

lemma remdups_adj_snoc:
  "remdups_adj (xs @ [x]) = (if xs \<noteq> [] \<and> last xs = x then remdups_adj xs else remdups_adj xs @ [x])"
  by (induction xs rule: remdups_adj.induct) auto

lemma first_failure_iff:
  "list_all (\<lambda>x. snd x \<noteq> None) (butlast j) \<Longrightarrow>
   first_failure j \<noteq> None \<longleftrightarrow> 1 < length (remdups_adj (map fst j))"
  by (induction j rule: first_failure.induct) (auto simp: Suc_lessI)

text \<open>At the head of a retry: the journal so far, the sources it excludes, the switch it has seen.\<close>

definition on_course :: "'w exec_state \<Rightarrow> bool" where
  "on_course s \<longleftrightarrow> journal s \<noteq> [] \<and> lastChannel s = Some (fst (last (journal s)))
     \<and> lastErr s = snd (last (journal s)) \<and> list_all (\<lambda>x. snd x \<noteq> None) (journal s)
     \<and> firstErr s = first_failure (keyed s) \<and> switched s = (firstErr s \<noteq> None)
     \<and> set (sources s) \<subseteq> insert (source_of (fst (last (journal s)))) (set (excluded s))
     \<and> distinct (remdups_adj (sources s))"

definition fresh_start :: "'w exec_state \<Rightarrow> bool" where
  "fresh_start s \<longleftrightarrow> journal s = [] \<and> firstErr s = None \<and> \<not> switched s \<and> excluded s = []"

text \<open>What the result says, and what the journal shows.\<close>

definition told :: "'w executor \<Rightarrow> outcome \<Rightarrow> 'w exec_state \<Rightarrow> bool" where
  "told e out s \<longleftrightarrow> distinct (remdups_adj (sources s)) \<and> list_all (\<lambda>x. snd x \<noteq> None) (butlast (journal s))
     \<and> (case out of NilChannel \<Rightarrow> journal s = []
        | Returned res \<Rightarrow> res_FirstErr res = first_failure (keyed s) \<and> res_Fallback res = (res_FirstErr res \<noteq> None)
            \<and> res_FallbackReason res = ClassifyRetryFallbackReason (json_valid e) (res_FirstErr res)
            \<and> (res_Err res = None \<longleftrightarrow> journal s \<noteq> [] \<and> snd (last (journal s)) = None))"

lemma last_keyed: "journal s \<noteq> [] \<Longrightarrow> last (keyed s) = (source_of (fst (last (journal s))), snd (last (journal s)))"
  by (simp add: last_map)

lemma on_course_extend:
  assumes s: "on_course s" and re: "rerouted e r s (fst (last (journal s))) c s1"
    and c: "source_of c = source_of (fst (last (journal s)))
      \<or> source_of c \<notin> set (excluded s) \<and> source_of c \<noteq> source_of (fst (last (journal s)))"
    and j: "journal s' = journal s1 @ [(a, err)]" "source_of a = source_of c"
      "firstErr s' = firstErr s1" "switched s' = switched s1"
  shows "firstErr s' = first_failure (keyed s') \<and> switched s' = (firstErr s' \<noteq> None)
     \<and> distinct (remdups_adj (sources s')) \<and> set (sources s') \<subseteq> insert (source_of a) (set (excluded s1))
     \<and> list_all (\<lambda>x. snd x \<noteq> None) (butlast (journal s'))"
proof -
  let ?p = "fst (last (journal s))"
  from s have ne: "journal s \<noteq> []" and errs: "list_all (\<lambda>x. snd x \<noteq> None) (keyed s)"
    and le: "lastErr s = snd (last (journal s))" "lastErr s \<noteq> None"
    by (auto simp: on_course_def list_all_iff)
  from re have r: "journal s1 = journal s" "excluded s1 = push_new (source_of ?p) (excluded s)"
    "firstErr s1 = (if source_of c \<noteq> source_of ?p \<and> firstErr s = None then lastErr s else firstErr s)"
    "switched s1 = (switched s \<or> source_of c \<noteq> source_of ?p \<and> firstErr s = None)"
    by (simp_all add: rerouted_def)
  have k: "keyed s' = keyed s @ [(source_of c, err)]" using j r by simp
  have ff: "firstErr s' = first_failure (keyed s')"
    using first_failure_snoc [OF _ errs, of "source_of c" err] ne s
    unfolding k last_keyed [OF ne] j(3) r(3) le(1) by (auto simp: on_course_def)
  have sw: "switched s' = (firstErr s' \<noteq> None)"
    using s le(2) unfolding j(3,4) r(3,4) by (auto simp: on_course_def)
  have src: "sources s' = sources s @ [source_of c]" using j r by simp
  have lst: "last (sources s) = source_of ?p" using ne by (simp add: last_map)
  have di: "distinct (remdups_adj (sources s'))"
    using s c lst unfolding src remdups_adj_snoc by (auto simp: on_course_def)
  have su: "set (sources s') \<subseteq> insert (source_of a) (set (excluded s1))"
    using s j(2) r(2) unfolding src by (auto simp: on_course_def)
  have bl: "list_all (\<lambda>x. snd x \<noteq> None) (butlast (journal s'))"
    using s j(1) r(1) by (simp add: on_course_def)
  from ff sw di su bl show ?thesis by blast
qed

text \<open>
  The contract of a retrying execution. An admission check hands back the source it was given, a
  selection never returns an excluded source, and a wait is cut short only by the end of the context.
\<close>

locale failover =
  fixes ex :: "'q \<Rightarrow> 'w executor" and rq :: "'q \<Rightarrow> request" and lawful :: "'q \<Rightarrow> bool"
  assumes admission_keeps: "lawful q \<Longrightarrow> executionAdmission (ex q) = Some f \<Longrightarrow> f c w = (Inr a, w') \<Longrightarrow>
      source_of a = source_of c"
    and selection_fresh: "lawful q \<Longrightarrow> selectNextForRetry (ex q) (rq q) excl w = (Some c, w') \<Longrightarrow>
      source_of c \<notin> set excl"
    and wait_cut: "lawful q \<Longrightarrow> backoff (ex q) n w = (False, w') \<Longrightarrow> ctx_Err (ex q) w' \<noteq> None"
begin

lemma admitted_source: "lawful q \<Longrightarrow> admitted (ex q) (rq q) ch a \<Longrightarrow> source_of a = source_of ch"
  using admission_keeps by (fastforce simp: admitted_def)

lemma rerouted_source:
  assumes law: "lawful q" and "rerouted (ex q) (rq q) s p c s1"
  shows "source_of c = source_of p \<or> source_of c \<notin> set (excluded s) \<and> source_of c \<noteq> source_of p"
proof -
  from assms have "set (excluded s1) = insert (source_of p) (set (excluded s))" by (simp add: rerouted_def)
  moreover from assms have "c = p \<or> (\<exists>w w'. selectNextForRetry (ex q) (rq q) (excluded s1) w = (Some c, w'))"
    unfolding rerouted_def by blast
  ultimately show ?thesis using selection_fresh [OF law] by blast
qed

lemma first_step:
  assumes "fresh_start s" "one_attempt (ex q) (rq q) 0 s = (res, s')"
  shows "case res of None \<Rightarrow> on_course s' | Some out \<Rightarrow> told (ex q) out s'"
proof -
  have told: "told (ex q) (Returned (result_of (ex q) 0 err s')) s'" if "attempted s1 a err s'" "journal s1 = []"
    "firstErr s1 = None" "\<not> switched s1" for s1 a err
    using that by (auto simp: told_def attempted_def)
  have course: "on_course s'" if "attempted s1 a err s'" "journal s1 = []" "firstErr s1 = None" "\<not> switched s1"
    "err \<noteq> None" for s1 a err
    using that by (auto simp: on_course_def attempted_def)
  from one_attempt_first [OF assms(2)] assms(1) show ?thesis
  proof (elim disjE exE conjE)
    fix s1 a err
    assume "attempted s1 a err s'" "journal s1 = journal s" "firstErr s1 = firstErr s" "switched s1 = switched s"
      and res: "res = (if IsRetryable (RetryableStatus (ex q)) err then None else Some (Returned (result_of (ex q) 0 err s')))"
    with assms(1) have *: "attempted s1 a err s'" "journal s1 = []" "firstErr s1 = None" "\<not> switched s1"
      by (simp_all add: fresh_start_def)
    show ?thesis
    proof (cases "IsRetryable (RetryableStatus (ex q)) err")
      case True
      with course [OF * retryable_Some [OF True]] res show ?thesis by simp
    next
      case False
      with told [OF *] res show ?thesis by simp
    qed
  qed (simp_all add: fresh_start_def told_def ClassifyRetryFallbackReason_def)
qed

lemma next_step:
  assumes "on_course s" "one_attempt (ex q) (rq q) n s = (res, s')" "0 < n" and law: "lawful q"
  shows "case res of None \<Rightarrow> on_course s' | Some out \<Rightarrow> told (ex q) out s'"
proof -
  let ?p = "fst (last (journal s))"
  from assms(1) have p: "lastChannel s = Some ?p" and ne: "journal s \<noteq> []" and le: "lastErr s = snd (last (journal s))"
    "lastErr s \<noteq> None"
    by (auto simp: on_course_def list_all_iff)
  from one_attempt_next [OF assms(2,3) p] show ?thesis
  proof (elim disjE exE conjE)
    fix out
    assume "res = Some out" "stopped (ex q) s n out s'"
    with assms(1) le ne wait_cut [OF law] show ?thesis
      by (fastforce simp: stopped_def told_def on_course_def list_all_iff dest: in_set_butlastD)
  next
    fix s1 c x
    assume re: "rerouted (ex q) (rq q) s ?p c s1" and rest: "journal s' = journal s1 @ [(c, Some x)]"
      "firstErr s' = firstErr s1" "switched s' = switched s1" "res = Some (Returned (result_of (ex q) n (Some x) s'))"
    from on_course_extend [OF assms(1) re rerouted_source [OF law re] rest(1) refl rest(2,3)] rest
    show ?thesis by (simp add: told_def)
  next
    fix s1 s2 c ch a err
    assume re: "rerouted (ex q) (rq q) s ?p c s1" and ch: "source_of ch = source_of c" and same: "journal s2 = journal s1"
      "firstErr s2 = firstErr s1" "switched s2 = switched s1" "excluded s2 = excluded s1"
      and at: "attempted s2 a err s'" and ad: "admitted (ex q) (rq q) ch a"
      and res: "res = (if IsRetryable (RetryableStatus (ex q)) err then None else Some (Returned (result_of (ex q) n err s')))"
    from ch admitted_source [OF law ad] have a: "source_of a = source_of c" by simp
    from at same have j: "journal s' = journal s1 @ [(a, err)]" "firstErr s' = firstErr s1" "switched s' = switched s1"
      and l: "lastChannel s' = Some a" "lastErr s' = (if err = None then lastErr s2 else err)" "excluded s' = excluded s1"
      by (simp_all add: attempted_def)
    note ext = on_course_extend [OF assms(1) re rerouted_source [OF law re] j(1) a j(2,3)]
    show ?thesis
    proof (cases "IsRetryable (RetryableStatus (ex q)) err")
      case True
      with ext j l res retryable_Some [OF True] show ?thesis by (simp add: on_course_def)
    next
      case False
      with ext j res show ?thesis by (simp add: told_def)
    qed
  qed
qed

theorem execution_told:
  "lawful q \<Longrightarrow> \<exists>out s. execute (ex q) (rq q) w b = Some (out, s) \<and> told (ex q) out s"
proof -
  assume law: "lawful q"
  define P where "P n s \<longleftrightarrow> 0 \<le> n \<and> (if n = 0 then fresh_start s else on_course s)" for n :: int and s :: "'w exec_state"
  have "P 0 (new_exec w b)" by (simp add: P_def fresh_start_def)
  moreover have "P (n + 1) s'" if "P n s" "one_attempt (ex q) (rq q) n s = (None, s')" for n s s'
    using that first_step [of s q None s'] next_step [of s q n None s'] law by (simp add: P_def split: if_split_asm)
  moreover have "told (ex q) out s'" if "P n s" "one_attempt (ex q) (rq q) n s = (Some out, s')" for n s out s'
    using that first_step [of s q "Some out" s'] next_step [of s q n "Some out" s'] law by (simp add: P_def split: if_split_asm)
  moreover have "told (ex q) (Returned (result_of (ex q) m (lastErr s) (flushHealth (ex q) (rq q) s))) (flushHealth (ex q) (rq q) s)"
    if "P n s" "max_attempts (ex q) \<le> n" for n s m
    using that max_attempts_eq [of "ex q"]
    by (auto simp: P_def on_course_def told_def list_all_iff dest: in_set_butlastD)
  ultimately show ?thesis
    unfolding execute_def by (intro attempts_rule [where P = P]) blast+
qed

end

end
