(* ===== verification/Relay_Failover.thy ===== *)
theory Relay_Failover
  imports Retry_Properties Runtime_Blocker
begin

text \<open>
  What the relay wires into the retry executor (\<open>internal/biz/relay.go\<close>, \<open>upstream_execution.go\<close>,
  \<open>route_permission.go\<close>): the choice of a subscription account the relay may use, the fallback across
  channels and subscription accounts, the admission of an attempt, the authorization of a retry. The
  clients of the channel service are functions on an outer state \<open>'w\<close>; the route selector and the
  account pool are the relay's own state. The relay's executor satisfies the contract of \<open>failover\<close>.
\<close>

subsection \<open>Accounts, clients and state\<close>

record sub_account =
  acc_ID :: int64
  acc_Platform :: string
  acc_Status :: int
  acc_Models :: "string list"
  acc_Priority :: int64
  acc_Weight :: int
  acc_ModelMapping :: string
  acc_UpstreamModelID :: string
  acc_UpstreamConfigurationRevision :: string
  acc_HealthProbeID :: string

record 'w subscription_client =
  SelectSubscriptionAccount :: "string \<Rightarrow> string \<Rightarrow> string \<Rightarrow> bool \<Rightarrow> 'w \<Rightarrow> (err + sub_account option) \<times> 'w"
  SelectSubscriptionAccountExcluding ::
    "(string \<Rightarrow> string \<Rightarrow> string \<Rightarrow> int64 list \<Rightarrow> 'w \<Rightarrow> (err + sub_account option) \<times> 'w) option"
  GetSubscriptionAccountByID :: "int64 \<Rightarrow> 'w \<Rightarrow> (err + sub_account option) \<times> 'w"

record permission =
  Allowed :: bool
  perm_UpstreamModelID :: string

record execution_claim =
  cl_SourceKind :: string
  cl_SourceID :: int64
  cl_ConfigurationRevision :: string
  cl_UpstreamModelID :: string
  cl_ProbeID :: string
  cl_AttemptID :: string
  cl_RuntimeBuild :: string

record execution_lease =
  ls_ConfigurationRevision :: string
  ls_ProbeID :: string

text \<open>\<open>rl_is_blocked\<close> is the runtime blocker of the account pool, \<open>new_addr\<close> the address of a new struct.\<close>

record ('b, 'w) relay =
  rl_SelectChannel :: "string \<Rightarrow> string \<Rightarrow> bool \<Rightarrow> 'w \<Rightarrow> (err + channel option) \<times> 'w"
  rl_SelectChannelExcluding :: "string \<Rightarrow> string \<Rightarrow> int64 list \<Rightarrow> 'w \<Rightarrow> (err + channel option) \<times> 'w"
  rl_subscription :: "'w subscription_client option"
  rl_CanRoute :: "(string \<Rightarrow> string \<Rightarrow> source_identity \<Rightarrow> 'w \<Rightarrow> (err + permission) \<times> 'w) option"
  rl_Claim :: "(execution_claim \<Rightarrow> 'w \<Rightarrow> (err + execution_lease) \<times> 'w) option"
  rl_is_blocked :: "'b \<Rightarrow> int64 \<Rightarrow> gotime \<Rightarrow> 'b \<times> runtime_block option"
  rl_now :: "'w \<Rightarrow> gotime"
  rl_ctx_Err :: "'w \<Rightarrow> err option"
  contracts_v1 :: "'w \<Rightarrow> bool"
  attempt_uuid :: "'w \<Rightarrow> string"
  BuildID :: string
  new_addr :: "'w \<Rightarrow> nat"

record ('b, 'w) relay_world =
  routeSelector :: selector
  accountPool :: "'b account_pool option"
  outer :: 'w

definition lift :: "('w \<Rightarrow> 'a \<times> 'w) \<Rightarrow> ('b, 'w) relay_world \<Rightarrow> 'a \<times> ('b, 'w) relay_world" where
  "lift f w = (case f (outer w) of (x, o') \<Rightarrow> (x, w\<lparr>outer := o'\<rparr>))"

subsection \<open>Subscription accounts\<close>

text \<open>The identifier of an account is an \<open>int64\<close> field.\<close>

definition account_id :: "sub_account \<Rightarrow> int64" where
  "account_id a = wrap64 (acc_ID a)"

definition subscriptionPlatformChannelType :: "string \<Rightarrow> int" where
  "subscriptionPlatformChannelType platform =
     (if platform = ''codex'' then 32 else if platform = ''claude'' then 33 else if platform = ''zhipu'' then 34
      else if platform = ''minimax'' then 35 else if platform = ''kimi'' then 36 else 0)"

text \<open>\<open>None\<close> is the error for an unsupported platform; \<open>addr\<close> is the address of the new channel.\<close>

definition subscriptionAccountToChannel :: "nat \<Rightarrow> sub_account \<Rightarrow> channel option" where
  "subscriptionAccountToChannel addr a =
     (if subscriptionPlatformChannelType (acc_Platform a) = 0 then None
      else Some \<lparr>Addr = addr, ID = account_id a, SubscriptionAccountID = account_id a, Priority = acc_Priority a, Weight = 0,
        UpstreamConfigurationRevision = acc_UpstreamConfigurationRevision a, HealthProbeID = acc_HealthProbeID a,
        Models = acc_Models a, ModelMapping = acc_ModelMapping a, UpstreamModelID = acc_UpstreamModelID a\<rparr>)"

definition subscriptionPlatformsForModel :: "string \<Rightarrow> string list" where
  "subscriptionPlatformsForModel model = (let lower = lower_text (ModelName model) in
     if has_prefix lower ''claude-'' then [''claude'']
     else if list_ex (has_prefix lower) [''gpt-'', ''codex-'', ''o1'', ''o3'', ''o4''] then [''codex'']
     else if has_prefix lower ''glm-'' then [''zhipu'']
     else if list_ex (has_prefix lower) [''minimax-'', ''minimaxm-''] then [''minimax'']
     else if list_ex (has_prefix lower) [''kimi-'', ''k3''] then [''kimi'']
     else [])"

definition subscriptionRouteWeight :: "sub_account \<Rightarrow> int64" where
  "subscriptionRouteWeight a =
     (if 0 < acc_Weight a then acc_Weight a else if 0 < acc_Priority a then acc_Priority a else 1)"

definition selectorWeight :: "int \<Rightarrow> int64" where
  "selectorWeight weight = (if weight = 0 then 1 else weight)"

definition isSubscriptionAccountSchedulable :: "('b, 'w) relay \<Rightarrow> sub_account \<Rightarrow> ('b, 'w) relay_world
    \<Rightarrow> bool \<times> ('b, 'w) relay_world" where
  "isSubscriptionAccountSchedulable rl a w =
     (case accountPool w of
        None \<Rightarrow> (True, w)
      | Some pool \<Rightarrow>
          (case IsSchedulable (rl_is_blocked rl) (rl_now rl (outer w)) pool (Some (account_id a)) (rl_now rl (outer w)) of
            (p, ok) \<Rightarrow> (ok, w\<lparr>accountPool := Some p\<rparr>)))"

definition ask_client :: "'w subscription_client \<Rightarrow> string \<Rightarrow> string \<Rightarrow> string \<Rightarrow> int64 list \<Rightarrow> bool
    \<Rightarrow> 'w \<Rightarrow> (err + sub_account option) \<times> 'w" where
  "ask_client client g model platform localExclude excludedPriority =
     (case SelectSubscriptionAccountExcluding client of
        Some f \<Rightarrow> f g model platform localExclude
      | None \<Rightarrow> SelectSubscriptionAccount client g model platform excludedPriority)"

text \<open>
  The loop has no bound of its own. It stops because every answer is new, and there are only so many
  positive \<open>int64\<close> identifiers.
\<close>

function account_loop :: "('b, 'w) relay \<Rightarrow> 'w subscription_client \<Rightarrow> string \<Rightarrow> string \<Rightarrow> string \<Rightarrow> int64 list
    \<Rightarrow> int64 list \<Rightarrow> bool \<Rightarrow> ('b, 'w) relay_world \<Rightarrow> (err + sub_account) \<times> ('b, 'w) relay_world" where
  "account_loop rl client g model platform localExclude seen excludedPriority w =
     (case rl_ctx_Err rl (outer w) of
        Some err \<Rightarrow> (Inl err, w)
      | None \<Rightarrow>
          (case lift (ask_client client g model platform localExclude excludedPriority) w of
             (Inl err, w1) \<Rightarrow> (Inl err, w1)
           | (Inr None, w1) \<Rightarrow> (Inl (Errorf ''subscription account not found''), w1)
           | (Inr (Some a), w1) \<Rightarrow>
               if account_id a \<le> 0 then (Inl (Errorf ''subscription account not found''), w1)
               else if account_id a \<in> set seen
               then (Inl (Errorf ''subscription account selection made no progress''), w1)
               else if account_id a \<in> set localExclude
               then account_loop rl client g model platform localExclude (account_id a # seen) True w1
               else (case isSubscriptionAccountSchedulable rl a w1 of
                   (True, w2) \<Rightarrow> (Inr a, w2)
                 | (False, w2) \<Rightarrow> account_loop rl client g model platform (account_id a # localExclude)
                     (account_id a # seen) True w2)))"
  by pat_completeness auto

definition unseen :: "int64 list \<Rightarrow> nat" where
  "unseen seen = card ({1 .. MaxInt64} - set seen)"

lemma account_id_range: "account_id a \<le> MaxInt64"
  by (simp add: account_id_def wrap64_def int_limits)

lemma card_unseen_less: "finite S \<Longrightarrow> x \<in> S \<Longrightarrow> x \<notin> set seen \<Longrightarrow> card (S - set (x # seen)) < card (S - set seen)"
  by (intro psubset_card_mono) auto

lemma unseen_less: "0 < account_id a \<Longrightarrow> account_id a \<notin> set seen \<Longrightarrow> unseen (account_id a # seen) < unseen seen"
  unfolding unseen_def by (rule card_unseen_less) (simp_all add: account_id_range)

termination account_loop
proof (relation "measure (\<lambda>(rl, client, g, model, platform, localExclude, seen, ep, w). unseen seen)", goal_cases)
  case 1
  show ?case by simp
qed (simp only: in_measure prod.case not_le, rule unseen_less, assumption, assumption)+

declare account_loop.simps [simp del]

definition selectSchedulableSubscriptionAccount :: "('b, 'w) relay \<Rightarrow> string \<Rightarrow> string \<Rightarrow> string \<Rightarrow> int64 list
    \<Rightarrow> ('b, 'w) relay_world \<Rightarrow> (err + sub_account) \<times> ('b, 'w) relay_world" where
  "selectSchedulableSubscriptionAccount rl g model platform exclude w = (case rl_subscription rl of
     None \<Rightarrow> (Inl (Errorf ''subscription account selector is not configured''), w)
   | Some client \<Rightarrow> account_loop rl client g model platform exclude [] False w)"

fun try_platforms :: "('b, 'w) relay \<Rightarrow> string \<Rightarrow> string \<Rightarrow> int64 list \<Rightarrow> string list
    \<Rightarrow> ('b, 'w) relay_world \<Rightarrow> (err + sub_account) \<times> ('b, 'w) relay_world" where
  "try_platforms rl g model exclude [] w = selectSchedulableSubscriptionAccount rl g model [] exclude w"
| "try_platforms rl g model exclude (p # ps) w =
     (case selectSchedulableSubscriptionAccount rl g model p exclude w of
        (Inr a, w1) \<Rightarrow> (Inr a, w1)
      | (Inl err, w1) \<Rightarrow> try_platforms rl g model exclude ps w1)"

definition selectSubscriptionAccountForModel :: "('b, 'w) relay \<Rightarrow> string \<Rightarrow> string \<Rightarrow> int64 list
    \<Rightarrow> ('b, 'w) relay_world \<Rightarrow> (err + sub_account) \<times> ('b, 'w) relay_world" where
  "selectSubscriptionAccountForModel rl g model exclude w =
     try_platforms rl g model exclude (subscriptionPlatformsForModel model) w"

text \<open>The client model first, then its global alias.\<close>

definition account_for :: "('b, 'w) relay \<Rightarrow> string \<Rightarrow> string \<Rightarrow> string \<Rightarrow> int64 list
    \<Rightarrow> ('b, 'w) relay_world \<Rightarrow> (err + sub_account) \<times> ('b, 'w) relay_world" where
  "account_for rl g clientModel resolvedModel exclude w =
     (case selectSubscriptionAccountForModel rl g clientModel exclude w of
        (Inr a, w1) \<Rightarrow> (Inr a, w1)
      | (Inl err, w1) \<Rightarrow>
          if resolvedModel \<noteq> clientModel then selectSubscriptionAccountForModel rl g resolvedModel exclude w1
          else (Inl err, w1))"

definition selectSubscriptionChannel :: "('b, 'w) relay \<Rightarrow> string \<Rightarrow> string \<Rightarrow> string
    \<Rightarrow> ('b, 'w) relay_world \<Rightarrow> (err + channel \<times> sub_account) \<times> ('b, 'w) relay_world" where
  "selectSubscriptionChannel rl g clientModel resolvedModel w = (case rl_subscription rl of
     None \<Rightarrow> (Inl (Errorf ''subscription account selector is not configured''), w)
   | Some client \<Rightarrow>
       (case account_for rl g clientModel resolvedModel [] w of
          (Inl err, w1) \<Rightarrow> (Inl err, w1)
        | (Inr a, w1) \<Rightarrow>
            (case subscriptionAccountToChannel (new_addr rl (outer w1)) a of
               None \<Rightarrow> (Inl (Errorf ''unsupported subscription platform''), w1)
             | Some ch \<Rightarrow> (Inr (ch, a), w1))))"

subsection \<open>Fallback across channels and accounts\<close>

definition excluded_accounts :: "source_identity list \<Rightarrow> int64 list" where
  "excluded_accounts excl = map SourceID (filter (\<lambda>x. Kind x = UpstreamRouteSubscription \<and> 0 < SourceID x) excl)"

definition fallback_channel :: "('b, 'w) relay \<Rightarrow> string \<Rightarrow> string \<Rightarrow> string \<Rightarrow> source_identity list
    \<Rightarrow> ('b, 'w) relay_world \<Rightarrow> (err + channel option) \<times> ('b, 'w) relay_world" where
  "fallback_channel rl g clientModel resolvedModel excl w =
     (case lift (rl_SelectChannelExcluding rl g clientModel (excluded_channels excl)) w of
        (Inl err, w1) \<Rightarrow>
          if resolvedModel \<noteq> clientModel
          then lift (rl_SelectChannelExcluding rl g resolvedModel (excluded_channels excl)) w1
          else (Inl err, w1)
      | (Inr ch, w1) \<Rightarrow> (Inr ch, w1))"

text \<open>Without a subscription client there is neither an account nor an error.\<close>

definition fallback_account :: "('b, 'w) relay \<Rightarrow> string \<Rightarrow> string \<Rightarrow> string \<Rightarrow> source_identity list
    \<Rightarrow> ('b, 'w) relay_world \<Rightarrow> (err + (channel \<times> sub_account) option) \<times> ('b, 'w) relay_world" where
  "fallback_account rl g clientModel resolvedModel excl w = (case rl_subscription rl of
     None \<Rightarrow> (Inr None, w)
   | Some client \<Rightarrow>
       (case account_for rl g clientModel resolvedModel (excluded_accounts excl) w of
          (Inl err, w1) \<Rightarrow> (Inl err, w1)
        | (Inr a, w1) \<Rightarrow>
            (case subscriptionAccountToChannel (new_addr rl (outer w1)) a of
               None \<Rightarrow> (Inl (Errorf ''unsupported subscription platform''), w1)
             | Some ch \<Rightarrow> (Inr (Some (ch, a)), w1))))"

definition route_choice :: "string \<Rightarrow> string \<Rightarrow> channel \<Rightarrow> sub_account \<Rightarrow> ('b, 'w) relay_world
    \<Rightarrow> route_kind \<times> ('b, 'w) relay_world" where
  "route_choice g clientModel ch a w =
     (case Select (Some (routeSelector w)) g clientModel
        [\<lparr>rc_Kind = UpstreamRouteChannel, rc_ID = ID ch, rc_Priority = Priority ch, rc_Weight = selectorWeight (Weight ch)\<rparr>,
         \<lparr>rc_Kind = UpstreamRouteSubscription, rc_ID = account_id a, rc_Priority = acc_Priority a,
          rc_Weight = subscriptionRouteWeight a\<rparr>] of
        (c, s) \<Rightarrow> (rc_Kind c, w\<lparr>routeSelector := (case s of Some x \<Rightarrow> x | None \<Rightarrow> routeSelector w)\<rparr>))"

definition SelectFallbackRoutingSource :: "('b, 'w) relay \<Rightarrow> string \<Rightarrow> string \<Rightarrow> string \<Rightarrow> source_identity list
    \<Rightarrow> ('b, 'w) relay_world \<Rightarrow> (err + channel option) \<times> ('b, 'w) relay_world" where
  "SelectFallbackRoutingSource rl g clientModel0 resolvedModel0 excl w =
     (let clientModel = ModelName clientModel0; resolvedModel = ModelName resolvedModel0 in
      case fallback_channel rl g clientModel resolvedModel excl w of (channel, w1) \<Rightarrow>
      case fallback_account rl g clientModel resolvedModel excl w1 of (sub, w2) \<Rightarrow>
        (case (channel, sub) of
           (Inr (Some ch), Inr (Some (subChannel, a))) \<Rightarrow>
             (case route_choice g clientModel ch a w2 of (kind, w3) \<Rightarrow>
                (Inr (Some (if kind = UpstreamRouteSubscription then subChannel else ch)), w3))
         | (Inr (Some ch), _) \<Rightarrow> (Inr (Some ch), w2)
         | (_, Inr (Some (subChannel, a))) \<Rightarrow> (Inr (Some subChannel), w2)
         | (Inl channelErr, Inl subErr) \<Rightarrow>
             (Inl (Errorf (''no fallback routing source: channel: '' @ error_text channelErr
                           @ ''; subscription: '' @ error_text subErr)), w2)
         | (Inl channelErr, _) \<Rightarrow> (Inl channelErr, w2)
         | (_, Inl subErr) \<Rightarrow> (Inl subErr, w2)
         | _ \<Rightarrow> (Inl (Errorf ''no fallback routing source''), w2)))"

subsection \<open>Admission and authorization\<close>

definition claim_of :: "('b, 'w) relay \<Rightarrow> channel \<Rightarrow> 'w \<Rightarrow> execution_claim" where
  "claim_of rl ch w = \<lparr>
     cl_SourceKind = (if 0 < SubscriptionAccountID ch then ''subscription'' else ''channel''),
     cl_SourceID = (if 0 < SubscriptionAccountID ch then SubscriptionAccountID ch else ID ch),
     cl_ConfigurationRevision = UpstreamConfigurationRevision ch, cl_UpstreamModelID = UpstreamModelID ch,
     cl_ProbeID = HealthProbeID ch,
     cl_AttemptID = (if contracts_v1 rl w then attempt_uuid rl w else []),
     cl_RuntimeBuild = (if contracts_v1 rl w then BuildID rl else [])\<rparr>"

definition claim_error :: "err \<Rightarrow> err" where
  "claim_error x = RetryableError (if list_ex is_capacity (chain (Some x)) then 429 else 503) (Some x) (Some True) True"

definition AdmitUpstreamExecution :: "('b, 'w) relay \<Rightarrow> channel \<Rightarrow> ('b, 'w) relay_world
    \<Rightarrow> (err + channel) \<times> ('b, 'w) relay_world" where
  "AdmitUpstreamExecution rl ch w =
     (let copy = ch\<lparr>Addr := new_addr rl (outer w)\<rparr> in
      if UpstreamConfigurationRevision ch = [] then (Inr copy, w)
      else case rl_Claim rl of
        None \<Rightarrow> (Inr copy, w)
      | Some claim \<Rightarrow>
          (case lift (claim (claim_of rl ch (outer w))) w of
             (Inl x, w1) \<Rightarrow> (Inl (claim_error x), w1)
           | (Inr lease, w1) \<Rightarrow>
               if ls_ConfigurationRevision lease \<noteq> UpstreamConfigurationRevision ch
               then (Inl (claim_error (Errorf ''upstream configuration changed; select a fresh source'')), w1)
               else (Inr (copy\<lparr>HealthProbeID := ls_ProbeID lease\<rparr>), w1)))"

definition CanRoute :: "('b, 'w) relay \<Rightarrow> string \<Rightarrow> string \<Rightarrow> string \<Rightarrow> source_identity
    \<Rightarrow> ('b, 'w) relay_world \<Rightarrow> (err + permission) \<times> ('b, 'w) relay_world" where
  "CanRoute rl g clientModel0 resolvedModel0 source w = (case rl_CanRoute rl of
     None \<Rightarrow> (Inl (Errorf ''routing authority unavailable''), w)
   | Some authority \<Rightarrow>
       let named = ModelName clientModel0; resolvedModel = ModelName resolvedModel0;
           clientModel = (if trim_space named = [] then resolvedModel else named)
       in if clientModel = [] then (Inr \<lparr>Allowed = False, perm_UpstreamModelID = []\<rparr>, w)
          else (case lift (authority g clientModel source) w of
              (Inl x, w1) \<Rightarrow> (Inl x, w1)
            | (Inr p, w1) \<Rightarrow>
                if Allowed p then (Inr p, w1)
                else if resolvedModel \<noteq> [] \<and> resolvedModel \<noteq> clientModel
                then lift (authority g resolvedModel source) w1 else (Inr p, w1)))"

text \<open>On success the upstream model the authority grants, which the code writes into the channel.\<close>

definition authorizeRetry :: "('b, 'w) relay \<Rightarrow> string \<Rightarrow> string \<Rightarrow> string \<Rightarrow> channel \<Rightarrow> ('b, 'w) relay_world
    \<Rightarrow> (err + string) \<times> ('b, 'w) relay_world" where
  "authorizeRetry rl g clientModel resolvedModel ch w =
     (case CanRoute rl g clientModel resolvedModel (source_of ch) w of
        (Inl x, w1) \<Rightarrow> (Inl x, w1)
      | (Inr p, w1) \<Rightarrow>
          if \<not> Allowed p then (Inl (Errorf ''retry routing permission revoked''), w1)
          else (Inr (perm_UpstreamModelID p), w1))"

text \<open>
  \<open>NewRetryExecutor\<close>: the use case is the fallback selector, the authorization and the admission of its
  executor. \<open>base\<close> carries the retry policy and what is not the relay's: the upstream call, the clock.
\<close>

definition NewRetryExecutor :: "('b, 'w) relay \<Rightarrow> ('b, 'w) relay_world executor \<Rightarrow> ('b, 'w) relay_world executor" where
  "NewRetryExecutor rl base = base\<lparr>
     SelectChannel := (\<lambda>g model first. lift (rl_SelectChannel rl g model first)),
     SelectChannelExcluding := Some (\<lambda>g model excl. lift (rl_SelectChannelExcluding rl g model excl)),
     fallback := Some (SelectFallbackRoutingSource rl),
     authorize := Some (authorizeRetry rl),
     executionAdmission := Some (AdmitUpstreamExecution rl)\<rparr>"

subsection \<open>Planning\<close>

definition selectAPIKeyChannel :: "('b, 'w) relay \<Rightarrow> string \<Rightarrow> string \<Rightarrow> string \<Rightarrow> ('b, 'w) relay_world
    \<Rightarrow> (err + channel option) \<times> ('b, 'w) relay_world" where
  "selectAPIKeyChannel rl g clientModel resolvedModel w =
     (case lift (rl_SelectChannel rl g clientModel False) w of
        (Inr ch, w1) \<Rightarrow> (Inr ch, w1)
      | (Inl x, w1) \<Rightarrow>
          if resolvedModel \<noteq> clientModel then lift (rl_SelectChannel rl g resolvedModel False) w1 else (Inl x, w1))"

definition channel_candidate :: "channel \<Rightarrow> routing_candidate" where
  "channel_candidate ch =
     \<lparr>Identity = \<lparr>Kind = UpstreamRouteChannel, SourceID = ID ch\<rparr>, Channel = Some ch\<rparr>"

definition account_candidate :: "channel \<Rightarrow> sub_account \<Rightarrow> routing_candidate" where
  "account_candidate subChannel a =
     \<lparr>Identity = \<lparr>Kind = UpstreamRouteSubscription, SourceID = account_id a\<rparr>, Channel = Some subChannel\<rparr>"

text \<open>The selection of \<open>Plan\<close> after authentication and stickiness: the winner and the candidate list.\<close>

definition plan_sources :: "('b, 'w) relay \<Rightarrow> string \<Rightarrow> string \<Rightarrow> string \<Rightarrow> ('b, 'w) relay_world
    \<Rightarrow> (err option + channel \<times> routing_candidate list option) \<times> ('b, 'w) relay_world" where
  "plan_sources rl g model resolvedModel w =
     (case selectAPIKeyChannel rl g model resolvedModel w of (channel, w1) \<Rightarrow>
      case selectSubscriptionChannel rl g model resolvedModel w1 of (sub, w2) \<Rightarrow>
        (case (channel, sub) of
           (Inr (Some ch), Inr (subChannel, a)) \<Rightarrow>
             (case route_choice g model ch a w2 of (kind, w3) \<Rightarrow>
                if kind = UpstreamRouteSubscription
                then (Inr (subChannel, Some [account_candidate subChannel a, channel_candidate ch]), w3)
                else (Inr (ch, Some [channel_candidate ch, account_candidate subChannel a]), w3))
         | (Inr (Some ch), Inl subErr) \<Rightarrow> (Inr (ch, None), w2)
         | (_, Inr (subChannel, a)) \<Rightarrow> (Inr (subChannel, None), w2)
         | (_, Inl subErr) \<Rightarrow>
             (Inl (if rl_subscription rl \<noteq> None then Some subErr
                   else (case channel of Inl channelErr \<Rightarrow> Some channelErr | Inr _ \<Rightarrow> None)), w2)))"

subsection \<open>The contract of failover\<close>

lemma account_loop_fresh:
  "account_loop rl client g model platform excl seen ep w = (Inr a, w') \<Longrightarrow>
     0 < account_id a \<and> account_id a \<notin> set excl"
proof (induction rl client g model platform excl seen ep w rule: account_loop.induct)
  case (1 rl client g model platform excl seen ep w)
  from "1.prems" show ?case
    by (subst (asm) account_loop.simps)
      (fastforce dest: "1.IH" split: option.splits prod.splits sum.splits if_split_asm bool.splits)
qed

lemma selected_account_fresh:
  "selectSchedulableSubscriptionAccount rl g model platform excl w = (Inr a, w') \<Longrightarrow>
     0 < account_id a \<and> account_id a \<notin> set excl"
  by (auto simp: selectSchedulableSubscriptionAccount_def dest: account_loop_fresh split: option.splits)

lemma try_platforms_fresh:
  "try_platforms rl g model excl ps w = (Inr a, w') \<Longrightarrow> 0 < account_id a \<and> account_id a \<notin> set excl"
  by (induction ps arbitrary: w) (auto dest: selected_account_fresh split: prod.splits sum.splits)

lemma account_for_fresh:
  "account_for rl g clientModel resolvedModel excl w = (Inr a, w') \<Longrightarrow> 0 < account_id a \<and> account_id a \<notin> set excl"
  by (auto simp: account_for_def selectSubscriptionAccountForModel_def dest: try_platforms_fresh
      split: prod.splits sum.splits if_split_asm)

lemma account_channel_source:
  "subscriptionAccountToChannel addr a = Some ch \<Longrightarrow> 0 < account_id a \<Longrightarrow>
     source_of ch = \<lparr>Kind = UpstreamRouteSubscription, SourceID = account_id a\<rparr>"
  by (auto simp: subscriptionAccountToChannel_def RoutingSourceIdentityForChannel_def split: if_split_asm)

lemma fallback_account_fresh:
  assumes "fallback_account rl g clientModel resolvedModel excl w = (Inr (Some (ch, a)), w')"
  shows "source_of ch \<notin> set excl"
proof -
  from assms obtain w1 where "account_for rl g clientModel resolvedModel (excluded_accounts excl) w = (Inr a, w1)"
    and ch: "subscriptionAccountToChannel (new_addr rl (outer w1)) a = Some ch"
    by (auto simp: fallback_account_def split: option.splits prod.splits sum.splits)
  from account_for_fresh [OF this(1)] have id: "0 < account_id a" "account_id a \<notin> set (excluded_accounts excl)"
    by simp_all
  with account_channel_source [OF ch] show ?thesis
    by (force simp: excluded_accounts_def)
qed

text \<open>What the channel service promises: a selection that excludes channels returns a stored channel (a
  positive identifier) that is none of them.\<close>

definition honest_channels :: "('b, 'w) relay \<Rightarrow> bool" where
  "honest_channels rl \<longleftrightarrow> (\<forall>g model excl w ch w'. rl_SelectChannelExcluding rl g model excl w = (Inr (Some ch), w') \<longrightarrow>
     0 < ID ch \<and> SubscriptionAccountID ch \<le> 0 \<and> ID ch \<notin> set excl)"

definition candidate_ok :: "routing_candidate \<Rightarrow> bool" where
  "candidate_ok c \<longleftrightarrow> (case Channel c of None \<Rightarrow> True | Some ch \<Rightarrow> Identity c = source_of ch)"

definition lawful_relay :: "('b, 'w) relay \<times> ('b, 'w) relay_world executor \<times> request \<Rightarrow> bool" where
  "lawful_relay q \<longleftrightarrow> (case q of (rl, base, r) \<Rightarrow> honest_channels rl
     \<and> (case candidates r of None \<Rightarrow> True | Some cs \<Rightarrow> list_all candidate_ok cs)
     \<and> (\<forall>n w w'. backoff base n w = (False, w') \<longrightarrow> ctx_Err base w' \<noteq> None))"

lemma honest_fresh:
  assumes "honest_channels rl"
    and "lift (rl_SelectChannelExcluding rl g model (excluded_channels excl)) w = (Inr (Some ch), w')"
  shows "source_of ch \<notin> set excl"
proof -
  from assms(2) obtain o' where "rl_SelectChannelExcluding rl g model (excluded_channels excl) (outer w) = (Inr (Some ch), o')"
    by (auto simp: lift_def split: prod.splits)
  with assms(1) have "0 < ID ch" "SubscriptionAccountID ch \<le> 0" "ID ch \<notin> set (excluded_channels excl)"
    unfolding honest_channels_def by blast+
  then show ?thesis by (force simp: excluded_channels_def RoutingSourceIdentityForChannel_def)
qed

lemma fallback_channel_fresh:
  "honest_channels rl \<Longrightarrow> fallback_channel rl g clientModel resolvedModel excl w = (Inr (Some ch), w') \<Longrightarrow>
     source_of ch \<notin> set excl"
  by (auto simp: fallback_channel_def dest: honest_fresh split: prod.splits sum.splits if_split_asm)

lemma fallback_fresh:
  assumes "honest_channels rl" "SelectFallbackRoutingSource rl g clientModel resolvedModel excl w = (Inr (Some ch), w')"
  shows "source_of ch \<notin> set excl"
  using assms(2) unfolding SelectFallbackRoutingSource_def Let_def
  by (auto dest: fallback_channel_fresh [OF assms(1)] fallback_account_fresh
      split: prod.splits sum.splits option.splits if_split_asm)

lemma walk_fresh:
  "walk_candidates cross k excl cs = Some ch \<Longrightarrow> list_all candidate_ok cs \<Longrightarrow> source_of ch \<notin> set excl"
  by (induction cs) (auto simp: candidate_ok_def Let_def split: option.splits if_split_asm)

lemma chosenD: "chosen x = (Some ch, w') \<Longrightarrow> x = (Inr (Some ch), w')"
  by (auto simp: chosen_def split: prod.splits sum.splits option.splits)

lemma relay_selection_fresh:
  assumes "lawful_relay (rl, base, r)" "selectNextForRetry (NewRetryExecutor rl base) r excl w = (Some c, w')"
  shows "source_of c \<notin> set excl"
proof -
  from assms(1) have h: "honest_channels rl" and cs: "candidates r = Some cs \<Longrightarrow> list_all candidate_ok cs" for cs
    by (auto simp: lawful_relay_def)
  from assms(2) show ?thesis
    unfolding selectNextForRetry_def Let_def NewRetryExecutor_def
    by (auto dest!: chosenD dest: fallback_fresh [OF h] honest_fresh [OF h] walk_fresh cs
        split: option.splits if_split_asm)
qed

lemma admission_keeps_source: "AdmitUpstreamExecution rl ch w = (Inr a, w') \<Longrightarrow> source_of a = source_of ch"
  by (auto simp: AdmitUpstreamExecution_def Let_def RoutingSourceIdentityForChannel_def
      split: option.splits prod.splits sum.splits if_split_asm)

interpretation relay: failover
  "\<lambda>(rl, base, r). NewRetryExecutor rl base" "\<lambda>(rl, base, r). r" lawful_relay
proof (unfold_locales, goal_cases)
  case (1 q f c w a w')
  then show ?case by (cases q) (auto simp: NewRetryExecutor_def dest: admission_keeps_source)
next
  case (2 q excl w c w')
  then show ?case by (cases q) (auto dest: relay_selection_fresh)
next
  case (3 q n w w')
  then show ?case by (cases q) (auto simp: NewRetryExecutor_def lawful_relay_def)
qed

end
