(* ===== verification/Relay_Properties.thy ===== *)
theory Relay_Properties
  imports Relay_Failover
begin

text \<open>
  What the relay's retries guarantee, read off the contract of failover at the relay's own executor,
  and the bound on the search for a subscription account. The demo is a relay with two channels and
  one subscription account: the first channel answers 502, the second 503, the account serves.
\<close>

subsection \<open>Failover\<close>

text \<open>C4. A request never returns to a source it has left. Over the attempts of one execution of the
  relay's retry executor - calls made, attempts refused by the admission check or denied by the
  authorization - the sources come in blocks, and no source has two blocks. The channel service must
  honour the exclusions it is sent, the candidate list must name its own sources and a wait must end
  early only with the context; that the account search, the fallback and the admission respect the
  excluded sources is proved of the code.
\<close>

theorem failover_visits_once:
  assumes "lawful_relay (rl, base, r)"
  shows "\<exists>out s. execute (NewRetryExecutor rl base) r w budget = Some (out, s) \<and> distinct (remdups_adj (sources s))"
  using relay.execution_told [OF assms, of w budget] by (auto simp: told_def)

text \<open>C15. The result tells what happened. It reports success exactly when the last attempt succeeded, it
  reports a fallback exactly when the attempts touched more than one source, and the first error and
  the reason of the fallback are those of the outcome at which the request left its first source.
\<close>

theorem failover_result_truthful:
  assumes "lawful_relay (rl, base, r)"
    and "execute (NewRetryExecutor rl base) r w budget = Some (Returned res, s)"
  shows "(res_Err res = None \<longleftrightarrow> journal s \<noteq> [] \<and> snd (last (journal s)) = None)
     \<and> (res_Fallback res \<longleftrightarrow> 1 < length (remdups_adj (sources s)))
     \<and> res_FirstErr res = first_failure (keyed s)
     \<and> res_FallbackReason res = ClassifyRetryFallbackReason (json_valid base) (res_FirstErr res)"
proof -
  from relay.execution_told [OF assms(1), of w budget] assms(2)
  have t: "told (NewRetryExecutor rl base) (Returned res) s" by auto
  then have "list_all (\<lambda>x. snd x \<noteq> None) (butlast (keyed s))"
    by (auto simp: told_def list_all_iff map_butlast [symmetric])
  from first_failure_iff [OF this] t show ?thesis
    by (simp add: told_def comp_def NewRetryExecutor_def)
qed

subsection \<open>The search for an account\<close>

text \<open>\<open>counting client A n\<close>: \<open>n\<close> counts the questions, every answer is an account of \<open>A\<close>.\<close>

definition counting :: "'w subscription_client \<Rightarrow> int64 set \<Rightarrow> ('w \<Rightarrow> nat) \<Rightarrow> bool" where
  "counting client A n \<longleftrightarrow> (\<forall>g model platform excl first w. case ask_client client g model platform excl first w of
     (ans, w') \<Rightarrow> n w' = Suc (n w) \<and> (case ans of Inr (Some a) \<Rightarrow> account_id a \<in> A | _ \<Rightarrow> True))"

lemma counting_ask:
  assumes "counting client A n" "lift (ask_client client g model platform excl first) w = (ans, w')"
  shows "n (outer w') = Suc (n (outer w)) \<and> (\<forall>a. ans = Inr (Some a) \<longrightarrow> account_id a \<in> A)"
proof -
  obtain an w1 where a: "ask_client client g model platform excl first (outer w) = (an, w1)" by fastforce
  moreover from assms(1) have "case ask_client client g model platform excl first (outer w) of
     (ans, w') \<Rightarrow> n w' = Suc (n (outer w)) \<and> (case ans of Inr (Some a) \<Rightarrow> account_id a \<in> A | _ \<Rightarrow> True)"
    unfolding counting_def by (elim allE)
  ultimately show ?thesis using assms(2) by (auto simp: lift_def)
qed

lemma schedulable_outer: "isSubscriptionAccountSchedulable rl a w = (ok, w') \<Longrightarrow> outer w' = outer w"
  by (auto simp: isSubscriptionAccountSchedulable_def split: prod.splits option.splits)

lemma card_seen:
  assumes "finite A" "x \<in> A" "x \<notin> set seen"
  shows "card (A - set seen) = Suc (card (A - set (x # seen)))"
proof -
  have "A - set (x # seen) = A - set seen - {x}" by auto
  with card_Suc_Diff1 [of "A - set seen" x] assms show ?thesis by simp
qed

lemma account_loop_bounded:
  assumes "finite A" "counting client A n"
  shows "account_loop rl client g model platform excl seen ep w = (res, w') \<Longrightarrow>
    n (outer w') \<le> n (outer w) + card (A - set seen) + 1"
  using assms(2)
proof (induction rl client g model platform excl seen ep w rule: account_loop.induct)
  case (1 rl client g model platform excl seen ep w)
  show ?case
  proof (cases "rl_ctx_Err rl (outer w)")
    case (Some x)
    with "1.prems"(1) show ?thesis by (simp add: account_loop.simps)
  next
    case None
    obtain ans w1 where ask: "lift (ask_client client g model platform excl ep) w = (ans, w1)" by fastforce
    note c = counting_ask [OF "1.prems"(2) ask]
    show ?thesis
    proof (cases "\<exists>a. ans = Inr (Some a) \<and> 0 < account_id a \<and> account_id a \<notin> set seen")
      case False
      with "1.prems"(1) None ask c show ?thesis
        by (auto simp: account_loop.simps [of rl client g model platform excl seen ep w]
            split: sum.splits option.splits if_split_asm)
    next
      case True
      then obtain a where a: "ans = Inr (Some a)" "0 < account_id a" "account_id a \<notin> set seen" by blast
      with c have card: "card (A - set seen) = Suc (card (A - set (account_id a # seen)))"
        by (intro card_seen assms(1)) auto
      obtain ok w2 where s: "isSubscriptionAccountSchedulable rl a w1 = (ok, w2)" by fastforce
      note so = schedulable_outer [OF s]
      note def = account_loop.simps [of rl client g model platform excl seen ep w]
      consider "account_id a \<in> set excl" | "account_id a \<notin> set excl" "ok" | "account_id a \<notin> set excl" "\<not> ok" by blast
      then show ?thesis
      proof cases
        case 1
        with "1.prems"(1) None ask a have
          "account_loop rl client g model platform excl (account_id a # seen) True w1 = (res, w')"
          by (simp add: def)
        from "1.IH"(1) [OF None ask [symmetric] a(1) refl _ a(3) 1 this "1.prems"(2)] a(2) c card show ?thesis by simp
      next
        case 2
        with "1.prems"(1) None ask a s so c show ?thesis by (simp add: def)
      next
        case 3
        with "1.prems"(1) None ask a s have
          "account_loop rl client g model platform (account_id a # excl) (account_id a # seen) True w2 = (res, w')"
          by (simp add: def)
        from "1.IH"(2) [OF None ask [symmetric] a(1) refl _ a(3) 3(1) s [symmetric] _ this "1.prems"(2)] a(2) 3(2) c card so
        show ?thesis by simp
      qed
    qed
  qed
qed

text \<open>C16. The search for a subscription account asks at most once more than there are accounts, whatever
  the selector does: one that ignores the exclusions it is sent is stopped by the first account it
  repeats. \<open>n\<close> counts the questions put to the client, \<open>A\<close> holds the accounts it can answer with.
\<close>

theorem account_search_bounded:
  assumes "finite A" "counting client A n" "rl_subscription rl = Some client"
  shows "n (outer (snd (selectSchedulableSubscriptionAccount rl g model platform exclude w)))
     \<le> n (outer w) + card A + 1"
  using account_loop_bounded [OF assms(1,2), of rl g model platform exclude "[]" False w] assms(3)
  by (simp add: selectSchedulableSubscriptionAccount_def prod_eq_iff)

end
