(* ===== verification/Relay_Witnesses.thy ===== *)
theory Relay_Witnesses
  imports Relay_Properties
begin

text \<open>
  A relay with two channels and one subscription account, and the properties of failover and of the
  account search at it: the first channel answers 502, the second 503, the account serves the request.
\<close>

definition demo_channel :: "int64 \<Rightarrow> channel" where
  "demo_channel i = \<lparr>Addr = nat i, ID = i, SubscriptionAccountID = 0, Priority = 2, Weight = 1,
     UpstreamConfigurationRevision = [], HealthProbeID = [], Models = [''gpt-5''], ModelMapping = [], UpstreamModelID = []\<rparr>"

definition demo_account :: sub_account where
  "demo_account = \<lparr>acc_ID = 5, acc_Platform = ''codex'', acc_Status = 1, acc_Models = [''gpt-5''], acc_Priority = 1,
     acc_Weight = 0, acc_ModelMapping = [], acc_UpstreamModelID = [], acc_UpstreamConfigurationRevision = [],
     acc_HealthProbeID = []\<rparr>"

text \<open>A client that honours the exclusions; the outer state counts the questions.\<close>

definition demo_client :: "nat subscription_client" where
  "demo_client = \<lparr>
     SelectSubscriptionAccount = (\<lambda>g model platform first w. (Inr (Some demo_account), Suc w)),
     SelectSubscriptionAccountExcluding = Some (\<lambda>g model platform excl w.
       (if 5 \<in> set excl then Inl (Errorf ''no account'') else Inr (Some demo_account), Suc w)),
     GetSubscriptionAccountByID = (\<lambda>i w. (Inr (if i = 5 then Some demo_account else None), w))\<rparr>"

definition demo_relay :: "(unit, nat) relay" where
  "demo_relay = \<lparr>
     rl_SelectChannel = (\<lambda>g model first w. (Inr (Some (demo_channel 1)), w)),
     rl_SelectChannelExcluding = (\<lambda>g model excl w. (case find (\<lambda>i. i \<notin> set excl) [1, 2] of
        Some i \<Rightarrow> Inr (Some (demo_channel i)) | None \<Rightarrow> Inl (Errorf ''no channel''), w)),
     rl_subscription = Some demo_client,
     rl_CanRoute = Some (\<lambda>g model source w. (Inr \<lparr>Allowed = True, perm_UpstreamModelID = model\<rparr>, w)),
     rl_Claim = None,
     rl_is_blocked = (\<lambda>b i t. (b, None)),
     rl_now = (\<lambda>w. 1),
     rl_ctx_Err = (\<lambda>w. None),
     contracts_v1 = (\<lambda>w. False),
     attempt_uuid = (\<lambda>w. []),
     BuildID = [],
     new_addr = (\<lambda>w. 100 + w)\<rparr>"

definition demo_base :: "(unit, nat) relay_world executor" where
  "demo_base = \<lparr>
     MaxAttempts = 4, RetryableStatus = DefaultRetryableStatus, crossSourceFallback = True,
     externalSubscriptionHealth = False, deferStreamHealth = False, observes = False, recordsModels = True,
     SelectChannel = (\<lambda>g model first w. (Inr None, w)), SelectChannelExcluding = None, fallback = None,
     authorize = None, executionAdmission = None,
     forward = (\<lambda>ch w. (if 0 < SubscriptionAccountID ch then None
        else Some (UpstreamHTTPError 0 (501 + ID ch) ''busy''), w)),
     recheck = (\<lambda>w. (None, w)), backoff = (\<lambda>n w. (True, w)), ctx_Err = (\<lambda>w. None), now = (\<lambda>w. 0),
     elapsed_ms = (\<lambda>t w. 30), new_uuid = (\<lambda>w. []), notify = (\<lambda>x w. w), sanitize = (\<lambda>s. s),
     json_valid = (\<lambda>s. False), decode = (\<lambda>s. None), tables = demo_unicode\<rparr>"

definition demo_request :: request where
  "demo_request = \<lparr>req_group = ''team'', req_model = ''gpt-5'', req_clientModel = ''gpt-5'', req_healthModel = ''gpt-5'',
     initialChannel = Some (demo_channel 1), candidates = None, wrapping = Bare\<rparr>"

definition demo_world :: "(unit, nat) relay_world" where
  "demo_world = \<lparr>routeSelector = NewUpstreamRouteSelector,
     accountPool = Some \<lparr>ap_blocker = (), ap_checked = 0, ap_runtimeBlocked = 0, ap_allowed = 0\<rparr>, outer = 0\<rparr>"

lemma demo_lawful: "lawful_relay (demo_relay, demo_base, demo_request)"
  by (auto simp: lawful_relay_def honest_channels_def demo_relay_def demo_request_def demo_base_def demo_channel_def
      split: option.splits if_split_asm)

definition demo_run :: "(outcome \<times> (unit, nat) relay_world exec_state) option" where
  "demo_run = execute (NewRetryExecutor demo_relay demo_base) demo_request demo_world None"

lemma demo_returns:
  "case demo_run of Some (Returned res, s) \<Rightarrow> res_Fallback res \<and> map SourceID (sources s) = [1, 2, 5] | _ \<Rightarrow> False"
  by code_simp

lemma demo_result:
  obtains res s where "execute (NewRetryExecutor demo_relay demo_base) demo_request demo_world None = Some (Returned res, s)"
    "res_Fallback res" "map SourceID (sources s) = [1, 2, 5]"
  using demo_returns unfolding demo_run_def
  by (auto split: option.splits prod.splits outcome.splits)

lemma failover_visits_once_witness:
  "\<exists>out s. execute (NewRetryExecutor demo_relay demo_base) demo_request demo_world None = Some (out, s)
     \<and> distinct (remdups_adj (sources s)) \<and> map SourceID (sources s) = [1, 2, 5]"
  using failover_visits_once [OF demo_lawful, of demo_world None] demo_result by fastforce

lemma failover_result_truthful_witness:
  "\<exists>res s. execute (NewRetryExecutor demo_relay demo_base) demo_request demo_world None = Some (Returned res, s)
     \<and> 1 < length (remdups_adj (sources s)) \<and> res_FirstErr res = first_failure (keyed s)"
proof -
  obtain res s where r: "execute (NewRetryExecutor demo_relay demo_base) demo_request demo_world None
      = Some (Returned res, s)" "res_Fallback res"
    by (rule demo_result)
  from failover_result_truthful [OF demo_lawful r(1)] r show ?thesis by blast
qed

text \<open>A client that ignores what it is told to exclude.\<close>

definition stubborn_client :: "nat subscription_client" where
  "stubborn_client = demo_client\<lparr>SelectSubscriptionAccountExcluding := None\<rparr>"

lemma account_search_bounded_witness:
  "outer (snd (selectSchedulableSubscriptionAccount (demo_relay\<lparr>rl_subscription := Some stubborn_client\<rparr>)
     ''team'' ''gpt-5'' ''codex'' [5] demo_world)) \<le> 2"
proof -
  have "counting stubborn_client {5} id"
    by (simp add: counting_def ask_client_def stubborn_client_def demo_client_def demo_account_def account_id_def
        wrap64_def)
  from account_search_bounded [OF _ this, of "demo_relay\<lparr>rl_subscription := Some stubborn_client\<rparr>"
      "''team''" "''gpt-5''" "''codex''" "[5]" demo_world]
  show ?thesis by (simp add: demo_world_def)
qed

end
