(* ===== verification/Reservation.thy ===== *)
theory Reservation
  imports Reservation_Store
begin

text \<open>
  The life of a reservation: \<open>ReserveQuota\<close>, \<open>CommitQuotaWithUsage\<close> and \<open>releaseReservation\<close> of
  \<open>app/billing/internal/biz/billing.go\<close>, with the request snapshot of \<open>request_snapshot.go\<close> and the replay
  check of \<open>request_attempt.go\<close>. A transaction is a function on the store; what the use case reads of
  its configuration is a record. The native execution contract (usage version 2 with an execution
  intent), the metrics, the logs and the pricing-snapshot table are left out.
\<close>

subsection \<open>The use case and a request\<close>

record bill_env =
  be_Modes :: billing_modes
  be_Pricing :: pricing_config
  be_HasSubscription :: bool
  be_SnapshotsEnabled :: bool
  be_EntitlementsEnabled :: bool
  be_HasRoutingPolicies :: bool
  be_AllowOverdraft :: bool
  be_BlockOverdraftUsers :: "string list"
  be_HasReceivables :: bool
  be_Hashes :: hashes
  be_RoutingDigest :: "routing_context \<Rightarrow> string"
  be_GroupDigest :: "subscription_group \<Rightarrow> string option"
  be_SubDigest :: "user_subscription \<Rightarrow> string option"
  be_TierDigest :: "service_tier_config \<Rightarrow> string"
  be_SnapshotDigest :: "request_snapshot \<Rightarrow> string option"
  be_Zones :: zones
  be_Instant :: "int64 \<Rightarrow> gotime"
  be_Sum :: "float64 list \<Rightarrow> float64"
  be_Now :: gotime
  be_Unix :: int64
  be_Expiry :: gotime
  be_NewID :: string

record bill_request =
  bq_UserID :: string
  bq_RequestID :: string
  bq_Tokens :: int64
  bq_Model :: string
  bq_ChannelID :: string
  bq_SubscriptionAccountID :: int64
  bq_Routing :: "routing_context option"
  bq_Tier :: tier_request
  bq_RootRequestID :: string
  bq_AttemptNumber :: int
  bq_SourceKind :: string
  bq_UpstreamModelID :: string

definition parseInt64Default :: "string \<Rightarrow> int64 \<Rightarrow> int64" where
  "parseInt64Default value fallback = (if value = [] then fallback
     else case ParseInt value of Some n \<Rightarrow> n | None \<Rightarrow> fallback)"

definition resolveSubscriptionAccountID :: "int64 \<Rightarrow> string \<Rightarrow> int64" where
  "resolveSubscriptionAccountID override reservationValue =
     (if override \<noteq> 0 then override else parseInt64Default reservationValue 0)"

text \<open>Not the larger of the value and zero, as its comment says, but the absolute value.\<close>

definition positiveOrZero :: "int64 \<Rightarrow> int64" where
  "positiveOrZero v = (if v < 0 then wrap64 (- v) else v)"

definition canOverdraft :: "bill_env \<Rightarrow> string \<Rightarrow> bool" where
  "canOverdraft E u \<longleftrightarrow> be_AllowOverdraft E \<and> u \<notin> set (be_BlockOverdraftUsers E)"

subsection \<open>Request snapshots\<close>

definition finitePositive :: "float64 \<Rightarrow> bool" where
  "finitePositive n \<longleftrightarrow> f_less (Fin 0) n \<and> \<not> f_special n"

definition ValidBillingMode :: "string \<Rightarrow> bool" where
  "ValidBillingMode m \<longleftrightarrow> m = ''wallet_only'' \<or> m = ''subscription_only'' \<or> m = ''subscription_first''"

definition cost_bound_Valid :: "cost_bound \<Rightarrow> bool" where
  "cost_bound_Valid b \<longleftrightarrow> cn_Protocol b = ''openai_text_embeddings'' \<and> cn_InputTokens b > 0 \<and> cn_InputTokens b \<le> 2000000
     \<and> cn_UpstreamModel b \<in> {''text-embedding-3-small'', ''text-embedding-3-large'', ''text-embedding-ada-002''}"

definition pricing_ok :: "frozen_pricing \<Rightarrow> bool" where
  "pricing_ok p \<longleftrightarrow> (fp_Method p = ''model_price'' \<or> fp_Method p = ''ratio'')
     \<and> (fp_Method p = ''model_price'' \<longleftrightarrow> fp_Price p \<noteq> None)
     \<and> finitePositive (fp_GroupRatio p) \<and> finitePositive (fp_ModelRatio p) \<and> finitePositive (fp_CompletionRatio p)"

definition subscription_ok :: "frozen_subscription \<Rightarrow> bool" where
  "subscription_ok s \<longleftrightarrow> fs_SubscriptionID s > 0 \<and> fs_PolicyID s > 0 \<and> finitePositive (fs_RateMultiplier s)
     \<and> fs_PolicyVersion s \<noteq> [] \<and> fs_ContractVersion s \<noteq> []
     \<and> (fs_CoverageMode s = ''legacy_all_authorized'' \<or> fs_CoverageMode s = ''selected_groups'')"

definition coverage_ok :: "request_snapshot \<Rightarrow> bool" where
  "coverage_ok s = (case rs_Subscription s of None \<Rightarrow> True
   | Some f \<Rightarrow> if fs_CoverageMode f \<noteq> ''selected_groups'' then True
       else (case rs_Routing s of None \<Rightarrow> False
         | Some c \<Rightarrow> fs_EntitlementRevision f > 0 \<and> list_ex (\<lambda>g. cv_GroupID g = rc_GroupID c) (fs_Coverage f)))"

definition snapshot_Validate :: "bill_env \<Rightarrow> request_snapshot \<Rightarrow> bool" where
  "snapshot_Validate E s =
     (if rs_Version s \<noteq> 2 \<or> rs_Model s = [] \<or> rs_GroupKey s = [] \<or> \<not> ValidBillingMode (rs_BillingMode s)
        \<or> rs_BillingPolicyVersion s = [] then False
      else if (case rs_Routing s of None \<Rightarrow> False
          | Some c \<Rightarrow> context_valid c \<noteq> None \<or> rc_GroupKey c \<noteq> rs_GroupKey s) then False
      else if rs_BillingMode s = ''subscription_only'' \<and> (rs_MaxCost s < 0
          \<or> (case rs_CostBound s of None \<Rightarrow> True | Some b \<Rightarrow> \<not> cost_bound_Valid b)) then False
      else if \<not> coverage_ok s then False
      else if rs_ServiceTier s \<noteq> None
          \<and> \<not> frozen_tier_Validate (be_Zones E) (be_TierDigest E) (be_Instant E) (rs_ServiceTier s) then False
      else if \<not> pricing_ok (rs_Pricing s) then False
      else if (case rs_Subscription s of None \<Rightarrow> False | Some f \<Rightarrow> \<not> subscription_ok f) then False
      else be_SnapshotDigest E s \<noteq> None)"

text \<open>\<open>requestCalculator\<close>: the pricing and the modes frozen in a snapshot.\<close>

definition snapshot_pricing :: "request_snapshot \<Rightarrow> pricing_config" where
  "snapshot_pricing s = (let p = rs_Pricing s; k = normalizePricingModelKey (rs_Model s) in
     \<lparr>pr_GroupRatios = [rs_GroupKey s \<mapsto> fp_GroupRatio p], pr_ModelRatios = [k \<mapsto> fp_ModelRatio p],
      pr_CompletionRatios = [k \<mapsto> fp_CompletionRatio p],
      pr_ModelPrices = (case fp_Price p of None \<Rightarrow> Map.empty | Some pr \<Rightarrow> [k \<mapsto> pr]), pr_UpstreamPrices = Map.empty\<rparr>)"

definition snapshot_modes :: "request_snapshot \<Rightarrow> billing_modes" where
  "snapshot_modes s = (let p = rs_Pricing s in
     \<lparr>bm_CacheCreation = fp_CacheCreationMode p, bm_Canonical = fp_CanonicalUsageMode p,
      bm_ChargeAll = fp_CanonicalChargeAll p, bm_ChargeAllowlist = fp_CanonicalChargeAllowlist p\<rparr>)"

definition reservationCostWithPricing :: "bill_env \<Rightarrow> reservation \<Rightarrow> string \<Rightarrow> int64 \<Rightarrow> billed_usage
    \<Rightarrow> billing_error + (int64 \<times> cost_breakdown \<times> usage_audit)" where
  "reservationCostWithPricing E r legacyGroup tokens u = (case rv_Snapshot r of
     None \<Rightarrow> Inr (calculateCostWithPricing (be_Modes E) (be_Pricing E) legacyGroup (rv_Model r) tokens u)
   | Some s \<Rightarrow>
       if \<not> snapshot_Validate E s then Inl BSnapshotInvalid
       else (case rs_ServiceTier s of
           None \<Rightarrow> Inr (calculateCostWithPricing (snapshot_modes s) (snapshot_pricing s) (rs_GroupKey s) (rv_Model r) tokens u)
         | Some tier \<Rightarrow> (case tierUsageBounds tier u of
             Some e \<Rightarrow> Inl (BTier e)
           | None \<Rightarrow>
               let price = fst (tierSelection tier u);
                   P = (snapshot_pricing s)\<lparr>pr_ModelPrices := [normalizePricingModelKey (rv_Model r) \<mapsto> price]\<rparr>;
                   c = calculateCostWithPricing (snapshot_modes s) P (rs_GroupKey s) (rv_Model r) tokens u
               in if fst c > ft_MaxCost tier then Inl (BTier TierBoundExceeded) else Inr c)))"

text \<open>\<open>freezeSubscription\<close>: the policy and the windows a reservation is admitted under.\<close>

definition freezeSubscription :: "bill_env \<Rightarrow> subscription_group \<Rightarrow> user_subscription \<Rightarrow> usage_windows \<Rightarrow> float64
    \<Rightarrow> billing_error + frozen_subscription" where
  "freezeSubscription E g s w multiplier = (case (be_GroupDigest E g, be_SubDigest E s) of
     (Some pv, Some cv) \<Rightarrow>
       let f = \<lparr>fs_EntitlementRevision = 0, fs_Coverage = [], fs_SubscriptionID = us_ID s, fs_PolicyID = sg_ID g,
           fs_PolicyVersion = pv, fs_ContractVersion = cv, fs_CoverageMode = ''legacy_all_authorized'',
           fs_RateMultiplier = multiplier, fs_DailyLimit = sg_DailyLimitUSD g, fs_WeeklyLimit = sg_WeeklyLimitUSD g,
           fs_MonthlyLimit = sg_MonthlyLimitUSD g, fs_DailyWindowStart = uw_DailyWindowStart w,
           fs_WeeklyWindowStart = uw_WeeklyWindowStart w, fs_MonthlyWindowStart = uw_MonthlyWindowStart w\<rparr>
       in (case us_Contract s of None \<Rightarrow> Inr f
         | Some c \<Rightarrow> if \<not> contract_Validate (be_Hashes E) (Some c) then Inl BSnapshotInvalid
             else Inr (f\<lparr>fs_CoverageMode := ct_CoverageMode c, fs_Coverage := ct_Coverage c, fs_ContractVersion := ct_Digest c,
               fs_PolicyVersion := qp_Version (ct_QuotaPolicy c), fs_EntitlementRevision := us_EntitlementRevision s\<rparr>))
   | _ \<Rightarrow> Inl BSnapshotInvalid)"

subsection \<open>Replays\<close>

definition tier_equal :: "tier_request \<Rightarrow> tier_request \<Rightarrow> bool" where
  "tier_equal a b \<longleftrightarrow> a = b"

definition validateReservationReplay :: "bill_env \<Rightarrow> reservation \<Rightarrow> string \<Rightarrow> routing_context option \<Rightarrow> billing_error option" where
  "validateReservationReplay E r model c =
     (if rv_Model r \<noteq> model then Some BRoutingConflict
      else let previous = (case rv_Snapshot r of None \<Rightarrow> None | Some s \<Rightarrow> rs_Routing s) in
        case (previous, c) of
          (None, None) \<Rightarrow> None
        | (Some p, Some n) \<Rightarrow> if be_RoutingDigest E p \<noteq> be_RoutingDigest E n then Some BRoutingConflict else None
        | _ \<Rightarrow> Some BRoutingConflict)"

definition validateAttemptReplay :: "bill_env \<Rightarrow> bill_request \<Rightarrow> reservation \<Rightarrow> routing_context option \<Rightarrow> billing_error option" where
  "validateAttemptReplay E q r rc =
     (let other_source = (rv_ChannelID r \<noteq> bq_ChannelID q
            \<or> parseInt64Default (rv_SubscriptionAccountID r) 0 \<noteq> bq_SubscriptionAccountID q);
          tier = (case rv_Snapshot r of None \<Rightarrow> None | Some s \<Rightarrow> rs_ServiceTier s);
          wanted = tq_RequestedServiceTier (bq_Tier q)
      in if (case tier of
            Some t \<Rightarrow> \<not> tier_equal (ft_Request t) (bq_Tier q) \<or> other_source
          | None \<Rightarrow> wanted = ''priority'' \<or> wanted = ''flex'') then Some BRoutingConflict
        else if rv_RootRequestID r \<noteq> [] \<and> bq_RootRequestID q \<noteq> [] \<and> (rv_RootRequestID r \<noteq> bq_RootRequestID q
            \<or> rv_AttemptNumber r \<noteq> bq_AttemptNumber q \<or> rv_SourceKind r \<noteq> bq_SourceKind q
            \<or> rv_UpstreamModelID r \<noteq> bq_UpstreamModelID q) then Some BRoutingConflict
        else if rv_SourceKind r \<noteq> [] \<and> bq_SourceKind q \<noteq> [] \<and> other_source then Some BRoutingConflict
        else validateReservationReplay E r (bq_Model q) rc)"

text \<open>What an earlier reservation of the same request answers.\<close>

definition replay_answer :: "bill_env \<Rightarrow> bill_request \<Rightarrow> reservation \<Rightarrow> routing_context option \<Rightarrow> billing_error + reservation" where
  "replay_answer E q r rc = (case validateAttemptReplay E q r rc of
     Some e \<Rightarrow> Inl e
   | None \<Rightarrow> if \<not> IsReserved r \<and> rv_Status r \<noteq> ''committed'' then Inl BReservationReleased else Inr r)"

definition usageForReservation :: "billed_usage \<Rightarrow> reservation \<Rightarrow> billed_usage" where
  "usageForReservation u r =
     (let u1 = u\<lparr>bu_FrozenServiceTier := None, bu_FrozenPricingTimeBand := []\<rparr>;
          u2 = (if rv_SourceKind r \<noteq> [] then u1\<lparr>bu_SourceKind := rv_SourceKind r,
            bu_SubscriptionAccountID := parseInt64Default (rv_SubscriptionAccountID r) 0\<rparr> else u1);
          u3 = (if rv_UpstreamModelID r \<noteq> [] then u2\<lparr>bu_UpstreamModelID := rv_UpstreamModelID r\<rparr> else u2)
      in case rv_Snapshot r of None \<Rightarrow> u3
       | Some s \<Rightarrow> (case rs_ServiceTier s of None \<Rightarrow> u3
           | Some t \<Rightarrow> u3\<lparr>bu_FrozenServiceTier := Some (ft_Config t), bu_FrozenPricingTimeBand := ft_PricingTimeBand t,
               lu_UpstreamCost := 0\<rparr>))"


subsection \<open>Absorption by the subscription\<close>

definition frozenAccounting :: "bill_env \<Rightarrow> faults \<Rightarrow> string \<Rightarrow> int64 \<Rightarrow> usage_windows \<Rightarrow> float64 \<Rightarrow> bool
    \<Rightarrow> (float64 \<times> float64 \<times> float64) tx" where
  "frozenAccounting E f u subID w multiplier useSnapshot st =
     (if useSnapshot \<or> be_SnapshotsEnabled E
      then SumActiveFrozenAccountingInTx (be_Sum E) f u subID (uw_DailyWindowStart w) (uw_WeeklyWindowStart w)
        (uw_MonthlyWindowStart w) multiplier st
      else and_then (SumActiveFrozenInTx (be_Sum E) f u subID (uw_DailyWindowStart w) (uw_WeeklyWindowStart w)
          (uw_MonthlyWindowStart w) st)
        (\<lambda>(d, wk, m) st. Inr ((f_mul d multiplier, f_mul wk multiplier, f_mul m multiplier), st)))"

definition absorb_window :: "usage_windows \<Rightarrow> float64 option \<Rightarrow> float64 option \<Rightarrow> float64 option
    \<Rightarrow> float64 \<times> float64 \<times> float64 \<Rightarrow> absorbable_window" where
  "absorb_window w daily weekly monthly frozen = (case frozen of (fd, fw, fm) \<Rightarrow>
     \<lparr>aw_DailyUsageUSD = uw_DailyUsageUSD w, aw_WeeklyUsageUSD = uw_WeeklyUsageUSD w,
      aw_MonthlyUsageUSD = uw_MonthlyUsageUSD w, aw_DailyLimit = daily, aw_WeeklyLimit = weekly,
      aw_MonthlyLimit = monthly, aw_FrozenDailyAccountingUSD = fd, aw_FrozenWeeklyAccountingUSD = fw,
      aw_FrozenMonthlyAccountingUSD = fm\<rparr>)"

definition group_window :: "usage_windows \<Rightarrow> subscription_group \<Rightarrow> float64 \<times> float64 \<times> float64 \<Rightarrow> absorbable_window" where
  "group_window w g frozen = absorb_window w (sg_DailyLimitUSD g) (sg_WeeklyLimitUSD g) (sg_MonthlyLimitUSD g) frozen"

text \<open>The amount of a cost that a dollar share covers, and the rest for the wallet.\<close>

definition subscription_share :: "int64 \<Rightarrow> float64 \<Rightarrow> float64 \<Rightarrow> int64" where
  "subscription_share cost costUSD absorbUSD =
     min cost (if f_less absorbUSD costUSD then usdToAmountFloor absorbUSD else cost)"

text \<open>At settlement the whole cost is absorbed only when the comparison says so: a NaN falls to the wallet.\<close>

definition settled_share :: "int64 \<Rightarrow> float64 \<Rightarrow> float64 \<Rightarrow> int64" where
  "settled_share cost costUSD absorbUSD =
     min cost (if f_le costUSD absorbUSD then cost else usdToAmountFloor absorbUSD)"

text \<open>\<open>commitSubscriptionAbsorbUSD\<close>: errors while looking for more capacity leave the reserved share.\<close>

definition or_absorb :: "float64 \<Rightarrow> billing_error + (float64 \<times> rstore) \<Rightarrow> float64" where
  "or_absorb absorb m = (case m of Inl _ \<Rightarrow> absorb | Inr (x, _) \<Rightarrow> x)"

definition capacity_window :: "bill_env \<Rightarrow> faults \<Rightarrow> reservation \<Rightarrow> int64 \<Rightarrow> float64 tx" where
  "capacity_window E f r userID st =
     and_then (LockSubscriptionRow f (rv_SubscriptionID r) st) (\<lambda>_ st.
     and_then (GetActiveSubscriptionForUser f (be_Unix E) userID st) (\<lambda>s st.
       if us_ID s \<noteq> rv_SubscriptionID r then Inl BRoutingConflict
       else and_then (GetGroupForSubscriptionInTx f (be_Hashes E) s st) (\<lambda>g st.
         let m = effective_multiplier (sg_RateMultiplier g);
             w = RollUsageWindows (us_StartsAt s) (db_Usage st (us_ID s)) (be_Unix E) in
         and_then (frozenAccounting E f (rv_UserID r) (rv_SubscriptionID r) w m False st) (\<lambda>frozen st.
           Inr (ar_AbsorbableUSD (ComputeAbsorbablePure (group_window w g frozen) m (Fin 0)), st)))))"

definition commitSubscriptionAbsorbUSD :: "bill_env \<Rightarrow> faults \<Rightarrow> reservation \<Rightarrow> float64 \<Rightarrow> rstore \<Rightarrow> float64" where
  "commitSubscriptionAbsorbUSD E f r costUSD st =
     (if f_le costUSD (Fin 0) then Fin 0
      else let reservedUSD = clip0 (rv_SubscriptionAmountUSD r);
               absorbUSD = (if f_less reservedUSD costUSD then reservedUSD else costUSD)
        in if f_le costUSD absorbUSD \<or> rv_SubscriptionID r \<le> 0 \<or> \<not> be_HasSubscription E then absorbUSD
           else case ParseInt (rv_UserID r) of
             None \<Rightarrow> absorbUSD
           | Some userID \<Rightarrow> or_absorb absorbUSD (and_then (capacity_window E f r userID st) (\<lambda>cap st.
               let m1 = (if f_less cap reservedUSD then reservedUSD else cap);
                   m2 = (if f_less costUSD m1 then costUSD else m1)
               in Inr (if f_less m2 absorbUSD then absorbUSD else m2, st))))"

definition same_windows :: "reservation \<Rightarrow> usage_windows \<Rightarrow> bool" where
  "same_windows r w \<longleftrightarrow> uw_DailyWindowStart w = rv_DailyWindowStart r \<and> uw_WeeklyWindowStart w = rv_WeeklyWindowStart r
     \<and> uw_MonthlyWindowStart w = rv_MonthlyWindowStart r"

definition frozenSubscriptionAbsorbUSD :: "bill_env \<Rightarrow> faults \<Rightarrow> reservation \<Rightarrow> request_snapshot \<Rightarrow> float64 \<Rightarrow> float64 tx" where
  "frozenSubscriptionAbsorbUSD E f r s costUSD st =
     (if rv_SubscriptionID r \<le> 0 then Inr (Fin 0, st)
      else case rs_Subscription s of
        None \<Rightarrow> Inl BSnapshotInvalid
      | Some fz \<Rightarrow> if \<not> be_HasSubscription E then Inl BSnapshotInvalid
          else let reserved = f_min costUSD (rv_SubscriptionAmountUSD r) in
            if f_le costUSD reserved then Inr (reserved, st)
            else and_then (LockSubscriptionRow f (rv_SubscriptionID r) st) (\<lambda>_ st.
              case ParseInt (rv_UserID r) of
                None \<Rightarrow> Inl BSnapshotInvalid
              | Some userID \<Rightarrow> (case GetActiveSubscriptionForUser f (be_Unix E) userID st of
                  Inl e \<Rightarrow> if e = BSubscription ErrNotFound then Inr (reserved, st) else Inl e
                | Inr (sub, st) \<Rightarrow>
                    if us_ID sub \<noteq> rv_SubscriptionID r \<or> us_GroupID sub \<noteq> fs_PolicyID fz
                       \<or> (case us_Contract sub of None \<Rightarrow> False | Some c \<Rightarrow> ct_Digest c \<noteq> fs_ContractVersion fz)
                    then Inr (reserved, st)
                    else let w = RollUsageWindows (us_StartsAt sub) (db_Usage st (us_ID sub)) (be_Unix E) in
                      if \<not> same_windows r w then Inr (reserved, st)
                      else and_then (frozenAccounting E f (rv_UserID r) (us_ID sub) w (fs_RateMultiplier fz) True st)
                        (\<lambda>frozen st. let available = ar_AbsorbableUSD (ComputeAbsorbablePure
                             (absorb_window w (fs_DailyLimit fz) (fs_WeeklyLimit fz) (fs_MonthlyLimit fz) frozen)
                             (fs_RateMultiplier fz) (Fin 0))
                           in Inr (f_min costUSD (f_max reserved available), st)))))"

definition recordReservedSubscriptionUsage :: "bill_env \<Rightarrow> faults \<Rightarrow> reservation \<Rightarrow> float64 \<Rightarrow> unit tx" where
  "recordReservedSubscriptionUsage E f r usd st = (case rv_Snapshot r of
     None \<Rightarrow> RecordUsageForSubscriptionInTx f (be_Hashes E) (rv_SubscriptionID r) usd (be_Unix E) st
   | Some s \<Rightarrow> (case rs_Subscription s of
       None \<Rightarrow> Inl BSnapshotInvalid
     | Some fz \<Rightarrow> RecordFrozenUsageInTx f \<lparr>wc_ReservationID = rv_ID r, wc_SubscriptionID = rv_SubscriptionID r,
         wc_QuotaPolicyID = fs_PolicyID fz, wc_DailyWindowStart = rv_DailyWindowStart r,
         wc_WeeklyWindowStart = rv_WeeklyWindowStart r, wc_MonthlyWindowStart = rv_MonthlyWindowStart r,
         wc_AccountingUSD = f_mul usd (fs_RateMultiplier fz), wc_CreatedAt = be_Unix E\<rparr> st))"

subsection \<open>Reserving\<close>

definition new_reservation :: "bill_env \<Rightarrow> bill_request \<Rightarrow> request_snapshot option \<Rightarrow> int64 \<Rightarrow> reservation" where
  "new_reservation E q snap cost = \<lparr>rv_ID = be_NewID E, rv_UserID = bq_UserID q, rv_RequestID = bq_RequestID q,
     rv_RootRequestID = bq_RootRequestID q, rv_AttemptNumber = bq_AttemptNumber q, rv_SourceKind = bq_SourceKind q,
     rv_UpstreamModelID = bq_UpstreamModelID q, rv_Amount = cost, rv_Status = ''reserved'', rv_Model = bq_Model q,
     rv_ChannelID = bq_ChannelID q, rv_SubscriptionAccountID = FormatInt (bq_SubscriptionAccountID q),
     rv_SubscriptionID = 0, rv_SubscriptionAmountUSD = Fin 0, rv_AccountingUSD = None, rv_DailyWindowStart = 0,
     rv_WeeklyWindowStart = 0, rv_MonthlyWindowStart = 0, rv_BalanceAmount = cost, rv_ActualCost = 0,
     rv_Snapshot = snap, rv_ExpiredAt = be_Expiry E\<rparr>"

definition CreateReservationInTx :: "bill_env \<Rightarrow> faults \<Rightarrow> reservation \<Rightarrow> unit tx" where
  "CreateReservationInTx E f r st = (case rv_Snapshot r of
     None \<Rightarrow> insert_reservation f (r\<lparr>rv_AccountingUSD := None\<rparr>) st
   | Some s \<Rightarrow> if \<not> snapshot_Validate E s then Inl BSnapshotInvalid else insert_reservation f r st)"

text \<open>
  The balance-only path: one transaction with the replay check, the wallet and the row. The snapshot is
  the one prepared; the code shares the pointer with a dual-track attempt before it, whose rolled-back
  transaction may have left its subscription part in it.
\<close>

definition reserve_wallet :: "bill_env \<Rightarrow> bill_request \<Rightarrow> request_snapshot option \<Rightarrow> int64 \<Rightarrow> faults \<Rightarrow> auth_ctx
    \<Rightarrow> reservation tx" where
  "reserve_wallet E q snap cost f ctx st =
     and_then (if bq_RequestID q = [] then Inr (None, st) else FindByRequestIDInTx f (bq_UserID q) (bq_RequestID q) st)
       (\<lambda>existing st. case existing of
          Some r \<Rightarrow> (case replay_answer E q r (bq_Routing q) of Inl e \<Rightarrow> Inl e | Inr r \<Rightarrow> Inr (r, st))
        | None \<Rightarrow> and_then (ReserveBalanceInTx f (bq_UserID q) cost False st) (\<lambda>_ st.
            let r = new_reservation E q snap cost in
            and_then (CreateReservationInTx E f r st) (\<lambda>_ st. Inr (r, st))))"

text \<open>The coverage and the version of a locked subscription against the routing context of the request.\<close>

definition locked_check :: "bill_env \<Rightarrow> request_snapshot option \<Rightarrow> user_subscription \<Rightarrow> billing_error option" where
  "locked_check E snap s =
     (if (be_EntitlementsEnabled E \<or> us_Contract s \<noteq> None) \<and> (us_StartsAt s > be_Unix E \<or> us_ExpiresAt s \<le> be_Unix E)
      then Some (BSubscription ErrNotFound)
      else case (case snap of None \<Rightarrow> None | Some sn \<Rightarrow> rs_Routing sn) of
        None \<Rightarrow> None
      | Some rc \<Rightarrow>
          if \<not> contract_Covers (us_Contract s) (rc_GroupID rc) then Some (BSubscription ErrNotFound)
          else if rc_SubscriptionID rc > 0 \<and> (rc_SubscriptionID rc \<noteq> us_ID s
             \<or> rc_SubscriptionEntitlementVersion rc \<noteq> us_EntitlementRevision s) then Some BRoutingConflict
          else None)"

text \<open>The dollars the subscription takes of a cost, and the units of that share.\<close>

definition reserve_absorb :: "int64 \<Rightarrow> subscription_group \<Rightarrow> usage_windows \<Rightarrow> float64 \<Rightarrow> float64 \<times> float64 \<times> float64
    \<Rightarrow> float64" where
  "reserve_absorb cost g w m frozen =
     (let costUSD = amountToUSD cost;
          cap = ar_AbsorbableUSD (ComputeAbsorbablePure (group_window w g frozen) m (Fin 0))
      in clip0 (if f_less cap costUSD then cap else costUSD))"

definition reserve_share :: "int64 \<Rightarrow> float64 \<Rightarrow> int64" where
  "reserve_share cost absorbUSD = subscription_share cost (amountToUSD cost) absorbUSD"

definition split_reservation :: "bill_env \<Rightarrow> bill_request \<Rightarrow> request_snapshot option \<Rightarrow> int64 \<Rightarrow> user_subscription
    \<Rightarrow> subscription_group \<Rightarrow> usage_windows \<Rightarrow> float64 \<Rightarrow> float64 \<Rightarrow> billing_error + reservation" where
  "split_reservation E q snap cost s g w m absorbUSD =
     (let share = reserve_share cost absorbUSD;
          r = (new_reservation E q snap cost)\<lparr>rv_BalanceAmount := wrap64 (cost - share), rv_SubscriptionID := us_ID s,
            rv_SubscriptionAmountUSD := absorbUSD, rv_DailyWindowStart := uw_DailyWindowStart w,
            rv_WeeklyWindowStart := uw_WeeklyWindowStart w, rv_MonthlyWindowStart := uw_MonthlyWindowStart w\<rparr>
      in case snap of
        None \<Rightarrow> Inr r
      | Some sn \<Rightarrow> (case freezeSubscription E g s w m of
            Inl e \<Rightarrow> Inl e
          | Inr fz \<Rightarrow> Inr (r\<lparr>rv_Snapshot := Some (sn\<lparr>rs_Subscription := Some fz\<rparr>),
              rv_SubscriptionAmountUSD := amountToUSD share, rv_AccountingUSD := Some (f_mul (amountToUSD share) m)\<rparr>)))"

definition subscription_only :: "request_snapshot option \<Rightarrow> bool" where
  "subscription_only snap = (case snap of None \<Rightarrow> False | Some sn \<Rightarrow> rs_BillingMode sn = ''subscription_only'')"

text \<open>The dual-track path, under the lock of the subscription row: split, wallet, row.\<close>

definition reserve_split :: "bill_env \<Rightarrow> bill_request \<Rightarrow> request_snapshot option \<Rightarrow> int64 \<Rightarrow> user_subscription
    \<Rightarrow> subscription_group \<Rightarrow> usage_windows \<Rightarrow> float64 \<Rightarrow> float64 \<times> float64 \<times> float64 \<Rightarrow> faults \<Rightarrow> reservation tx" where
  "reserve_split E q snap cost s g w m frozen f st =
     (let absorbUSD = reserve_absorb cost g w m frozen;
          balanceAmount = wrap64 (cost - reserve_share cost absorbUSD)
      in if subscription_only snap \<and> balanceAmount > 0 then Inl BSubscriptionQuota
         else and_then (if balanceAmount > 0
             then and_then (ReserveBalanceInTx f (bq_UserID q) balanceAmount False st) (\<lambda>_ st. Inr ((), st))
             else Inr ((), st))
           (\<lambda>_ st. case split_reservation E q snap cost s g w m absorbUSD of
              Inl e \<Rightarrow> Inl e
            | Inr r \<Rightarrow> and_then (CreateReservationInTx E f r st) (\<lambda>_ st. Inr (r, st))))"

definition reserve_locked :: "bill_env \<Rightarrow> bill_request \<Rightarrow> request_snapshot option \<Rightarrow> int64 \<Rightarrow> int64 \<Rightarrow> int64 \<Rightarrow> faults \<Rightarrow> auth_ctx
    \<Rightarrow> reservation tx" where
  "reserve_locked E q snap cost userID subID f ctx st =
     and_then (LockSubscriptionRow f subID st) (\<lambda>_ st.
     and_then (if bq_RequestID q = [] then Inr (None, st) else FindByRequestIDInTx f (bq_UserID q) (bq_RequestID q) st)
       (\<lambda>existing st. case existing of
          Some r \<Rightarrow> (case replay_answer E q r (case snap of None \<Rightarrow> None | Some sn \<Rightarrow> rs_Routing sn) of
              Inl e \<Rightarrow> Inl e | Inr r \<Rightarrow> Inr (r, st))
        | None \<Rightarrow> and_then (GetActiveSubscriptionForUser (again f) (be_Unix E) userID st) (\<lambda>s st.
            and_then (guard (locked_check E snap s) st) (\<lambda>_ st.
              if us_ID s \<noteq> subID then Inl BRoutingConflict
              else and_then (GetGroupForSubscriptionInTx f (be_Hashes E) s st) (\<lambda>g st.
                let m = effective_multiplier (sg_RateMultiplier g);
                    w = RollUsageWindows (us_StartsAt s) (db_Usage st (us_ID s)) (be_Unix E) in
                and_then (frozenAccounting E f (bq_UserID q) (us_ID s) w m (snap \<noteq> None) st) (\<lambda>frozen st. reserve_split E q snap cost s g w m frozen f st))))))"

definition routing_of :: "request_snapshot option \<Rightarrow> routing_context option" where
  "routing_of snap = (case snap of None \<Rightarrow> None | Some sn \<Rightarrow> rs_Routing sn)"

text \<open>\<open>reserveQuotaDualTrack\<close>: the subscription is read once before the transaction, to know which row to
  lock; the list holds the attempts of the transaction runner.\<close>

definition reserveQuotaDualTrack :: "bill_env \<Rightarrow> bill_request \<Rightarrow> request_snapshot option \<Rightarrow> int64
    \<Rightarrow> (world \<times> faults) list \<Rightarrow> auth_ctx \<Rightarrow> faults \<Rightarrow> reservation tx" where
  "reserveQuotaDualTrack E q snap cost attempts ctx f st =
     (if \<not> be_HasSubscription E then Inl (BSubscription ErrNotFound)
      else case ParseInt (bq_UserID q) of
        None \<Rightarrow> Inl (BSubscription ErrNotFound)
      | Some userID \<Rightarrow> (case GetActiveSubscriptionForUser f (be_Unix E) userID st of
          Inl e \<Rightarrow> Inl e
        | Inr (sub, _) \<Rightarrow>
            if (case routing_of snap of None \<Rightarrow> False | Some rc \<Rightarrow> \<not> contract_Covers (us_Contract sub) (rc_GroupID rc))
            then Inl (BSubscription ErrNotFound)
            else RunInTx attempts ctx (reserve_locked E q snap cost userID (us_ID sub)) st))"

text \<open>The cost to reserve: the estimate at the frozen or live prices, the frozen tier amount, at least one unit.\<close>

definition reserve_cost :: "bill_env \<Rightarrow> bill_request \<Rightarrow> request_snapshot option \<Rightarrow> string \<Rightarrow> int64" where
  "reserve_cost E q snap userGroup =
     (let cost = (case snap of
            None \<Rightarrow> calculateCost (be_Pricing E) userGroup (bq_Model q) (bq_Tokens q) 0 0
          | Some s \<Rightarrow> (case rs_ServiceTier s of Some t \<Rightarrow> ft_MaxCost t
              | None \<Rightarrow> calculateCost (snapshot_pricing s) (rs_GroupKey s) (bq_Model q)
                  (if rs_BillingMode s = ''subscription_only''
                   then (case rs_CostBound s of Some b \<Rightarrow> cn_InputTokens b | None \<Rightarrow> 0) else bq_Tokens q) 0 0))
      in if cost \<le> 0 then 1 else cost)"

definition request_ok :: "bill_env \<Rightarrow> bill_request \<Rightarrow> billing_error option" where
  "request_ok E q =
     (if be_EntitlementsEnabled E \<and> (bq_Routing q = None \<or> \<not> be_HasRoutingPolicies E) then Some BSnapshotUnavailable
      else case bq_Routing q of
        None \<Rightarrow> None
      | Some rc \<Rightarrow> if \<not> be_SnapshotsEnabled E \<or> context_valid rc \<noteq> None \<or> FormatInt (rc_UserID rc) \<noteq> bq_UserID q
          then Some BRoutingInvalid else None)"

definition bounded_snapshot :: "request_snapshot option \<Rightarrow> int64 \<Rightarrow> request_snapshot option" where
  "bounded_snapshot snap cost = map_option (\<lambda>s. if rs_BillingMode s = ''subscription_only'' then s\<lparr>rs_MaxCost := cost\<rparr> else s) snap"

text \<open>\<open>ReserveQuota\<close> with the snapshot that \<open>prepareRequestSnapshot\<close> returned; \<open>f\<close> are the faults outside
  the transaction, the two lists the attempts of the two transactions.\<close>

definition ReserveQuota :: "bill_env \<Rightarrow> bill_request \<Rightarrow> billing_error + request_snapshot option
    \<Rightarrow> (world \<times> faults) list \<Rightarrow> (world \<times> faults) list \<Rightarrow> auth_ctx \<Rightarrow> faults \<Rightarrow> reservation tx" where
  "ReserveQuota E q prep attempts1 attempts2 ctx f st =
     and_then (guard (request_ok E q) st) (\<lambda>_ st.
     and_then (if bq_RequestID q = [] then Inr (None, st) else FindByRequestID f (bq_RequestID q) st) (\<lambda>existing st.
       case (case existing of None \<Rightarrow> None | Some r \<Rightarrow> if rv_UserID r = bq_UserID q then Some r else None) of
         Some r \<Rightarrow> (case replay_answer E q r (bq_Routing q) of Inl e \<Rightarrow> Inl e | Inr r \<Rightarrow> Inr (r, st))
       | None \<Rightarrow> and_then (getAccountForUpdate f (bq_UserID q) st) (\<lambda>a st. case prep of
           Inl e \<Rightarrow> Inl e
         | Inr snap0 \<Rightarrow>
             let cost = reserve_cost E q snap0 (ac_Group a); snap = bounded_snapshot snap0 cost;
                 wallet = (if subscription_only snap then Inl BCoverageRequired
                   else RunInTx attempts2 ctx (reserve_wallet E q snap cost) st)
             in if be_HasSubscription E \<and> (case snap of None \<Rightarrow> True | Some s \<Rightarrow> rs_BillingMode s \<noteq> ''wallet_only'')
                then (case reserveQuotaDualTrack E q snap cost attempts1 ctx f st of
                    Inr r \<Rightarrow> Inr r
                  | Inl e \<Rightarrow> if e = BSubscription ErrNotFound then wallet else Inl e)
                else wallet)))"

end
