(* ===== verification/Settlement.thy ===== *)
theory Settlement
  imports Reservation
begin

text \<open>
  Commit and release of a reservation: \<open>commitQuotaDualTrack\<close>, \<open>CommitQuotaWithUsage\<close>,
  \<open>releaseReservation\<close> and the cleanup of expired reservations (\<open>app/billing/internal/biz/billing.go\<close>,
  \<open>cleanup.go\<close>). Each is one transaction that moves the status by compare-and-swap; a loser reads what
  the winner left.
\<close>

subsection \<open>Ledger rows of a settlement\<close>

definition consume_key :: "string \<Rightarrow> string \<Rightarrow> string" where
  "consume_key n source = n @ '':consume:'' @ source"

definition refund_key_of :: "string \<Rightarrow> string" where
  "refund_key_of n = n @ '':refund:balance''"

definition breakdown_costs :: "cost_breakdown \<Rightarrow> int64 list" where
  "breakdown_costs b = [cb_PromptCost b, cb_CompletionCost b, cb_CacheReadCost b, cb_CacheCreation5mCost b,
     cb_CacheCreation1hCost b, cb_ShadowCost b]"

definition settlement_remark :: "string \<Rightarrow> int64 \<Rightarrow> string" where
  "settlement_remark model tokens = ''model='' @ model @ '', tokens='' @ FormatInt tokens"

definition subscription_ledger :: "reservation \<Rightarrow> int64 \<Rightarrow> int64 \<Rightarrow> int64 \<Rightarrow> int64 \<Rightarrow> int64 \<Rightarrow> string \<Rightarrow> cost_breakdown \<Rightarrow> ledger" where
  "subscription_ledger r share wallet newBalance upstream tokens auditStatus b =
     \<lparr>lg_UserID = rv_UserID r, lg_Amount = - share, lg_BalanceAfter = newBalance, lg_Type = ''consume'',
      lg_ReferenceID = rv_ID r, lg_Remark = settlement_remark (rv_Model r) tokens, lg_CostSource = ''subscription'',
      lg_SubscriptionCost = share, lg_BalanceCost = 0, lg_DedupeKey = consume_key (rv_ID r) ''subscription'',
      lg_UpstreamCost = upstream, lg_CostAuditStatus = auditStatus, lg_Quota = tokens,
      lg_BucketCosts = (if wallet \<le> 0 then breakdown_costs b else [0, 0, 0, 0, 0, 0])\<rparr>"

definition balance_ledger :: "reservation \<Rightarrow> int64 \<Rightarrow> int64 \<Rightarrow> int64 \<Rightarrow> int64 \<Rightarrow> int64 \<Rightarrow> string \<Rightarrow> cost_breakdown \<Rightarrow> ledger" where
  "balance_ledger r share wallet newBalance upstream tokens auditStatus b =
     \<lparr>lg_UserID = rv_UserID r, lg_Amount = - wallet, lg_BalanceAfter = newBalance, lg_Type = ''consume'',
      lg_ReferenceID = rv_ID r, lg_Remark = settlement_remark (rv_Model r) tokens, lg_CostSource = ''balance'',
      lg_SubscriptionCost = 0, lg_BalanceCost = wallet, lg_DedupeKey = consume_key (rv_ID r) ''balance'',
      lg_UpstreamCost = (if share > 0 then 0 else upstream), lg_CostAuditStatus = auditStatus, lg_Quota = tokens,
      lg_BucketCosts = breakdown_costs b\<rparr>"

definition release_ledger :: "reservation \<Rightarrow> string \<Rightarrow> ledger" where
  "release_ledger r reason =
     \<lparr>lg_UserID = rv_UserID r, lg_Amount = rv_BalanceAmount r, lg_BalanceAfter = 0, lg_Type = ''refund'',
      lg_ReferenceID = rv_ID r, lg_Remark = reason, lg_CostSource = [], lg_SubscriptionCost = 0, lg_BalanceCost = 0,
      lg_DedupeKey = refund_key_of (rv_ID r), lg_UpstreamCost = 0, lg_CostAuditStatus = [], lg_Quota = 0,
      lg_BucketCosts = [0, 0, 0, 0, 0, 0]\<rparr>"

subsection \<open>Commit\<close>

definition committedAmountFromReservation :: "reservation option \<Rightarrow> int64" where
  "committedAmountFromReservation ro = (case ro of None \<Rightarrow> 0
   | Some r \<Rightarrow> if rv_ActualCost r > 0 then rv_ActualCost r else rv_Amount r)"

text \<open>The answer of a commit that lost the compare-and-swap.\<close>

definition lost_commit :: "faults \<Rightarrow> string \<Rightarrow> billed_usage \<Rightarrow> (int64 \<times> int64) tx" where
  "lost_commit f n u st = and_then (GetReservationInTx f n st) (\<lambda>r st.
     if rv_Status r = ''committed'' then Inr ((committedAmountFromReservation (Some r), 0), st)
     else if rv_Status r = ''released'' \<or> rv_Status r = ''expired'' then
       (if lu_UsageContractVersion u = 2 then Inl BSettlementClosed else Inr ((0, rv_Amount r), st))
     else Inl BReservationClosed)"

text \<open>The increment of the overdraft, as the receivable mirror computes it.\<close>

definition receivable_delta :: "int64 \<Rightarrow> int64 \<Rightarrow> int64" where
  "receivable_delta oldBalance newBalance =
     wrap64 (positiveOrZero (wrap64 (- newBalance)) - positiveOrZero (wrap64 (- oldBalance)))"

definition mirror_receivable :: "bill_env \<Rightarrow> faults \<Rightarrow> reservation \<Rightarrow> int64 \<Rightarrow> int64 \<Rightarrow> unit tx" where
  "mirror_receivable E f r oldBalance newBalance st =
     (let delta = receivable_delta oldBalance newBalance in
      if be_HasReceivables E \<and> delta > 0
      then CreateReceivable f \<lparr>rc_Owner = rv_UserID r, rc_ReservationID = rv_ID r, rc_OverdueQuota = delta,
        rc_OverdueUSD = amountToUSD delta\<rparr> st
      else Inr ((), st))"

text \<open>The subscription's dollars, and the units of the cost they settle.\<close>

definition settle_absorb :: "bill_env \<Rightarrow> faults \<Rightarrow> reservation \<Rightarrow> int64 \<Rightarrow> float64 tx" where
  "settle_absorb E f r cost st = (case rv_Snapshot r of
     None \<Rightarrow> Inr (commitSubscriptionAbsorbUSD E f r (amountToUSD cost) st, st)
   | Some s \<Rightarrow> frozenSubscriptionAbsorbUSD E f r s (amountToUSD cost) st)"

text \<open>The writes of a settlement once its cost and its share are known: usage of the subscription, wallet,
  receivable, ledgers, final status, totals.\<close>

definition write_ledgers :: "bill_env \<Rightarrow> faults \<Rightarrow> reservation \<Rightarrow> int64 \<Rightarrow> int64 \<Rightarrow> int64 \<Rightarrow> int64 \<Rightarrow> billed_usage
    \<Rightarrow> cost_breakdown \<Rightarrow> unit tx" where
  "write_ledgers E f r share wallet newBalance tokens u b st =
     (let upstream = calculateUpstreamCostWithPricing (be_Pricing E) (parseInt64Default (rv_ChannelID r) 0) (rv_Model r) tokens u;
          auditStatus = upstreamCostAuditStatus upstream u
      in and_then (if share > 0
           then CreateLedgerInTx f (be_Now E) (subscription_ledger r share wallet newBalance upstream tokens auditStatus b) st
           else Inr ((), st)) (\<lambda>_ st.
         if wallet > 0
         then CreateLedgerInTx (again f) (be_Now E) (balance_ledger r share wallet newBalance upstream tokens auditStatus b) st
         else Inr ((), st)))"

definition settle_writes :: "bill_env \<Rightarrow> faults \<Rightarrow> reservation \<Rightarrow> int64 \<Rightarrow> int64 \<Rightarrow> float64 \<Rightarrow> int64 \<Rightarrow> billed_usage
    \<Rightarrow> cost_breakdown \<Rightarrow> (int64 \<times> int64) tx" where
  "settle_writes E f r cost share absorbUSD tokens u b st =
     (let rest = wrap64 (cost - share); wallet = (if rest < 0 then 0 else rest) in
      if subscription_only (rv_Snapshot r) \<and> wallet > 0 then Inl BSubscriptionBound
      else
      and_then (if rv_SubscriptionID r > 0 then recordReservedSubscriptionUsage E (again f) r absorbUSD st else Inr ((), st)) (\<lambda>_ st.
      and_then (CommitBalanceInTx (again f) (rv_UserID r) (rv_BalanceAmount r) wallet (canOverdraft E (rv_UserID r)) st)
        (\<lambda>(oldBalance, newBalance) st.
      and_then (mirror_receivable E f r oldBalance newBalance st) (\<lambda>_ st.
      and_then (write_ledgers E f r share wallet newBalance tokens u b st) (\<lambda>_ st.
      and_then (SetActualCostInTx f (rv_ID r) cost st) (\<lambda>_ st.
      and_then (CASReservationStatus f (rv_ID r) ''committing'' ''committed'' st) (\<lambda>won st.
        if \<not> won then Inl BReservationClosed
        else and_then (UpdateUsageInTx f (rv_UserID r) cost 1 st) (\<lambda>_ st. Inr ((cost, 0), st)))))))))"

definition commit_usage :: "billed_usage \<Rightarrow> reservation \<Rightarrow> billed_usage" where
  "commit_usage u r = usageForReservation (u\<lparr>bu_SubscriptionAccountID :=
     resolveSubscriptionAccountID (bu_SubscriptionAccountID u) (rv_SubscriptionAccountID r)\<rparr>) r"

text \<open>The settlement of a known cost: the bound of a subscription-only request, the split, the writes.\<close>

definition settle_priced :: "bill_env \<Rightarrow> faults \<Rightarrow> reservation \<Rightarrow> int64 \<Rightarrow> int64 \<Rightarrow> billed_usage \<Rightarrow> cost_breakdown
    \<Rightarrow> (int64 \<times> int64) tx" where
  "settle_priced E f r cost tokens u b st =
     (if subscription_only (rv_Snapshot r) \<and> cost > rv_Amount r then Inl BSubscriptionBound
      else and_then (settle_absorb E f r cost st) (\<lambda>absorbUSD st.
        let share = settled_share cost (amountToUSD cost) absorbUSD in
        settle_writes E f r cost share (if rv_Snapshot r = None then absorbUSD else amountToUSD share) tokens u b st))"

definition commit_won :: "bill_env \<Rightarrow> faults \<Rightarrow> string \<Rightarrow> int64 \<Rightarrow> billed_usage \<Rightarrow> (int64 \<times> int64) tx" where
  "commit_won E f n tokens u0 st = and_then (GetReservationInTx f n st) (\<lambda>r st.
     if lu_UsageContractVersion u0 = 2 then Inl BSettlementClosed
     else and_then (getAccountForUpdate f (rv_UserID r) st) (\<lambda>a st.
       case reservationCostWithPricing E r (ac_Group a) tokens (commit_usage u0 r) of
         Inl e \<Rightarrow> Inl e
       | Inr (cost0, b, _) \<Rightarrow>
           settle_priced E f r (if cost0 \<le> 0 then 1 else cost0) tokens (commit_usage u0 r) b st))"

definition commit_body :: "bill_env \<Rightarrow> string \<Rightarrow> int64 \<Rightarrow> billed_usage \<Rightarrow> faults \<Rightarrow> auth_ctx \<Rightarrow> (int64 \<times> int64) tx" where
  "commit_body E n tokens u f ctx st =
     and_then (CASReservationStatus f n ''reserved'' ''committing'' st) (\<lambda>won st.
       if won then commit_won E f n tokens u st else lost_commit f n u st)"

subsection \<open>Release\<close>

definition release_won :: "bill_env \<Rightarrow> faults \<Rightarrow> string \<Rightarrow> string \<Rightarrow> string \<Rightarrow> unit tx" where
  "release_won E f n reason finalStatus st = and_then (GetReservationInTx (again f) n st) (\<lambda>r st.
     and_then (if rv_BalanceAmount r > 0
       then and_then (ReleaseBalanceInTx f (rv_UserID r) (rv_BalanceAmount r) st)
         (\<lambda>_ st. CreateLedgerInTx f (be_Now E) (release_ledger r reason) st)
       else Inr ((), st)) (\<lambda>_ st.
     and_then (CASReservationStatus f n ''releasing'' finalStatus st) (\<lambda>won st.
       if won then Inr ((), st) else Inl BReservationClosed)))"

definition lost_release :: "faults \<Rightarrow> string \<Rightarrow> unit tx" where
  "lost_release f n st = and_then (GetReservationInTx (again f) n st) (\<lambda>r st.
     if IsTerminal r then Inr ((), st) else Inl BReservationClosed)"

definition release_body :: "bill_env \<Rightarrow> string \<Rightarrow> string \<Rightarrow> string \<Rightarrow> faults \<Rightarrow> auth_ctx \<Rightarrow> unit tx" where
  "release_body E n reason finalStatus f ctx st =
     (if finalStatus = ''expired'' then and_then (CASExpiredReservationStatus f n (be_Now E) st) (\<lambda>won st.
        if won then release_won E f n reason finalStatus st else Inl BExpiryDeferred)
      else and_then (CASReservationStatus f n ''reserved'' ''releasing'' st) (\<lambda>won st.
        if won then release_won E f n reason finalStatus st else lost_release f n st))"

definition releaseReservation :: "bill_env \<Rightarrow> string \<Rightarrow> string \<Rightarrow> string \<Rightarrow> (world \<times> faults) list \<Rightarrow> auth_ctx \<Rightarrow> unit tx" where
  "releaseReservation E n reason finalStatus attempts ctx st =
     RunInTx attempts ctx (release_body E n reason finalStatus) st"

definition ReleaseQuota :: "bill_env \<Rightarrow> string \<Rightarrow> string \<Rightarrow> (world \<times> faults) list \<Rightarrow> auth_ctx \<Rightarrow> unit tx" where
  "ReleaseQuota E n reason attempts ctx st = releaseReservation E n reason ''released'' attempts ctx st"

definition CommitQuotaWithUsage :: "bill_env \<Rightarrow> string \<Rightarrow> int64 \<Rightarrow> bool \<Rightarrow> billed_usage \<Rightarrow> (world \<times> faults) list
    \<Rightarrow> auth_ctx \<Rightarrow> faults \<Rightarrow> (int64 \<times> int64) tx" where
  "CommitQuotaWithUsage E n tokens success u attempts ctx f st =
     and_then (GetReservationInTx f n st) (\<lambda>r st.
       if lu_UsageContractVersion u = 2 then Inl BReceiptInvalid
       else if \<not> success then and_then (releaseReservation E n ''request failed'' ''released'' attempts ctx st)
         (\<lambda>_ st. Inr ((0, 0), st))
       else RunInTx attempts ctx (commit_body E n tokens u) st)"

text \<open>The cleanup job: a failed release is logged and the next reservation is tried.\<close>

fun cleanupExpiredReservations :: "bill_env \<Rightarrow> (string \<times> (world \<times> faults) list) list \<Rightarrow> auth_ctx \<Rightarrow> rstore \<Rightarrow> rstore" where
  "cleanupExpiredReservations E [] ctx st = st"
| "cleanupExpiredReservations E ((n, attempts) # rest) ctx st =
     (case releaseReservation E n ''reservation expired'' ''expired'' attempts ctx st of
        Inl _ \<Rightarrow> cleanupExpiredReservations E rest ctx st
      | Inr (_, st') \<Rightarrow> cleanupExpiredReservations E rest ctx st')"

end
