(* ===== verification/Reservation_Frames.thy ===== *)
theory Reservation_Frames
  imports Settlement
begin

text \<open>
  What the repository operations of \<open>Reservation_Store\<close> do to the money columns when they succeed: an
  exact equation for each operation that writes them, and a frame fact for the others.
\<close>

subsection \<open>The columns a settlement is about\<close>

record books =
  bk_Balances :: "string \<Rightarrow> int64 option"
  bk_Frozen :: "string \<Rightarrow> int64"
  bk_Reservations :: "reservation list"
  bk_Ledgers :: "ledger list"
  bk_Claims :: "string list"

definition books_of :: "rstore \<Rightarrow> books" where
  "books_of st = \<lparr>bk_Balances = db_Balances st, bk_Frozen = db_Frozen st,
     bk_Reservations = db_Reservations st, bk_Ledgers = db_Ledgers st, bk_Claims = db_Claims st\<rparr>"

definition same_books :: "rstore \<Rightarrow> rstore \<Rightarrow> bool" where
  "same_books st st' \<longleftrightarrow> books_of st' = books_of st"

lemma same_books_refl [simp]: "same_books st st"
  by (simp add: same_books_def)

lemma same_books_trans: "same_books a b \<Longrightarrow> same_books b c \<Longrightarrow> same_books a c"
  by (simp add: same_books_def)

lemma same_booksD:
  assumes "same_books st st'"
  shows "db_Balances st' = db_Balances st" "db_Frozen st' = db_Frozen st"
    "db_Reservations st' = db_Reservations st" "db_Ledgers st' = db_Ledgers st" "db_Claims st' = db_Claims st"
  using assms by (simp_all add: same_books_def books_of_def)

lemma same_booksI:
  assumes "db_Balances st' = db_Balances st" "db_Frozen st' = db_Frozen st"
    "db_Reservations st' = db_Reservations st" "db_Ledgers st' = db_Ledgers st" "db_Claims st' = db_Claims st"
  shows "same_books st st'"
  using assms by (simp add: same_books_def books_of_def)

subsection \<open>Reads\<close>

lemma getAccountForUpdate_read:
  "getAccountForUpdate f u st = Inr (a, st') \<Longrightarrow> st' = st \<and> db_Balances st u = Some (ac_Balance a)"
  unfolding getAccountForUpdate_def and_then_Inr by (auto split: option.splits)

lemma GetReservationInTx_read:
  "GetReservationInTx f n st = Inr (r, st') \<longleftrightarrow>
     f ReadReservation = None \<and> st' = st \<and> find_reservation (db_Reservations st) n = Some r"
  unfolding GetReservationInTx_def and_then_Inr by (auto split: option.splits)

lemma FindByRequestID_read: "FindByRequestID f q st = Inr (r, st') \<Longrightarrow> st' = st"
  unfolding FindByRequestID_def and_then_Inr by auto

lemma FindByRequestIDInTx_read: "FindByRequestIDInTx f u q st = Inr (r, st') \<Longrightarrow> st' = st"
  unfolding FindByRequestIDInTx_def and_then_Inr by auto

lemma LockSubscriptionRow_read: "LockSubscriptionRow f n st = Inr (x, st') \<Longrightarrow> st' = st"
  unfolding LockSubscriptionRow_def and_then_Inr by (auto split: if_splits)

lemma GetActiveSubscriptionForUser_read: "GetActiveSubscriptionForUser f now u st = Inr (s, st') \<Longrightarrow> st' = st"
  unfolding GetActiveSubscriptionForUser_def and_then_Inr by (auto split: option.splits)

lemma GetGroupForSubscriptionInTx_read: "GetGroupForSubscriptionInTx f H s st = Inr (g, st') \<Longrightarrow> st' = st"
  unfolding GetGroupForSubscriptionInTx_def
  by (auto simp: and_then_Inr split: option.splits if_splits)

lemma SumActiveFrozenInTx_read: "SumActiveFrozenInTx t f u n d w m st = Inr (x, st') \<Longrightarrow> st' = st"
  unfolding SumActiveFrozenInTx_def and_then_Inr Let_def by auto

lemma SumActiveFrozenAccountingInTx_read: "SumActiveFrozenAccountingInTx t f u n d w m l st = Inr (x, st') \<Longrightarrow> st' = st"
  unfolding SumActiveFrozenAccountingInTx_def and_then_Inr Let_def by auto

lemma frozenAccounting_read: "frozenAccounting E f u n w m b st = Inr (x, st') \<Longrightarrow> st' = st"
  unfolding frozenAccounting_def
  by (auto simp: and_then_Inr split: if_splits
      dest: SumActiveFrozenInTx_read SumActiveFrozenAccountingInTx_read)

lemma frozenSubscriptionAbsorbUSD_read:
  assumes "frozenSubscriptionAbsorbUSD E f r s c st = Inr (x, st')"
  shows "st' = st"
proof (cases "rv_SubscriptionID r \<le> 0 \<or> rs_Subscription s = None \<or> \<not> be_HasSubscription E
    \<or> f_le c (f_min c (rv_SubscriptionAmountUSD r))")
  case True
  with assms show ?thesis
    unfolding frozenSubscriptionAbsorbUSD_def Let_def by (auto split: if_split_asm option.split_asm)
next
  case False
  with assms obtain fz userID where p: "rs_Subscription s = Some fz" "ParseInt (rv_UserID r) = Some userID"
    unfolding frozenSubscriptionAbsorbUSD_def Let_def by (auto simp: and_then_Inr split: option.split_asm)
  show ?thesis
  proof (cases "GetActiveSubscriptionForUser f (be_Unix E) userID st")
    case (Inl e)
    with assms False p show ?thesis
      unfolding frozenSubscriptionAbsorbUSD_def Let_def
      by (auto simp: and_then_Inr split: if_split_asm dest!: LockSubscriptionRow_read)
  next
    case (Inr y)
    with assms False p show ?thesis
      unfolding frozenSubscriptionAbsorbUSD_def Let_def
      by (cases y) (auto simp: and_then_Inr split: if_split_asm dest!: frozenAccounting_read
        LockSubscriptionRow_read dest: GetActiveSubscriptionForUser_read)
  qed
qed

lemma settle_absorb_read: "settle_absorb E f r c st = Inr (x, st') \<Longrightarrow> st' = st"
  unfolding settle_absorb_def by (auto split: option.splits dest: frozenSubscriptionAbsorbUSD_read)

lemmas read_only = getAccountForUpdate_read [THEN conjunct1] FindByRequestID_read FindByRequestIDInTx_read
  LockSubscriptionRow_read GetActiveSubscriptionForUser_read GetGroupForSubscriptionInTx_read
  frozenAccounting_read settle_absorb_read

subsection \<open>Writes outside the books\<close>

lemma CreateReceivable_frame: "CreateReceivable f r st = Inr (x, st') \<Longrightarrow> same_books st st'"
  unfolding CreateReceivable_def and_then_Inr by (auto split: if_splits intro!: same_booksI)

lemma mirror_receivable_frame: "mirror_receivable E f r a b st = Inr (x, st') \<Longrightarrow> same_books st st'"
  unfolding mirror_receivable_def Let_def by (auto split: if_splits dest: CreateReceivable_frame)

lemma UpdateUsageInTx_frame: "UpdateUsageInTx f u a b st = Inr (x, st') \<Longrightarrow> same_books st st'"
  unfolding UpdateUsageInTx_def and_then_Inr by (auto split: if_splits intro!: same_booksI)

lemma AddUsageByIDInTx_frame: "AddUsageByIDInTx f n c now st = Inr (x, st') \<Longrightarrow> same_books st st'"
  unfolding AddUsageByIDInTx_def and_then_Inr by (auto split: option.splits intro!: same_booksI)

lemma RecordUsageForSubscriptionInTx_frame:
  "RecordUsageForSubscriptionInTx f H n c now st = Inr (x, st') \<Longrightarrow> same_books st st'"
  unfolding RecordUsageForSubscriptionInTx_def
  by (auto simp: and_then_Inr split: option.splits if_split_asm
      dest!: GetGroupForSubscriptionInTx_read AddUsageByIDInTx_frame)

lemma AddFrozenUsageInTx_frame: "AddFrozenUsageInTx f c st = Inr (x, st') \<Longrightarrow> same_books st st'"
  unfolding AddFrozenUsageInTx_def and_then_Inr Let_def
  by (auto simp: and_then_Inr split: option.splits if_splits intro!: same_booksI)

lemma RecordFrozenUsageInTx_frame: "RecordFrozenUsageInTx f c st = Inr (x, st') \<Longrightarrow> same_books st st'"
  unfolding RecordFrozenUsageInTx_def by (auto split: if_splits dest: AddFrozenUsageInTx_frame)

lemma recordReservedSubscriptionUsage_frame:
  "recordReservedSubscriptionUsage E f r usd st = Inr (x, st') \<Longrightarrow> same_books st st'"
  unfolding recordReservedSubscriptionUsage_def
  by (auto split: option.splits dest: RecordUsageForSubscriptionInTx_frame RecordFrozenUsageInTx_frame)

subsection \<open>The wallet\<close>

text \<open>\<open>wallet_move\<close>: one row of the account table moves by \<open>db\<close> and \<open>df\<close>.\<close>

definition wallet_move :: "string \<Rightarrow> int \<Rightarrow> int \<Rightarrow> rstore \<Rightarrow> rstore \<Rightarrow> bool" where
  "wallet_move u db df st st' \<longleftrightarrow> (\<exists>b. db_Balances st u = Some b \<and> in_int64 (b + db) \<and> in_int64 (db_Frozen st u + df)
     \<and> st' = st\<lparr>db_Balances := (db_Balances st)(u \<mapsto> b + db), db_Frozen := (db_Frozen st)(u := db_Frozen st u + df)\<rparr>)"

lemma update_account_moved:
  assumes "update_account f u db df cond st = Inr (True, st')"
  shows "wallet_move u db df st st' \<and> cond (the (db_Balances st u))"
  using assms unfolding update_account_def and_then_Inr wallet_move_def
  by (auto split: option.splits if_splits)

lemma still_there: "db_Balances st u = Some b \<Longrightarrow>
    st\<lparr>db_Balances := (db_Balances st)(u \<mapsto> b), db_Frozen := (db_Frozen st)(u := db_Frozen st u)\<rparr> = st"
  by (simp add: fun_upd_idem)

lemma ReserveBalanceInTx_exact:
  assumes "ReserveBalanceInTx f u amount ov st = Inr (x, st')"
  shows "0 \<le> amount" "amount \<noteq> 0 \<Longrightarrow> wallet_move u (- amount) amount st st'"
    "amount \<noteq> 0 \<Longrightarrow> ov \<or> amount \<le> the (db_Balances st u)" "amount = 0 \<Longrightarrow> st' = st"
  using assms unfolding ReserveBalanceInTx_def
  by (auto simp: and_then_Inr split: if_splits dest!: getAccountForUpdate_read update_account_moved)

lemma CommitBalanceInTx_exact:
  assumes "CommitBalanceInTx f u reserved actual ov st = Inr ((old, new), st')"
  obtains b where "0 \<le> reserved" "0 \<le> actual" "db_Balances st u = Some b" "old = b" "new = b + reserved - actual"
    "wallet_move u (reserved - actual) (- reserved) st st' \<or> reserved = 0 \<and> actual = 0 \<and> st' = st"
    "ov \<or> 0 \<le> b + reserved - actual \<or> reserved = 0 \<and> actual = 0"
proof (cases "reserved = 0")
  case True
  from assms have na: "0 \<le> actual" unfolding CommitBalanceInTx_def by (simp split: if_split_asm)
  obtain a st0 where g0: "getAccountForUpdate f u st = Inr (a, st0)"
    using assms na True unfolding CommitBalanceInTx_def
    by (cases "getAccountForUpdate f u st") auto
  with getAccountForUpdate_read [OF g0] assms na True have g: "getAccountForUpdate f u st = Inr (a, st)"
      and rest: "(if actual = 0 then Inr ((ac_Balance a, ac_Balance a), st)
        else and_then (update_account f u (- actual) 0 (\<lambda>b. ov \<or> b + (- actual) \<ge> 0) st) (\<lambda>affected st.
          if \<not> affected then Inl BInsufficient
          else and_then (getAccountForUpdate (again f) u st) (\<lambda>a' st. Inr ((ac_Balance a, ac_Balance a'), st))))
        = Inr ((old, new), st')"
    unfolding CommitBalanceInTx_def by simp_all
  from getAccountForUpdate_read [OF g] na have r: "0 \<le> actual" "db_Balances st u = Some (ac_Balance a)" by auto
  show ?thesis
  proof (cases "actual = 0")
    case True
    with rest have "old = ac_Balance a" "new = ac_Balance a" "st' = st" by simp_all
    with r True \<open>reserved = 0\<close> show ?thesis by (intro that [of "ac_Balance a"]) simp_all
  next
    case False
    with rest obtain st1 a' where u: "update_account f u (- actual) 0 (\<lambda>b. ov \<or> b + (- actual) \<ge> 0) st = Inr (True, st1)"
        and g: "getAccountForUpdate (again f) u st1 = Inr (a', st')" "old = ac_Balance a" "new = ac_Balance a'"
      by (auto simp: and_then_Inr split: if_split_asm)
    from update_account_moved [OF u] have mv: "wallet_move u (- actual) 0 st st1" "ov \<or> ac_Balance a - actual \<ge> 0"
      using r by auto
    from getAccountForUpdate_read [OF g(1)] have "st' = st1" "db_Balances st1 u = Some (ac_Balance a')" by auto
    with mv(1) r have "ac_Balance a' = ac_Balance a - actual" by (auto simp: wallet_move_def)
    with g(2,3) mv r \<open>reserved = 0\<close> \<open>st' = st1\<close> show ?thesis by (intro that [of "ac_Balance a"]) auto
  qed
next
  case False
  from assms False obtain st1 a where u: "update_account f u (reserved - actual) (- reserved)
        (\<lambda>b. ov \<or> b + (reserved - actual) \<ge> 0) st = Inr (True, st1)"
      and g: "getAccountForUpdate f u st1 = Inr (a, st')" "old = ac_Balance a - (reserved - actual)" "new = ac_Balance a"
      and p: "0 \<le> reserved" "0 \<le> actual"
    unfolding CommitBalanceInTx_def Let_def
    by (auto simp: and_then_Inr split: if_splits)
  from update_account_moved [OF u] obtain b where b: "db_Balances st u = Some b"
      and mv: "wallet_move u (reserved - actual) (- reserved) st st1" "ov \<or> b + (reserved - actual) \<ge> 0"
    by (auto simp: wallet_move_def)
  from getAccountForUpdate_read [OF g(1)] have "st' = st1" "db_Balances st1 u = Some (ac_Balance a)" by auto
  with mv(1) b have "ac_Balance a = b + (reserved - actual)" by (auto simp: wallet_move_def)
  with g(2,3) mv p b \<open>st' = st1\<close> show ?thesis by (intro that [of b]) (auto simp: algebra_simps)
qed

lemma ReleaseBalanceInTx_exact:
  assumes "ReleaseBalanceInTx f u reserved st = Inr (x, st')" "0 < reserved"
  shows "wallet_move u reserved (- reserved) st st'"
  using assms unfolding ReleaseBalanceInTx_def
  by (auto simp: and_then_Inr split: if_splits dest!: getAccountForUpdate_read update_account_moved)

lemma wallet_moveD:
  assumes "wallet_move u db df st st'"
  obtains b where "db_Balances st u = Some b" "db_Balances st' = (db_Balances st)(u \<mapsto> b + db)"
    "db_Frozen st' = (db_Frozen st)(u := db_Frozen st u + df)" "db_Reservations st' = db_Reservations st"
    "db_Ledgers st' = db_Ledgers st" "db_Claims st' = db_Claims st"
  using assms by (auto simp: wallet_move_def)

subsection \<open>Reservation rows and ledger rows\<close>

lemma insert_reservation_exact:
  "insert_reservation f r st = Inr (x, st') \<longleftrightarrow> f InsertReservation = None
     \<and> \<not> list_ex (key_clash r) (db_Reservations st) \<and> st' = st\<lparr>db_Reservations := db_Reservations st @ [r]\<rparr>"
  unfolding insert_reservation_def and_then_Inr by (auto split: if_splits)

lemma CASReservationStatus_exact:
  "CASReservationStatus f n a b st = Inr (won, st') \<longleftrightarrow> f (CasReservation b) = None
     \<and> won = list_ex (\<lambda>r. rv_ID r = n \<and> rv_Status r = a) (db_Reservations st)
     \<and> st' = st\<lparr>db_Reservations := set_status n a b (db_Reservations st)\<rparr>"
  unfolding CASReservationStatus_def and_then_Inr by auto

lemma set_status_none: "\<not> list_ex (\<lambda>r. rv_ID r = n \<and> rv_Status r = a) rs \<Longrightarrow> set_status n a b rs = rs"
  by (induction rs) (auto simp: set_status_def)

lemma CAS_lost: "CASReservationStatus f n a b st = Inr (False, st') \<Longrightarrow> st' = st"
  by (simp add: CASReservationStatus_exact set_status_none)

lemma CASExpired_won:
  assumes "CASExpiredReservationStatus f n now st = Inr (True, st')"
  shows "CASReservationStatus f n ''reserved'' ''releasing'' st = Inr (True, st')"
    "\<exists>r. find_reservation (db_Reservations st) n = Some r \<and> rv_ExpiredAt r < now" "n \<notin> set (db_Tasks st)"
  using assms unfolding CASExpiredReservationStatus_def
  by (auto simp: and_then_Inr GetReservationInTx_read split: if_splits)

lemma CreateLedger_row:
  assumes "CreateLedgerInTx f now l st = Inr (u, st')" "lg_DedupeKey l \<noteq> []"
  obtains "lg_DedupeKey l \<notin> set (db_Claims st)"
    "st' = st\<lparr>db_Claims := lg_DedupeKey l # db_Claims st, db_Ledgers := db_Ledgers st @ [ledger_row now l]\<rparr>"
  using CreateLedgerInTx_exact [OF assms] by blast

lemma key_not_Nil [simp]: "consume_key n s \<noteq> []" "refund_key_of n \<noteq> []"
  by (simp_all add: consume_key_def refund_key_of_def)

lemma subscription_row [simp]:
  "ledger_row now (subscription_ledger r s w nb up t a b) = subscription_ledger r s w nb up t a b"
  by (simp add: ledger_row_def subscription_ledger_def Let_def)

lemma balance_row [simp]: "0 < w \<Longrightarrow> ledger_row now (balance_ledger r s w nb up t a b) = balance_ledger r s w nb up t a b"
  by (simp add: ledger_row_def balance_ledger_def Let_def)

lemma release_row [simp]: "ledger_row now (release_ledger r reason) = (release_ledger r reason)\<lparr>lg_CostSource := ''balance''\<rparr>"
  by (simp add: ledger_row_def release_ledger_def Let_def)

end
