(* ===== verification/Reservation_Effects.thy ===== *)
theory Reservation_Effects
  imports Reservation_Frames
begin

text \<open>
  The three transactions of a reservation as changes of the books: a reservation is opened, settled or
  closed, or nothing changes. Every answer of \<open>ReserveQuota\<close>, \<open>CommitQuotaWithUsage\<close> and
  \<open>releaseReservation\<close> is one of these.
\<close>

subsection \<open>The changes\<close>

definition held :: "reservation \<Rightarrow> int" where
  "held r = max 0 (rv_BalanceAmount r)"

definition moved :: "string \<Rightarrow> int \<Rightarrow> int \<Rightarrow> rstore \<Rightarrow> rstore \<Rightarrow> bool" where
  "moved u db df st st' \<longleftrightarrow>
     db = 0 \<and> df = 0 \<and> db_Balances st' = db_Balances st \<and> db_Frozen st' = db_Frozen st
   \<or> (\<exists>b. db_Balances st u = Some b \<and> in_int64 (b + db) \<and> db_Balances st' = (db_Balances st)(u \<mapsto> b + db)
       \<and> db_Frozen st' = (db_Frozen st)(u := db_Frozen st u + df))"

definition opened :: "reservation \<Rightarrow> rstore \<Rightarrow> rstore \<Rightarrow> bool" where
  "opened r st st' \<longleftrightarrow> rv_Status r = ''reserved'' \<and> \<not> list_ex (key_clash r) (db_Reservations st)
     \<and> db_Reservations st' = db_Reservations st @ [r] \<and> db_Ledgers st' = db_Ledgers st \<and> db_Claims st' = db_Claims st
     \<and> moved (rv_UserID r) (- held r) (held r) st st' \<and> (0 < held r \<longrightarrow> held r \<le> the (db_Balances st (rv_UserID r)))"

definition with_status :: "string \<Rightarrow> string \<Rightarrow> (reservation \<Rightarrow> reservation) \<Rightarrow> reservation list \<Rightarrow> reservation list" where
  "with_status n s g rs = map (\<lambda>r. if rv_ID r = n then (g r)\<lparr>rv_Status := s\<rparr> else r) rs"

text \<open>The rows a settlement appends: one per paying source, with the supplier cost on the first of them.\<close>

definition consume_rows :: "reservation \<Rightarrow> int \<Rightarrow> int \<Rightarrow> int64 \<Rightarrow> int64 \<Rightarrow> int64 \<Rightarrow> string \<Rightarrow> cost_breakdown \<Rightarrow> ledger list" where
  "consume_rows r share wallet newBalance upstream tokens auditStatus b =
     (if share > 0 then [subscription_ledger r share wallet newBalance upstream tokens auditStatus b] else [])
     @ (if wallet > 0 then [balance_ledger r share wallet newBalance upstream tokens auditStatus b] else [])"

text \<open>The dollars of a reservation without a subscription row: the reserved ones, at most the cost.\<close>

definition own_absorb :: "reservation \<Rightarrow> int \<Rightarrow> float64" where
  "own_absorb r cost = (if f_le (amountToUSD cost) (Fin 0) then Fin 0
     else if f_less (clip0 (rv_SubscriptionAmountUSD r)) (amountToUSD cost) then clip0 (rv_SubscriptionAmountUSD r)
     else amountToUSD cost)"

definition share_of :: "reservation \<Rightarrow> int \<Rightarrow> int \<Rightarrow> bool" where
  "share_of r cost share \<longleftrightarrow> (\<exists>absorbUSD. share = settled_share cost (amountToUSD cost) absorbUSD
     \<and> (rv_Snapshot r = None \<and> rv_SubscriptionID r \<le> 0 \<longrightarrow> absorbUSD = own_absorb r cost))"

definition settled :: "bill_env \<Rightarrow> reservation \<Rightarrow> int \<Rightarrow> int \<Rightarrow> int \<Rightarrow> rstore \<Rightarrow> rstore \<Rightarrow> bool" where
  "settled E r cost share wallet st st' \<longleftrightarrow>
     0 < cost \<and> 0 \<le> rv_BalanceAmount r \<and> 0 \<le> wallet
     \<and> share_of r cost share
     \<and> (\<exists>b newb up tokens audit bd. db_Balances st (rv_UserID r) = Some b \<and> newb = b + held r - wallet
          \<and> (canOverdraft E (rv_UserID r) \<or> 0 \<le> newb \<or> held r = 0 \<and> wallet = 0)
          \<and> db_Ledgers st' = db_Ledgers st @ consume_rows r share wallet newb up tokens audit bd)
     \<and> moved (rv_UserID r) (held r - wallet) (- held r) st st'
     \<and> db_Reservations st' = with_status (rv_ID r) ''committed'' (rv_ActualCost_update (\<lambda>_. cost)) (db_Reservations st)
     \<and> (\<exists>keys. db_Claims st' = keys @ db_Claims st \<and> set keys \<inter> set (db_Claims st) = {}
          \<and> set keys \<subseteq> {consume_key (rv_ID r) ''subscription'', consume_key (rv_ID r) ''balance''})"

definition closed :: "reservation \<Rightarrow> string \<Rightarrow> string \<Rightarrow> rstore \<Rightarrow> rstore \<Rightarrow> bool" where
  "closed r reason finalStatus st st' \<longleftrightarrow>
     db_Reservations st' = with_status (rv_ID r) finalStatus (\<lambda>r. r) (db_Reservations st)
     \<and> moved (rv_UserID r) (held r) (- held r) st st' \<and> db_Tasks st' = db_Tasks st
     \<and> (if 0 < held r then refund_key_of (rv_ID r) \<notin> set (db_Claims st)
            \<and> db_Claims st' = refund_key_of (rv_ID r) # db_Claims st
            \<and> db_Ledgers st' = db_Ledgers st @ [(release_ledger r reason)\<lparr>lg_CostSource := ''balance''\<rparr>]
          else db_Claims st' = db_Claims st \<and> db_Ledgers st' = db_Ledgers st)"

definition row_of :: "string \<Rightarrow> rstore \<Rightarrow> reservation option" where
  "row_of n st = find_reservation (db_Reservations st) n"

definition distinct_rows :: "rstore \<Rightarrow> bool" where
  "distinct_rows st \<longleftrightarrow> distinct (map rv_ID (db_Reservations st))"

subsection \<open>Rows by their identifier\<close>

lemma find_reservation_Some:
  "find_reservation rs n = Some r \<Longrightarrow> r \<in> set rs \<and> rv_ID r = n"
  by (induction rs) (auto simp: find_reservation_def split: if_splits)

lemma find_reservation_unique:
  "distinct (map rv_ID rs) \<Longrightarrow> r \<in> set rs \<Longrightarrow> find_reservation rs (rv_ID r) = Some r"
  by (induction rs) (force simp: find_reservation_def)+

lemma find_reservation_None: "find_reservation rs n = None \<longleftrightarrow> n \<notin> set (map rv_ID rs)"
  by (induction rs) (auto simp: find_reservation_def)

lemma find_reservation_map:
  "(\<And>r. rv_ID (g r) = rv_ID r) \<Longrightarrow> find_reservation (map g rs) n = map_option g (find_reservation rs n)"
  by (induction rs) (auto simp: find_reservation_def)

lemma list_ex_status:
  assumes "distinct (map rv_ID rs)"
  shows "list_ex (\<lambda>r. rv_ID r = n \<and> rv_Status r = s) rs \<longleftrightarrow> (\<exists>r. find_reservation rs n = Some r \<and> rv_Status r = s)"
  using assms find_reservation_Some find_reservation_unique by (fastforce simp: list_ex_iff)

lemma set_status_unique:
  assumes "distinct (map rv_ID rs)" "find_reservation rs n = Some r" "rv_Status r = a"
  shows "set_status n a b rs = map (\<lambda>r. if rv_ID r = n then r\<lparr>rv_Status := b\<rparr> else r) rs"
proof -
  have "rv_Status r' = a" if "r' \<in> set rs" "rv_ID r' = n" for r'
    using find_reservation_unique [OF assms(1) that(1)] that(2) assms(2,3) by simp
  then show ?thesis unfolding set_status_def by (intro map_cong) auto
qed

lemma map_IDs [simp]:
  "map rv_ID (map (\<lambda>r. if rv_ID r = n then r\<lparr>rv_Status := b\<rparr> else r) rs) = map rv_ID rs"
  by (induction rs) auto

lemma with_status_IDs [simp]: "(\<And>r. rv_ID (g r) = rv_ID r) \<Longrightarrow> map rv_ID (with_status n s g rs) = map rv_ID rs"
  by (induction rs) (auto simp: with_status_def)

lemma wallet_move_moved: "wallet_move u db df st st' \<Longrightarrow> moved u db df st st'"
  by (auto simp: wallet_move_def moved_def)

text \<open>Sequences of statements, front to back.\<close>

lemma and_thenE:
  assumes "and_then m k = Inr y"
  obtains x st where "m = Inr (x, st)" "k x st = Inr y"
  using assms by (auto simp: and_then_Inr)

lemma and_then_readE:
  assumes "and_then m k = Inr y" "\<And>x st'. m = Inr (x, st') \<Longrightarrow> st' = st"
  obtains x where "m = Inr (x, st)" "k x st = Inr y"
  using assms unfolding and_then_Inr by blast

lemma read_thenE:
  "and_then (LockSubscriptionRow f n st) k1 = Inr y \<Longrightarrow> (k1 () st = Inr y \<Longrightarrow> P) \<Longrightarrow> P"
  "and_then (GetActiveSubscriptionForUser f now v st) k2 = Inr y \<Longrightarrow> (\<And>s. k2 s st = Inr y \<Longrightarrow> P) \<Longrightarrow> P"
  "and_then (GetGroupForSubscriptionInTx f H s st) k3 = Inr y \<Longrightarrow> (\<And>g. k3 g st = Inr y \<Longrightarrow> P) \<Longrightarrow> P"
  "and_then (frozenAccounting E f u i w m b' st) k4 = Inr y \<Longrightarrow> (\<And>x. k4 x st = Inr y \<Longrightarrow> P) \<Longrightarrow> P"
  "and_then (getAccountForUpdate f u st) k5 = Inr y \<Longrightarrow> (\<And>a. k5 a st = Inr y \<Longrightarrow> P) \<Longrightarrow> P"
  "and_then (settle_absorb E f r c st) k6 = Inr y \<Longrightarrow> (\<And>x. k6 x st = Inr y \<Longrightarrow> P) \<Longrightarrow> P"
  "and_then (GetReservationInTx f i' st) k7 = Inr y \<Longrightarrow> (\<And>r. find_reservation (db_Reservations st) i' = Some r \<Longrightarrow>
    k7 r st = Inr y \<Longrightarrow> P) \<Longrightarrow> P"
  by (auto elim!: and_thenE simp: GetReservationInTx_read dest: read_only)

text \<open>The books of two states with the same money columns.\<close>

lemma moved_books:
  assumes "same_books st1 st2" "same_books st st0" "moved u db df st0 st1"
  shows "moved u db df st st2"
  using assms(3) unfolding moved_def same_booksD [OF assms(1)] same_booksD [OF assms(2)] .

subsection \<open>Opening\<close>

lemma CreateReservationInTx_exact:
  assumes "CreateReservationInTx E f r st = Inr (x, st')" "rv_Snapshot r = None \<Longrightarrow> rv_AccountingUSD r = None"
  shows "\<not> list_ex (key_clash r) (db_Reservations st) \<and> st' = st\<lparr>db_Reservations := db_Reservations st @ [r]\<rparr>"
proof (cases "rv_Snapshot r")
  case None
  then have "r\<lparr>rv_AccountingUSD := None\<rparr> = r" using assms(2) by (cases r) simp
  with assms(1) None show ?thesis by (simp add: CreateReservationInTx_def insert_reservation_exact)
next
  case (Some s)
  with assms(1) show ?thesis by (simp add: CreateReservationInTx_def insert_reservation_exact split: if_splits)
qed

text \<open>A wallet reserve followed by the insert opens the reservation.\<close>

lemma opened_by_wallet:
  assumes "wallet_move (rv_UserID r) (- held r) (held r) st st1 \<or> held r = 0 \<and> st1 = st"
    "0 < held r \<longrightarrow> held r \<le> the (db_Balances st (rv_UserID r))"
    "rv_Status r = ''reserved''" "\<not> list_ex (key_clash r) (db_Reservations st1)"
  shows "opened r st (st1\<lparr>db_Reservations := db_Reservations st1 @ [r]\<rparr>)"
  using assms by (auto simp: opened_def wallet_move_def moved_def)

lemma replay_answer_row: "replay_answer E q r rc = Inr r' \<Longrightarrow> r' = r"
  by (auto simp: replay_answer_def split: option.splits if_splits)

definition opens :: "reservation \<Rightarrow> rstore \<Rightarrow> rstore \<Rightarrow> bool" where
  "opens r st st' \<longleftrightarrow> st' = st \<or> opened r st st'"

text \<open>An earlier reservation of the request is answered as it is.\<close>

lemma found_opens:
  assumes "(case existing of Some r \<Rightarrow> (case replay_answer E q r c of Inl e \<Rightarrow> Inl e | Inr r \<Rightarrow> Inr (r, st))
      | None \<Rightarrow> k) = Inr (r, st')" "k = Inr (r, st') \<Longrightarrow> opens r st st'"
  shows "opens r st st'"
  using assms by (auto simp: opens_def split: option.splits sum.splits)

lemma new_reservation_simps [simp]:
  "rv_ID (new_reservation E q snap cost) = be_NewID E" "rv_UserID (new_reservation E q snap cost) = bq_UserID q"
  "rv_Status (new_reservation E q snap cost) = ''reserved''"
  "rv_BalanceAmount (new_reservation E q snap cost) = cost"
  "rv_AccountingUSD (new_reservation E q snap cost) = None" "rv_Snapshot (new_reservation E q snap cost) = snap"
  by (simp_all add: new_reservation_def)

lemma reserve_wallet_opens:
  assumes "reserve_wallet E q snap cost f ctx st = Inr (r, st')"
  shows "opens r st st'"
proof -
  from assms obtain existing where rest: "(case existing of
          Some r \<Rightarrow> (case replay_answer E q r (bq_Routing q) of Inl e \<Rightarrow> Inl e | Inr r \<Rightarrow> Inr (r, st))
        | None \<Rightarrow> and_then (ReserveBalanceInTx f (bq_UserID q) cost False st) (\<lambda>_ st.
            let r = new_reservation E q snap cost in
            and_then (CreateReservationInTx E f r st) (\<lambda>_ st. Inr (r, st)))) = Inr (r, st')"
    unfolding reserve_wallet_def
    by (rule and_then_readE [where st = st]) (auto split: if_split_asm dest: FindByRequestIDInTx_read)
  show ?thesis
  proof (cases existing)
    case (Some r0)
    with rest show ?thesis by (auto simp: opens_def split: sum.splits)
  next
    case None
    from rest None obtain x st1 y where b: "ReserveBalanceInTx f (bq_UserID q) cost False st = Inr (x, st1)"
        and c: "CreateReservationInTx E f (new_reservation E q snap cost) st1 = Inr (y, st')"
        and r: "r = new_reservation E q snap cost"
      by (auto simp: and_then_Inr Let_def)
    note b = ReserveBalanceInTx_exact [OF b]
    from CreateReservationInTx_exact [OF c] have c: "\<not> list_ex (key_clash r) (db_Reservations st1)"
        "st' = st1\<lparr>db_Reservations := db_Reservations st1 @ [r]\<rparr>" unfolding r by simp_all
    from b have h: "held r = cost" unfolding r by (simp add: held_def)
    have "wallet_move (rv_UserID r) (- held r) (held r) st st1 \<or> held r = 0 \<and> st1 = st"
      "0 < held r \<longrightarrow> held r \<le> the (db_Balances st (rv_UserID r))" "rv_Status r = ''reserved''"
      using b(2-4) unfolding h by (auto simp: r)
    with c(1) have "opened r st st'" unfolding c(2) by (intro opened_by_wallet)
    then show ?thesis by (simp add: opens_def)
  qed
qed

lemma split_reservation_row:
  assumes "split_reservation E q snap cost s g w m a = Inr r"
  shows "rv_Status r = ''reserved''" "rv_UserID r = bq_UserID q"
    "rv_BalanceAmount r = wrap64 (cost - reserve_share cost a)" "rv_Snapshot r = None \<Longrightarrow> rv_AccountingUSD r = None"
    "rv_ID r = be_NewID E"
  using assms unfolding split_reservation_def Let_def
  by (auto split: option.splits sum.splits)

lemma reserve_split_opens:
  assumes "reserve_split E q snap cost s g w m frozen f st = Inr (r, st')"
  shows "opens r st st'"
proof -
  define a where "a = reserve_absorb cost g w m frozen"
  define bal where "bal = wrap64 (cost - reserve_share cost a)"
  from assms obtain u st1 where p: "(if bal > 0 then and_then (ReserveBalanceInTx f (bq_UserID q) bal False st)
          (\<lambda>_ st. Inr ((), st)) else Inr ((), st)) = Inr (u, st1)"
      and c: "(case split_reservation E q snap cost s g w m a of Inl e \<Rightarrow> Inl e
        | Inr r \<Rightarrow> and_then (CreateReservationInTx E f r st1) (\<lambda>_ st. Inr (r, st))) = Inr (r, st')"
    unfolding reserve_split_def Let_def a_def [symmetric] bal_def [symmetric]
    by (auto simp: and_then_Inr split: if_split_asm)
  from c obtain x where s: "split_reservation E q snap cost s g w m a = Inr r"
      and i: "CreateReservationInTx E f r st1 = Inr (x, st')"
    by (auto simp: and_then_Inr split: sum.splits)
  note r = split_reservation_row [OF s, folded bal_def]
  note i = CreateReservationInTx_exact [OF i r(4)]
  have h: "held r = max 0 bal" by (simp add: held_def r)
  have "wallet_move (rv_UserID r) (- held r) (held r) st st1 \<or> held r = 0 \<and> st1 = st"
      "0 < held r \<longrightarrow> held r \<le> the (db_Balances st (rv_UserID r))"
  proof (atomize (full), cases "bal > 0")
    case True
    with p obtain y where b: "ReserveBalanceInTx f (bq_UserID q) bal False st = Inr (y, st1)"
      by (auto simp: and_then_Inr)
    from ReserveBalanceInTx_exact(2,3) [OF b] True
    show "(wallet_move (rv_UserID r) (- held r) (held r) st st1 \<or> held r = 0 \<and> st1 = st)
        \<and> (0 < held r \<longrightarrow> held r \<le> the (db_Balances st (rv_UserID r)))" by (simp add: h r)
  qed (use p in \<open>simp add: h\<close>)
  with i r(1) have "opened r st (st1\<lparr>db_Reservations := db_Reservations st1 @ [r]\<rparr>)"
    by (intro opened_by_wallet) simp_all
  with i show ?thesis by (simp add: opens_def)
qed

lemma reserve_locked_opens:
  assumes "reserve_locked E q snap cost userID subID f ctx st = Inr (r, st')"
  shows "opens r st st'"
proof -
  have cond: "(if b then Inl e else k) = Inr (r, st') \<Longrightarrow> (k = Inr (r, st') \<Longrightarrow> P) \<Longrightarrow> P"
    for b P and e :: billing_error and k :: "billing_error + (reservation \<times> rstore)" by (simp split: if_splits)
  show ?thesis
    using assms unfolding reserve_locked_def Let_def
    apply -
    apply (erule read_thenE(1))
    apply (erule and_then_readE, force split: if_split_asm dest: FindByRequestIDInTx_read)
    apply (erule found_opens)
    apply (erule read_thenE(2))
    apply (erule and_then_readE, simp)
    apply (erule cond)
    apply (erule read_thenE(3))
    apply (erule read_thenE(4))
    apply (erule reserve_split_opens)
    done
qed

interpretation wallet_reserve: transactional "reserve_wallet E q snap cost" opens for E q snap cost
  by unfold_locales (rule reserve_wallet_opens)

interpretation locked_reserve: transactional "reserve_locked E q snap cost userID subID" opens
  for E q snap cost userID subID
  by unfold_locales (rule reserve_locked_opens)

lemma reserveQuotaDualTrack_opens:
  "reserveQuotaDualTrack E q snap cost attempts ctx f st = Inr (r, st') \<Longrightarrow> opens r st st'"
  unfolding reserveQuotaDualTrack_def
  by (auto split: if_split_asm option.splits sum.splits intro: locked_reserve.run_rel)

lemma ReserveQuota_opens:
  assumes "ReserveQuota E q prep attempts1 attempts2 ctx f st = Inr (r, st')"
  shows "opens r st st'"
proof -
  have paths: "(if b then (case d of Inr r \<Rightarrow> Inr r | Inl e \<Rightarrow> if e = e0 then w else Inl e) else w) = Inr (r, st') \<Longrightarrow>
      (d = Inr (r, st') \<Longrightarrow> P) \<Longrightarrow> (w = Inr (r, st') \<Longrightarrow> P) \<Longrightarrow> P"
    for b P and e0 :: billing_error and d w :: "billing_error + (reservation \<times> rstore)"
    by (auto split: if_split_asm sum.splits)
  have wallet: "(if b then Inl e else RunInTx ats ctx (reserve_wallet E q snap cost) st) = Inr (r, st') \<Longrightarrow> opens r st st'"
    for b ats snap cost and e :: billing_error by (auto split: if_split_asm intro: wallet_reserve.run_rel)
  show ?thesis
    using assms unfolding ReserveQuota_def Let_def
    apply -
    apply (erule and_then_readE, simp)
    apply (erule and_then_readE, (simp split: if_split_asm, erule FindByRequestID_read))
    apply (erule found_opens)
    apply (erule read_thenE(5))
    apply (cases prep, simp)
    apply (simp only: sum.case)
    apply (erule paths)
     apply (erule reserveQuotaDualTrack_opens)
    apply (erule wallet)
    done
qed

subsection \<open>Settling\<close>

lemma write_ledgers_exact:
  assumes "write_ledgers E f r share wallet nb tokens u b st = Inr (x, st')"
  shows "\<exists>up audit keys. st' = st\<lparr>db_Claims := keys @ db_Claims st,
      db_Ledgers := db_Ledgers st @ consume_rows r share wallet nb up tokens audit b\<rparr>
    \<and> set keys \<inter> set (db_Claims st) = {}
    \<and> set keys \<subseteq> {consume_key (rv_ID r) ''subscription'', consume_key (rv_ID r) ''balance''}"
proof -
  define up where "up = calculateUpstreamCostWithPricing (be_Pricing E) (parseInt64Default (rv_ChannelID r) 0) (rv_Model r) tokens u"
  define audit where "audit = upstreamCostAuditStatus up u"
  define sl where "sl = subscription_ledger r share wallet nb up tokens audit b"
  define bl where "bl = balance_ledger r share wallet nb up tokens audit b"
  have k: "lg_DedupeKey sl = consume_key (rv_ID r) ''subscription''" "lg_DedupeKey bl = consume_key (rv_ID r) ''balance''"
    by (simp_all add: sl_def bl_def subscription_ledger_def balance_ledger_def)
  have row: "ledger_row (be_Now E) sl = sl" "wallet > 0 \<Longrightarrow> ledger_row (be_Now E) bl = bl"
    by (simp_all add: sl_def bl_def)
  from assms obtain y st1 where
      a: "(if share > 0 then CreateLedgerInTx f (be_Now E) sl st else Inr ((), st)) = Inr (y, st1)"
      and c: "(if wallet > 0 then CreateLedgerInTx (again f) (be_Now E) bl st1 else Inr ((), st1)) = Inr (x, st')"
    unfolding write_ledgers_def Let_def up_def [symmetric] audit_def [symmetric] sl_def [symmetric] bl_def [symmetric]
    by (rule and_thenE)
  obtain ks where A: "st1 = st\<lparr>db_Claims := ks @ db_Claims st, db_Ledgers := db_Ledgers st @ (if share > 0 then [sl] else [])\<rparr>"
      "set ks \<subseteq> {lg_DedupeKey sl}" "set ks \<inter> set (db_Claims st) = {}"
  proof (cases "share > 0")
    case True
    with a have "CreateLedgerInTx f (be_Now E) sl st = Inr (y, st1)" by simp
    from CreateLedgerInTx_exact [OF this] True show thesis
      by (intro that [of "[lg_DedupeKey sl]"]) (simp_all add: k row)
  qed (use a in \<open>intro that [of "[]"], simp_all\<close>)
  obtain ks' where B: "st' = st1\<lparr>db_Claims := ks' @ db_Claims st1, db_Ledgers := db_Ledgers st1 @ (if wallet > 0 then [bl] else [])\<rparr>"
      "set ks' \<subseteq> {lg_DedupeKey bl}" "set ks' \<inter> set (db_Claims st1) = {}"
  proof (cases "wallet > 0")
    case True
    with c have "CreateLedgerInTx (again f) (be_Now E) bl st1 = Inr (x, st')" by simp
    from CreateLedgerInTx_exact [OF this] True show thesis
      by (intro that [of "[lg_DedupeKey bl]"]) (simp_all add: k row)
  qed (use c in \<open>intro that [of "[]"], simp_all\<close>)
  have "set (ks' @ ks) \<subseteq> {consume_key (rv_ID r) ''subscription'', consume_key (rv_ID r) ''balance''}"
      "set (ks' @ ks) \<inter> set (db_Claims st) = {}"
    using A(2,3) B(2,3) unfolding k A(1) by auto
  moreover have "st' = st\<lparr>db_Claims := (ks' @ ks) @ db_Claims st,
      db_Ledgers := db_Ledgers st @ consume_rows r share wallet nb up tokens audit b\<rparr>"
    by (simp add: A(1) B(1) consume_rows_def sl_def bl_def)
  ultimately show ?thesis by blast
qed

lemma settle_writes_exact:
  assumes "settle_writes E f r cost share absorbUSD tokens u bd st = Inr ((c, x), st')"
  defines "wallet \<equiv> max 0 (wrap64 (cost - share))"
  shows "c = cost" "x = 0" "0 \<le> rv_BalanceAmount r"
    "moved (rv_UserID r) (rv_BalanceAmount r - wallet) (- rv_BalanceAmount r) st st'"
    "\<exists>b up audit keys. db_Balances st (rv_UserID r) = Some b
      \<and> (canOverdraft E (rv_UserID r) \<or> 0 \<le> b + rv_BalanceAmount r - wallet \<or> rv_BalanceAmount r = 0 \<and> wallet = 0)
      \<and> db_Ledgers st' = db_Ledgers st @ consume_rows r share wallet (b + rv_BalanceAmount r - wallet) up tokens audit bd
      \<and> db_Claims st' = keys @ db_Claims st \<and> set keys \<inter> set (db_Claims st) = {}
      \<and> set keys \<subseteq> {consume_key (rv_ID r) ''subscription'', consume_key (rv_ID r) ''balance''}"
    "db_Reservations st' = set_status (rv_ID r) ''committing'' ''committed''
      (map (\<lambda>r'. if rv_ID r' = rv_ID r then r'\<lparr>rv_ActualCost := cost\<rparr> else r') (db_Reservations st))"
proof -
  have w: "(if wrap64 (cost - share) < 0 then 0 else wrap64 (cost - share)) = wallet" by (simp add: wallet_def)
  from assms(1) obtain st1 st2 st3 st4 st5 st6 ob n y1 y2 y3 y4 y5 where
      s1: "(if rv_SubscriptionID r > 0 then recordReservedSubscriptionUsage E (again f) r absorbUSD st else Inr ((), st)) = Inr (y1, st1)"
      and s2: "CommitBalanceInTx (again f) (rv_UserID r) (rv_BalanceAmount r) wallet (canOverdraft E (rv_UserID r)) st1 = Inr ((ob, n), st2)"
      and s3: "mirror_receivable E f r ob n st2 = Inr (y2, st3)"
      and s4: "write_ledgers E f r share wallet n tokens u bd st3 = Inr (y3, st4)"
      and s5: "SetActualCostInTx f (rv_ID r) cost st4 = Inr (y4, st5)"
      and s6: "CASReservationStatus f (rv_ID r) ''committing'' ''committed'' st5 = Inr (True, st6)"
      and s7: "UpdateUsageInTx f (rv_UserID r) cost 1 st6 = Inr (y5, st')" and cx: "c = cost" "x = 0"
    unfolding settle_writes_def Let_def w
    by (cases "subscription_only (rv_Snapshot r) \<and> wallet > 0")
      (simp, fastforce elim!: and_thenE split: if_split_asm)
  from cx show "c = cost" "x = 0" .
  have f1: "same_books st st1" using s1 by (auto split: if_split_asm dest: recordReservedSubscriptionUsage_frame)
  have f3: "same_books st2 st3" using s3 by (rule mirror_receivable_frame)
  have f7: "same_books st6 st'" using s7 by (rule UpdateUsageInTx_frame)
  from write_ledgers_exact [OF s4] obtain up audit keys where l: "st4 = st3\<lparr>db_Claims := keys @ db_Claims st3,
      db_Ledgers := db_Ledgers st3 @ consume_rows r share wallet n up tokens audit bd\<rparr>"
    "set keys \<inter> set (db_Claims st3) = {}"
    "set keys \<subseteq> {consume_key (rv_ID r) ''subscription'', consume_key (rv_ID r) ''balance''}" by auto
  have st5: "st5 = st4\<lparr>db_Reservations := map (\<lambda>r'. if rv_ID r' = rv_ID r then r'\<lparr>rv_ActualCost := cost\<rparr> else r') (db_Reservations st4)\<rparr>"
    using s5 by (simp add: SetActualCostInTx_def)
  have st6: "st6 = st5\<lparr>db_Reservations := set_status (rv_ID r) ''committing'' ''committed'' (db_Reservations st5)\<rparr>"
    using s6 by (simp add: CASReservationStatus_exact)
  note B = CommitBalanceInTx_exact [OF s2]
  show "0 \<le> rv_BalanceAmount r" by (rule B)
  have m: "wallet_move (rv_UserID r) (rv_BalanceAmount r - wallet) (- rv_BalanceAmount r) st1 st2
      \<or> rv_BalanceAmount r = 0 \<and> wallet = 0 \<and> st2 = st1" by (rule B)
  obtain b where b: "db_Balances st1 (rv_UserID r) = Some b" "n = b + rv_BalanceAmount r - wallet"
    "canOverdraft E (rv_UserID r) \<or> 0 \<le> b + rv_BalanceAmount r - wallet \<or> rv_BalanceAmount r = 0 \<and> wallet = 0"
    by (rule B)
  have sm: "db_Reservations st2 = db_Reservations st1" "db_Ledgers st2 = db_Ledgers st1" "db_Claims st2 = db_Claims st1"
    using m by (auto elim: wallet_moveD)
  note fs = same_booksD [OF f1] same_booksD [OF f3] same_booksD [OF f7] sm
  show "db_Reservations st' = set_status (rv_ID r) ''committing'' ''committed''
      (map (\<lambda>r'. if rv_ID r' = rv_ID r then r'\<lparr>rv_ActualCost := cost\<rparr> else r') (db_Reservations st))"
    by (simp add: fs st6 st5 l(1))
  show "\<exists>b up audit keys. db_Balances st (rv_UserID r) = Some b
      \<and> (canOverdraft E (rv_UserID r) \<or> 0 \<le> b + rv_BalanceAmount r - wallet \<or> rv_BalanceAmount r = 0 \<and> wallet = 0)
      \<and> db_Ledgers st' = db_Ledgers st @ consume_rows r share wallet (b + rv_BalanceAmount r - wallet) up tokens audit bd
      \<and> db_Claims st' = keys @ db_Claims st \<and> set keys \<inter> set (db_Claims st) = {}
      \<and> set keys \<subseteq> {consume_key (rv_ID r) ''subscription'', consume_key (rv_ID r) ''balance''}"
    by (rule exI [of _ b], rule exI [of _ up], rule exI [of _ audit], rule exI [of _ keys])
      (use b l in \<open>simp add: fs st6 st5\<close>)
  have "moved (rv_UserID r) (rv_BalanceAmount r - wallet) (- rv_BalanceAmount r) st1 st2"
    using m
  proof
    assume "rv_BalanceAmount r = 0 \<and> wallet = 0 \<and> st2 = st1"
    then show ?thesis by (simp add: moved_def)
  qed (rule wallet_move_moved)
  then show "moved (rv_UserID r) (rv_BalanceAmount r - wallet) (- rv_BalanceAmount r) st st'"
    unfolding moved_def by (simp add: fs st6 st5 l(1))
qed

text \<open>Status by status, the row of a settled reservation.\<close>

lemma settled_row:
  assumes "distinct (map rv_ID rs)" "find_reservation rs n = Some r" "rv_Status r = ''reserved''"
  shows "set_status n ''committing'' ''committed'' (map (\<lambda>r'. if rv_ID r' = n then r'\<lparr>rv_ActualCost := cost\<rparr> else r')
      (set_status n ''reserved'' ''committing'' rs)) = with_status n ''committed'' (rv_ActualCost_update (\<lambda>_. cost)) rs"
  unfolding set_status_unique [OF assms] unfolding set_status_def with_status_def
  by (simp add: comp_def)

lemma closed_row:
  assumes "distinct (map rv_ID rs)" "find_reservation rs n = Some r" "rv_Status r = ''reserved''"
  shows "set_status n ''releasing'' s (set_status n ''reserved'' ''releasing'' rs) = with_status n s (\<lambda>r. r) rs"
  unfolding set_status_unique [OF assms] unfolding set_status_def with_status_def
  by (simp add: comp_def)

definition settles :: "bill_env \<Rightarrow> string \<Rightarrow> int64 \<times> int64 \<Rightarrow> rstore \<Rightarrow> rstore \<Rightarrow> bool" where
  "settles E n ans st st' \<longleftrightarrow> distinct_rows st \<longrightarrow>
     (case row_of n st of
        Some r \<Rightarrow> if rv_Status r = ''reserved''
          then (\<exists>share. settled E r (fst ans) share (max 0 (wrap64 (fst ans - share))) st st') \<and> snd ans = 0
          else st' = st \<and> ans = (if rv_Status r = ''committed'' then (committedAmountFromReservation (Some r), 0)
            else (0, rv_Amount r))
      | None \<Rightarrow> st' = st)"

lemma commit_won_settled:
  assumes "commit_won E f n tokens u st1 = Inr ((cost, x), st')"
    and st1: "st1 = st\<lparr>db_Reservations := set_status n ''reserved'' ''committing'' (db_Reservations st)\<rparr>"
    and row: "distinct_rows st" "row_of n st = Some r" "rv_Status r = ''reserved''"
  shows "\<exists>share. settled E r cost share (max 0 (wrap64 (cost - share))) st st'" "x = 0"
proof -
  note unique = row(1) [unfolded distinct_rows_def] row(2) [unfolded row_of_def]
  have ID: "rv_ID r = n" using find_reservation_Some [OF unique(2)] by simp
  define r1 where "r1 = r\<lparr>rv_Status := ''committing''\<rparr>"
  have f1: "find_reservation (db_Reservations st1) n = Some r1"
    using unique(2) ID unfolding st1 set_status_unique [OF unique row(3)]
    by (simp add: find_reservation_map r1_def)
  have r1: "rv_ID r1 = n" "rv_UserID r1 = rv_UserID r" "rv_BalanceAmount r1 = rv_BalanceAmount r"
    "consume_rows r1 = consume_rows r"
    using ID by (simp_all add: r1_def consume_rows_def subscription_ledger_def balance_ledger_def fun_eq_iff)
  obtain cost1 b where c: "0 < cost1" "settle_priced E f r1 cost1 tokens (commit_usage u r1) b st1 = Inr ((cost, x), st')"
  proof -
    from assms(1) have "and_then (getAccountForUpdate f (rv_UserID r1) st1) (\<lambda>a st.
        case reservationCostWithPricing E r1 (ac_Group a) tokens (commit_usage u r1) of
          Inl e \<Rightarrow> Inl e
        | Inr (cost0, b, _) \<Rightarrow> settle_priced E f r1 (if cost0 \<le> 0 then 1 else cost0) tokens (commit_usage u r1) b st)
        = Inr ((cost, x), st')"
      unfolding commit_won_def by (rule read_thenE(7)) (auto simp: f1 split: if_split_asm)
    then obtain a :: account where "(case reservationCostWithPricing E r1 (ac_Group a) tokens (commit_usage u r1) of
          Inl e \<Rightarrow> Inl e
        | Inr (cost0, b, _) \<Rightarrow> settle_priced E f r1 (if cost0 \<le> 0 then 1 else cost0) tokens (commit_usage u r1) b st1)
        = Inr ((cost, x), st')" by (rule read_thenE(5))
    then obtain cost0 b where "settle_priced E f r1 (if cost0 \<le> 0 then 1 else cost0) tokens (commit_usage u r1) b st1
        = Inr ((cost, x), st')" by (auto split: sum.splits prod.splits simp del: if_split)
    then show thesis by (rule that [rotated]) simp
  qed
  from c(2) have "and_then (settle_absorb E f r1 cost1 st1) (\<lambda>absorbUSD st.
        settle_writes E f r1 cost1 (settled_share cost1 (amountToUSD cost1) absorbUSD)
          (if rv_Snapshot r1 = None then absorbUSD else amountToUSD (settled_share cost1 (amountToUSD cost1) absorbUSD))
          tokens (commit_usage u r1) b st) = Inr ((cost, x), st')"
    unfolding settle_priced_def Let_def by (simp split: if_split_asm)
  then obtain absorbUSD where ab: "settle_absorb E f r1 cost1 st1 = Inr (absorbUSD, st1)"
    and "settle_writes E f r1 cost1 (settled_share cost1 (amountToUSD cost1) absorbUSD)
          (if rv_Snapshot r1 = None then absorbUSD else amountToUSD (settled_share cost1 (amountToUSD cost1) absorbUSD))
          tokens (commit_usage u r1) b st1 = Inr ((cost, x), st')"
    by (rule and_thenE) (auto dest: settle_absorb_read)
  note W = settle_writes_exact [OF this(2)]
  have cc: "cost1 = cost" using W(1) by simp
  define share where "share = settled_share cost1 (amountToUSD cost1) absorbUSD"
  define wallet where "wallet = max 0 (wrap64 (cost - share))"
  have own: "share_of r cost share"
    unfolding share_of_def
  proof (intro exI conjI impI)
    show "share = settled_share cost (amountToUSD cost) absorbUSD" by (simp add: share_def cc)
    assume "rv_Snapshot r = None \<and> rv_SubscriptionID r \<le> 0"
    with ab show "absorbUSD = own_absorb r cost"
      by (simp add: settle_absorb_def r1_def commitSubscriptionAbsorbUSD_def own_absorb_def Let_def cc split: if_split_asm)
  qed
  note W = W [folded share_def, folded W(1), folded wallet_def]
  show "x = 0" by (rule W(2))
  have h: "held r = rv_BalanceAmount r1" using W(3) r1 by (simp add: held_def)
  have mv: "moved (rv_UserID r) (held r - wallet) (- held r) st st'"
    using W(4) unfolding h r1(2) moved_def by (simp add: st1)
  have rows: "db_Reservations st' = with_status (rv_ID r) ''committed'' (rv_ActualCost_update (\<lambda>_. cost)) (db_Reservations st)"
    using W(6) settled_row [OF unique row(3)] by (simp add: r1 st1 ID)
  from W(5) obtain bal up audit keys where B: "db_Balances st (rv_UserID r) = Some bal"
      "canOverdraft E (rv_UserID r) \<or> 0 \<le> bal + held r - wallet \<or> held r = 0 \<and> wallet = 0"
      "db_Ledgers st' = db_Ledgers st @ consume_rows r share wallet (bal + held r - wallet) up tokens audit b"
      "db_Claims st' = keys @ db_Claims st" "set keys \<inter> set (db_Claims st) = {}"
      "set keys \<subseteq> {consume_key (rv_ID r) ''subscription'', consume_key (rv_ID r) ''balance''}"
    unfolding h r1(2,4) by (auto simp: st1 r1 ID)
  have "settled E r cost share wallet st st'"
    unfolding settled_def using own c(1) cc W(3) r1(3) mv rows B wallet_def by (intro conjI) auto
  then show "\<exists>share. settled E r cost share (max 0 (wrap64 (cost - share))) st st'"
    unfolding wallet_def by blast
qed

lemma commit_body_settles:
  assumes "commit_body E n tokens u f ctx st = Inr (ans, st')"
  shows "settles E n ans st st'"
  unfolding settles_def
proof (rule impI)
  assume d: "distinct_rows st"
  from assms obtain won st1 where c: "CASReservationStatus f n ''reserved'' ''committing'' st = Inr (won, st1)"
      and k: "(if won then commit_won E f n tokens u st1 else lost_commit f n u st1) = Inr (ans, st')"
    unfolding commit_body_def by (rule and_thenE)
  from c have st1: "won = (\<exists>r. row_of n st = Some r \<and> rv_Status r = ''reserved'')"
      "st1 = st\<lparr>db_Reservations := set_status n ''reserved'' ''committing'' (db_Reservations st)\<rparr>"
    using d by (simp_all add: CASReservationStatus_exact list_ex_status distinct_rows_def row_of_def)
  show "case row_of n st of
        Some r \<Rightarrow> if rv_Status r = ''reserved''
          then (\<exists>share. settled E r (fst ans) share (max 0 (wrap64 (fst ans - share))) st st') \<and> snd ans = 0
          else st' = st \<and> ans = (if rv_Status r = ''committed'' then (committedAmountFromReservation (Some r), 0)
            else (0, rv_Amount r))
      | None \<Rightarrow> st' = st"
  proof (cases won)
    case True
    with st1(1) obtain r where r: "row_of n st = Some r" "rv_Status r = ''reserved''" by auto
    from k True have "commit_won E f n tokens u st1 = Inr ((fst ans, snd ans), st')" by simp
    from commit_won_settled [OF this st1(2) d r] r show ?thesis by simp
  next
    case False
    with c have "st1 = st" by (simp add: CAS_lost)
    with k False have "lost_commit f n u st = Inr (ans, st')" by simp
    then have l: "st' = st \<and> (\<forall>r. row_of n st = Some r \<longrightarrow> ans = (if rv_Status r = ''committed''
        then (committedAmountFromReservation (Some r), 0) else (0, rv_Amount r)))"
      unfolding lost_commit_def row_of_def by (rule read_thenE(7)) (auto split: if_split_asm)
    with False st1(1) show ?thesis by (auto split: option.splits)
  qed
qed

interpretation commit: transactional "commit_body E n tokens u" "settles E n" for E n tokens u
  by unfold_locales (rule commit_body_settles)

subsection \<open>Releasing\<close>

definition closes :: "bill_env \<Rightarrow> string \<Rightarrow> string \<Rightarrow> string \<Rightarrow> unit \<Rightarrow> rstore \<Rightarrow> rstore \<Rightarrow> bool" where
  "closes E n reason finalStatus ans st st' \<longleftrightarrow> distinct_rows st \<longrightarrow>
     (case row_of n st of
        Some r \<Rightarrow> if rv_Status r = ''reserved''
          then closed r reason finalStatus st st'
            \<and> (finalStatus = ''expired'' \<longrightarrow> rv_ExpiredAt r < be_Now E \<and> n \<notin> set (db_Tasks st))
          else st' = st
      | None \<Rightarrow> st' = st)"

lemma release_won_closed:
  assumes "release_won E f n reason fin st1 = Inr (x, st')"
    and st1: "st1 = st\<lparr>db_Reservations := set_status n ''reserved'' ''releasing'' (db_Reservations st)\<rparr>"
    and row: "distinct_rows st" "row_of n st = Some r" "rv_Status r = ''reserved''"
  shows "closed r reason fin st st'"
proof -
  note unique = row(1) [unfolded distinct_rows_def] row(2) [unfolded row_of_def]
  have ID: "rv_ID r = n" using find_reservation_Some [OF unique(2)] by simp
  define r1 where "r1 = r\<lparr>rv_Status := ''releasing''\<rparr>"
  have f1: "find_reservation (db_Reservations st1) n = Some r1"
    using unique(2) ID unfolding st1 set_status_unique [OF unique row(3)]
    by (simp add: find_reservation_map r1_def)
  have r1: "rv_UserID r1 = rv_UserID r" "rv_BalanceAmount r1 = rv_BalanceAmount r"
    "release_ledger r1 = release_ledger r"
    by (simp_all add: r1_def release_ledger_def fun_eq_iff)
  from assms(1) have "and_then (if rv_BalanceAmount r > 0
       then and_then (ReleaseBalanceInTx f (rv_UserID r) (rv_BalanceAmount r) st1)
         (\<lambda>_ st. CreateLedgerInTx f (be_Now E) (release_ledger r reason) st)
       else Inr ((), st1)) (\<lambda>_ st.
     and_then (CASReservationStatus f n ''releasing'' fin st) (\<lambda>won st.
       if won then Inr ((), st) else Inl BReservationClosed)) = Inr (x, st')"
    unfolding release_won_def
  proof (rule read_thenE(7), goal_cases)
    case (1 r')
    from 1(1) have "r' = r1" by (simp add: f1)
    from 1(2) show ?case unfolding \<open>r' = r1\<close> r1 .
  qed
  then obtain y st2 where a: "(if rv_BalanceAmount r > 0
       then and_then (ReleaseBalanceInTx f (rv_UserID r) (rv_BalanceAmount r) st1)
         (\<lambda>_ st. CreateLedgerInTx f (be_Now E) (release_ledger r reason) st)
       else Inr ((), st1)) = Inr (y, st2)"
      and b: "CASReservationStatus f n ''releasing'' fin st2 = Inr (True, st')"
    by (fastforce elim!: and_thenE split: if_split_asm)
  have st': "st' = st2\<lparr>db_Reservations := set_status n ''releasing'' fin (db_Reservations st2)\<rparr>"
    using b by (simp add: CASReservationStatus_exact)
  note final = closed_row [OF unique row(3)]
  show ?thesis
  proof (cases "rv_BalanceAmount r > 0")
    case True
    with a obtain z st3 where m: "ReleaseBalanceInTx f (rv_UserID r) (rv_BalanceAmount r) st1 = Inr (z, st3)"
        and l: "CreateLedgerInTx f (be_Now E) (release_ledger r reason) st3 = Inr (y, st2)"
      by (auto elim!: and_thenE)
    have h: "held r = rv_BalanceAmount r" using True by (simp add: held_def)
    have k: "lg_DedupeKey (release_ledger r reason) = refund_key_of (rv_ID r)" by (simp add: release_ledger_def)
    have m: "wallet_move (rv_UserID r) (held r) (- held r) st1 st3"
      using ReleaseBalanceInTx_exact [OF m True] by (simp add: h)
    note l = CreateLedgerInTx_exact [OF l, unfolded k, OF key_not_Nil(2)]
    obtain bal where m': "db_Balances st1 (rv_UserID r) = Some bal" "in_int64 (bal + held r)"
        "st3 = st1\<lparr>db_Balances := (db_Balances st1)(rv_UserID r \<mapsto> bal + held r),
          db_Frozen := (db_Frozen st1)(rv_UserID r := db_Frozen st1 (rv_UserID r) + - held r)\<rparr>"
      using m by (auto simp: wallet_move_def)
    have "moved (rv_UserID r) (held r) (- held r) st st'"
      unfolding moved_def using m'(1,2) by (simp add: st' l(2) m'(3) st1)
    then show ?thesis
      unfolding closed_def using True l(1) final h by (simp add: st' l(2) m'(3) st1 ID)
  next
    case False
    with a have "st2 = st1" by simp
    with False final show ?thesis
      by (simp add: closed_def held_def moved_def st' st1 ID)
  qed
qed

lemma release_body_closes:
  assumes "release_body E n reason fin f ctx st = Inr (ans, st')"
  shows "closes E n reason fin ans st st'"
  unfolding closes_def
proof (rule impI)
  assume d: "distinct_rows st"
  have won: "\<exists>r. row_of n st = Some r \<and> rv_Status r = ''reserved'' \<and> closed r reason fin st st'"
    if c: "CASReservationStatus f n ''reserved'' ''releasing'' st = Inr (True, st1)"
      and k: "release_won E f n reason fin st1 = Inr (ans, st')" for st1
  proof -
    from c d obtain r where r: "row_of n st = Some r" "rv_Status r = ''reserved''"
        and st1: "st1 = st\<lparr>db_Reservations := set_status n ''reserved'' ''releasing'' (db_Reservations st)\<rparr>"
      by (auto simp: CASReservationStatus_exact list_ex_status distinct_rows_def row_of_def)
    from release_won_closed [OF k st1 d r] r show ?thesis by blast
  qed
  show "case row_of n st of
        Some r \<Rightarrow> if rv_Status r = ''reserved''
          then closed r reason fin st st'
            \<and> (fin = ''expired'' \<longrightarrow> rv_ExpiredAt r < be_Now E \<and> n \<notin> set (db_Tasks st))
          else st' = st
      | None \<Rightarrow> st' = st"
  proof (cases "fin = ''expired''")
    case True
    with assms obtain st1 where c: "CASExpiredReservationStatus f n (be_Now E) st = Inr (True, st1)"
        and k: "release_won E f n reason fin st1 = Inr (ans, st')"
      unfolding release_body_def by (fastforce elim!: and_thenE split: if_split_asm)
    note e = CASExpired_won [OF c]
    from won [OF e(1) k] e(2,3) show ?thesis by (auto simp: row_of_def)
  next
    case False
    with assms obtain w st1 where c: "CASReservationStatus f n ''reserved'' ''releasing'' st = Inr (w, st1)"
        and k: "(if w then release_won E f n reason fin st1 else lost_release f n st1) = Inr (ans, st')"
      unfolding release_body_def by (auto elim!: and_thenE)
    show ?thesis
    proof (cases w)
      case True
      with won [of st1] c k False show ?thesis by auto
    next
      case lost: False
      with c have "st1 = st" by (simp add: CAS_lost)
      with k lost have "st' = st" unfolding lost_release_def
        by (auto elim!: read_thenE(7) split: if_split_asm)
      moreover from c lost d have "\<not> (\<exists>r. row_of n st = Some r \<and> rv_Status r = ''reserved'')"
        by (simp add: CASReservationStatus_exact list_ex_status distinct_rows_def row_of_def)
      ultimately show ?thesis by (auto split: option.splits)
    qed
  qed
qed

interpretation release: transactional "release_body E n reason fin" "closes E n reason fin" for E n reason fin
  by unfold_locales (rule release_body_closes)

lemma releaseReservation_closes:
  "releaseReservation E n reason fin attempts ctx st = Inr (ans, st') \<Longrightarrow> closes E n reason fin ans st st'"
  unfolding releaseReservation_def by (rule release.run_rel)

text \<open>A commit settles, or, when the request failed, releases.\<close>

lemma CommitQuotaWithUsage_effect:
  assumes "CommitQuotaWithUsage E n tokens success u attempts ctx f st = Inr (ans, st')"
  shows "if success then settles E n ans st st'
    else closes E n ''request failed'' ''released'' () st st' \<and> ans = (0, 0)"
proof -
  from assms have "(if lu_UsageContractVersion u = 2 then Inl BReceiptInvalid
       else if \<not> success then and_then (releaseReservation E n ''request failed'' ''released'' attempts ctx st)
         (\<lambda>_ st. Inr ((0, 0), st))
       else RunInTx attempts ctx (commit_body E n tokens u) st) = Inr (ans, st')"
    unfolding CommitQuotaWithUsage_def by (rule read_thenE(7))
  then show ?thesis
    by (auto elim!: and_thenE split: if_split_asm intro: commit.run_rel releaseReservation_closes)
qed

end
