(* ===== verification/Reservation_Books.thy ===== *)
theory Reservation_Books
  imports Reservation_Effects
begin

text \<open>
  The reservation service as a transition system: a step is a call of \<open>ReserveQuota\<close>,
  \<open>CommitQuotaWithUsage\<close> or \<open>releaseReservation\<close> that returns, in any configuration, at any time and
  whatever statements failed on the way; a call that answers an error leaves the store as it was. The
  books are in order when every frozen amount is backed by reserved rows and every charge by a committed
  one; the wallet the users see is a small machine of its own, and the service refines it.
\<close>

subsection \<open>Steps and runs\<close>

inductive bill_step :: "bill_env \<Rightarrow> rstore \<Rightarrow> rstore \<Rightarrow> bool" where
  reserve: "ReserveQuota E q prep attempts1 attempts2 ctx f st = Inr (r, st') \<Longrightarrow> bill_step E st st'"
| commit: "CommitQuotaWithUsage E n tokens success u attempts ctx f st = Inr (ans, st') \<Longrightarrow> bill_step E st st'"
| release: "finalStatus = ''released'' \<or> finalStatus = ''expired'' \<Longrightarrow>
    releaseReservation E n reason finalStatus attempts ctx st = Inr (u, st') \<Longrightarrow> bill_step E st st'"

inductive_cases bill_stepE: "bill_step E st st'"

definition some_step :: "(bill_env \<Rightarrow> bool) \<Rightarrow> rstore \<Rightarrow> rstore \<Rightarrow> bool" where
  "some_step C st st' \<longleftrightarrow> (\<exists>E. C E \<and> bill_step E st st')"

abbreviation bill_run :: "(bill_env \<Rightarrow> bool) \<Rightarrow> rstore \<Rightarrow> rstore \<Rightarrow> bool" where
  "bill_run C \<equiv> (some_step C)\<^sup>*\<^sup>*"

text \<open>A run of the cleanup job is a run of releases.\<close>

lemma cleanup_run: "C E \<Longrightarrow> bill_run C st (cleanupExpiredReservations E rs ctx st)"
proof (induction E rs ctx st rule: cleanupExpiredReservations.induct)
  case (2 E n attempts rest ctx st)
  show ?case
  proof (cases "releaseReservation E n ''reservation expired'' ''expired'' attempts ctx st")
    case (Inl e)
    with 2 show ?thesis by simp
  next
    case (Inr y)
    obtain u st1 where y: "y = (u, st1)" by (cases y)
    have "some_step C st st1"
      unfolding some_step_def using 2(3) bill_step.release [OF _ Inr [unfolded y]] by blast
    moreover have "bill_run C st1 (cleanupExpiredReservations E rest ctx st1)" using 2 Inr y by simp
    ultimately show ?thesis using Inr y by (simp add: converse_rtranclp_into_rtranclp)
  qed
qed simp

text \<open>Everything a step can do to the books.\<close>

definition reserved_row :: "reservation \<Rightarrow> rstore \<Rightarrow> bool" where
  "reserved_row r st \<longleftrightarrow> r \<in> set (db_Reservations st) \<and> rv_Status r = ''reserved''"

inductive change :: "bill_env \<Rightarrow> rstore \<Rightarrow> rstore \<Rightarrow> bool" where
  stay: "change E st st"
| open_row: "opened r st st' \<Longrightarrow> change E st st'"
| settle_row: "reserved_row r st \<Longrightarrow> wallet = max 0 (wrap64 (cost - share)) \<Longrightarrow>
    settled E r cost share wallet st st' \<Longrightarrow> change E st st'"
| close_row: "reserved_row r st \<Longrightarrow> finalStatus = ''released'' \<or> finalStatus = ''expired'' \<Longrightarrow>
    closed r reason finalStatus st st' \<Longrightarrow> change E st st'"

lemma row_of_reserved: "row_of n st = Some r \<Longrightarrow> rv_Status r = ''reserved'' \<Longrightarrow> reserved_row r st"
  using find_reservation_Some by (auto simp: row_of_def reserved_row_def)

lemma settles_change: "settles E n ans st st' \<Longrightarrow> distinct_rows st \<Longrightarrow> change E st st'"
  unfolding settles_def
  by (auto split: option.splits if_split_asm intro: change.intros(1) change.settle_row [OF row_of_reserved refl])

lemma closes_change:
  assumes "closes E n reason fin ans st st'" "distinct_rows st" "fin = ''released'' \<or> fin = ''expired''"
  shows "change E st st'"
proof (cases "row_of n st")
  case (Some r)
  with assms(1,2) show ?thesis unfolding closes_def
    by (cases "rv_Status r = ''reserved''")
      (auto intro: change.stay change.close_row [OF row_of_reserved [OF Some] assms(3)])
qed (use assms(1,2) in \<open>auto simp: closes_def intro: change.stay\<close>)

lemma step_change:
  assumes "bill_step E st st'" "distinct_rows st"
  shows "change E st st'"
  using assms(1)
proof (rule bill_stepE)
  fix q prep attempts1 attempts2 ctx f r
  assume "ReserveQuota E q prep attempts1 attempts2 ctx f st = Inr (r, st')"
  from ReserveQuota_opens [OF this] show ?thesis
    unfolding opens_def by (auto intro: change.stay change.open_row)
next
  fix n tokens success u attempts ctx f ans
  assume "CommitQuotaWithUsage E n tokens success u attempts ctx f st = Inr (ans, st')"
  from CommitQuotaWithUsage_effect [OF this] show ?thesis
    using settles_change [OF _ assms(2)] closes_change [OF _ assms(2)] by (cases success) auto
next
  fix fin n reason attempts ctx u
  assume "fin = ''released'' \<or> fin = ''expired''" "releaseReservation E n reason fin attempts ctx st = Inr (u, st')"
  then show ?thesis using closes_change [OF releaseReservation_closes assms(2)] by blast
qed

subsection \<open>Rows are well formed\<close>

text \<open>\<open>rows_typed\<close>: the unique keys of the table hold and between transactions a row is in one of four states.\<close>

definition statuses :: "string list" where
  "statuses = [''reserved'', ''committed'', ''released'', ''expired'']"

definition no_clash :: "reservation list \<Rightarrow> bool" where
  "no_clash rs \<longleftrightarrow> (\<forall>r r'. r \<in> set rs \<longrightarrow> r' \<in> set rs \<longrightarrow> r \<noteq> r' \<longrightarrow> \<not> key_clash r r')"

definition rows_typed :: "rstore \<Rightarrow> bool" where
  "rows_typed st \<longleftrightarrow> distinct_rows st \<and> no_clash (db_Reservations st)
     \<and> (\<forall>r \<in> set (db_Reservations st). rv_Status r \<in> set statuses)"

text \<open>\<open>books_ok\<close>: a frozen amount is the sum of what the reserved rows hold, a charge belongs to a committed
  row of the same user, and the dedupe keys of a row are used only once it is settled or closed.\<close>

definition held_by :: "string \<Rightarrow> reservation \<Rightarrow> int" where
  "held_by u r = (if rv_UserID r = u \<and> rv_Status r = ''reserved'' then held r else 0)"

definition spent_row :: "string \<Rightarrow> ledger \<Rightarrow> int" where
  "spent_row u l = (if lg_UserID l = u \<and> lg_Type l = ''consume'' then lg_BalanceCost l else 0)"

definition spent :: "rstore \<Rightarrow> string \<Rightarrow> int" where
  "spent st u = (\<Sum>l\<leftarrow>db_Ledgers st. spent_row u l)"

definition wealth :: "rstore \<Rightarrow> string \<Rightarrow> int" where
  "wealth st u = (case db_Balances st u of None \<Rightarrow> 0 | Some b \<Rightarrow> b) + db_Frozen st u + spent st u"

definition settlement_keys :: "string \<Rightarrow> string set" where
  "settlement_keys n = {refund_key_of n, consume_key n ''subscription'', consume_key n ''balance''}"

definition frozen_backed :: "rstore \<Rightarrow> bool" where
  "frozen_backed st \<longleftrightarrow> (\<forall>u. db_Frozen st u = (\<Sum>r\<leftarrow>db_Reservations st. held_by u r))"

definition charges_backed :: "rstore \<Rightarrow> bool" where
  "charges_backed st \<longleftrightarrow> (\<forall>l \<in> set (db_Ledgers st). lg_Type l = ''consume'' \<longrightarrow>
     (\<exists>r \<in> set (db_Reservations st). rv_ID r = lg_ReferenceID l \<and> rv_UserID r = lg_UserID l \<and> rv_Status r = ''committed''))"

definition keys_backed :: "rstore \<Rightarrow> bool" where
  "keys_backed st \<longleftrightarrow> (\<forall>n. settlement_keys n \<inter> set (db_Claims st) \<noteq> {} \<longrightarrow>
     (\<exists>r \<in> set (db_Reservations st). rv_ID r = n \<and> rv_Status r \<noteq> ''reserved''))"

definition books_ok :: "rstore \<Rightarrow> bool" where
  "books_ok st \<longleftrightarrow> rows_typed st \<and> frozen_backed st \<and> charges_backed st \<and> keys_backed st"

subsection \<open>The changes keep the books\<close>

lemma key_clash_sym: "key_clash r r' \<longleftrightarrow> key_clash r' r"
  by (auto simp: key_clash_def)

lemma rows_opened:
  assumes "opened r st st'" "rows_typed st"
  shows "rows_typed st'"
proof -
  have rs: "db_Reservations st' = db_Reservations st @ [r]" "rv_Status r = ''reserved''"
      and n: "\<And>r'. r' \<in> set (db_Reservations st) \<Longrightarrow> \<not> key_clash r r'"
    using assms(1) by (auto simp: opened_def list_ex_iff)
  have "rv_ID r \<notin> rv_ID ` set (db_Reservations st)" using n by (force simp: key_clash_def)
  then have "distinct_rows st'" using assms(2) by (simp add: distinct_rows_def rows_typed_def rs)
  moreover have "no_clash (db_Reservations st')"
    using assms(2) n key_clash_sym unfolding rs no_clash_def rows_typed_def by auto
  moreover have "\<forall>r \<in> set (db_Reservations st'). rv_Status r \<in> set statuses"
    using assms(2) by (simp add: rows_typed_def rs statuses_def)
  ultimately show ?thesis by (simp add: rows_typed_def)
qed

lemma no_clash_map:
  assumes "no_clash rs" "\<And>r. rv_ID (g r) = rv_ID r \<and> rv_UserID (g r) = rv_UserID r \<and> rv_RequestID (g r) = rv_RequestID r"
  shows "no_clash (map g rs)"
proof -
  have "key_clash (g a) (g b) = key_clash a b" for a b using assms(2) by (simp add: key_clash_def)
  with assms(1) show ?thesis unfolding no_clash_def by auto
qed

lemma rows_with_status:
  assumes "db_Reservations st' = with_status n s g (db_Reservations st)" "rows_typed st" "s \<in> set statuses"
    "\<And>r. rv_ID (g r) = rv_ID r \<and> rv_UserID (g r) = rv_UserID r \<and> rv_RequestID (g r) = rv_RequestID r"
  shows "rows_typed st'"
proof -
  have "distinct_rows st'" using assms by (simp add: distinct_rows_def rows_typed_def)
  moreover have "no_clash (db_Reservations st')"
    unfolding assms(1) with_status_def using assms(2,4) by (intro no_clash_map) (auto simp: rows_typed_def)
  moreover have "\<forall>r \<in> set (db_Reservations st'). rv_Status r \<in> set statuses"
    using assms(2,3) by (auto simp: assms(1) with_status_def rows_typed_def)
  ultimately show ?thesis by (simp add: rows_typed_def)
qed

lemma rows_change: "change E st st' \<Longrightarrow> rows_typed st \<Longrightarrow> rows_typed st'"
  by (erule change.cases)
    (auto simp: settled_def closed_def statuses_def dest: rows_opened intro: rows_with_status)

lemma kept_row:
  assumes "reserved_row r st" "distinct_rows st" "r' \<in> set (db_Reservations st)" "rv_Status r' \<noteq> ''reserved''"
  shows "r' \<in> set (with_status (rv_ID r) s g (db_Reservations st))"
proof -
  have "rv_ID r' \<noteq> rv_ID r"
    using find_reservation_unique [OF assms(2) [unfolded distinct_rows_def]] assms(1,3,4)
    unfolding reserved_row_def by (metis option.inject)
  with assms(3) show ?thesis by (force simp: with_status_def)
qed

lemma changed_row:
  "r \<in> set rs \<Longrightarrow> (g r)\<lparr>rv_Status := s\<rparr> \<in> set (with_status (rv_ID r) s g rs)"
  by (force simp: with_status_def)

lemma sum_held_closed:
  assumes "distinct (map rv_ID rs)" "r \<in> set rs" "s \<noteq> ''reserved''"
  shows "(\<Sum>x\<leftarrow>with_status (rv_ID r) s g rs. held_by u x) = (\<Sum>x\<leftarrow>rs. held_by u x) - held_by u r"
  using assms(1,2)
proof (induction rs)
  case (Cons a rs)
  show ?case
  proof (cases "a = r")
    case True
    have "rv_ID x \<noteq> rv_ID r" if "x \<in> set rs" for x
      using Cons.prems(1) True imageI [OF that, of rv_ID] by auto
    then have "with_status (rv_ID r) s g rs = rs"
      unfolding with_status_def by (intro map_idI) simp
    with True assms(3) show ?thesis by (simp add: with_status_def held_by_def)
  next
    case False
    with Cons.prems have "rv_ID a \<noteq> rv_ID r" "r \<in> set rs" by force+
    with Cons show ?thesis by (simp add: with_status_def)
  qed
qed simp

lemma moved_frozen: "moved u db df st st' \<Longrightarrow> db_Frozen st' = (db_Frozen st)(u := db_Frozen st u + df)"
  by (auto simp: moved_def)

definition credit :: "string \<Rightarrow> int \<Rightarrow> (string \<Rightarrow> int option) \<Rightarrow> string \<Rightarrow> int option" where
  "credit u d F = F(u := map_option (\<lambda>b. b + d) (F u))"

lemma moved_credit: "moved u db df st st' \<Longrightarrow> db_Balances st' = credit u db (db_Balances st)"
  by (auto simp: moved_def credit_def option.map_ident)

lemma held_by_reserved: "rv_Status r = ''reserved'' \<Longrightarrow> held_by u r = (if rv_UserID r = u then held r else 0)"
  by (simp add: held_by_def)

lemma frozen_change:
  assumes "change E st st'" "frozen_backed st" "distinct_rows st"
  shows "frozen_backed st'"
  using assms(1)
proof cases
  case (open_row r)
  then have m: "db_Frozen st' = (db_Frozen st)(rv_UserID r := db_Frozen st (rv_UserID r) + held r)"
    "db_Reservations st' = db_Reservations st @ [r]" "rv_Status r = ''reserved''"
    by (auto simp: opened_def dest: moved_frozen)
  with assms(2) show ?thesis by (simp add: frozen_backed_def held_by_reserved)
next
  case (settle_row r wallet cost share)
  then have m: "db_Frozen st' = (db_Frozen st)(rv_UserID r := db_Frozen st (rv_UserID r) + - held r)"
    "db_Reservations st' = with_status (rv_ID r) ''committed'' (rv_ActualCost_update (\<lambda>_. cost)) (db_Reservations st)"
    by (auto simp: settled_def dest: moved_frozen)
  with assms(2,3) settle_row(1) show ?thesis
    by (simp add: frozen_backed_def distinct_rows_def reserved_row_def sum_held_closed held_by_reserved)
next
  case (close_row r fin reason)
  then have m: "db_Frozen st' = (db_Frozen st)(rv_UserID r := db_Frozen st (rv_UserID r) + - held r)"
    "db_Reservations st' = with_status (rv_ID r) fin (\<lambda>r. r) (db_Reservations st)" "fin \<noteq> ''reserved''"
    by (auto simp: closed_def dest: moved_frozen)
  with assms(2,3) close_row(1) show ?thesis
    by (simp add: frozen_backed_def distinct_rows_def reserved_row_def sum_held_closed held_by_reserved)
qed (use assms(2) in simp)

lemma consume_rows_mem:
  "l \<in> set (consume_rows r s w nb up t a b) \<Longrightarrow> lg_ReferenceID l = rv_ID r \<and> lg_UserID l = rv_UserID r \<and> lg_Type l = ''consume''"
  by (auto simp: consume_rows_def subscription_ledger_def balance_ledger_def split: if_splits)

lemma charges_change:
  assumes "change E st st'" "charges_backed st" "distinct_rows st"
  shows "charges_backed st'"
  using assms(1)
proof cases
  case (open_row r)
  with assms(2) show ?thesis by (auto simp: opened_def charges_backed_def)
next
  case (settle_row r wallet cost share)
  then obtain new where l: "db_Ledgers st' = db_Ledgers st @ new"
      "\<And>l. l \<in> set new \<Longrightarrow> lg_ReferenceID l = rv_ID r \<and> lg_UserID l = rv_UserID r"
      and rs: "db_Reservations st' = with_status (rv_ID r) ''committed'' (rv_ActualCost_update (\<lambda>_. cost)) (db_Reservations st)"
    by (auto simp: settled_def dest: consume_rows_mem)
  define r' where "r' = r\<lparr>rv_ActualCost := cost, rv_Status := ''committed''\<rparr>"
  have r': "r' \<in> set (db_Reservations st')"
    using changed_row [where g = "rv_ActualCost_update (\<lambda>_. cost)" and s = "''committed''"] settle_row(1)
    by (simp add: rs r'_def reserved_row_def)
  show ?thesis unfolding charges_backed_def
  proof (intro ballI impI)
    fix l assume a: "l \<in> set (db_Ledgers st')" "lg_Type l = ''consume''"
    from a(1) consider "l \<in> set (db_Ledgers st)" | "l \<in> set new" by (auto simp: l(1))
    then show "\<exists>r \<in> set (db_Reservations st'). rv_ID r = lg_ReferenceID l \<and> rv_UserID r = lg_UserID l \<and> rv_Status r = ''committed''"
    proof cases
      case 1
      with assms(2) a(2) obtain x where "x \<in> set (db_Reservations st)" "rv_ID x = lg_ReferenceID l"
        "rv_UserID x = lg_UserID l" "rv_Status x = ''committed''" by (auto simp: charges_backed_def)
      with kept_row [OF settle_row(1) assms(3)] show ?thesis unfolding rs by auto
    next
      case 2
      with l(2) r' show ?thesis by (intro bexI [of _ r']) (auto simp: r'_def)
    qed
  qed
next
  case (close_row r fin reason)
  then have l: "\<And>l. l \<in> set (db_Ledgers st') \<Longrightarrow> lg_Type l = ''consume'' \<Longrightarrow> l \<in> set (db_Ledgers st)"
      and rs: "db_Reservations st' = with_status (rv_ID r) fin (\<lambda>r. r) (db_Reservations st)"
    by (auto simp: closed_def release_ledger_def split: if_split_asm)
  show ?thesis unfolding charges_backed_def
  proof (intro ballI impI)
    fix l assume a: "l \<in> set (db_Ledgers st')" "lg_Type l = ''consume''"
    with l assms(2) obtain x where "x \<in> set (db_Reservations st)" "rv_ID x = lg_ReferenceID l"
      "rv_UserID x = lg_UserID l" "rv_Status x = ''committed''" by (auto simp: charges_backed_def)
    with kept_row [OF close_row(1) assms(3)]
    show "\<exists>r \<in> set (db_Reservations st'). rv_ID r = lg_ReferenceID l \<and> rv_UserID r = lg_UserID l \<and> rv_Status r = ''committed''"
      unfolding rs by auto
  qed
qed (use assms(2) in simp)

text \<open>The dedupe keys of a reservation are its own.\<close>

lemma settlement_keys_inj: "k \<in> settlement_keys n \<Longrightarrow> k \<in> settlement_keys m \<Longrightarrow> n = m"
  unfolding settlement_keys_def refund_key_of_def consume_key_def
  by (elim insertE emptyE) simp_all

lemma keys_change:
  assumes "change E st st'" "keys_backed st" "distinct_rows st"
  shows "keys_backed st'"
proof -
  have same: "keys_backed st'"
    if rs: "db_Reservations st' = with_status (rv_ID r) s g (db_Reservations st)" and r: "reserved_row r st"
      and s: "s \<noteq> ''reserved''" "\<And>r. rv_ID (g r) = rv_ID r"
      and k: "set (db_Claims st') \<subseteq> settlement_keys (rv_ID r) \<union> set (db_Claims st)" for r s g
    unfolding keys_backed_def
  proof (intro allI impI)
    fix n assume "settlement_keys n \<inter> set (db_Claims st') \<noteq> {}"
    then obtain key where key: "key \<in> settlement_keys n" "key \<in> set (db_Claims st')" by auto
    show "\<exists>r \<in> set (db_Reservations st'). rv_ID r = n \<and> rv_Status r \<noteq> ''reserved''"
    proof (cases "key \<in> set (db_Claims st)")
      case True
      with key(1) assms(2) obtain x where "x \<in> set (db_Reservations st)" "rv_ID x = n" "rv_Status x \<noteq> ''reserved''"
        unfolding keys_backed_def by blast
      with kept_row [OF r assms(3)] show ?thesis unfolding rs by blast
    next
      case False
      with key k have "n = rv_ID r" using settlement_keys_inj by blast
      moreover have "(g r)\<lparr>rv_Status := s\<rparr> \<in> set (db_Reservations st')"
        unfolding rs using r by (intro changed_row) (simp add: reserved_row_def)
      ultimately show ?thesis using s by (intro bexI [of _ "(g r)\<lparr>rv_Status := s\<rparr>"]) simp_all
    qed
  qed
  show ?thesis
    using assms(1)
  proof cases
    case (open_row r)
    with assms(2) show ?thesis by (auto simp: opened_def keys_backed_def)
  next
    case (settle_row r wallet cost share)
    then show ?thesis
      by (intro same [of r "''committed''" "rv_ActualCost_update (\<lambda>_. cost)"])
        (auto simp: settled_def settlement_keys_def)
  next
    case (close_row r fin reason)
    then show ?thesis
      by (intro same [of r fin "\<lambda>r. r"]) (auto simp: closed_def settlement_keys_def split: if_split_asm)
  qed (use assms(2) in simp)
qed

subsection \<open>What a change does to a user's wealth\<close>

lemma spent_append: "db_Ledgers st' = db_Ledgers st @ ls \<Longrightarrow> spent st' u = spent st u + (\<Sum>l\<leftarrow>ls. spent_row u l)"
  by (simp add: spent_def)

lemma spent_consume_rows:
  "0 \<le> w \<Longrightarrow> (\<Sum>l\<leftarrow>consume_rows r s w nb up t a b. spent_row u l) = (if rv_UserID r = u then w else 0)"
  by (simp add: consume_rows_def spent_row_def subscription_ledger_def balance_ledger_def)

lemma wealth_moved:
  assumes "moved u db df st st'"
  shows "(case db_Balances st' v of None \<Rightarrow> 0 | Some b \<Rightarrow> b) + db_Frozen st' v
    = (case db_Balances st v of None \<Rightarrow> 0 | Some b \<Rightarrow> b) + db_Frozen st v + (if v = u then db + df else 0)"
  using assms by (auto simp: moved_def)

lemma wealth_change:
  assumes "change E st st'"
  shows "wealth st' u = wealth st u"
  using assms
proof cases
  case (open_row r)
  then have "moved (rv_UserID r) (- held r) (held r) st st'" "db_Ledgers st' = db_Ledgers st"
    by (auto simp: opened_def)
  from wealth_moved [OF this(1)] this(2) show ?thesis by (simp add: wealth_def spent_def)
next
  case (settle_row r wallet cost share)
  then obtain nb up t a b where "moved (rv_UserID r) (held r - wallet) (- held r) st st'" "0 \<le> wallet"
      "db_Ledgers st' = db_Ledgers st @ consume_rows r share wallet nb up t a b"
    by (auto simp: settled_def)
  from wealth_moved [OF this(1)] this(2) spent_append [OF this(3)] show ?thesis
    by (simp add: wealth_def spent_consume_rows)
next
  case (close_row r fin reason)
  then have m: "moved (rv_UserID r) (held r) (- held r) st st'"
      and l: "db_Ledgers st' = db_Ledgers st
        \<or> db_Ledgers st' = db_Ledgers st @ [(release_ledger r reason)\<lparr>lg_CostSource := ''balance''\<rparr>]"
    by (auto simp: closed_def split: if_split_asm)
  from l have "spent st' u = spent st u"
    by (auto simp: spent_def spent_row_def release_ledger_def)
  with wealth_moved [OF m] show ?thesis by (simp add: wealth_def)
qed simp

end
