(* ===== verification/Refinement.thy ===== *)
theory Refinement
  imports Main
begin

text \<open>
  The interface of a component with an abstract specification: an invariant its steps keep and an
  abstraction under which a step is a step of the specification, or none.
\<close>

locale invariant_system =
  fixes cstep :: "'s \<Rightarrow> 's \<Rightarrow> bool"
    and inv :: "'s \<Rightarrow> bool"
  assumes step_inv: "inv s \<Longrightarrow> cstep s t \<Longrightarrow> inv t"
begin

lemma run_inv: "cstep\<^sup>*\<^sup>* s t \<Longrightarrow> inv s \<Longrightarrow> inv t"
  by (induction rule: rtranclp_induct) (auto intro: step_inv)

text \<open>A reflexive and transitive relation that steps keep relates the ends of a run.\<close>

lemma run_rel:
  assumes "cstep\<^sup>*\<^sup>* s t" "inv s" "\<And>a. R a a" "\<And>a b c. R a b \<Longrightarrow> R b c \<Longrightarrow> R a c"
    "\<And>a b. inv a \<Longrightarrow> cstep a b \<Longrightarrow> R a b"
  shows "R s t"
  using assms(1,2)
proof (induction rule: rtranclp_induct)
  case (step b c)
  have "inv b" using run_inv step by blast
  with step assms(4,5) show ?case by blast
qed (rule assms(3))

end

locale refinement = invariant_system cstep inv
  for cstep :: "'s \<Rightarrow> 's \<Rightarrow> bool" and inv :: "'s \<Rightarrow> bool" +
  fixes astep :: "'a \<Rightarrow> 'a \<Rightarrow> bool"
    and abst :: "'s \<Rightarrow> 'a"
  assumes step_sim: "inv s \<Longrightarrow> cstep s t \<Longrightarrow> abst t = abst s \<or> astep (abst s) (abst t)"
begin

lemma run_sim: "cstep\<^sup>*\<^sup>* s t \<Longrightarrow> inv s \<Longrightarrow> astep\<^sup>*\<^sup>* (abst s) (abst t)"
  by (rule run_rel [where R = "\<lambda>s t. astep\<^sup>*\<^sup>* (abst s) (abst t)"])
    (auto dest: step_sim intro: r_into_rtranclp)

end

end
