(* ===== verification/Reservation_Refinement.thy ===== *)
theory Reservation_Refinement
  imports Reservation_Books Refinement
begin

text \<open>
  The wallet as its users see it: money that is free, money held for a reservation, money spent. The
  reservation service refines this machine, keeps its books in order on the way, and never reopens a
  reservation that is settled or closed.
\<close>

subsection \<open>The wallet machine\<close>

record wallet =
  w_Free :: "string \<Rightarrow> int option"
  w_Held :: "string \<Rightarrow> (string \<times> int) option"
  w_Spent :: "string \<Rightarrow> int"

definition has_account :: "wallet \<Rightarrow> string \<Rightarrow> bool" where
  "has_account w u \<longleftrightarrow> w_Free w u \<noteq> None"

inductive wallet_step :: "wallet \<Rightarrow> wallet \<Rightarrow> bool" where
  hold: "w_Held w n = None \<Longrightarrow> 0 \<le> a \<Longrightarrow> a = 0 \<or> has_account w u \<and> a \<le> the (w_Free w u) \<Longrightarrow>
    wallet_step w (w\<lparr>w_Free := credit u (- a) (w_Free w), w_Held := (w_Held w)(n \<mapsto> (u, a))\<rparr>)"
| settle: "w_Held w n = Some (u, a) \<Longrightarrow> 0 \<le> c \<Longrightarrow> has_account w u \<Longrightarrow>
    wallet_step w (w\<lparr>w_Free := credit u (a - c) (w_Free w), w_Held := (w_Held w)(n := None),
      w_Spent := (w_Spent w)(u := w_Spent w u + c)\<rparr>)"
| release: "w_Held w n = Some (u, a) \<Longrightarrow> a = 0 \<or> has_account w u \<Longrightarrow>
    wallet_step w (w\<lparr>w_Free := credit u a (w_Free w), w_Held := (w_Held w)(n := None)\<rparr>)"

definition held_for :: "rstore \<Rightarrow> string \<Rightarrow> (string \<times> int) option" where
  "held_for st n = (case row_of n st of None \<Rightarrow> None
   | Some r \<Rightarrow> if rv_Status r = ''reserved'' then Some (rv_UserID r, held r) else None)"

definition wallet_of :: "rstore \<Rightarrow> wallet" where
  "wallet_of st = \<lparr>w_Free = db_Balances st, w_Held = held_for st, w_Spent = spent st\<rparr>"

subsection \<open>Each change is a step of the wallet\<close>

lemma row_of_with_status:
  assumes "db_Reservations st' = with_status m s g (db_Reservations st)" "\<And>r. rv_ID (g r) = rv_ID r"
  shows "row_of n st' = map_option (\<lambda>r. if rv_ID r = m then (g r)\<lparr>rv_Status := s\<rparr> else r) (row_of n st)"
  unfolding row_of_def assms(1) with_status_def using assms(2) by (intro find_reservation_map) simp

lemma held_for_closed:
  assumes "db_Reservations st' = with_status m s g (db_Reservations st)" "\<And>r. rv_ID (g r) = rv_ID r" "s \<noteq> ''reserved''"
  shows "held_for st' = (held_for st)(m := None)"
proof
  fix n
  have "rv_ID r = n" if "row_of n st = Some r" for r using find_reservation_Some that by (simp add: row_of_def)
  then show "held_for st' n = ((held_for st)(m := None)) n"
    using assms(3) by (auto simp: held_for_def row_of_with_status [OF assms(1,2)] split: option.splits)
qed

lemma held_for_reserved:
  assumes "reserved_row r st" "distinct_rows st"
  shows "held_for st (rv_ID r) = Some (rv_UserID r, held r)"
  using assms find_reservation_unique unfolding reserved_row_def distinct_rows_def held_for_def row_of_def by simp

lemma find_append: "find_reservation (rs @ [r]) n
    = (case find_reservation rs n of Some x \<Rightarrow> Some x | None \<Rightarrow> if rv_ID r = n then Some r else None)"
  by (induction rs) (auto simp: find_reservation_def)

lemma held_for_opened:
  assumes "db_Reservations st' = db_Reservations st @ [r]" "rv_Status r = ''reserved''" "row_of (rv_ID r) st = None"
  shows "held_for st' = (held_for st)(rv_ID r \<mapsto> (rv_UserID r, held r))"
  using assms by (auto simp: fun_eq_iff held_for_def row_of_def find_append split: option.splits)

lemma change_sim:
  assumes "change E st st'" "distinct_rows st"
  shows "wallet_of st' = wallet_of st \<or> wallet_step (wallet_of st) (wallet_of st')"
  using assms(1)
proof cases
  case (open_row r)
  then have m: "moved (rv_UserID r) (- held r) (held r) st st'" "db_Ledgers st' = db_Ledgers st"
      and r: "rv_Status r = ''reserved''" "db_Reservations st' = db_Reservations st @ [r]"
      and c: "\<not> list_ex (key_clash r) (db_Reservations st)"
      and a: "0 < held r \<longrightarrow> held r \<le> the (db_Balances st (rv_UserID r))" by (auto simp: opened_def)
  have n: "row_of (rv_ID r) st = None"
    using c unfolding row_of_def find_reservation_None by (auto simp: list_ex_iff key_clash_def)
  have h: "held r = 0 \<or> has_account (wallet_of st) (rv_UserID r)"
    using m(1) by (auto simp: moved_def has_account_def wallet_of_def)
  have "wallet_step (wallet_of st) (wallet_of st\<lparr>w_Free := credit (rv_UserID r) (- held r) (w_Free (wallet_of st)),
      w_Held := (w_Held (wallet_of st))(rv_ID r \<mapsto> (rv_UserID r, held r))\<rparr>)"
    using n a h by (intro wallet_step.hold) (auto simp: wallet_of_def held_for_def held_def)
  moreover have "wallet_of st' = wallet_of st\<lparr>w_Free := credit (rv_UserID r) (- held r) (w_Free (wallet_of st)),
      w_Held := (w_Held (wallet_of st))(rv_ID r \<mapsto> (rv_UserID r, held r))\<rparr>"
    by (simp add: wallet_of_def moved_credit [OF m(1)] held_for_opened [OF r(2,1) n] spent_def [abs_def] m(2))
  ultimately show ?thesis by simp
next
  case (settle_row r wallet cost share)
  then obtain nb up t au b bal where m: "moved (rv_UserID r) (held r - wallet) (- held r) st st'" "0 \<le> wallet"
      and l: "db_Ledgers st' = db_Ledgers st @ consume_rows r share wallet nb up t au b"
      and rs: "db_Reservations st' = with_status (rv_ID r) ''committed'' (rv_ActualCost_update (\<lambda>_. cost)) (db_Reservations st)"
      and acc: "db_Balances st (rv_UserID r) = Some bal" by (auto simp: settled_def)
  have "spent st' = (spent st)(rv_UserID r := spent st (rv_UserID r) + wallet)"
    by (rule ext) (simp add: spent_append [OF l] spent_consume_rows [OF m(2)])
  then have "wallet_of st' = wallet_of st\<lparr>w_Free := credit (rv_UserID r) (held r - wallet) (w_Free (wallet_of st)),
      w_Held := (w_Held (wallet_of st))(rv_ID r := None),
      w_Spent := (w_Spent (wallet_of st))(rv_UserID r := w_Spent (wallet_of st) (rv_UserID r) + wallet)\<rparr>"
    by (simp add: wallet_of_def moved_credit [OF m(1)] held_for_closed [OF rs])
  moreover have "wallet_step (wallet_of st) \<dots>"
    using held_for_reserved [OF settle_row(1) assms(2)] m(2) acc
    by (intro wallet_step.settle) (simp_all add: wallet_of_def has_account_def)
  ultimately show ?thesis by simp
next
  case (close_row r fin reason)
  then have m: "moved (rv_UserID r) (held r) (- held r) st st'" "fin \<noteq> ''reserved''"
      and rs: "db_Reservations st' = with_status (rv_ID r) fin (\<lambda>r. r) (db_Reservations st)"
      and l: "db_Ledgers st' = db_Ledgers st
        \<or> db_Ledgers st' = db_Ledgers st @ [(release_ledger r reason)\<lparr>lg_CostSource := ''balance''\<rparr>]"
    by (auto simp: closed_def split: if_split_asm)
  have s: "spent st' = spent st"
    using l by (auto simp: fun_eq_iff spent_def spent_row_def release_ledger_def)
  have h: "held r = 0 \<or> has_account (wallet_of st) (rv_UserID r)"
    using m(1) by (auto simp: moved_def has_account_def wallet_of_def)
  have "wallet_of st' = wallet_of st\<lparr>w_Free := credit (rv_UserID r) (held r) (w_Free (wallet_of st)),
      w_Held := (w_Held (wallet_of st))(rv_ID r := None)\<rparr>"
    by (simp add: wallet_of_def moved_credit [OF m(1)] held_for_closed [OF rs _ m(2)] s)
  moreover have "wallet_step (wallet_of st) \<dots>"
    using held_for_reserved [OF close_row(1) assms(2)] h by (intro wallet_step.release) (simp add: wallet_of_def)
  ultimately show ?thesis by simp
qed simp

subsection \<open>The service as a refinement\<close>

lemma rows_distinct: "rows_typed st \<Longrightarrow> distinct_rows st"
  by (simp add: rows_typed_def)

lemma step_rows: "rows_typed st \<Longrightarrow> some_step C st st' \<Longrightarrow> rows_typed st'"
  unfolding some_step_def using step_change rows_change rows_distinct by blast

lemma step_books: "books_ok st \<Longrightarrow> some_step C st st' \<Longrightarrow> books_ok st'"
  unfolding some_step_def books_ok_def
  using step_change rows_change frozen_change charges_change keys_change rows_distinct by blast

interpretation rows: invariant_system "some_step C" rows_typed for C
  by unfold_locales (rule step_rows)

interpretation service: refinement "some_step C" books_ok wallet_step wallet_of for C
proof unfold_locales
  fix s t
  assume b: "books_ok s"
  then have d: "distinct_rows s" by (simp add: books_ok_def rows_typed_def)
  assume st: "some_step C s t"
  show "books_ok t" using b st by (rule step_books)
  show "wallet_of t = wallet_of s \<or> wallet_step (wallet_of s) (wallet_of t)"
    using st step_change change_sim d unfolding some_step_def by blast
qed

end
