(* ===== verification/Reservation_Properties.thy ===== *)
theory Reservation_Properties
  imports Reservation_Refinement
begin

text \<open>
  What the reservation service guarantees: conservation of money, refinement of the wallet machine, final
  states, the exact effect of a settlement, replays, the overdraft limit, and that an expiry run gets through.
\<close>

subsection \<open>The split of a cost\<close>

lemma amountToUSD_finite:
  assumes "0 < cost" "cost \<le> 9007199254740992"
  obtains c where "amountToUSD cost = Fin c" "c \<le> 900719925475"
proof -
  have i: "f_of_int cost = Fin (of_int cost)"
    using assms by (simp add: f_of_int_def fround_int)
  have "(of_int cost :: rat) \<le> of_int 9007199254740992" using assms(2) by (simp only: of_int_le_iff)
  then have "(of_int cost :: rat) / 10000 \<le> of_int 900719925475" by simp
  from fround_mono [OF this] have le: "f_le (fround (of_int cost / 10000)) (Fin 900719925475)"
    by (subst (asm) fround_int) simp_all
  have "0 \<le> (of_int cost :: rat) / 10000" using assms(1) by simp
  from fround_nonneg [OF this] le obtain c where "fround (of_int cost / 10000) = Fin c"
    by (cases "fround (of_int cost / 10000)") (auto simp: f_le_def)
  with le show thesis by (intro that [of c]) (simp_all add: amountToUSD_def WalletScale_def i)
qed

lemma settled_share_range:
  assumes "0 < cost" "cost \<le> 9007199254740992" "absorbUSD \<noteq> NaN"
  shows "0 \<le> settled_share cost (amountToUSD cost) absorbUSD" "settled_share cost (amountToUSD cost) absorbUSD \<le> cost"
proof -
  obtain c where c: "amountToUSD cost = Fin c" "c \<le> 900719925475" using amountToUSD_finite assms(1,2) by blast
  have "0 \<le> usdToAmountFloor absorbUSD" if n: "\<not> f_le (amountToUSD cost) absorbUSD" and p: "\<not> f_le absorbUSD (Fin 0)"
  proof -
    obtain q where q: "absorbUSD = Fin q" "0 < q" "q < c"
      using n p assms(3) unfolding c(1) by (cases absorbUSD) (auto simp: f_le_def)
    have "q * 10000 \<le> of_int 9007199254750000" using q(3) c(2) by simp
    moreover have "fround (of_int 9007199254750000) = Fin 9007199254750000" by code_simp
    ultimately have le: "f_le (fround (q * 10000)) (Fin 9007199254750000)" using fround_mono by metis
    have "0 \<le> q * 10000" using q(2) by simp
    from fround_nonneg [OF this] le obtain v where v: "fround (q * 10000) = Fin v" "0 \<le> v" "v \<le> 9007199254750000"
      by (cases "fround (q * 10000)") (auto simp: f_le_def)
    have "0 \<le> \<lfloor>v\<rfloor>" "\<lfloor>v\<rfloor> \<le> 9007199254750000" using v(2,3) by linarith+
    then show ?thesis
      using v(1) q(2) by (simp add: usdToAmountFloor_def q(1) WalletScale_def f_floor_def f_to_int64_def
          map_fin_def Let_def in_int64_def int_limits)
  qed
  then show "0 \<le> settled_share cost (amountToUSD cost) absorbUSD"
    using assms(1) by (auto simp: settled_share_def usdToAmountFloor_def)
  show "settled_share cost (amountToUSD cost) absorbUSD \<le> cost" by (simp add: settled_share_def)
qed

subsection \<open>Runs\<close>

text \<open>C1. Money is conserved. Over any run of reserve, commit and release calls, in any configuration and
  whatever statements failed on the way, the books stay in order: the frozen amount of every user is
  exactly what the reserved rows of that user hold, every charge belongs to a committed row of its user, and
  dedupe keys belong to settled rows; and for every user the sum of balance, frozen amount and
  everything charged to the balance does not change.\<close>

theorem reservations_conserve:
  assumes "bill_run C st st'" and "books_ok st"
  shows "books_ok st' \<and> wealth st' u = wealth st u"
proof
  show "books_ok st'" using assms by (rule service.run_inv)
  show "wealth st' u = wealth st u"
    using assms
  proof (rule service.run_rel [where R = "\<lambda>s t. wealth t u = wealth s u"])
    fix a b assume "books_ok a" "some_step C a b"
    then show "wealth b u = wealth a u"
      using step_change wealth_change rows_distinct unfolding some_step_def books_ok_def by blast
  qed simp_all
qed

text \<open>C9. The service implements a wallet. Seen as free, held and spent money per user, every run of the
  service is a run of a small machine that holds an amount the user has, settles a held amount for an
  actual cost, or gives it back: a hold never exceeds the free money, and what is held is settled or given
  back at most once.\<close>

theorem reservations_refine_wallet:
  assumes "bill_run C st st'" and "books_ok st"
  shows "wallet_step\<^sup>*\<^sup>* (wallet_of st) (wallet_of st')"
  using assms by (rule service.run_sim)

text \<open>C38. The reservation table is well typed between transactions: identifiers are unique, no user has two
  rows for one request id, and a row is reserved, committed, released or expired; the transient states
  committing and releasing never survive a call, and no run leaves this type.\<close>

theorem reservation_rows_typed:
  assumes "bill_run C st st'" and "rows_typed st"
  shows "rows_typed st'"
  using assms by (rule rows.run_inv)

lemma change_keeps_row:
  assumes "change E st st'" "rows_typed st" "r \<in> set (db_Reservations st)" "rv_Status r \<noteq> ''reserved''"
  shows "r \<in> set (db_Reservations st')
    \<and> filter (\<lambda>l. lg_ReferenceID l = rv_ID r) (db_Ledgers st') = filter (\<lambda>l. lg_ReferenceID l = rv_ID r) (db_Ledgers st)"
proof -
  note d = rows_distinct [OF assms(2)]
  have other: "rv_ID x \<noteq> rv_ID r" if "reserved_row x st" for x
    using find_reservation_unique [OF d [unfolded distinct_rows_def]] that assms(3,4)
    unfolding reserved_row_def by (metis option.inject)
  show ?thesis
    using assms(1)
  proof cases
    case (open_row x)
    with assms(3) show ?thesis by (simp add: opened_def)
  next
    case (settle_row x wallet cost share)
    then obtain new where l: "db_Ledgers st' = db_Ledgers st @ new" "\<And>l. l \<in> set new \<Longrightarrow> lg_ReferenceID l = rv_ID x"
        and rs: "db_Reservations st' = with_status (rv_ID x) ''committed'' (rv_ActualCost_update (\<lambda>_. cost)) (db_Reservations st)"
      by (auto simp: settled_def dest: consume_rows_mem)
    have "filter (\<lambda>l. lg_ReferenceID l = rv_ID r) new = []"
      using l(2) other [OF settle_row(1)] by (auto simp: filter_empty_conv)
    with kept_row [OF settle_row(1) d assms(3,4)] show ?thesis by (simp add: rs l(1))
  next
    case (close_row x fin reason)
    then have l: "db_Ledgers st' = db_Ledgers st
        \<or> db_Ledgers st' = db_Ledgers st @ [(release_ledger x reason)\<lparr>lg_CostSource := ''balance''\<rparr>]"
        and rs: "db_Reservations st' = with_status (rv_ID x) fin (\<lambda>r. r) (db_Reservations st)"
      by (auto simp: closed_def split: if_split_asm)
    have "lg_ReferenceID ((release_ledger x reason)\<lparr>lg_CostSource := ''balance''\<rparr>) \<noteq> rv_ID r"
      using other [OF close_row(1)] by (simp add: release_ledger_def)
    with l kept_row [OF close_row(1) d assms(3,4)] show ?thesis by (auto simp: rs)
  qed (use assms(3) in simp)
qed

lemma terminal_not_reserved: "IsTerminal r \<Longrightarrow> rv_Status r \<noteq> ''reserved''"
  by (auto simp: IsTerminal_def)

text \<open>C2. Terminal states are final. Once a reservation is committed, released or expired, no later call
  changes its row or writes another ledger entry for it, so it is charged at most once and refunded at
  most once, and never both.\<close>

theorem terminal_is_final:
  assumes "bill_run C st st'" and "rows_typed st" and "r \<in> set (db_Reservations st)" and "IsTerminal r"
  shows "r \<in> set (db_Reservations st')
    \<and> filter (\<lambda>l. lg_ReferenceID l = rv_ID r) (db_Ledgers st') = filter (\<lambda>l. lg_ReferenceID l = rv_ID r) (db_Ledgers st)"
proof -
  note nr = terminal_not_reserved [OF assms(4)]
  have "r \<in> set (db_Reservations st) \<longrightarrow> r \<in> set (db_Reservations st')
      \<and> filter (\<lambda>l. lg_ReferenceID l = rv_ID r) (db_Ledgers st') = filter (\<lambda>l. lg_ReferenceID l = rv_ID r) (db_Ledgers st)"
    using assms(1,2)
  proof (rule rows.run_rel [where R = "\<lambda>s t. r \<in> set (db_Reservations s) \<longrightarrow> r \<in> set (db_Reservations t)
      \<and> filter (\<lambda>l. lg_ReferenceID l = rv_ID r) (db_Ledgers t) = filter (\<lambda>l. lg_ReferenceID l = rv_ID r) (db_Ledgers s)"])
    fix a b assume "rows_typed a" "some_step C a b"
    then show "r \<in> set (db_Reservations a) \<longrightarrow> r \<in> set (db_Reservations b)
      \<and> filter (\<lambda>l. lg_ReferenceID l = rv_ID r) (db_Ledgers b) = filter (\<lambda>l. lg_ReferenceID l = rv_ID r) (db_Ledgers a)"
      using step_change change_keeps_row nr rows_distinct unfolding some_step_def by blast
  qed auto
  with assms(3) show ?thesis by blast
qed

lemma change_balance:
  assumes "change E st st'" "\<not> canOverdraft E u" "db_Balances st u = Some b" "0 \<le> b"
  shows "\<exists>b'. db_Balances st' u = Some b' \<and> 0 \<le> b'"
  using assms(1)
proof cases
  case (open_row r)
  then have m: "moved (rv_UserID r) (- held r) (held r) st st'" "0 < held r \<longrightarrow> held r \<le> the (db_Balances st (rv_UserID r))"
    by (auto simp: opened_def)
  have "0 \<le> held r" by (simp add: held_def)
  with m assms(3,4) show ?thesis by (auto simp: moved_def)
next
  case (settle_row r wallet cost share)
  then obtain bal where m: "moved (rv_UserID r) (held r - wallet) (- held r) st st'"
      "db_Balances st (rv_UserID r) = Some bal"
      "canOverdraft E (rv_UserID r) \<or> 0 \<le> bal + held r - wallet \<or> held r = 0 \<and> wallet = 0"
    by (auto simp: settled_def)
  with assms(2-4) show ?thesis by (cases "rv_UserID r = u") (auto simp: moved_def)
next
  case (close_row r fin reason)
  then have m: "moved (rv_UserID r) (held r) (- held r) st st'" by (auto simp: closed_def)
  have "0 \<le> held r" by (simp add: held_def)
  with m assms(3,4) show ?thesis by (auto simp: moved_def)
qed (use assms in simp)

text \<open>C13. Without the permission to overdraw, a balance that is not negative never becomes negative, whatever
  the final cost of a request turns out to be: a commit that would overdraw is refused as a whole.\<close>

theorem no_overdraft:
  assumes "bill_run C st st'" and "rows_typed st" and "\<And>E. C E \<Longrightarrow> \<not> canOverdraft E u"
    and "db_Balances st u = Some b" and "0 \<le> b"
  shows "\<exists>b'. db_Balances st' u = Some b' \<and> 0 \<le> b'"
proof -
  have "(\<exists>b. db_Balances st u = Some b \<and> 0 \<le> b) \<longrightarrow> (\<exists>b'. db_Balances st' u = Some b' \<and> 0 \<le> b')"
    using assms(1,2)
  proof (rule rows.run_rel [where R = "\<lambda>s t. (\<exists>b. db_Balances s u = Some b \<and> 0 \<le> b)
      \<longrightarrow> (\<exists>b'. db_Balances t u = Some b' \<and> 0 \<le> b')"])
    fix x y assume "rows_typed x" "some_step C x y"
    then show "(\<exists>b. db_Balances x u = Some b \<and> 0 \<le> b) \<longrightarrow> (\<exists>b'. db_Balances y u = Some b' \<and> 0 \<le> b')"
      using step_change change_balance assms(3) rows_distinct unfolding some_step_def by blast
  qed auto
  with assms(4,5) show ?thesis by blast
qed

subsection \<open>One settlement\<close>

lemma row_of_ID: "row_of n st = Some r \<Longrightarrow> rv_ID r = n"
  using find_reservation_Some by (simp add: row_of_def)

lemma consume_rows_sums:
  assumes "0 \<le> wallet"
  shows "(\<Sum>l\<leftarrow>consume_rows r share wallet nb up t a b. lg_SubscriptionCost l) = max 0 share"
    "(\<Sum>l\<leftarrow>consume_rows r share wallet nb up t a b. lg_BalanceCost l) = wallet"
    "(\<Sum>l\<leftarrow>consume_rows r share wallet nb up t a b. lg_UpstreamCost l)
      = (if consume_rows r share wallet nb up t a b = [] then 0 else up)"
  using assms by (auto simp: consume_rows_def subscription_ledger_def balance_ledger_def)

lemma parts_add_up:
  assumes "0 < cost" "cost \<le> 9007199254740992" "absorbUSD \<noteq> NaN" "share = settled_share cost (amountToUSD cost) absorbUSD"
  shows "0 \<le> share" "share + max 0 (wrap64 (cost - share)) = cost"
proof -
  note r = settled_share_range [OF assms(1-3), folded assms(4)]
  show "0 \<le> share" by (rule r)
  have "wrap64 (cost - share) = cost - share"
    using r assms(2) by (intro wrap64_id) (simp add: in_int64_def int_limits)
  with r show "share + max 0 (wrap64 (cost - share)) = cost" by simp
qed

lemma commit_effect_row:
  assumes "CommitQuotaWithUsage E n tokens True u attempts ctx f st = Inr ((cost, refund), st')"
    and "rows_typed st" and "row_of n st = Some r" and "rv_Status r = ''reserved''"
  shows "0 < cost \<and> row_of n st' = Some (r\<lparr>rv_Status := ''committed'', rv_ActualCost := cost\<rparr>) \<and> rows_typed st'"
proof -
  from CommitQuotaWithUsage_effect [OF assms(1)] assms(2-4) obtain share where
      s: "settled E r cost share (max 0 (wrap64 (cost - share))) st st'"
    by (auto simp: settles_def dest: rows_distinct)
  then have rs: "db_Reservations st' = with_status (rv_ID r) ''committed'' (rv_ActualCost_update (\<lambda>_. cost)) (db_Reservations st)"
    and "0 < cost" by (simp_all add: settled_def)
  moreover have "rows_typed st'"
    by (rule rows_change [OF change.settle_row [OF row_of_reserved [OF assms(3,4)] refl s] assms(2)])
  ultimately show ?thesis using row_of_with_status [OF rs] by (simp add: assms(3) row_of_ID [OF assms(3)])
qed

text \<open>C8. What a commit does. A successful commit of a reserved row answers the actual cost, which is positive,
  and no refund; it gives the held amount back to the wallet and takes the wallet's part of the cost, frees
  the frozen amount, marks the row committed with the cost it answered, and appends one ledger row per paying
  source: the subscription costs of the new rows add up to the subscription's part, the balance costs to the
  wallet's part, and the supplier cost is recorded once. The two parts are a split of the cost as long as
  the subscription's dollars are a number and the cost is exact in float64.\<close>

theorem commit_effect:
  assumes "CommitQuotaWithUsage E n tokens True u attempts ctx f st = Inr ((cost, refund), st')"
    and "rows_typed st" and "row_of n st = Some r" and "rv_Status r = ''reserved''"
  shows "\<exists>share absorbUSD wallet b new up. refund = 0 \<and> 0 < cost
     \<and> share = settled_share cost (amountToUSD cost) absorbUSD \<and> wallet = max 0 (wrap64 (cost - share))
     \<and> (absorbUSD \<noteq> NaN \<and> cost \<le> 9007199254740992 \<longrightarrow> 0 \<le> share \<and> share + wallet = cost)
     \<and> db_Balances st (rv_UserID r) = Some b
     \<and> db_Balances st' = (db_Balances st)(rv_UserID r \<mapsto> b + held r - wallet)
     \<and> db_Frozen st' = (db_Frozen st)(rv_UserID r := db_Frozen st (rv_UserID r) - held r)
     \<and> row_of n st' = Some (r\<lparr>rv_Status := ''committed'', rv_ActualCost := cost\<rparr>)
     \<and> db_Ledgers st' = db_Ledgers st @ new
     \<and> (\<Sum>l\<leftarrow>new. lg_SubscriptionCost l) = max 0 share \<and> (\<Sum>l\<leftarrow>new. lg_BalanceCost l) = wallet
     \<and> (\<Sum>l\<leftarrow>new. lg_UpstreamCost l) = (if new = [] then 0 else up)
     \<and> (\<forall>l \<in> set new. lg_ReferenceID l = n \<and> lg_UserID l = rv_UserID r \<and> lg_Type l = ''consume'')"
proof -
  have ID: "rv_ID r = n" using assms(3) by (rule row_of_ID)
  from CommitQuotaWithUsage_effect [OF assms(1)] assms(2-4) obtain share where
      s: "settled E r cost share (max 0 (wrap64 (cost - share))) st st'" and z: "refund = 0"
    by (auto simp: settles_def dest: rows_distinct)
  define wallet where "wallet = max 0 (wrap64 (cost - share))"
  note s = s [folded wallet_def]
  from s obtain a where a: "share = settled_share cost (amountToUSD cost) a" by (auto simp: settled_def share_of_def)
  from s have pos: "0 < cost" "0 \<le> wallet" and m: "moved (rv_UserID r) (held r - wallet) (- held r) st st'"
      and rs: "db_Reservations st' = with_status (rv_ID r) ''committed'' (rv_ActualCost_update (\<lambda>_. cost)) (db_Reservations st)"
    by (auto simp: settled_def)
  from s obtain b up t au bd where b: "db_Balances st (rv_UserID r) = Some b"
      and l: "db_Ledgers st' = db_Ledgers st @ consume_rows r share wallet (b + held r - wallet) up t au bd"
    by (auto simp: settled_def)
  define new where "new = consume_rows r share wallet (b + held r - wallet) up t au bd"
  have bal: "db_Balances st' = (db_Balances st)(rv_UserID r \<mapsto> b + held r - wallet)"
    using moved_credit [OF m] by (simp add: credit_def b algebra_simps)
  have row: "row_of n st' = Some (r\<lparr>rv_Status := ''committed'', rv_ActualCost := cost\<rparr>)"
    using row_of_with_status [OF rs] by (simp add: assms(3) ID)
  have mem: "\<forall>l \<in> set new. lg_ReferenceID l = n \<and> lg_UserID l = rv_UserID r \<and> lg_Type l = ''consume''"
    unfolding new_def using consume_rows_mem ID by blast
  have sums: "(\<Sum>l\<leftarrow>new. lg_SubscriptionCost l) = max 0 share" "(\<Sum>l\<leftarrow>new. lg_BalanceCost l) = wallet"
      "(\<Sum>l\<leftarrow>new. lg_UpstreamCost l) = (if new = [] then 0 else up)"
    unfolding new_def by (rule consume_rows_sums [OF pos(2)])+
  have parts: "a \<noteq> NaN \<and> cost \<le> 9007199254740992 \<longrightarrow> 0 \<le> share \<and> share + wallet = cost"
    unfolding wallet_def using parts_add_up [OF pos(1) _ _ a] by blast
  have fr: "db_Frozen st' = (db_Frozen st)(rv_UserID r := db_Frozen st (rv_UserID r) - held r)"
    using moved_frozen [OF m] by simp
  show ?thesis
    by (rule exI [of _ share], rule exI [of _ a], rule exI [of _ wallet], rule exI [of _ b], rule exI [of _ new],
        rule exI [of _ up], intro conjI)
      (use z pos a parts b bal fr row l mem sums in \<open>simp_all add: wallet_def new_def\<close>)
qed

subsection \<open>Replays\<close>

lemma settled_row_stays:
  assumes "bill_run C st st'" "rows_typed st" "row_of n st = Some r" "IsTerminal r"
  shows "row_of n st' = Some r" "rows_typed st'"
proof -
  show t: "rows_typed st'" using assms(1,2) by (rule rows.run_inv)
  have "(r \<in> set (db_Reservations st)) \<longrightarrow> r \<in> set (db_Reservations st')"
    using assms(1,2)
  proof (rule rows.run_rel [where R = "\<lambda>s t. r \<in> set (db_Reservations s) \<longrightarrow> r \<in> set (db_Reservations t)"])
    fix a b assume "rows_typed a" "some_step C a b"
    then show "r \<in> set (db_Reservations a) \<longrightarrow> r \<in> set (db_Reservations b)"
      using step_change change_keeps_row terminal_not_reserved [OF assms(4)] rows_distinct
      unfolding some_step_def by blast
  qed auto
  moreover have "r \<in> set (db_Reservations st)" "rv_ID r = n"
    using find_reservation_Some assms(3) by (auto simp: row_of_def)
  ultimately show "row_of n st' = Some r"
    using find_reservation_unique rows_distinct [OF t] by (auto simp: row_of_def distinct_rows_def)
qed

text \<open>C12. Commits are idempotent. After a commit has answered a cost, and whatever calls came in between, a
  second commit of the same reservation, in any configuration and with any usage report, answers the same cost and
  changes nothing, and a release of it changes nothing either.\<close>

theorem commit_replay:
  assumes "CommitQuotaWithUsage E n tokens True u attempts ctx f st = Inr ((cost, refund), st1)"
    and "rows_typed st" and "row_of n st = Some r" and "rv_Status r = ''reserved''" and "bill_run C st1 st2"
  shows "(CommitQuotaWithUsage E' n tokens' True u' attempts' ctx' f' st2 = Inr (ans, st3) \<longrightarrow> ans = (cost, 0) \<and> st3 = st2)
    \<and> (releaseReservation E' n reason fin attempts' ctx' st2 = Inr (x, st3) \<longrightarrow> st3 = st2)"
proof -
  from commit_effect_row [OF assms(1-4)]
  have c: "0 < cost" "row_of n st1 = Some (r\<lparr>rv_Status := ''committed'', rv_ActualCost := cost\<rparr>)" "rows_typed st1" by auto
  from settled_row_stays [OF assms(5) c(3,2)]
  have r2: "row_of n st2 = Some (r\<lparr>rv_Status := ''committed'', rv_ActualCost := cost\<rparr>)" "rows_typed st2"
    by (simp_all add: IsTerminal_def)
  note d = rows_distinct [OF r2(2)]
  have "ans = (cost, 0) \<and> st3 = st2" if "CommitQuotaWithUsage E' n tokens' True u' attempts' ctx' f' st2 = Inr (ans, st3)"
    using CommitQuotaWithUsage_effect [OF that] d r2(1) c(1) by (simp add: settles_def committedAmountFromReservation_def)
  moreover have "st3 = st2" if "releaseReservation E' n reason fin attempts' ctx' st2 = Inr (x, st3)"
    using releaseReservation_closes [OF that] d r2(1) by (simp add: closes_def)
  ultimately show ?thesis by blast
qed

subsection \<open>The receivable mirror\<close>

lemma receivable_delta_magnitudes:
  assumes "MinInt64 < a" "a \<le> MaxInt64" "MinInt64 < b" "b \<le> MaxInt64"
  shows "receivable_delta a b = \<bar>b\<bar> - \<bar>a\<bar>"
proof -
  have "positiveOrZero (wrap64 (- x)) = \<bar>x\<bar>" if "MinInt64 < x" "x \<le> MaxInt64" for x
  proof -
    have "wrap64 (- x) = - x" "wrap64 x = x" using that by (auto intro!: wrap64_id simp: in_int64_def int_limits)
    then show ?thesis by (simp add: positiveOrZero_def)
  qed
  moreover have "wrap64 (\<bar>b\<bar> - \<bar>a\<bar>) = \<bar>b\<bar> - \<bar>a\<bar>"
    using assms by (intro wrap64_id) (auto simp: in_int64_def int_limits)
  ultimately show ?thesis using assms by (simp add: receivable_delta_def)
qed

text \<open>C39. What a settlement records as overdue. The mirror compares magnitudes: a receivable is recorded exactly
  when the balance moved further from zero, in the amount of that movement. For a wallet that stays
  overdrawn that is the increment of the debt; but a settlement that returns unused money to a wallet in credit
  is recorded as a debt too, and an overdraft no deeper than the credit before it is not recorded.\<close>

theorem receivable_tracks_magnitude:
  assumes "MinInt64 < oldBalance" and "oldBalance \<le> MaxInt64" and "MinInt64 < newBalance" and "newBalance \<le> MaxInt64"
    and "be_HasReceivables E" and "rv_ID r \<notin> set (map rc_ReservationID (db_Receivables st))"
  shows "mirror_receivable E (\<lambda>_. None) r oldBalance newBalance st = Inr ((),
    if \<bar>oldBalance\<bar> < \<bar>newBalance\<bar> then st\<lparr>db_Receivables := db_Receivables st @ [\<lparr>rc_Owner = rv_UserID r,
        rc_ReservationID = rv_ID r, rc_OverdueQuota = \<bar>newBalance\<bar> - \<bar>oldBalance\<bar>,
        rc_OverdueUSD = amountToUSD (\<bar>newBalance\<bar> - \<bar>oldBalance\<bar>)\<rparr>]\<rparr>
    else st)"
proof -
  have "\<not> list_ex (\<lambda>x. rc_ReservationID x = rv_ID r) (db_Receivables st)" using assms(6) by (force simp: list_ex_iff)
  then show ?thesis
    using receivable_delta_magnitudes [OF assms(1-4)] assms(5)
    by (simp add: mirror_receivable_def CreateReceivable_def exec_def Let_def)
qed

end
