(* ===== verification/Reservation_Progress.thy ===== *)
theory Reservation_Progress
  imports Reservation_Properties
begin

text \<open>
  Progress: a release that is not disturbed goes through, and the cleanup job therefore expires every
  reservation that is due, whatever happened to the others in its list.
\<close>

definition calm :: "auth_ctx \<Rightarrow> (world \<times> faults) list \<Rightarrow> bool" where
  "calm ctx attempts = (case attempts of [] \<Rightarrow> False
   | (w, f) # _ \<Rightarrow> snd (Refresh w ctx) = None \<and> f = (\<lambda>_. None))"

text \<open>The account of a reservation exists, and giving the held amount back stays in range.\<close>

definition refundable :: "reservation \<Rightarrow> rstore \<Rightarrow> bool" where
  "refundable r st \<longleftrightarrow> (case db_Balances st (rv_UserID r) of None \<Rightarrow> False
   | Some b \<Rightarrow> in_int64 (b + held r) \<and> in_int64 (db_Frozen st (rv_UserID r) - held r))"

lemma exec_calm [simp]: "exec (\<lambda>_. None) s upd st = Inr ((), upd st)"
  by (simp add: exec_def)

lemma again_calm [simp]: "again (\<lambda>_. None) = (\<lambda>_. None)"
  by (simp add: again_def fun_eq_iff)

lemma key_free:
  assumes "books_ok st" "row_of n st = Some r" "rv_Status r = ''reserved''"
  shows "refund_key_of n \<notin> set (db_Claims st)"
proof
  assume "refund_key_of n \<in> set (db_Claims st)"
  then have "settlement_keys n \<inter> set (db_Claims st) \<noteq> {}" by (auto simp: settlement_keys_def)
  with assms(1) obtain x where x: "x \<in> set (db_Reservations st)" "rv_ID x = n" "rv_Status x \<noteq> ''reserved''"
    unfolding books_ok_def keys_backed_def by blast
  have "distinct (map rv_ID (db_Reservations st))"
    using assms(1) by (simp add: books_ok_def rows_typed_def distinct_rows_def)
  from find_reservation_unique [OF this x(1)] x(2,3) assms(2,3) show False by (simp add: row_of_def)
qed

lemma release_won_calm:
  assumes "books_ok st" "row_of n st = Some r" "rv_Status r = ''reserved''" "refundable r st"
    and st1: "st1 = st\<lparr>db_Reservations := set_status n ''reserved'' ''releasing'' (db_Reservations st)\<rparr>"
  shows "\<exists>st'. release_won E (\<lambda>_. None) n reason fin st1 = Inr ((), st')"
proof -
  have d: "distinct (map rv_ID (db_Reservations st))"
    using assms(1) by (simp add: books_ok_def rows_typed_def distinct_rows_def)
  note unique = d assms(2) [unfolded row_of_def]
  have ID: "rv_ID r = n" using assms(2) by (rule row_of_ID)
  define r1 where "r1 = r\<lparr>rv_Status := ''releasing''\<rparr>"
  have rs: "db_Reservations st1 = map (\<lambda>r. if rv_ID r = n then r\<lparr>rv_Status := ''releasing''\<rparr> else r) (db_Reservations st)"
    using set_status_unique [OF unique assms(3)] by (simp add: st1)
  have f1: "find_reservation (db_Reservations st1) n = Some r1"
    using unique(2) ID by (simp add: rs find_reservation_map r1_def)
  have d1: "distinct (map rv_ID (db_Reservations st1))" unfolding rs map_IDs by (rule d)
  have won: "list_ex (\<lambda>r. rv_ID r = n \<and> rv_Status r = ''releasing'') (db_Reservations st1)"
    using list_ex_status [OF d1] f1 by (simp add: r1_def)
  have cas: "CASReservationStatus (\<lambda>_. None) n ''releasing'' fin st2
      = Inr (True, st2\<lparr>db_Reservations := set_status n ''releasing'' fin (db_Reservations st2)\<rparr>)"
    if "db_Reservations st2 = db_Reservations st1" for st2
    using won that by (simp add: CASReservationStatus_exact)
  have get: "GetReservationInTx (again (\<lambda>_. None)) n st1 = Inr (r1, st1)"
    by (simp add: GetReservationInTx_read f1)
  show ?thesis
  proof (cases "rv_BalanceAmount r > 0")
    case False
    then show ?thesis unfolding release_won_def get by (simp add: cas r1_def)
  next
    case True
    have h: "held r = rv_BalanceAmount r" using True by (simp add: held_def)
    from assms(4) obtain b where b: "db_Balances st (rv_UserID r) = Some b" "in_int64 (b + rv_BalanceAmount r)"
        "in_int64 (db_Frozen st (rv_UserID r) - rv_BalanceAmount r)"
      by (auto simp: refundable_def h split: option.splits)
    define st2 where "st2 = st1\<lparr>db_Balances := (db_Balances st1)(rv_UserID r \<mapsto> b + rv_BalanceAmount r),
      db_Frozen := (db_Frozen st1)(rv_UserID r := db_Frozen st1 (rv_UserID r) + - rv_BalanceAmount r)\<rparr>"
    have rel: "ReleaseBalanceInTx (\<lambda>_. None) (rv_UserID r) (rv_BalanceAmount r) st1
        = Inr (b + rv_BalanceAmount r, st2)"
      using True b by (simp add: ReleaseBalanceInTx_def update_account_def getAccountForUpdate_def st2_def st1)
    have key: "lg_DedupeKey (release_ledger r reason) = refund_key_of n" "refund_key_of n \<notin> set (db_Claims st2)"
      using key_free [OF assms(1-3)] by (simp_all add: release_ledger_def ID st2_def st1)
    have rl: "release_ledger r1 reason = release_ledger r reason" by (simp add: r1_def release_ledger_def)
    obtain st3 where l: "CreateLedgerInTx (\<lambda>_. None) (be_Now E) (release_ledger r reason) st2 = Inr ((), st3)"
        "db_Reservations st3 = db_Reservations st1"
      using key by (simp add: CreateLedgerInTx_def Let_def st2_def)
    show ?thesis unfolding release_won_def get
      using True by (simp add: r1_def rel l rl [unfolded r1_def] cas)
  qed
qed

text \<open>An undisturbed expiry of a due reservation goes through.\<close>

definition due :: "reservation \<Rightarrow> gotime \<Rightarrow> bool" where
  "due r now \<longleftrightarrow> rv_Status r = ''reserved'' \<and> rv_ExpiredAt r \<noteq> 0 \<and> rv_ExpiredAt r < now"

lemma expire_calm:
  assumes "books_ok st" "row_of n st = Some r" "due r (be_Now E)" "n \<notin> set (db_Tasks st)" "refundable r st"
    "calm ctx attempts"
  shows "\<exists>st'. releaseReservation E n reason ''expired'' attempts ctx st = Inr ((), st')"
proof -
  have r: "rv_Status r = ''reserved''" "rv_ExpiredAt r \<noteq> 0" "rv_ExpiredAt r < be_Now E" using assms(3) by (simp_all add: due_def)
  have d: "distinct (map rv_ID (db_Reservations st))"
    using assms(1) by (simp add: books_ok_def rows_typed_def distinct_rows_def)
  define st1 where "st1 = st\<lparr>db_Reservations := set_status n ''reserved'' ''releasing'' (db_Reservations st)\<rparr>"
  obtain st' where w: "release_won E (\<lambda>_. None) n reason ''expired'' st1 = Inr ((), st')"
    using release_won_calm [OF assms(1,2) r(1) assms(5) st1_def] by blast
  have "CASReservationStatus (\<lambda>_. None) n ''reserved'' ''releasing'' st = Inr (True, st1)"
    using list_ex_status [OF d] assms(2) r(1) by (simp add: CASReservationStatus_exact row_of_def st1_def)
  moreover have "GetReservationInTx (\<lambda>_. None) n st = Inr (r, st)"
    using assms(2) by (simp add: GetReservationInTx_read row_of_def)
  ultimately have "CASExpiredReservationStatus (\<lambda>_. None) n (be_Now E) st = Inr (True, st1)"
    using r assms(4) by (simp add: CASExpiredReservationStatus_def IsReserved_def)
  then have body: "release_body E n reason ''expired'' (\<lambda>_. None) ctx' st = Inr ((), st')" for ctx'
    using w by (simp add: release_body_def)
  from assms(6) obtain w f rest where a: "attempts = (w, f) # rest" "snd (Refresh w ctx) = None" "f = (\<lambda>_. None)"
    by (auto simp: calm_def split: list.splits)
  from a(2) obtain current where "Refresh w ctx = (current, None)" by (cases "Refresh w ctx") auto
  then show ?thesis using body by (simp add: releaseReservation_def a(1,3))
qed

subsection \<open>The cleanup job\<close>

text \<open>The money of a user fits the columns, held or free.\<close>

definition solvent :: "string \<Rightarrow> rstore \<Rightarrow> bool" where
  "solvent u st = (case db_Balances st u of None \<Rightarrow> False
   | Some b \<Rightarrow> MinInt64 \<le> b \<and> b + db_Frozen st u \<le> MaxInt64 \<and> db_Frozen st u \<le> MaxInt64)"

lemma sum_list_member: "x \<in> set xs \<Longrightarrow> (\<And>y. y \<in> set xs \<Longrightarrow> 0 \<le> f y) \<Longrightarrow> f x \<le> (\<Sum>y\<leftarrow>xs. f y :: int)"
proof (induction xs)
  case (Cons a xs)
  have "0 \<le> (\<Sum>y\<leftarrow>xs. f y)" using Cons.prems by (intro sum_list_nonneg) (auto simp: list_all_iff)
  with Cons show ?case by fastforce
qed simp

lemma held_le_frozen: "frozen_backed st \<Longrightarrow> reserved_row r st \<Longrightarrow> held r \<le> db_Frozen st (rv_UserID r)"
  using sum_list_member [of r "db_Reservations st" "held_by (rv_UserID r)"]
  by (auto simp: frozen_backed_def reserved_row_def held_by_def held_def split: if_splits)

lemma solvent_refundable:
  assumes "books_ok st" "reserved_row r st" "solvent (rv_UserID r) st"
  shows "refundable r st"
proof -
  have "held r \<le> db_Frozen st (rv_UserID r)" using held_le_frozen assms(1,2) by (simp add: books_ok_def)
  with assms(3) show ?thesis
    by (auto simp: solvent_def refundable_def held_def in_int64_def int_limits split: option.splits)
qed

lemma solvent_closed:
  assumes "closed x reason fin st st'" "solvent u st"
  shows "solvent u st'"
proof -
  have "moved (rv_UserID x) (held x) (- held x) st st'" using assms(1) by (simp add: closed_def)
  moreover have "0 \<le> held x" by (simp add: held_def)
  ultimately show ?thesis using assms(2)
    by (auto simp: solvent_def moved_def split: option.splits if_split_asm)
qed

text \<open>C14. The cleanup job makes progress. Every reserved row that is due, has no unfinished settlement task
  and whose own release is not disturbed is expired when a run over a list with that row ends, even if
  releases of other rows in the list failed; the books are in order afterwards.\<close>

theorem cleanup_expires:
  assumes "books_ok st" and "row_of n st = Some r" and "due r (be_Now E)" and "n \<notin> set (db_Tasks st)"
    and "solvent (rv_UserID r) st" and "(n, attempts) \<in> set rs" and "calm ctx attempts"
  shows "row_of n (cleanupExpiredReservations E rs ctx st) = Some (r\<lparr>rv_Status := ''expired''\<rparr>)
    \<and> books_ok (cleanupExpiredReservations E rs ctx st)"
proof
  show "books_ok (cleanupExpiredReservations E rs ctx st)"
    by (rule service.run_inv [OF cleanup_run [of "\<lambda>_. True", OF TrueI] assms(1)])
  show "row_of n (cleanupExpiredReservations E rs ctx st) = Some (r\<lparr>rv_Status := ''expired''\<rparr>)"
    using assms
  proof (induction rs arbitrary: st)
    case (Cons a rs)
    obtain m ats where a: "a = (m, ats)" by (cases a)
    note d = rows_distinct [of st] Cons.prems(1)
    have due: "rv_Status r = ''reserved''" using Cons.prems(3) by (simp add: due_def)
    note rr = row_of_reserved [OF Cons.prems(2) due]
    note ref = solvent_refundable [OF Cons.prems(1) rr Cons.prems(5)]
    show ?case
    proof (cases "releaseReservation E m ''reservation expired'' ''expired'' ats ctx st")
      case (Inl e)
      have "(n, attempts) \<noteq> a"
      proof
        assume "(n, attempts) = a"
        with expire_calm [OF Cons.prems(1-4) ref Cons.prems(7), of "''reservation expired''"] Inl show False by (auto simp: a)
      qed
      with Cons.prems(6) have "(n, attempts) \<in> set rs" by auto
      from Cons.IH [OF Cons.prems(1-5) this Cons.prems(7)] Inl show ?thesis by (simp add: a)
    next
      case (Inr y)
      obtain st1 where y: "y = ((), st1)" by (cases y) auto
      have st1: "cleanupExpiredReservations E (a # rs) ctx st = cleanupExpiredReservations E rs ctx st1"
        using Inr y by (simp add: a)
      have b1: "books_ok st1"
        using step_books [of st "\<lambda>_. True" st1] Cons.prems(1) bill_step.release [OF disjI2 [OF refl] Inr [unfolded y]]
        unfolding some_step_def by blast
      have dist: "distinct_rows st" using Cons.prems(1) by (simp add: books_ok_def rows_distinct)
      note cl = releaseReservation_closes [OF Inr [unfolded y], unfolded closes_def, rule_format, OF dist]
      show ?thesis
      proof (cases "\<exists>x. row_of m st = Some x \<and> rv_Status x = ''reserved''")
        case False
        then have "st1 = st" "m \<noteq> n" using cl Cons.prems(2) due by (auto split: option.splits)
        with Cons.IH [OF Cons.prems(1-5) _ Cons.prems(7)] Cons.prems(6) st1 show ?thesis by (simp add: a)
      next
        case True
        then obtain x where x: "row_of m st = Some x" "rv_Status x = ''reserved''"
            and c: "closed x ''reservation expired'' ''expired'' st st1" using cl by auto
        have rs: "db_Reservations st1 = with_status (rv_ID x) ''expired'' (\<lambda>r. r) (db_Reservations st)"
          and tasks: "db_Tasks st1 = db_Tasks st" using c by (simp_all add: closed_def)
        have row: "row_of n st1 = map_option (\<lambda>r. if rv_ID r = rv_ID x then r\<lparr>rv_Status := ''expired''\<rparr> else r) (Some r)"
          using row_of_with_status [OF rs] by (simp add: Cons.prems(2))
        have ID: "rv_ID x = m" "rv_ID r = n" using x(1) Cons.prems(2) by (simp_all add: row_of_ID)
        show ?thesis
        proof (cases "m = n")
          case True
          with row have "row_of n st1 = Some (r\<lparr>rv_Status := ''expired''\<rparr>)" by (simp add: ID)
          moreover have "rows_typed st1" using b1 by (simp add: books_ok_def)
          ultimately show ?thesis unfolding st1
            using settled_row_stays [OF cleanup_run [of "\<lambda>_. True" E, OF TrueI]] by (simp add: IsTerminal_def)
        next
          case False
          then have "(n, attempts) \<in> set rs" using Cons.prems(6) by (simp add: a)
          moreover have "row_of n st1 = Some r" using row False ID by simp
          ultimately show ?thesis unfolding st1
            using Cons.IH [OF b1 _ Cons.prems(3) _ solvent_closed [OF c Cons.prems(5)] _ Cons.prems(7)] Cons.prems(4)
            by (simp add: tasks)
        qed
      qed
    qed
  qed simp
qed

end
