(* ===== verification/Reservation_Demo.thy ===== *)
theory Reservation_Demo
  imports Reservation_Progress User_Cost
begin

text \<open>
  A small shop for the witnesses: one user with a wallet, and the calls the witnesses make on it.
\<close>

definition shop :: rstore where
  "shop = \<lparr>db_Orders = [], db_Balances = [''7'' \<mapsto> 500], db_Claims = [], db_Ledgers = [],
     db_Subs = Map.empty, db_Audits = [], db_Frozen = (\<lambda>_. 0), db_Used = (\<lambda>_. 0), db_RequestCount = (\<lambda>_. 0),
     db_UserGroup = (\<lambda>_. ''default''), db_Reservations = [], db_Receivables = [], db_SubIDs = [],
     db_Groups = Map.empty, db_Usage = (\<lambda>_. demo_windows), db_Charges = [], db_Tasks = []\<rparr>"

definition shop_env :: "string \<Rightarrow> gotime \<Rightarrow> bool \<Rightarrow> bill_env" where
  "shop_env newID now overdraft = \<lparr>be_Modes = demo_modes, be_Pricing = demo_prices, be_HasSubscription = False,
     be_SnapshotsEnabled = False, be_EntitlementsEnabled = False, be_HasRoutingPolicies = False,
     be_AllowOverdraft = overdraft, be_BlockOverdraftUsers = [], be_HasReceivables = True, be_Hashes = demo_hashes,
     be_RoutingDigest = (\<lambda>_. []), be_GroupDigest = (\<lambda>_. Some ''g''), be_SubDigest = (\<lambda>_. Some ''s''),
     be_TierDigest = (\<lambda>_. ''digest''), be_SnapshotDigest = (\<lambda>_. Some ''d''), be_Zones = (\<lambda>_. None),
     be_Instant = (\<lambda>t. t), be_Sum = (\<lambda>xs. foldr f_add xs (Fin 0)), be_Now = now, be_Unix = 1000,
     be_Expiry = 2000, be_NewID = newID\<rparr>"

definition shop_request :: "string \<Rightarrow> int64 \<Rightarrow> string \<Rightarrow> bill_request" where
  "shop_request key tokens model = \<lparr>bq_UserID = ''7'', bq_RequestID = key, bq_Tokens = tokens, bq_Model = model,
     bq_ChannelID = ''3'', bq_SubscriptionAccountID = 0, bq_Routing = None,
     bq_Tier = \<lparr>tq_RequestedServiceTier = [], tq_Protocol = [], tq_InputTokenBound = 0, tq_OutputTokenBound = 0,
       tq_Version = 0\<rparr>,
     bq_RootRequestID = [], bq_AttemptNumber = 0, bq_SourceKind = [], bq_UpstreamModelID = []\<rparr>"

definition shop_ctx :: auth_ctx where
  "shop_ctx = \<lparr>ax_Queries = (\<lambda>_. None), ax_VerifiedActor = None, ax_LegacyAllowed = None, ax_Credential = [], ax_Refresh = []\<rparr>"

definition quiet :: "(world \<times> faults) list" where
  "quiet = [(\<lambda>_. \<lparr>rs_Query = (\<lambda>_ _ _. Inl ErrDenied), rs_OptionalQuery = None, rs_ResolveActor = None\<rparr>, \<lambda>_. None)]"

definition usage_of :: "int64 \<Rightarrow> billed_usage" where
  "usage_of tokens = demo_billed\<lparr>lu_Envelope := None, lu_PromptTokens := tokens, lu_CompletionTokens := 0,
     lu_CacheReadTokens := 0, lu_CacheCreation5mTokens := 0, lu_CacheCreation1hTokens := 0,
     bu_FrozenServiceTier := None, lu_UsageContractVersion := 0\<rparr>"

definition reserve_at :: "string \<Rightarrow> string \<Rightarrow> int64 \<Rightarrow> rstore \<Rightarrow> billing_error + (reservation \<times> rstore)" where
  "reserve_at newID key tokens st = ReserveQuota (shop_env newID 1000 False) (shop_request key tokens ''luna'') (Inr None)
     quiet quiet shop_ctx (\<lambda>_. None) st"

definition commit_at :: "bool \<Rightarrow> string \<Rightarrow> int64 \<Rightarrow> rstore \<Rightarrow> billing_error + ((int64 \<times> int64) \<times> rstore)" where
  "commit_at overdraft n tokens st = CommitQuotaWithUsage (shop_env [] 1000 overdraft) n tokens True (usage_of tokens) quiet
     shop_ctx (\<lambda>_. None) st"

definition release_at :: "string \<Rightarrow> rstore \<Rightarrow> billing_error + (unit \<times> rstore)" where
  "release_at n st = releaseReservation (shop_env [] 3000 False) n ''gone'' ''released'' quiet shop_ctx st"

text \<open>Two open requests: the first is settled below what it reserved, the second is given up.\<close>

definition row :: "string \<Rightarrow> string \<Rightarrow> int64 \<Rightarrow> reservation" where
  "row newID key cost = new_reservation (shop_env newID 1000 False) (shop_request key cost ''luna'') None cost"

definition shop2 :: rstore where
  "shop2 = shop\<lparr>db_Balances := [''7'' \<mapsto> 100], db_Frozen := (\<lambda>_. 0)(''7'' := 400),
     db_Reservations := [row ''r1'' ''q1'' 300, row ''r2'' ''q2'' 100]\<rparr>"

definition after :: "(rstore \<Rightarrow> billing_error + ('a \<times> rstore)) \<Rightarrow> rstore \<Rightarrow> rstore" where
  "after m st = (case m st of Inl _ \<Rightarrow> st | Inr (_, st') \<Rightarrow> st')"

definition answers :: "billing_error + ('a \<times> rstore) \<Rightarrow> bool" where
  "answers m = (case m of Inl _ \<Rightarrow> False | Inr _ \<Rightarrow> True)"

lemma answersD: "answers (m st) \<Longrightarrow> \<exists>x. m st = Inr (x, after m st)"
  by (auto simp: answers_def after_def split: sum.splits)

definition shop3 :: rstore where "shop3 = after (commit_at False ''r1'' 260) shop2"
definition shop4 :: rstore where "shop4 = after (release_at ''r2'') shop3"

lemma shop_answers:
  "\<exists>x. commit_at False ''r1'' 260 shop2 = Inr (x, shop3)" "\<exists>x. release_at ''r2'' shop3 = Inr (x, shop4)"
proof -
  have "answers (commit_at False ''r1'' 260 shop2)" by code_simp
  then show "\<exists>x. commit_at False ''r1'' 260 shop2 = Inr (x, shop3)" unfolding shop3_def by (rule answersD)
  have "answers (release_at ''r2'' shop3)" by code_simp
  then show "\<exists>x. release_at ''r2'' shop3 = Inr (x, shop4)" unfolding shop4_def by (rule answersD)
qed

lemma shop_steps: "bill_step (shop_env [] 1000 False) shop2 shop3" "bill_step (shop_env [] 3000 False) shop3 shop4"
  using shop_answers unfolding commit_at_def release_at_def
  by (auto intro: bill_step.intros(2) bill_step.intros(3) [of "''released''"])

abbreviation strict :: "bill_env \<Rightarrow> bool" where
  "strict E \<equiv> \<not> be_AllowOverdraft E"

lemma shop_run: "bill_run strict shop2 shop3" "bill_run strict shop3 shop4" "bill_run strict shop2 shop4"
proof -
  have "strict (shop_env [] t False)" for t by (simp add: shop_env_def)
  with shop_steps have "some_step strict shop2 shop3" "some_step strict shop3 shop4" unfolding some_step_def by blast+
  then show "bill_run strict shop2 shop3" "bill_run strict shop3 shop4" "bill_run strict shop2 shop4" by auto
qed

lemma shop_ok: "books_ok shop2"
  by (simp add: books_ok_def rows_typed_def distinct_rows_def no_clash_def frozen_backed_def charges_backed_def
      keys_backed_def shop2_def shop_def row_def key_clash_def held_by_def held_def statuses_def new_reservation_def
      shop_request_def shop_env_def)

end
