(* ===== verification/Reservation_Witnesses.thy ===== *)
theory Reservation_Witnesses
  imports Reservation_Demo
begin

text \<open>
  The guarantees of the reservation service applied to the small shop of \<open>Reservation_Demo\<close>: two open requests,
  one settled for less than it reserved, one given up.
\<close>

theorem reservations_conserve_witness: "books_ok shop4 \<and> wealth shop4 ''7'' = 500"
proof -
  have "wealth shop2 ''7'' = 500" by (simp add: wealth_def spent_def shop2_def shop_def)
  with reservations_conserve [OF shop_run(3) shop_ok] show ?thesis by simp
qed

theorem reservations_refine_wallet_witness: "wallet_step\<^sup>*\<^sup>* (wallet_of shop2) (wallet_of shop4)"
  by (rule reservations_refine_wallet [OF shop_run(3) shop_ok])

lemma shop_typed: "rows_typed shop2"
  using shop_ok by (simp add: books_ok_def)

theorem reservation_rows_typed_witness: "rows_typed shop4"
  by (rule reservation_rows_typed [OF shop_run(3) shop_typed])

text \<open>The row of the first request, before and after its commit.\<close>

lemma shop_rows: "row_of ''r1'' shop2 = Some (row ''r1'' ''q1'' 300)" "row_of ''r2'' shop2 = Some (row ''r2'' ''q2'' 100)"
  "rv_Status (row n q c) = ''reserved''" "rv_UserID (row n q c) = ''7''" "rv_BalanceAmount (row n q c) = c"
  by (simp_all add: row_of_def find_reservation_def shop2_def row_def shop_env_def shop_request_def)

lemma shop_commit: "\<exists>cost refund. CommitQuotaWithUsage (shop_env [] 1000 False) ''r1'' 260 True (usage_of 260) quiet
    shop_ctx (\<lambda>_. None) shop2 = Inr ((cost, refund), shop3)"
  using shop_answers(1) unfolding commit_at_def by auto

theorem commit_effect_witness:
  "\<exists>cost. 0 < cost \<and> db_Frozen shop3 ''7'' = 100
     \<and> row_of ''r1'' shop3 = Some ((row ''r1'' ''q1'' 300)\<lparr>rv_Status := ''committed'', rv_ActualCost := cost\<rparr>)"
proof -
  obtain cost refund where c: "CommitQuotaWithUsage (shop_env [] 1000 False) ''r1'' 260 True (usage_of 260) quiet
    shop_ctx (\<lambda>_. None) shop2 = Inr ((cost, refund), shop3)" using shop_commit by blast
  have "db_Frozen shop2 ''7'' - held (row ''r1'' ''q1'' 300) = 100"
    by (simp add: shop2_def shop_def held_def shop_rows)
  with commit_effect [OF c shop_typed shop_rows(1,3)] show ?thesis by (auto simp: shop_rows)
qed

theorem terminal_is_final_witness:
  "\<exists>r. row_of ''r1'' shop3 = Some r \<and> IsTerminal r \<and> r \<in> set (db_Reservations shop4)"
proof -
  obtain cost refund where c: "CommitQuotaWithUsage (shop_env [] 1000 False) ''r1'' 260 True (usage_of 260) quiet
    shop_ctx (\<lambda>_. None) shop2 = Inr ((cost, refund), shop3)" using shop_commit by blast
  from commit_effect_row [OF c shop_typed shop_rows(1,3)] obtain r where r: "row_of ''r1'' shop3 = Some r" "IsTerminal r"
      "rows_typed shop3" by (auto simp: IsTerminal_def)
  then have "r \<in> set (db_Reservations shop3)" using find_reservation_Some by (simp add: row_of_def)
  from terminal_is_final [OF shop_run(2) r(3) this r(2)] r(1,2) show ?thesis by blast
qed

theorem no_overdraft_witness: "\<exists>b. db_Balances shop4 ''7'' = Some b \<and> 0 \<le> b"
  by (rule no_overdraft [OF shop_run(3) shop_typed, of _ 100]) (simp_all add: canOverdraft_def shop2_def shop_def)

theorem commit_replay_witness:
  "\<exists>cost. 0 < cost \<and> CommitQuotaWithUsage (shop_env [] 5000 True) ''r1'' 999 True (usage_of 999) quiet shop_ctx
     (\<lambda>_. None) shop3 = Inr ((cost, 0), shop3)"
proof -
  obtain cost refund where c: "CommitQuotaWithUsage (shop_env [] 1000 False) ''r1'' 260 True (usage_of 260) quiet
    shop_ctx (\<lambda>_. None) shop2 = Inr ((cost, refund), shop3)" using shop_commit by blast
  have "answers (CommitQuotaWithUsage (shop_env [] 5000 True) ''r1'' 999 True (usage_of 999) quiet shop_ctx (\<lambda>_. None) shop3)"
    by code_simp
  then obtain ans st3 where a: "CommitQuotaWithUsage (shop_env [] 5000 True) ''r1'' 999 True (usage_of 999) quiet shop_ctx
      (\<lambda>_. None) shop3 = Inr (ans, st3)" by (auto simp: answers_def split: sum.splits)
  have "ans = (cost, 0) \<and> st3 = shop3"
    by (rule commit_replay [OF c shop_typed shop_rows(1,3) rtranclp.rtrancl_refl, THEN conjunct1, rule_format, OF a])
  with a commit_effect_row [OF c shop_typed shop_rows(1,3)] show ?thesis by auto
qed

text \<open>The wallet is in credit, 100 before and 140 after: a debt of 40 is recorded. From 100 to 90 below zero: none.\<close>

theorem receivable_tracks_magnitude_witness:
  "\<exists>st'. mirror_receivable (shop_env [] 1000 False) (\<lambda>_. None) (row ''r1'' ''q1'' 300) 100 140 shop2 = Inr ((), st')
     \<and> map rc_OverdueQuota (db_Receivables st') = [40]
     \<and> mirror_receivable (shop_env [] 1000 False) (\<lambda>_. None) (row ''r1'' ''q1'' 300) 100 (- 90) shop2 = Inr ((), shop2)"
proof -
  have h: "be_HasReceivables (shop_env [] 1000 False)" by (simp add: shop_env_def)
  have n: "rv_ID (row ''r1'' ''q1'' 300) \<notin> set (map rc_ReservationID (db_Receivables shop2))"
    by (simp add: shop2_def shop_def)
  have "db_Receivables shop2 = []" by (simp add: shop2_def shop_def)
  with receivable_tracks_magnitude [OF _ _ _ _ h n, of 100 140] receivable_tracks_magnitude [OF _ _ _ _ h n, of 100 "- 90"]
  show ?thesis by (simp add: int_limits)
qed

text \<open>The release of the first row finds no connection; the second row expires all the same.\<close>

theorem cleanup_expires_witness:
  "row_of ''r2'' (cleanupExpiredReservations (shop_env [] 3000 False) [(''r1'', []), (''r2'', quiet)] shop_ctx shop2)
     = Some ((row ''r2'' ''q2'' 100)\<lparr>rv_Status := ''expired''\<rparr>)"
proof -
  have "due (row ''r2'' ''q2'' 100) (be_Now (shop_env [] 3000 False))"
    by (simp add: due_def shop_rows row_def new_reservation_def shop_env_def)
  moreover have "''r2'' \<notin> set (db_Tasks shop2)" by (simp add: shop2_def shop_def)
  moreover have "solvent (rv_UserID (row ''r2'' ''q2'' 100)) shop2"
    by (simp add: solvent_def shop_rows shop2_def shop_def int_limits)
  moreover have "(''r2'', quiet) \<in> set [(''r1'', []), (''r2'', quiet)]" by simp
  moreover have "calm shop_ctx quiet"
    by (simp add: calm_def quiet_def shop_ctx_def Refresh_def)
  ultimately show ?thesis using cleanup_expires [OF shop_ok shop_rows(2)] by blast
qed

end
