(* ===== verification/Channel_Health.thy ===== *)
theory Channel_Health
  imports Go_Float
begin

text \<open>
  The runtime measurements of a routing source in the channel service
  (\<open>app/channel/internal/biz/selector.go\<close>, \<open>execution_slot_leases.go\<close>): a ring of latencies, error and
  request counts per second, leased execution slots. Times are nanoseconds; an operation reads the
  clock once. The lemmas bound the slots and show that a released slot does not come back.
\<close>

subsection \<open>Latencies\<close>

record sliding_window =
  sw_cap :: nat
  sw_values :: "int64 list"
  sw_head :: nat

definition NewSlidingWindow :: "int \<Rightarrow> sliding_window" where
  "NewSlidingWindow mx = \<lparr>sw_cap = (if mx \<le> 0 then 100 else nat mx), sw_values = [], sw_head = 0\<rparr>"

definition sw_Add :: "sliding_window \<Rightarrow> int64 \<Rightarrow> sliding_window" where
  "sw_Add w v = (if length (sw_values w) < sw_cap w
     then w\<lparr>sw_values := sw_values w @ [v], sw_head := (sw_head w + 1) mod sw_cap w\<rparr>
     else w\<lparr>sw_values := (sw_values w)[sw_head w := v], sw_head := (sw_head w + 1) mod sw_cap w\<rparr>)"

definition p95_index :: "nat \<Rightarrow> int" where
  "p95_index n = (let idx = max (f_to_int64 (f_ceil (f_mul (f_of_int (int n)) (fround (95 / 100)))) - 1) 0 in
     if int n \<le> idx then int n - 1 else idx)"

definition P95 :: "sliding_window \<Rightarrow> int64" where
  "P95 w = (if sw_values w = [] then 0
     else sort (sw_values w) ! nat (p95_index (length (sw_values w))))"

subsection \<open>Outcome counts\<close>

record sliding_counter =
  sc_errors :: "(int64 \<times> int) list"
  sc_totals :: "(int64 \<times> int) list"
  sc_window :: int64
  sc_lastCleanup :: int64

definition NewSlidingCounter :: "int64 \<Rightarrow> sliding_counter" where
  "NewSlidingCounter seconds = \<lparr>sc_errors = [], sc_totals = [], sc_window = seconds, sc_lastCleanup = 0\<rparr>"

definition unix_seconds :: "int64 \<Rightarrow> int64" where
  "unix_seconds now = now div 1000000000"

definition bump :: "int64 \<Rightarrow> (int64 \<times> int) list \<Rightarrow> (int64 \<times> int) list" where
  "bump t m = put t (wrap64 ((case map_of m t of Some n \<Rightarrow> n | None \<Rightarrow> 0) + 1)) m"

definition sc_cleanup :: "sliding_counter \<Rightarrow> int64 \<Rightarrow> sliding_counter" where
  "sc_cleanup c t = (if sc_lastCleanup c \<noteq> 0 \<and> t - sc_lastCleanup c < 1 then c
     else let cutoff = t - sc_window c in
       c\<lparr>sc_errors := filter (\<lambda>e. \<not> fst e < cutoff) (sc_errors c),
         sc_totals := filter (\<lambda>e. \<not> fst e < cutoff) (sc_totals c), sc_lastCleanup := t\<rparr>)"

definition RecordOutcome :: "sliding_counter \<Rightarrow> bool \<Rightarrow> int64 \<Rightarrow> sliding_counter" where
  "RecordOutcome c success now = (let t = unix_seconds now; c1 = c\<lparr>sc_totals := bump t (sc_totals c)\<rparr> in
     sc_cleanup (if success then c1 else c1\<lparr>sc_errors := bump t (sc_errors c1)\<rparr>) t)"

definition sc_Increment :: "sliding_counter \<Rightarrow> int64 \<Rightarrow> sliding_counter" where
  "sc_Increment c now = (let t = unix_seconds now in
     sc_cleanup (c\<lparr>sc_totals := bump t (sc_totals c), sc_errors := bump t (sc_errors c)\<rparr>) t)"

definition count_sum :: "(int64 \<times> int) list \<Rightarrow> int" where
  "count_sum m = fold (\<lambda>e n. wrap64 (n + snd e)) m 0"

text \<open>\<open>Rate\<close> and \<open>Total\<close> clean up before they read.\<close>

definition sc_Rate :: "sliding_counter \<Rightarrow> int64 \<Rightarrow> float64" where
  "sc_Rate c now = (let d = sc_cleanup c (unix_seconds now); ttl = count_sum (sc_totals d) in
     if ttl = 0 then Fin 0 else f_div (f_of_int (count_sum (sc_errors d))) (f_of_int ttl))"

definition sc_Total :: "sliding_counter \<Rightarrow> int64 \<Rightarrow> int" where
  "sc_Total c now = count_sum (sc_totals (sc_cleanup c (unix_seconds now)))"

subsection \<open>Execution slots\<close>

definition executionSlotLeaseDuration :: int64 where
  "executionSlotLeaseDuration = 120000000000"

record slot_leases =
  inflight :: int
  slotLeases :: "(string \<times> int64) list"
  releasedSlots :: "(string \<times> int64) list"
  nextSlotCleanup :: int64

definition no_slots :: slot_leases where
  "no_slots = \<lparr>inflight = 0, slotLeases = [], releasedSlots = [], nextSlotCleanup = 0\<rparr>"

definition IntToInt32Saturating :: "int \<Rightarrow> int" where
  "IntToInt32Saturating v = (if v < MinInt32 then MinInt32 else if v > MaxInt32 then MaxInt32 else v)"

definition reapSlotLeases :: "slot_leases \<Rightarrow> int64 \<Rightarrow> slot_leases" where
  "reapSlotLeases s now =
     (let s1 = s\<lparr>slotLeases := filter (\<lambda>e. \<not> snd e \<le> now) (slotLeases s)\<rparr>;
          s2 = (if nextSlotCleanup s1 \<le> now
                then s1\<lparr>releasedSlots := filter (\<lambda>e. \<not> snd e \<le> now) (releasedSlots s1),
                        nextSlotCleanup := now + 60000000000\<rparr>
                else s1)
      in s2\<lparr>inflight := IntToInt32Saturating (int (length (slotLeases s2)))\<rparr>)"

definition remove_key :: "'k \<Rightarrow> ('k \<times> 'v) list \<Rightarrow> ('k \<times> 'v) list" where
  "remove_key k m = filter (\<lambda>e. fst e \<noteq> k) m"

definition recordSlot :: "slot_leases \<Rightarrow> string \<Rightarrow> bool \<Rightarrow> int \<Rightarrow> int64 \<Rightarrow> bool \<times> slot_leases" where
  "recordSlot s0 slotID acquired limit now =
     (if slotID = [] then (False, s0)
      else let s = reapSlotLeases s0 now in
        if acquired \<and> map_of (releasedSlots s) slotID \<noteq> None then (False, s)
        else if acquired \<and> map_of (slotLeases s) slotID = None \<and> 0 < limit \<and> limit \<le> inflight s then (False, s)
        else let s1 = (if acquired
              then s\<lparr>slotLeases := put slotID (now + executionSlotLeaseDuration) (slotLeases s)\<rparr>
              else s\<lparr>slotLeases := remove_key slotID (slotLeases s),
                     releasedSlots := put slotID (now + executionSlotLeaseDuration) (releasedSlots s)\<rparr>)
          in (True, s1\<lparr>inflight := IntToInt32Saturating (int (length (slotLeases s1)))\<rparr>))"

text \<open>A sequence of reports, each with its time: the slot, whether acquired, the clock.\<close>

fun slot_run :: "int \<Rightarrow> (string \<times> bool \<times> int64) list \<Rightarrow> slot_leases \<Rightarrow> bool list \<times> slot_leases" where
  "slot_run limit [] s = ([], s)"
| "slot_run limit ((slotID, acquired, now) # ops) s =
     (case recordSlot s slotID acquired limit now of (ok, s1) \<Rightarrow>
        case slot_run limit ops s1 of (oks, s2) \<Rightarrow> (ok # oks, s2))"

subsection \<open>What the slots guarantee\<close>

text \<open>The counter is the number of leases, and the leases respect the limit.\<close>

definition slots_ok :: "int \<Rightarrow> slot_leases \<Rightarrow> bool" where
  "slots_ok limit s \<longleftrightarrow> inflight s = int (length (slotLeases s)) \<and> int (length (slotLeases s)) \<le> limit
     \<and> distinct (map fst (slotLeases s))"

lemma map_of_remove_key [simp]: "map_of (remove_key k m) i = (if i = k then None else map_of m i)"
  by (induction m) (auto simp: remove_key_def)

lemma length_filter_put: "map_of m k \<noteq> None \<Longrightarrow> length (put k v m) = length m"
  by (induction m) (auto split: if_split_asm)

lemma length_put_le: "length (put k v m) \<le> Suc (length m)"
  by (induction m) auto

lemma saturating_id: "0 \<le> v \<Longrightarrow> v \<le> MaxInt32 \<Longrightarrow> IntToInt32Saturating v = v"
  by (simp add: IntToInt32Saturating_def int_limits)

lemma reap_leases: "slotLeases (reapSlotLeases s now) = filter (\<lambda>e. \<not> snd e \<le> now) (slotLeases s)"
  by (simp add: reapSlotLeases_def Let_def)

lemma reap_inflight:
  "inflight (reapSlotLeases s now) = IntToInt32Saturating (int (length (slotLeases (reapSlotLeases s now))))"
  by (simp add: reapSlotLeases_def Let_def)

lemma slots_okI:
  assumes "inflight s = IntToInt32Saturating (int (length (slotLeases s)))"
    and "int (length (slotLeases s)) \<le> limit" "distinct (map fst (slotLeases s))" "limit \<le> MaxInt32"
  shows "slots_ok limit s"
  using assms saturating_id [of "int (length (slotLeases s))"] by (simp add: slots_ok_def)

lemma reap_ok:
  assumes "slots_ok limit s" "limit \<le> MaxInt32"
  shows "slots_ok limit (reapSlotLeases s now)"
proof (rule slots_okI [OF reap_inflight _ _ assms(2)])
  have "length (slotLeases (reapSlotLeases s now)) \<le> length (slotLeases s)" by (simp add: reap_leases)
  with assms show "int (length (slotLeases (reapSlotLeases s now))) \<le> limit" by (simp add: slots_ok_def)
  show "distinct (map fst (slotLeases (reapSlotLeases s now)))"
    using assms by (simp add: slots_ok_def reap_leases distinct_map_filter)
qed

lemma recordSlot_cases:
  assumes "recordSlot s0 slotID acquired limit now = (ok, s')"
  obtains (empty) "slotID = []" "\<not> ok" "s' = s0"
    | (refused) "\<not> ok" "acquired" "s' = reapSlotLeases s0 now"
    | (acquire) "ok" "acquired" "map_of (releasedSlots (reapSlotLeases s0 now)) slotID = None"
        "map_of (slotLeases (reapSlotLeases s0 now)) slotID \<noteq> None \<or> limit \<le> 0 \<or> inflight (reapSlotLeases s0 now) < limit"
        "slotLeases s' = put slotID (now + executionSlotLeaseDuration) (slotLeases (reapSlotLeases s0 now))"
        "releasedSlots s' = releasedSlots (reapSlotLeases s0 now)"
        "inflight s' = IntToInt32Saturating (int (length (slotLeases s')))"
    | (release) "ok" "\<not> acquired"
        "slotLeases s' = remove_key slotID (slotLeases (reapSlotLeases s0 now))"
        "releasedSlots s' = put slotID (now + executionSlotLeaseDuration) (releasedSlots (reapSlotLeases s0 now))"
        "inflight s' = IntToInt32Saturating (int (length (slotLeases s')))"
  using assms by (fastforce simp: recordSlot_def Let_def not_le split: if_split_asm)

lemma recordSlot_ok:
  assumes ok: "slots_ok limit s" and lim: "0 < limit" "limit \<le> MaxInt32"
    and run: "recordSlot s slotID acquired limit now = (r, s')"
  shows "slots_ok limit s'"
proof -
  let ?r = "reapSlotLeases s now"
  have r: "slots_ok limit ?r" by (rule reap_ok [OF ok lim(2)])
  from run show ?thesis
  proof (cases rule: recordSlot_cases)
    case acquire
    have "int (length (slotLeases s')) \<le> limit"
    proof (cases "map_of (slotLeases ?r) slotID")
      case None
      with acquire lim r show ?thesis
        using length_put_le [of slotID "now + executionSlotLeaseDuration" "slotLeases ?r"]
        by (simp add: slots_ok_def)
    next
      case (Some v)
      with acquire r show ?thesis
        using length_filter_put [of "slotLeases ?r" slotID] by (simp add: slots_ok_def)
    qed
    then show ?thesis
      by (rule slots_okI [OF acquire(7) _ _ lim(2)]) (use acquire r in \<open>simp add: slots_ok_def\<close>)
  next
    case release
    have "length (slotLeases s') \<le> length (slotLeases ?r)" by (simp add: release(3) remove_key_def)
    with r have "int (length (slotLeases s')) \<le> limit" by (simp add: slots_ok_def)
    then show ?thesis
      by (rule slots_okI [OF release(5) _ _ lim(2)])
        (use release r in \<open>simp add: slots_ok_def remove_key_def distinct_map_filter\<close>)
  qed (use ok r in simp_all)
qed

lemma slot_run_ok:
  "slots_ok limit s \<Longrightarrow> 0 < limit \<Longrightarrow> limit \<le> MaxInt32 \<Longrightarrow> slots_ok limit (snd (slot_run limit ops s))"
proof (induction ops arbitrary: s)
  case (Cons x ops)
  obtain slotID acquired now where x: "x = (slotID, acquired, now)" using prod_cases3 by blast
  obtain ok s1 where r: "recordSlot s slotID acquired limit now = (ok, s1)" by fastforce
  from Cons.IH [OF recordSlot_ok [OF Cons.prems r]] Cons.prems x r show ?case
    by (simp add: case_prod_beta)
qed simp

text \<open>A tombstone stays until its deadline.\<close>

lemma reap_tombstone:
  "map_of (releasedSlots s) slotID = Some d \<Longrightarrow> now < d \<Longrightarrow>
   map_of (releasedSlots (reapSlotLeases s now)) slotID = Some d"
proof -
  have "map_of m k = Some d \<Longrightarrow> now < d \<Longrightarrow> map_of (filter (\<lambda>e. \<not> snd e \<le> now) m) k = Some d"
    for m :: "(string \<times> int64) list" and k
    by (induction m) (auto split: if_split_asm)
  then show "map_of (releasedSlots s) slotID = Some d \<Longrightarrow> now < d \<Longrightarrow> ?thesis"
    by (simp add: reapSlotLeases_def Let_def)
qed

lemma tombstone_step:
  assumes "map_of (releasedSlots s) slotID = Some d" "now < d" "t \<le> now" "t + executionSlotLeaseDuration \<le> d"
    and "recordSlot s other acquired limit now = (ok, s')"
  shows "\<exists>d'. map_of (releasedSlots s') slotID = Some d' \<and> t + executionSlotLeaseDuration \<le> d'"
    and "other = slotID \<Longrightarrow> acquired \<Longrightarrow> \<not> ok"
  using assms reap_tombstone [OF assms(1,2)]
  by (auto simp: recordSlot_def Let_def split: if_split_asm)

end
