(* ===== verification/Source_Control.thy ===== *)
theory Source_Control
  imports Channel_Health Relay_Failover
begin

text \<open>
  The control the channel service keeps per routing source (\<open>upstream_control.go\<close>,
  \<open>upstream_execution.go\<close>): which configuration it speaks for, what is blocked, who holds the
  half-open probe, which observations were counted. Clock readings are \<open>UnixNano\<close> values. The 1024
  slots of \<open>ids\<close> are an association list; a slot not in it holds the empty string. The lemmas show
  that no observation counts twice while its identifier is in the ring.
\<close>

subsection \<open>Configuration revisions\<close>

text \<open>The text that is hashed; \<open>sha\<close> is the hex form of SHA-256.\<close>

definition revision_text :: "string list \<Rightarrow> string" where
  "revision_text parts = concat (map (\<lambda>p. FormatInt (int (length p)) @ '':'' @ p) parts)"

definition ConfigurationRevisionOf :: "(string \<Rightarrow> string) \<Rightarrow> string list \<Rightarrow> string" where
  "ConfigurationRevisionOf sha parts = sha (revision_text parts)"

subsection \<open>State\<close>

record upstream_control =
  revision :: string
  configurationBlocked :: bool
  capacityUntil :: int64
  models :: "(string \<times> int64) list"
  probeID :: string
  incidentAt :: int64
  recoverySuccesses :: int
  seen :: "string set"
  ids :: "(nat \<times> string) list"
  nextID :: nat

definition new_control :: "string \<Rightarrow> upstream_control" where
  "new_control rev' = \<lparr>revision = rev', configurationBlocked = False, capacityUntil = 0, models = [],
     probeID = [], incidentAt = 0, recoverySuccesses = 0, seen = {}, ids = [], nextID = 0\<rparr>"

definition refresh :: "upstream_control \<Rightarrow> string \<Rightarrow> bool \<times> upstream_control" where
  "refresh c rev' = (if revision c = rev' then (False, c) else (revision c \<noteq> [], new_control rev'))"

definition recoveryFactor :: "upstream_control \<Rightarrow> int64" where
  "recoveryFactor c = (if recoverySuccesses c = 0 \<or> 5 \<le> recoverySuccesses c then 100
     else recoverySuccesses c * 20)"

definition model_until :: "upstream_control \<Rightarrow> string \<Rightarrow> int64" where
  "model_until c model = (case map_of (models c) model of Some t \<Rightarrow> t | None \<Rightarrow> 0)"

definition blocked :: "upstream_control \<Rightarrow> string \<Rightarrow> int64 \<Rightarrow> bool" where
  "blocked c model tm \<longleftrightarrow> configurationBlocked c \<or> tm < model_until c model"

subsection \<open>Observations\<close>

definition id_at :: "upstream_control \<Rightarrow> nat \<Rightarrow> string" where
  "id_at c i = (case map_of (ids c) i of Some x \<Rightarrow> x | None \<Rightarrow> [])"

definition remember :: "upstream_control \<Rightarrow> string \<Rightarrow> upstream_control" where
  "remember c x = c\<lparr>seen := insert x (seen c - {id_at c (nextID c)}), ids := put (nextID c) x (ids c),
     nextID := (nextID c + 1) mod 1024\<rparr>"

text \<open>What \<open>recordObservation\<close> does when the result could not be stored.\<close>

definition forget :: "upstream_control \<Rightarrow> string \<Rightarrow> upstream_control" where
  "forget c x = c\<lparr>seen := seen c - {x}, ids := put ((nextID c + 1023) mod 1024) [] (ids c)\<rparr>"

definition quarantine :: "upstream_control \<Rightarrow> observation \<Rightarrow> int64 \<Rightarrow> upstream_control" where
  "quarantine c ob tm =
     (if FailureKind ob = ''capacity'' then
        let delay = (if RetryAfter ob \<le> 0 then 5000000000 else RetryAfter ob)
        in c\<lparr>capacityUntil := max (capacityUntil c) (tm + min delay 300000000000)\<rparr>
      else if FailureKind ob = ''configuration'' then c\<lparr>configurationBlocked := True\<rparr>
      else if FailureKind ob = ''model'' then
        let live = filter (\<lambda>e. \<not> snd e \<le> tm) (models c)
        in c\<lparr>models := if length live < 512 then put (ObservedModel ob) (tm + 30000000000) live else live\<rparr>
      else c)"

definition accept :: "upstream_control \<Rightarrow> observation \<Rightarrow> bool \<Rightarrow> int64 \<Rightarrow> bool \<times> upstream_control" where
  "accept c ob halfOpen tm =
     (if ConfigurationRevision ob \<noteq> revision c \<or> StartedAt ob < incidentAt c \<or> FailureKind ob = ''probe''
      then (False, c)
      else if halfOpen \<and> (probeID c = [] \<or> ProbeID ob \<noteq> probeID c) then (False, c)
      else if \<not> halfOpen \<and> ProbeID ob \<noteq> [] then (False, c)
      else if ObservationID ob \<in> seen c then (False, c)
      else (True, quarantine (remember c (ObservationID ob)) ob tm))"

subsection \<open>Leases of an execution\<close>

datatype source_error = ErrChannelNotFound | ErrSubscriptionAccountNotFound | ErrUpstreamRateLimit

datatype circuit_state = circuitClosed | circuitOpen | circuitHalfOpen

abbreviation circuitHalfOpenSentinel :: int64 where "circuitHalfOpenSentinel \<equiv> MaxInt64"

abbreviation circuitBreakerProbeLeaseDuration :: int64 where
  "circuitBreakerProbeLeaseDuration \<equiv> executionSlotLeaseDuration"

text \<open>\<open>uuid\<close> is the value \<open>uuid.NewString\<close> returns; the two deadlines are passed and returned.\<close>

definition claimUpstreamExecution :: "upstream_control \<Rightarrow> execution_claim \<Rightarrow> circuit_state \<Rightarrow> int64 \<Rightarrow> int64
    \<Rightarrow> source_error \<Rightarrow> int64 \<Rightarrow> string \<Rightarrow> (source_error + execution_lease) \<times> upstream_control \<times> int64 \<times> int64" where
  "claimUpstreamExecution c cl circuit openUntil probeUntil unavailable tm uuid =
     (if cl_ConfigurationRevision cl \<noteq> revision c \<or> blocked c (cl_UpstreamModelID cl) tm \<or> circuit = circuitOpen
      then (Inl unavailable, c, openUntil, probeUntil)
      else if tm < capacityUntil c then (Inl ErrUpstreamRateLimit, c, openUntil, probeUntil)
      else if circuit = circuitHalfOpen then
        if tm < probeUntil then
          if probeID c = [] \<or> cl_ProbeID cl \<noteq> probeID c then (Inl unavailable, c, openUntil, probeUntil)
          else (Inr \<lparr>ls_ConfigurationRevision = revision c, ls_ProbeID = probeID c\<rparr>, c, openUntil, probeUntil)
        else (Inr \<lparr>ls_ConfigurationRevision = revision c, ls_ProbeID = uuid\<rparr>, c\<lparr>probeID := uuid\<rparr>,
          circuitHalfOpenSentinel, tm + circuitBreakerProbeLeaseDuration)
      else (Inr \<lparr>ls_ConfigurationRevision = revision c, ls_ProbeID = []\<rparr>, c, openUntil, probeUntil))"

subsection \<open>Different configurations have different texts\<close>

lemma FormatInt_no_colon: "CHR '':'' \<notin> set (FormatInt x)"
  using FormatInt_chars [of "CHR '':''" x] by (auto simp: is_digit_def)

lemma revision_text_Cons: "revision_text (p # ps) = FormatInt (int (length p)) @ CHR '':'' # p @ revision_text ps"
  by (simp add: revision_text_def)

lemma revision_text_inj: "revision_text ps = revision_text qs \<Longrightarrow> ps = qs"
proof (induction ps arbitrary: qs)
  case Nil
  then show ?case by (cases qs) (simp_all add: revision_text_Cons, simp add: revision_text_def)
next
  case (Cons p ps)
  then obtain q qs' where qs: "qs = q # qs'"
    by (cases qs) (simp_all add: revision_text_Cons, simp add: revision_text_def)
  with Cons.prems have "FormatInt (int (length p)) = FormatInt (int (length q))"
    and rest: "p @ revision_text ps = q @ revision_text qs'"
    by (simp_all add: revision_text_Cons append_sep_eq FormatInt_no_colon)
  then have "length p = length q" using FormatInt_inj by fastforce
  with rest Cons.IH qs show ?case by simp
qed

subsection \<open>The ring of counted observations\<close>

text \<open>Every identifier in the ring is marked, and stands there once.\<close>

definition ring_ok :: "upstream_control \<Rightarrow> bool" where
  "ring_ok c \<longleftrightarrow> nextID c < 1024 \<and> (\<forall>p. id_at c p \<noteq> [] \<longrightarrow> id_at c p \<in> seen c \<and> (\<forall>q. q \<noteq> p \<longrightarrow> id_at c q \<noteq> id_at c p))"

text \<open>The newest identifiers of \<open>xs\<close>, newest first, are the last slots written.\<close>

definition ring_holds :: "upstream_control \<Rightarrow> string list \<Rightarrow> bool" where
  "ring_holds c xs \<longleftrightarrow> (\<forall>k < min 1024 (length xs). id_at c ((nextID c + 1023 - k) mod 1024) = xs ! k)"

lemma ring_ok_new [simp]: "ring_ok (new_control r)"
  by (simp add: ring_ok_def new_control_def id_at_def)

lemma ring_holds_Nil [simp]: "ring_holds c []"
  by (simp add: ring_holds_def)

lemma ring_cong:
  assumes "seen d = seen c" "ids d = ids c" "nextID d = nextID c"
  shows "ring_ok d = ring_ok c" and "ring_holds d xs = ring_holds c xs"
  using assms by (simp_all add: ring_ok_def ring_holds_def id_at_def)

lemma id_at_remember: "id_at (remember c x) p = (if p = nextID c then x else id_at c p)"
  by (simp add: id_at_def remember_def)

lemma id_at_forget: "id_at (forget c x) p = (if p = (nextID c + 1023) mod 1024 then [] else id_at c p)"
  by (simp add: id_at_def forget_def)

lemma ring_ok_remember:
  assumes "ring_ok c" "x \<notin> seen c"
  shows "ring_ok (remember c x)"
  using assms unfolding ring_ok_def id_at_remember by (auto simp: remember_def)

lemma ring_ok_forget:
  assumes "ring_ok c" "id_at c ((nextID c + 1023) mod 1024) = x"
  shows "ring_ok (forget c x)"
  using assms unfolding ring_ok_def id_at_forget by (auto simp: forget_def)

lemma slot_pos:
  fixes n k :: nat
  assumes "n < 1024" "k < 1024"
  shows "(n + 1023 - k) mod 1024 = (if k < n then n - 1 - k else n + 1023 - k)"
proof (cases "k < n")
  case True
  with assms have "n + 1023 - k = (n - 1 - k) + 1024" "n - 1 - k < 1024" by simp_all
  with True show ?thesis by (simp only: mod_add_self2 mod_less if_True)
qed (use assms in simp)

lemma succ_pos: "n < 1024 \<Longrightarrow> (n + 1) mod 1024 = (if n = 1023 then 0 else n + 1)" for n :: nat
  by (cases "n = 1023") simp_all

lemma slot_before: "n < 1024 \<Longrightarrow> k < 1023 \<Longrightarrow> ((n + 1) mod 1024 + 1023 - Suc k) mod 1024 = (n + 1023 - k) mod 1024"
  for n k :: nat
proof -
  assume n: "n < 1024" and k: "k < 1023"
  then have "((n + 1) mod 1024 + 1023 - Suc k) mod 1024
      = (if Suc k < (n + 1) mod 1024 then (n + 1) mod 1024 - 1 - Suc k else (n + 1) mod 1024 + 1023 - Suc k)"
    by (intro slot_pos) simp_all
  also have "\<dots> = (if k < n then n - 1 - k else n + 1023 - k)"
    using n k unfolding succ_pos [OF n] by auto
  also have "\<dots> = (n + 1023 - k) mod 1024"
    using n k by (intro slot_pos [symmetric]) simp_all
  finally show ?thesis .
qed

lemma slot_differs: "n < 1024 \<Longrightarrow> k < 1023 \<Longrightarrow> (n + 1023 - k) mod 1024 \<noteq> n" for n k :: nat
  by (subst slot_pos) auto

lemma slot_last: "n < 1024 \<Longrightarrow> ((n + 1) mod 1024 + 1023) mod 1024 = n" for n :: nat
  by (cases "n = 1023"; simp only: succ_pos if_True if_False) simp_all

lemma slot_first: "n < 1024 \<Longrightarrow> k < 1023 \<Longrightarrow> (n + 1023 - Suc k) mod 1024 \<noteq> (n + 1023) mod 1024" for n k :: nat
proof -
  assume n: "n < 1024" and k: "k < 1023"
  have "(n + 1023 - 0) mod 1024 = (if 0 < n then n - 1 - 0 else n + 1023 - 0)"
    by (rule slot_pos [OF n]) simp
  moreover have "(n + 1023 - Suc k) mod 1024 = (if Suc k < n then n - 1 - Suc k else n + 1023 - Suc k)"
    using k by (intro slot_pos [OF n]) simp
  ultimately show ?thesis using n k by (simp only: diff_zero split: if_split) arith
qed

lemma ring_holds_remember:
  assumes "ring_ok c" "ring_holds c xs"
  shows "ring_holds (remember c x) (x # xs)"
  unfolding ring_holds_def
proof (intro allI impI)
  fix k assume k: "k < min 1024 (length (x # xs))"
  have n: "nextID c < 1024" and n': "nextID (remember c x) = (nextID c + 1) mod 1024"
    using assms(1) by (simp_all add: ring_ok_def remember_def)
  show "id_at (remember c x) ((nextID (remember c x) + 1023 - k) mod 1024) = (x # xs) ! k"
  proof (cases k)
    case 0
    with n n' show ?thesis by (simp only: slot_last id_at_remember diff_zero nth_Cons_0 if_True refl)
  next
    case (Suc j)
    with k assms(2) have "id_at c ((nextID c + 1023 - j) mod 1024) = xs ! j" and j: "j < 1023"
      by (auto simp: ring_holds_def)
    then show ?thesis
      using Suc slot_before [OF n j] slot_differs [OF n j] by (simp only: n' id_at_remember nth_Cons_Suc if_False)
  qed
qed

lemma ring_holds_forget:
  assumes "ring_ok c" "ring_holds c (x # xs)"
  shows "ring_holds (forget c x) ([] # xs)"
  unfolding ring_holds_def
proof (intro allI impI)
  fix k assume k: "k < min 1024 (length ([] # xs))"
  have n': "nextID (forget c x) = nextID c" by (simp add: forget_def)
  have n: "nextID c < 1024" using assms(1) by (simp add: ring_ok_def)
  show "id_at (forget c x) ((nextID (forget c x) + 1023 - k) mod 1024) = ([] # xs) ! k"
  proof (cases k)
    case 0
    then show ?thesis by (simp add: n' id_at_forget)
  next
    case (Suc j)
    with k assms(2) have "id_at c ((nextID c + 1023 - Suc j) mod 1024) = (x # xs) ! Suc j" and j: "j < 1023"
      using spec [OF assms(2) [unfolded ring_holds_def], of "Suc j"] by simp_all
    with Suc slot_first [OF n j] show ?thesis by (simp only: n' id_at_forget if_False nth_Cons_Suc)
  qed
qed

lemma quarantine_ring [simp]:
  "seen (quarantine c ob tm) = seen c" "ids (quarantine c ob tm) = ids c"
  "nextID (quarantine c ob tm) = nextID c" "revision (quarantine c ob tm) = revision c"
  "probeID (quarantine c ob tm) = probeID c" "incidentAt (quarantine c ob tm) = incidentAt c"
  "recoverySuccesses (quarantine c ob tm) = recoverySuccesses c"
  by (simp_all add: quarantine_def Let_def)

lemma accept_True:
  assumes "accept c ob h tm = (True, d)"
  shows "ConfigurationRevision ob = revision c" "incidentAt c \<le> StartedAt ob" "ObservationID ob \<notin> seen c"
    and "d = quarantine (remember c (ObservationID ob)) ob tm"
    and "h \<Longrightarrow> probeID c \<noteq> [] \<and> ProbeID ob = probeID c" "\<not> h \<Longrightarrow> ProbeID ob = []"
  using assms by (auto simp: accept_def split: if_split_asm)

lemma accept_False: "accept c ob h tm = (False, d) \<Longrightarrow> d = c"
  by (auto simp: accept_def split: if_split_asm)

lemma accept_same [simp]:
  assumes "accept c ob h tm = (b, d)"
  shows "revision d = revision c" "probeID d = probeID c" "incidentAt d = incidentAt c"
    "recoverySuccesses d = recoverySuccesses c"
  using assms accept_True(4) [of c ob h tm d] accept_False [of c ob h tm d]
  by (cases b; simp add: remember_def)+

lemma accept_ring:
  assumes "accept c ob h tm = (True, d)" "ring_ok c" "ring_holds c xs"
  shows "ring_ok d" and "ring_holds d (ObservationID ob # xs)"
    and "ObservationID ob = [] \<or> ObservationID ob \<notin> set (take 1024 xs)"
proof -
  note a = accept_True [OF assms(1)]
  let ?x = "ObservationID ob"
  have same: "seen d = seen (remember c ?x)" "ids d = ids (remember c ?x)" "nextID d = nextID (remember c ?x)"
    by (simp_all add: a(4))
  from ring_ok_remember [OF assms(2) a(3)] ring_holds_remember [OF assms(2,3)]
  show "ring_ok d" "ring_holds d (?x # xs)" by (simp_all add: ring_cong [OF same])
  show "?x = [] \<or> ?x \<notin> set (take 1024 xs)"
  proof (rule ccontr)
    assume "\<not> (?x = [] \<or> ?x \<notin> set (take 1024 xs))"
    then obtain k where "k < min 1024 (length xs)" "xs ! k = ?x" "?x \<noteq> []"
      by (auto simp: in_set_conv_nth)
    with assms(2,3) have "?x \<in> seen c" by (metis ring_holds_def ring_ok_def)
    with a(3) show False by simp
  qed
qed

lemma forget_ring:
  assumes "ring_ok c" "ring_holds c (x # xs)"
  shows "ring_ok (forget c x)" and "ring_holds (forget c x) ([] # xs)"
proof -
  from assms(2) have "id_at c ((nextID c + 1023) mod 1024) = x" by (fastforce simp: ring_holds_def)
  with assms(1) show "ring_ok (forget c x)" by (rule ring_ok_forget)
  show "ring_holds (forget c x) ([] # xs)" by (rule ring_holds_forget [OF assms])
qed

end
