(* ===== verification/Source_Breaker.thy ===== *)
theory Source_Breaker
  imports Source_Control
begin

text \<open>
  The circuit breaker and the weighting both selectors of the channel service give a routing source:
  the fields \<open>channelState\<close> (\<open>selector.go\<close>) and \<open>accountState\<close> (\<open>account_selector.go\<close>) share, with
  the functions the two files repeat line by line. \<open>tm\<close> is the clock reading of the operation.
  The lemmas say which operation can move the breaker of a source, and from where.
\<close>

subsection \<open>State\<close>

record source_state =
  control :: upstream_control
  slots :: slot_leases
  consecutiveFailures :: int
  failureThreshold :: int
  sourceWeight :: int
  currentWeight :: int64
  recentErrors :: sliding_counter
  maxConcurrent :: int
  circuitOpenUntil :: int64
  circuitProbeUntil :: int64

definition circuitBreakerOpenDuration :: int64 where
  "circuitBreakerOpenDuration = 30000000000"

definition breakerState :: "source_state \<Rightarrow> int64 \<Rightarrow> circuit_state" where
  "breakerState st tm =
     (if circuitOpenUntil st \<le> 0 then circuitClosed
      else if circuitOpenUntil st = circuitHalfOpenSentinel then circuitHalfOpen
      else if tm < circuitOpenUntil st then circuitOpen
      else circuitHalfOpen)"

definition trip :: "source_state \<Rightarrow> int64 \<Rightarrow> source_state" where
  "trip st tm = st\<lparr>circuitOpenUntil := tm + circuitBreakerOpenDuration, control := (control st)\<lparr>incidentAt := tm\<rparr>\<rparr>"

text \<open>\<open>Rate\<close> and \<open>Total\<close> drop the seconds that have left the window; \<open>tidy\<close> is that effect.\<close>

definition tidy :: "source_state \<Rightarrow> int64 \<Rightarrow> source_state" where
  "tidy st tm = st\<lparr>recentErrors := sc_cleanup (recentErrors st) (unix_seconds tm)\<rparr>"

subsection \<open>Outcomes\<close>

definition updateCircuitBreaker :: "source_state \<Rightarrow> int64 \<Rightarrow> source_state" where
  "updateCircuitBreaker st tm =
     (if breakerState st tm \<noteq> circuitClosed then st
      else let threshold = (if failureThreshold st \<le> 0 then 5 else failureThreshold st) in
        if threshold \<le> consecutiveFailures st then trip st tm
        else let s1 = tidy st tm in
          if 10 \<le> sc_Total (recentErrors s1) tm \<and> f_less (fround (1 / 2)) (sc_Rate (recentErrors s1) tm)
          then trip s1 tm else s1)"

definition recordBreakerOutcome :: "source_state \<Rightarrow> bool \<Rightarrow> int64 \<Rightarrow> source_state" where
  "recordBreakerOutcome st success tm =
     (if breakerState st tm \<noteq> circuitHalfOpen \<or> probeID (control st) \<noteq> [] then st
      else if success then st\<lparr>circuitProbeUntil := 0, control := (control st)\<lparr>recoverySuccesses := 1\<rparr>,
        recentErrors := NewSlidingCounter 60, consecutiveFailures := 0, circuitOpenUntil := 0\<rparr>
      else trip (st\<lparr>circuitProbeUntil := 0\<rparr>) tm)"

definition relapse :: "source_state \<Rightarrow> int64 \<Rightarrow> source_state" where
  "relapse st tm = st\<lparr>control := (control st)\<lparr>recoverySuccesses := 0, incidentAt := tm\<rparr>,
     circuitOpenUntil := tm + circuitBreakerOpenDuration\<rparr>"

definition count_outcome :: "source_state \<Rightarrow> bool \<Rightarrow> int64 \<Rightarrow> source_state" where
  "count_outcome st success tm =
     (let s1 = st\<lparr>recentErrors := RecordOutcome (recentErrors st) success tm\<rparr>;
          s2 = (if \<not> success \<and> 0 < recoverySuccesses (control s1) \<and> recoverySuccesses (control s1) < 5
                then relapse s1 tm else s1)
      in s2\<lparr>consecutiveFailures := if success then 0 else consecutiveFailures s2 + 1\<rparr>)"

definition recordSourceHealth :: "source_state \<Rightarrow> bool \<Rightarrow> int64 \<Rightarrow> source_state" where
  "recordSourceHealth st success tm =
     updateCircuitBreaker (recordBreakerOutcome (count_outcome st success tm) success tm) tm"

text \<open>\<open>stored\<close> is the error of the write, \<open>None\<close> when it succeeds or there is nothing to write.\<close>

definition recordObservation :: "source_state \<Rightarrow> observation \<Rightarrow> int64 \<Rightarrow> 'e option \<Rightarrow> (bool \<times> 'e option) \<times> source_state" where
  "recordObservation st ob tm stored =
     (let halfOpen = (breakerState st tm = circuitHalfOpen) in
      if breakerState st tm = circuitOpen \<and> Outcome ob \<noteq> HealthNeutral then ((False, None), st)
      else if halfOpen \<and> circuitProbeUntil st \<le> tm then ((False, None), st)
      else case accept (control st) ob halfOpen tm of (ok, c) \<Rightarrow>
        if \<not> ok then ((False, None), st\<lparr>control := c\<rparr>)
        else if Outcome ob = HealthNeutral then
          ((True, None), if ProbeID ob \<noteq> [] then st\<lparr>control := c\<lparr>probeID := []\<rparr>, circuitProbeUntil := tm\<rparr>
             else st\<lparr>control := c\<rparr>)
        else if stored \<noteq> None then ((False, stored), st\<lparr>control := forget c (ObservationID ob)\<rparr>)
        else let s1 = recordSourceHealth (st\<lparr>control := c\<lparr>probeID := []\<rparr>\<rparr>) (Outcome ob = HealthSuccess) tm in
          ((True, None),
           if \<not> halfOpen \<and> Outcome ob = HealthSuccess \<and> 0 < recoverySuccesses (control s1)
           then s1\<lparr>control := (control s1)\<lparr>recoverySuccesses := min 5 (recoverySuccesses (control s1) + 1)\<rparr>\<rparr>
           else s1))"

text \<open>A legacy report: ignored unless the breaker is closed and no recovery is under way.\<close>

definition ignores_health :: "source_state \<Rightarrow> int64 \<Rightarrow> bool" where
  "ignores_health st tm \<longleftrightarrow> breakerState st tm \<noteq> circuitClosed \<or> 0 < recoverySuccesses (control st)"

subsection \<open>Configuration, slots and claims\<close>

definition refreshSource :: "source_state \<Rightarrow> string \<Rightarrow> source_state" where
  "refreshSource st rev' = (case refresh (control st) rev' of (changed, c) \<Rightarrow>
     if changed then st\<lparr>control := c, consecutiveFailures := 0, recentErrors := NewSlidingCounter 60,
       circuitOpenUntil := 0, circuitProbeUntil := 0\<rparr>
     else st\<lparr>control := c\<rparr>)"

definition reapSource :: "source_state \<Rightarrow> int64 \<Rightarrow> source_state" where
  "reapSource st tm = st\<lparr>slots := reapSlotLeases (slots st) tm\<rparr>"

definition reportSlot :: "source_state \<Rightarrow> string \<Rightarrow> bool \<Rightarrow> int \<Rightarrow> int64 \<Rightarrow> bool \<times> source_state" where
  "reportSlot st slotID acquired limit tm = (case recordSlot (slots st) slotID acquired limit tm of (ok, l) \<Rightarrow>
     (ok, if ok \<and> acquired \<and> slotID = probeID (control st) \<and> slotID \<noteq> [] \<and> tm < circuitProbeUntil st
          then st\<lparr>slots := l, circuitProbeUntil := tm + circuitBreakerProbeLeaseDuration\<rparr>
          else st\<lparr>slots := l\<rparr>))"

definition claimSource :: "source_state \<Rightarrow> execution_claim \<Rightarrow> source_error \<Rightarrow> int64 \<Rightarrow> string
    \<Rightarrow> (source_error + execution_lease) \<times> source_state" where
  "claimSource st cl unavailable tm uuid =
     (case claimUpstreamExecution (control st) cl (breakerState st tm) (circuitOpenUntil st) (circuitProbeUntil st)
        unavailable tm uuid of (res, c, openUntil, probeUntil) \<Rightarrow>
      (res, st\<lparr>control := c, circuitOpenUntil := openUntil, circuitProbeUntil := probeUntil\<rparr>))"

subsection \<open>Weights\<close>

definition healthFactor :: "source_state \<Rightarrow> int64 \<Rightarrow> int" where
  "healthFactor st tm = (let r = sc_Rate (recentErrors st) tm in
     if f_less r (fround (1 / 100)) then 100
     else if f_less r (fround (5 / 100)) then 80
     else if f_less r (fround (10 / 100)) then 50
     else if f_less r (fround (30 / 100)) then 20 else 1)"

definition utilisation_band :: "int \<Rightarrow> int \<Rightarrow> int" where
  "utilisation_band n mx = (let util = f_div (f_of_int n) (f_of_int mx) in
     if f_less util (fround (4 / 10)) then 100
     else if f_less util (fround (6 / 10)) then 80
     else if f_less util (fround (75 / 100)) then 50
     else if f_less util (fround (9 / 10)) then 20 else 1)"

definition loadFactor :: "source_state \<Rightarrow> int" where
  "loadFactor st = (if maxConcurrent st \<le> 0 then 100
     else if inflight (slots st) \<le> 0 then 100 else utilisation_band (inflight (slots st)) (maxConcurrent st))"

text \<open>What \<open>Select\<close> refuses: a blocked source or one without capacity, an open or probed breaker.\<close>

definition quarantined :: "source_state \<Rightarrow> string \<Rightarrow> int64 \<Rightarrow> bool" where
  "quarantined st model tm \<longleftrightarrow> blocked (control st) model tm \<or> tm < capacityUntil (control st)"

definition fenced :: "source_state \<Rightarrow> int64 \<Rightarrow> bool" where
  "fenced st tm \<longleftrightarrow> breakerState st tm = circuitOpen
     \<or> circuitOpenUntil st = circuitHalfOpenSentinel \<and> tm < circuitProbeUntil st"

definition admissible :: "source_state \<Rightarrow> string \<Rightarrow> int64 \<Rightarrow> bool" where
  "admissible st model tm \<longleftrightarrow> \<not> quarantined st model tm \<and> \<not> fenced st tm"

text \<open>The chosen source opens for one probe when its breaker is half open.\<close>

definition arm :: "source_state \<Rightarrow> int64 \<Rightarrow> string \<Rightarrow> source_state" where
  "arm st tm uuid = (if breakerState st tm = circuitHalfOpen
     then st\<lparr>circuitOpenUntil := circuitHalfOpenSentinel,
            circuitProbeUntil := tm + circuitBreakerProbeLeaseDuration,
            control := (control st)\<lparr>probeID := uuid\<rparr>\<rparr>
     else st)"

end
