(* ===== verification/Channel_Selector.thy ===== *)
theory Channel_Selector
  imports Source_Breaker
begin

text \<open>
  The channel selector of the channel service (\<open>WeightedSelector\<close>, \<open>selector.go\<close>), its observations
  (\<open>upstream_control.go\<close>) and the leases it grants (\<open>upstream_execution.go\<close>). \<open>channels\<close> is the map
  from channel id to runtime state; a candidate \<open>None\<close> is a nil pointer. \<open>tm\<close> is the clock reading of
  the operation, \<open>uuid\<close> the value \<open>uuid.NewString\<close> returns in it, \<open>sha\<close> the hex form of SHA-256.
\<close>

subsection \<open>Channels\<close>

record chan =
  ch_ID :: int64
  ch_Type :: int
  ch_Status :: int
  ch_BaseURL :: string
  ch_Key :: string
  ch_APIVersion :: string
  ch_ModelMapping :: string
  ch_UpstreamModelID :: string
  ch_Weight :: int
  ch_Priority :: int64
  ch_HealthStatus :: string
  ch_CircuitOpenedUntil :: int64
  ch_HealthProbeID :: string

definition ChannelRevision :: "(string \<Rightarrow> string) \<Rightarrow> chan \<Rightarrow> string" where
  "ChannelRevision sha c =
     ConfigurationRevisionOf sha [FormatInt (ch_Type c), ch_BaseURL c, ch_Key c, ch_APIVersion c, ch_ModelMapping c]"

definition EffectiveHealthStatus :: "chan \<Rightarrow> string" where
  "EffectiveHealthStatus c = (if trim_space (ch_HealthStatus c) = [] then ''healthy'' else ch_HealthStatus c)"

definition SelectableAt :: "chan option \<Rightarrow> int64 \<Rightarrow> bool" where
  "SelectableAt co unix = (case co of None \<Rightarrow> False | Some c \<Rightarrow>
     if ch_Status c \<noteq> 1 then False
     else if EffectiveHealthStatus c \<noteq> ''unavailable'' then True
     else 0 < ch_CircuitOpenedUntil c \<and> ch_CircuitOpenedUntil c \<le> unix)"

subsection \<open>State\<close>

record channel_state =
  src :: source_state
  chan_of :: chan
  recentLatency :: sliding_window
  lastFailure :: int64

record weighted_selector =
  sel_failureThreshold :: int
  channels :: "(int64 \<times> channel_state) list"

definition NewWeightedSelector :: "int \<Rightarrow> weighted_selector" where
  "NewWeightedSelector threshold = \<lparr>sel_failureThreshold = threshold, channels = []\<rparr>"

definition configuredSelectorWeight :: "chan \<Rightarrow> int" where
  "configuredSelectorWeight c =
     (if 0 < ch_Weight c then IntToInt32Saturating (ch_Weight c)
      else if 0 < ch_Priority c then IntToInt32Saturating (ch_Priority c)
      else 1)"

definition selectorCircuitOpenUntil :: "chan \<Rightarrow> int64" where
  "selectorCircuitOpenUntil c =
     (if ch_CircuitOpenedUntil c \<le> 0 then 0 else wrap64 (ch_CircuitOpenedUntil c * 1000000000))"

definition reopen_from_store :: "source_state \<Rightarrow> chan \<Rightarrow> int64 \<Rightarrow> source_state" where
  "reopen_from_store st c tm = (let openUntil = selectorCircuitOpenUntil c in
     if circuitOpenUntil st < openUntil then
       let s1 = st\<lparr>circuitOpenUntil := openUntil\<rparr> in
       if tm < openUntil then s1\<lparr>control := (control s1)\<lparr>incidentAt := tm\<rparr>\<rparr> else s1
     else st)"

definition update_existing :: "(string \<Rightarrow> string) \<Rightarrow> channel_state \<Rightarrow> chan \<Rightarrow> int64 \<Rightarrow> channel_state" where
  "update_existing sha cs c tm = cs\<lparr>
     src := reopen_from_store ((refreshSource (src cs) (ChannelRevision sha c))\<lparr>sourceWeight := configuredSelectorWeight c\<rparr>) c tm,
     chan_of := c\<rparr>"

definition fresh_channel :: "(string \<Rightarrow> string) \<Rightarrow> int \<Rightarrow> chan \<Rightarrow> channel_state" where
  "fresh_channel sha threshold c = \<lparr>
     src = \<lparr>control = new_control (ChannelRevision sha c), slots = no_slots, consecutiveFailures = 0,
       failureThreshold = threshold, sourceWeight = configuredSelectorWeight c, currentWeight = 0,
       recentErrors = NewSlidingCounter 60, maxConcurrent = 100,
       circuitOpenUntil = selectorCircuitOpenUntil c, circuitProbeUntil = 0\<rparr>,
     chan_of = c, recentLatency = NewSlidingWindow 100, lastFailure = 0\<rparr>"

definition updateChannelLocked :: "(string \<Rightarrow> string) \<Rightarrow> weighted_selector \<Rightarrow> chan \<Rightarrow> int64 \<Rightarrow> weighted_selector" where
  "updateChannelLocked sha s c tm = s\<lparr>channels := put (ch_ID c) (case map_of (channels s) (ch_ID c) of
       Some cs \<Rightarrow> update_existing sha cs c tm
     | None \<Rightarrow> fresh_channel sha (sel_failureThreshold s) c) (channels s)\<rparr>"

definition RemoveChannel :: "weighted_selector \<Rightarrow> int64 \<Rightarrow> weighted_selector" where
  "RemoveChannel s i = s\<lparr>channels := remove_key i (channels s)\<rparr>"

text \<open>Writing through the pointer \<open>state\<close> of a channel.\<close>

definition set_channel :: "weighted_selector \<Rightarrow> int64 \<Rightarrow> channel_state \<Rightarrow> weighted_selector" where
  "set_channel s i cs = s\<lparr>channels := put i cs (channels s)\<rparr>"

subsection \<open>Select\<close>

definition latencyFactor :: "channel_state \<Rightarrow> int" where
  "latencyFactor cs = (let p = P95 (recentLatency cs) in
     if p < 500000000 then 100 else if p < 2000000000 then 80 else if p < 5000000000 then 50 else 20)"

definition channelEffectiveWeight :: "channel_state \<Rightarrow> int64 \<Rightarrow> int64" where
  "channelEffectiveWeight cs tm = sourceWeight (src cs) * healthFactor (src cs) tm * latencyFactor cs
     * loadFactor (src cs) * recoveryFactor (control (src cs)) div 100"

definition has_room :: "source_state \<Rightarrow> bool" where
  "has_room st \<longleftrightarrow> inflight (slots st) < maxConcurrent st"

text \<open>One candidate of the first loop: the leases are reaped, and if it is eligible its weight grows;
  \<open>best\<close> is the id of the best channel so far with its current weight.\<close>

definition offer :: "int64 \<Rightarrow> chan \<Rightarrow> weighted_selector \<times> (int64 \<times> int64) option
    \<Rightarrow> weighted_selector \<times> (int64 \<times> int64) option" where
  "offer tm c acc = (case acc of (s, best) \<Rightarrow>
     case map_of (channels s) (ch_ID c) of
       None \<Rightarrow> (s, best)
     | Some cs0 \<Rightarrow>
         let cs = cs0\<lparr>src := reapSource (src cs0) tm\<rparr> in
         if \<not> admissible (src cs) (ch_UpstreamModelID c) tm \<or> \<not> has_room (src cs)
         then (set_channel s (ch_ID c) cs, best)
         else let w = wrap64 (currentWeight (src cs) + channelEffectiveWeight cs tm);
                  cs' = cs\<lparr>src := (tidy (src cs) tm)\<lparr>currentWeight := w\<rparr>\<rparr>
           in (set_channel s (ch_ID c) cs',
               if (case best of None \<Rightarrow> MinInt64 | Some (_, bw) \<Rightarrow> bw) < w then Some (ch_ID c, w) else best))"

definition totalEffectiveWeight :: "weighted_selector \<Rightarrow> chan option list \<Rightarrow> int64 \<Rightarrow> int64" where
  "totalEffectiveWeight s cands tm = fold (\<lambda>co W. case co of None \<Rightarrow> W | Some c \<Rightarrow>
     case map_of (channels s) (ch_ID c) of None \<Rightarrow> W | Some cs \<Rightarrow>
       if \<not> admissible (src cs) (ch_UpstreamModelID c) tm \<or> \<not> has_room (src cs) then W
       else wrap64 (W + channelEffectiveWeight cs tm)) cands 0"

text \<open>A candidate that is only out of capacity turns \<open>not found\<close> into \<open>rate limit\<close>.\<close>

definition rate_limited :: "weighted_selector \<Rightarrow> chan \<Rightarrow> int64 \<Rightarrow> bool" where
  "rate_limited s c tm \<longleftrightarrow> (case map_of (channels s) (ch_ID c) of None \<Rightarrow> False | Some cs \<Rightarrow>
     tm < capacityUntil (control (src cs)) \<and> \<not> blocked (control (src cs)) (ch_UpstreamModelID c) tm)"

definition present :: "chan option list \<Rightarrow> chan list" where
  "present cands = map the (filter (\<lambda>co. co \<noteq> None) cands)"

definition refreshed :: "(string \<Rightarrow> string) \<Rightarrow> weighted_selector \<Rightarrow> chan option list \<Rightarrow> int64 \<Rightarrow> weighted_selector" where
  "refreshed sha s cands tm = fold (\<lambda>c s. updateChannelLocked sha s c tm) (present cands) s"

text \<open>The end of \<open>Select\<close> for the best channel \<open>i\<close>: it pays the total weight and opens for its probe.\<close>

definition settle_choice :: "weighted_selector \<Rightarrow> chan option list \<Rightarrow> int64 \<Rightarrow> string \<Rightarrow> int64 \<Rightarrow> chan \<times> weighted_selector" where
  "settle_choice s cands tm uuid i =
     (let W = totalEffectiveWeight s cands tm;
          b = the (map_of (channels s) i);
          b1 = (if 0 < W then b\<lparr>src := (src b)\<lparr>currentWeight := wrap64 (currentWeight (src b) - W)\<rparr>\<rparr> else b);
          b2 = b1\<lparr>src := arm (src b1) tm uuid\<rparr>
      in ((chan_of b2)\<lparr>ch_HealthProbeID := probeID (control (src b2))\<rparr>, set_channel s i b2))"

definition SelectWeighted :: "(string \<Rightarrow> string) \<Rightarrow> weighted_selector \<Rightarrow> chan option list \<Rightarrow> int64 \<Rightarrow> string
    \<Rightarrow> (source_error + chan) \<times> weighted_selector" where
  "SelectWeighted sha s cands tm uuid =
     (if cands = [] then (Inl ErrChannelNotFound, s)
      else case fold (offer tm) (present cands) (refreshed sha s cands tm, None) of (s2, best) \<Rightarrow>
        case best of
          None \<Rightarrow> (Inl (if \<exists>c \<in> set (present cands). rate_limited s2 c tm
             then ErrUpstreamRateLimit else ErrChannelNotFound), s2)
        | Some (i, _) \<Rightarrow> case settle_choice s2 cands tm uuid i of (c, s3) \<Rightarrow> (Inr c, s3))"

subsection \<open>Reports\<close>

text \<open>The zero \<open>Channel\<close> with an id, which \<open>RecordSlot\<close> installs for an unknown channel.\<close>

definition bare_channel :: "int64 \<Rightarrow> chan" where
  "bare_channel i = \<lparr>ch_ID = i, ch_Type = 0, ch_Status = 0, ch_BaseURL = [], ch_Key = [], ch_APIVersion = [],
     ch_ModelMapping = [], ch_UpstreamModelID = [], ch_Weight = 0, ch_Priority = 0, ch_HealthStatus = [],
     ch_CircuitOpenedUntil = 0, ch_HealthProbeID = []\<rparr>"

definition RecordSlot :: "(string \<Rightarrow> string) \<Rightarrow> weighted_selector \<Rightarrow> int64 \<Rightarrow> string \<Rightarrow> bool \<Rightarrow> int64
    \<Rightarrow> bool \<times> weighted_selector" where
  "RecordSlot sha s i slotID acquired tm =
     (if i \<le> 0 \<or> slotID = [] then (False, s)
      else let s1 = (if map_of (channels s) i = None then updateChannelLocked sha s (bare_channel i) tm else s);
               cs = the (map_of (channels s1) i)
        in case reportSlot (src cs) slotID acquired (maxConcurrent (src cs)) tm of (ok, st) \<Rightarrow>
          (ok, set_channel s1 i (cs\<lparr>src := st\<rparr>)))"

text \<open>The part of \<open>recordHealth\<close> only channels have.\<close>

definition measure_outcome :: "channel_state \<Rightarrow> bool \<Rightarrow> int64 \<Rightarrow> int64 \<Rightarrow> channel_state" where
  "measure_outcome cs success latency tm = cs\<lparr>recentLatency := sw_Add (recentLatency cs) latency,
     lastFailure := if success then lastFailure cs else tm\<rparr>"

definition RecordHealth :: "weighted_selector \<Rightarrow> int64 \<Rightarrow> bool \<Rightarrow> int64 \<Rightarrow> int64 \<Rightarrow> weighted_selector" where
  "RecordHealth s i success latency tm = (case map_of (channels s) i of None \<Rightarrow> s | Some cs \<Rightarrow>
     if ignores_health (src cs) tm then s
     else set_channel s i ((measure_outcome cs success latency tm)\<lparr>src := recordSourceHealth (src cs) success tm\<rparr>))"

definition observe_channel :: "weighted_selector \<Rightarrow> observation \<Rightarrow> int64 \<Rightarrow> 'e option
    \<Rightarrow> (bool \<times> 'e option) \<times> weighted_selector" where
  "observe_channel s ob tm stored = (case map_of (channels s) (ObservedID ob) of None \<Rightarrow> ((False, None), s)
   | Some cs \<Rightarrow> case recordObservation (src cs) ob tm stored of (res, st) \<Rightarrow>
       (res, set_channel s (ObservedID ob)
          ((if fst res \<and> Outcome ob \<noteq> HealthNeutral
            then measure_outcome cs (Outcome ob = HealthSuccess) (ResponseTime ob) tm else cs)\<lparr>src := st\<rparr>)))"

text \<open>\<open>found\<close> is what the repository returned for the claimed channel.\<close>

definition claim_channel :: "(string \<Rightarrow> string) \<Rightarrow> weighted_selector \<Rightarrow> execution_claim \<Rightarrow> chan option \<Rightarrow> int64
    \<Rightarrow> string \<Rightarrow> (source_error + execution_lease) \<times> weighted_selector" where
  "claim_channel sha s cl found tm uuid =
     (case found of None \<Rightarrow> (Inl ErrChannelNotFound, s)
      | Some c \<Rightarrow>
        if cl_ConfigurationRevision cl \<noteq> ChannelRevision sha c \<or> \<not> SelectableAt found (unix_seconds tm)
        then (Inl ErrChannelNotFound, s)
        else let s1 = updateChannelLocked sha s c tm; cs = the (map_of (channels s1) (ch_ID c)) in
          case claimSource (src cs) cl ErrChannelNotFound tm uuid of (res, st) \<Rightarrow>
            (res, set_channel s1 (ch_ID c) (cs\<lparr>src := st\<rparr>)))"

end
