(* ===== verification/Source_Machine.thy ===== *)
theory Source_Machine
  imports Source_Breaker
begin

text \<open>
  The state machine of one routing source, which both selectors of the channel service refine: what
  an operation can do to a source whose configuration stays. The invariants are proved here once by
  rule induction; the locale \<open>source_owner\<close> carries them to a selector that simulates the machine.
\<close>

subsection \<open>Steps\<close>

text \<open>\<open>Chosen\<close> and \<open>Leased\<close> admit an execution; their last argument is the probe that goes with it.
  \<open>Observed\<close> carries whether the observation counted and whether its storage failed.\<close>

datatype source_event = Quiet | Reopened | SlotReported | Chosen string | HealthReported bool
  | Observed observation bool bool | Leased execution_claim string

fun visible :: "source_event \<Rightarrow> bool" where
  "visible (Chosen p) \<longleftrightarrow> True"
| "visible (Observed ob ok failed) \<longleftrightarrow> True"
| "visible (Leased cl p) \<longleftrightarrow> True"
| "visible e \<longleftrightarrow> False"

inductive source_step :: "int64 \<Rightarrow> source_event \<Rightarrow> source_state \<Rightarrow> source_state \<Rightarrow> bool" for tm where
  quiet: "control st' = control st \<Longrightarrow> circuitOpenUntil st' = circuitOpenUntil st \<Longrightarrow>
     circuitProbeUntil st' = circuitProbeUntil st \<Longrightarrow> source_step tm Quiet st st'"
| reopened: "circuitOpenUntil st < u \<Longrightarrow> u \<le> MaxInt64 \<Longrightarrow> t \<in> {incidentAt (control st), tm} \<Longrightarrow>
     source_step tm Reopened st (st\<lparr>circuitOpenUntil := u, control := (control st)\<lparr>incidentAt := t\<rparr>\<rparr>)"
| slot: "reportSlot st slotID acquired limit tm = (ok, st') \<Longrightarrow> source_step tm SlotReported st st'"
| chosen: "admissible st model tm \<Longrightarrow>
     source_step tm (Chosen (probeID (control (arm st tm uuid)))) st (arm st tm uuid)"
| health: "\<not> ignores_health st tm \<Longrightarrow> source_step tm (HealthReported success) st (recordSourceHealth st success tm)"
| observed: "recordObservation st ob tm (stored :: string option) = ((ok, err), st') \<Longrightarrow>
     source_step tm (Observed ob ok (err \<noteq> None)) st st'"
| leased: "claimSource st cl unavailable tm uuid = (Inr lease, st') \<Longrightarrow>
     source_step tm (Leased cl (ls_ProbeID lease)) st st'"

inductive_cases ChosenE: "source_step tm (Chosen p) st st'"
inductive_cases LeasedE: "source_step tm (Leased cl p) st st'"
inductive_cases ObservedE: "source_step tm (Observed ob ok failed) st st'"

inductive source_run :: "(int64 \<times> source_event) list \<Rightarrow> source_state \<Rightarrow> source_state \<Rightarrow> bool" where
  run_nil: "source_run [] st st"
| run_step: "source_step tm e st st' \<Longrightarrow> source_run evs st' st'' \<Longrightarrow> source_run ((tm, e) # evs) st st''"

lemma run_append: "source_run xs st st' \<Longrightarrow> source_run ys st' st'' \<Longrightarrow> source_run (xs @ ys) st st''"
  by (induction rule: source_run.induct) (auto intro: run_step)

lemma run_single: "source_step tm e st st' \<Longrightarrow> source_run [(tm, e)] st st'"
  by (rule run_step [OF _ run_nil])

subsection \<open>What the parts of a step leave alone\<close>

lemma trip_simps [simp]:
  "circuitOpenUntil (trip st tm) = tm + circuitBreakerOpenDuration"
  "circuitProbeUntil (trip st tm) = circuitProbeUntil st"
  "control (trip st tm) = (control st)\<lparr>incidentAt := tm\<rparr>"
  by (simp_all add: trip_def)

lemma tidy_simps [simp]:
  "circuitOpenUntil (tidy st tm) = circuitOpenUntil st" "circuitProbeUntil (tidy st tm) = circuitProbeUntil st"
  "control (tidy st tm) = control st" "slots (tidy st tm) = slots st" "currentWeight (tidy st tm) = currentWeight st"
  "consecutiveFailures (tidy st tm) = consecutiveFailures st" "maxConcurrent (tidy st tm) = maxConcurrent st"
  by (simp_all add: tidy_def)

text \<open>A change of the breaker leaves the identity of the control alone.\<close>

definition same_identity :: "upstream_control \<Rightarrow> upstream_control \<Rightarrow> bool" where
  "same_identity c d \<longleftrightarrow> revision d = revision c \<and> probeID d = probeID c \<and> seen d = seen c
     \<and> ids d = ids c \<and> nextID d = nextID c"

lemma same_identity_refl [simp]: "same_identity c c"
  by (simp add: same_identity_def)

lemma same_identity_trans: "same_identity c d \<Longrightarrow> same_identity d e \<Longrightarrow> same_identity c e"
  by (simp add: same_identity_def)

lemma same_identity_update [simp]:
  "same_identity c (c\<lparr>incidentAt := t\<rparr>)" "same_identity c (c\<lparr>recoverySuccesses := n\<rparr>)"
  "same_identity c (c\<lparr>recoverySuccesses := n, incidentAt := t\<rparr>)"
  by (simp_all add: same_identity_def)

lemma updateCircuitBreaker_identity: "same_identity (control st) (control (updateCircuitBreaker st tm))"
  by (simp add: updateCircuitBreaker_def Let_def)

lemma recordBreakerOutcome_identity: "same_identity (control st) (control (recordBreakerOutcome st success tm))"
  by (simp add: recordBreakerOutcome_def)

lemma count_outcome_identity: "same_identity (control st) (control (count_outcome st success tm))"
  by (simp add: count_outcome_def Let_def relapse_def)

lemma recordHealth_identity: "same_identity (control st) (control (recordSourceHealth st success tm))"
  unfolding recordSourceHealth_def
  by (rule same_identity_trans [OF count_outcome_identity
        same_identity_trans [OF recordBreakerOutcome_identity updateCircuitBreaker_identity]])

lemma breakerState_control [simp]: "breakerState (st\<lparr>control := c\<rparr>) tm = breakerState st tm"
  by (simp add: breakerState_def)

lemma open_positive [simp]: "0 < tm \<Longrightarrow> 0 < tm + circuitBreakerOpenDuration"
  by (simp add: circuitBreakerOpenDuration_def)

lemma updateCircuitBreaker_open:
  "0 < tm \<Longrightarrow> 0 < circuitOpenUntil st \<Longrightarrow> 0 < circuitOpenUntil (updateCircuitBreaker st tm)"
  by (simp add: updateCircuitBreaker_def Let_def)

text \<open>Once a report has its failure counted, only the success of a half-open probe closes the breaker.\<close>

lemma recordHealth_closes:
  assumes "0 < tm" "0 < circuitOpenUntil st" "circuitOpenUntil (recordSourceHealth st success tm) \<le> 0"
  shows "success \<and> breakerState st tm = circuitHalfOpen \<and> probeID (control st) = []"
proof (rule ccontr)
  assume no: "\<not> ?thesis"
  let ?c = "count_outcome st success tm"
  have "0 < circuitOpenUntil ?c" "success \<Longrightarrow> breakerState ?c tm = breakerState st tm"
    "probeID (control ?c) = probeID (control st)"
    using assms(1,2) by (simp_all add: count_outcome_def Let_def relapse_def breakerState_def)
  with no assms(1) have "0 < circuitOpenUntil (recordBreakerOutcome ?c success tm)"
    by (auto simp: recordBreakerOutcome_def)
  with assms(1,3) show False
    using updateCircuitBreaker_open [of tm "recordBreakerOutcome ?c success tm"] by (simp add: recordSourceHealth_def)
qed

subsection \<open>Observations and slots\<close>

lemma recordObservation_cases:
  assumes "recordObservation st ob tm stored = ((ok, err), st')"
  obtains (ignored) "\<not> ok" "err = None" "st' = st"
    | (neutral) c where "ok" "err = None" "accept (control st) ob (breakerState st tm = circuitHalfOpen) tm = (True, c)"
        "Outcome ob = HealthNeutral"
        "st' = (if ProbeID ob \<noteq> [] then st\<lparr>control := c\<lparr>probeID := []\<rparr>, circuitProbeUntil := tm\<rparr> else st\<lparr>control := c\<rparr>)"
    | (failed) c where "\<not> ok" "err \<noteq> None" "accept (control st) ob (breakerState st tm = circuitHalfOpen) tm = (True, c)"
        "st' = st\<lparr>control := forget c (ObservationID ob)\<rparr>"
    | (counted) c n where "ok" "err = None" "accept (control st) ob (breakerState st tm = circuitHalfOpen) tm = (True, c)"
        "Outcome ob \<noteq> HealthNeutral" "breakerState st tm = circuitHalfOpen \<Longrightarrow> tm < circuitProbeUntil st"
        "st' = (recordSourceHealth (st\<lparr>control := c\<lparr>probeID := []\<rparr>\<rparr>) (Outcome ob = HealthSuccess) tm)
           \<lparr>control := (control (recordSourceHealth (st\<lparr>control := c\<lparr>probeID := []\<rparr>\<rparr>) (Outcome ob = HealthSuccess) tm))
              \<lparr>recoverySuccesses := n\<rparr>\<rparr>"
proof -
  let ?h = "breakerState st tm = circuitHalfOpen"
  obtain b c where acc: "accept (control st) ob ?h tm = (b, c)" by fastforce
  let ?s = "recordSourceHealth (st\<lparr>control := c\<lparr>probeID := []\<rparr>\<rparr>) (Outcome ob = HealthSuccess) tm"
  show ?thesis
  proof (cases "breakerState st tm = circuitOpen \<and> Outcome ob \<noteq> HealthNeutral \<or> ?h \<and> circuitProbeUntil st \<le> tm \<or> \<not> b")
    case True
    with assms acc have "\<not> ok" "err = None" "st' = st"
      by (auto simp: recordObservation_def Let_def dest: accept_False split: if_split_asm)
    then show ?thesis by (rule ignored)
  next
    case False
    then have acc': "accept (control st) ob ?h tm = (True, c)" and live: "?h \<Longrightarrow> tm < circuitProbeUntil st"
      and run: "recordObservation st ob tm stored =
        (if Outcome ob = HealthNeutral then
          ((True, None), if ProbeID ob \<noteq> [] then st\<lparr>control := c\<lparr>probeID := []\<rparr>, circuitProbeUntil := tm\<rparr>
             else st\<lparr>control := c\<rparr>)
         else if stored \<noteq> None then ((False, stored), st\<lparr>control := forget c (ObservationID ob)\<rparr>)
         else ((True, None),
           if \<not> ?h \<and> Outcome ob = HealthSuccess \<and> 0 < recoverySuccesses (control ?s)
           then ?s\<lparr>control := (control ?s)\<lparr>recoverySuccesses := min 5 (recoverySuccesses (control ?s) + 1)\<rparr>\<rparr>
           else ?s))"
      using acc by (cases "breakerState st tm"; simp add: recordObservation_def Let_def)+
    have id: "?s = ?s\<lparr>control := (control ?s)\<lparr>recoverySuccesses := recoverySuccesses (control ?s)\<rparr>\<rparr>" by simp
    consider (N) "Outcome ob = HealthNeutral" | (E) "Outcome ob \<noteq> HealthNeutral" "stored \<noteq> None"
      | (C) "Outcome ob \<noteq> HealthNeutral" "stored = None" by blast
    then show ?thesis
    proof cases
      case N
      with assms run show ?thesis by (intro neutral [OF _ _ acc']) auto
    next
      case E
      with assms run show ?thesis by (intro failed [OF _ _ acc']) auto
    next
      case C
      with assms run have eq: "ok" "err = None"
        "st' = (if \<not> ?h \<and> Outcome ob = HealthSuccess \<and> 0 < recoverySuccesses (control ?s)
            then ?s\<lparr>control := (control ?s)\<lparr>recoverySuccesses := min 5 (recoverySuccesses (control ?s) + 1)\<rparr>\<rparr> else ?s)"
        by simp_all
      then obtain n where "st' = ?s\<lparr>control := (control ?s)\<lparr>recoverySuccesses := n\<rparr>\<rparr>" using id by metis
      with C live eq(1,2) show ?thesis by (intro counted [OF _ _ acc']) simp_all
    qed
  qed
qed

lemma reportSlot_frame:
  assumes "reportSlot st slotID acquired limit tm = (ok, st')"
  shows "control st' = control st" "circuitOpenUntil st' = circuitOpenUntil st"
    "circuitProbeUntil st' = circuitProbeUntil st \<or> circuitProbeUntil st' = tm + executionSlotLeaseDuration"
  using assms by (auto simp: reportSlot_def split: prod.splits if_split_asm)

lemma claimSource_cases:
  assumes "claimSource st cl unavailable tm uuid = (Inr lease, st')"
  obtains (holder) "st' = st" "breakerState st tm = circuitHalfOpen" "tm < circuitProbeUntil st"
      "probeID (control st) \<noteq> []" "cl_ProbeID cl = probeID (control st)" "ls_ProbeID lease = probeID (control st)"
    | (armed) "breakerState st tm = circuitHalfOpen" "circuitProbeUntil st \<le> tm" "ls_ProbeID lease = uuid"
      "st' = st\<lparr>control := (control st)\<lparr>probeID := uuid\<rparr>, circuitOpenUntil := circuitHalfOpenSentinel,
         circuitProbeUntil := tm + executionSlotLeaseDuration\<rparr>"
    | (closed) "st' = st" "breakerState st tm = circuitClosed" "ls_ProbeID lease = []"
proof -
  obtain c u v where run: "claimUpstreamExecution (control st) cl (breakerState st tm) (circuitOpenUntil st)
      (circuitProbeUntil st) unavailable tm uuid = (Inr lease, c, u, v)"
    and st': "st' = st\<lparr>control := c, circuitOpenUntil := u, circuitProbeUntil := v\<rparr>"
    using assms by (auto simp: claimSource_def split: prod.splits)
  show ?thesis
  proof (cases "breakerState st tm")
    case circuitClosed
    with run st' show ?thesis by (intro closed) (auto simp: claimUpstreamExecution_def split: if_split_asm)
  next
    case circuitOpen
    with run show ?thesis by (simp add: claimUpstreamExecution_def)
  next
    case H: circuitHalfOpen
    show ?thesis
    proof (cases "tm < circuitProbeUntil st")
      case True
      with run st' H show ?thesis by (intro holder) (auto simp: claimUpstreamExecution_def split: if_split_asm)
    next
      case False
      with run st' H show ?thesis by (intro armed) (auto simp: claimUpstreamExecution_def split: if_split_asm)
    qed
  qed
qed

subsection \<open>Invariants of a step\<close>

text \<open>Only a half-open breaker has a probe outstanding.\<close>

definition machine_ok :: "source_state \<Rightarrow> bool" where
  "machine_ok st \<longleftrightarrow> (probeID (control st) \<noteq> [] \<longrightarrow> circuitOpenUntil st = circuitHalfOpenSentinel)"

lemma half_open_sentinel: "circuitOpenUntil st = circuitHalfOpenSentinel \<Longrightarrow> breakerState st tm = circuitHalfOpen"
  by (simp add: breakerState_def int_limits)

lemma step_ok: "source_step tm e st st' \<Longrightarrow> machine_ok st \<Longrightarrow> machine_ok st'"
proof (induction rule: source_step.induct)
  case (health st success)
  then have "probeID (control st) = []"
    by (auto simp: machine_ok_def ignores_health_def half_open_sentinel)
  then show ?case using recordHealth_identity [of st success tm] by (simp add: machine_ok_def same_identity_def)
next
  case (observed st ob stored ok err st')
  from observed(1) show ?case
  proof (cases rule: recordObservation_cases)
    case (counted c n)
    then show ?thesis
      using recordHealth_identity [of "st\<lparr>control := c\<lparr>probeID := []\<rparr>\<rparr>" "Outcome ob = HealthSuccess" tm]
      by (simp add: machine_ok_def same_identity_def)
  qed (use observed(2) in \<open>auto simp: machine_ok_def forget_def split: if_split_asm\<close>)
next
  case (slot st slotID acquired limit ok st')
  then show ?case by (auto simp: machine_ok_def dest: reportSlot_frame)
next
  case (leased st cl unavailable uuid lease st')
  from leased(1) show ?case by (cases rule: claimSource_cases) (use leased in \<open>auto simp: machine_ok_def\<close>)
qed (auto simp: machine_ok_def arm_def)

text \<open>A live probe: its holder and a time before which nobody else is admitted.\<close>

definition held :: "string \<Rightarrow> int64 \<Rightarrow> source_state \<Rightarrow> bool" where
  "held p d st \<longleftrightarrow> circuitOpenUntil st = circuitHalfOpenSentinel \<and> probeID (control st) = p \<and> d \<le> circuitProbeUntil st"

definition releases :: "string \<Rightarrow> source_event \<Rightarrow> bool" where
  "releases p e \<longleftrightarrow> (\<exists>ob ok failed. e = Observed ob ok failed \<and> ProbeID ob = p)"

definition admits_other :: "string \<Rightarrow> source_event \<Rightarrow> bool" where
  "admits_other p e \<longleftrightarrow> (\<exists>q. e = Chosen q) \<or> (\<exists>cl q. e = Leased cl q \<and> \<not> (cl_ProbeID cl = p \<and> q = p))"

lemma step_held:
  assumes "source_step tm e st st'" "held p d st" "tm < d" "d \<le> tm + executionSlotLeaseDuration" "\<not> releases p e"
  shows "held p d st' \<and> \<not> admits_other p e"
  using assms
proof (induction rule: source_step.induct)
  case (observed st ob stored ok err st')
  have half: "breakerState st tm = circuitHalfOpen" using observed by (simp add: held_def half_open_sentinel)
  have no: "accept (control st) ob True tm \<noteq> (True, c)" for c
    using observed(2,5) by (auto simp: held_def releases_def dest!: accept_True(5))
  from observed(1) have "st' = st"
    by (cases rule: recordObservation_cases) (use half no in simp_all)
  with observed(2) show ?case by (simp add: admits_other_def)
next
  case (slot st slotID acquired limit ok st')
  then show ?case using reportSlot_frame [OF slot(1)] by (auto simp: held_def admits_other_def)
next
  case (leased st cl unavailable uuid lease st')
  have half: "breakerState st tm = circuitHalfOpen" using leased by (simp add: held_def half_open_sentinel)
  from leased(1) show ?case
    by (cases rule: claimSource_cases) (use leased half in \<open>auto simp: held_def admits_other_def\<close>)
next
  case (health st success)
  then show ?case by (simp add: held_def ignores_health_def half_open_sentinel)
next
  case (chosen st model uuid)
  then show ?case by (simp add: held_def admissible_def fenced_def)
qed (auto simp: held_def admits_other_def)

text \<open>What closes a breaker.\<close>

definition recovers :: "source_event \<Rightarrow> string \<Rightarrow> bool" where
  "recovers e p \<longleftrightarrow> (\<exists>ob. e = Observed ob True False \<and> Outcome ob = HealthSuccess \<and> ProbeID ob = p \<and> p \<noteq> [])"

lemma step_closes:
  assumes "source_step tm e st st'" "0 < tm" "0 < circuitOpenUntil st" "circuitOpenUntil st' \<le> 0"
  shows "recovers e (probeID (control st))"
  using assms
proof (induction rule: source_step.induct)
  case (health st success)
  then show ?case by (simp add: ignores_health_def breakerState_def split: if_split_asm)
next
  case (observed st ob stored ok err st')
  from observed(1) show ?case
  proof (cases rule: recordObservation_cases)
    case (counted c n)
    let ?s = "st\<lparr>control := c\<lparr>probeID := []\<rparr>\<rparr>"
    have "circuitOpenUntil (recordSourceHealth ?s (Outcome ob = HealthSuccess) tm) \<le> 0"
      using counted(6) observed(4) by simp
    with observed(2,3) have "Outcome ob = HealthSuccess \<and> breakerState ?s tm = circuitHalfOpen"
      using recordHealth_closes [of tm ?s "Outcome ob = HealthSuccess"] by simp
    then have s: "Outcome ob = HealthSuccess" and h: "breakerState st tm = circuitHalfOpen"
      by simp_all
    from accept_True(5) [OF counted(3) h] s counted(1,2) show ?thesis by (simp add: recovers_def)
  qed (use observed(3,4) in \<open>auto split: if_split_asm\<close>)
next
  case (slot st slotID acquired limit ok st')
  then show ?case using reportSlot_frame [OF slot(1)] by simp
next
  case (leased st cl unavailable uuid lease st')
  from leased(1) show ?case
    by (cases rule: claimSource_cases) (use leased in \<open>simp_all add: int_limits\<close>)
next
  case (chosen st model uuid)
  then show ?case by (simp add: arm_def int_limits split: if_split_asm)
next
  case (quiet st' st)
  then show ?case by linarith
next
  case (reopened st u t)
  from reopened(1,5,6) show ?case by simp
qed

text \<open>The probes an event hands out.\<close>

definition hands_out :: "source_event \<Rightarrow> string \<Rightarrow> bool" where
  "hands_out e p \<longleftrightarrow> e = Chosen p \<or> (\<exists>cl. e = Leased cl p)"

lemma step_probe:
  assumes "source_step tm e st st'" "probeID (control st') \<noteq> []"
  shows "probeID (control st') = probeID (control st) \<or> hands_out e (probeID (control st'))"
  using assms
proof (induction rule: source_step.induct)
  case (health st success)
  then show ?case using recordHealth_identity [of st success tm] by (simp add: same_identity_def)
next
  case (observed st ob stored ok err st')
  from observed(1) show ?case
  proof (cases rule: recordObservation_cases)
    case (counted c n)
    then show ?thesis
      using observed(2) recordHealth_identity [of "st\<lparr>control := c\<lparr>probeID := []\<rparr>\<rparr>" "Outcome ob = HealthSuccess" tm]
      by (simp add: same_identity_def)
  qed (use observed(2) in \<open>auto simp: forget_def split: if_split_asm\<close>)
next
  case (slot st slotID acquired limit ok st')
  then show ?case using reportSlot_frame [OF slot(1)] by simp
next
  case (leased st cl unavailable uuid lease st')
  from leased(1) show ?case by (cases rule: claimSource_cases) (auto simp: hands_out_def)
qed (auto simp: hands_out_def)

text \<open>What an event writes to the ring.\<close>

fun entries :: "source_event \<Rightarrow> string list" where
  "entries (Observed ob ok failed) = (if ok then [ObservationID ob] else if failed then [[]] else [])"
| "entries e = []"

lemma same_identity_ring:
  assumes "same_identity c d"
  shows "ring_ok d = ring_ok c" "ring_holds d xs = ring_holds c xs"
  using assms by (intro ring_cong; simp add: same_identity_def)+

definition fresh_for :: "string list \<Rightarrow> string list \<Rightarrow> bool" where
  "fresh_for new xs \<longleftrightarrow> (\<forall>x \<in> set new. x = [] \<or> x \<notin> set (take 1024 xs))"

definition ring_inv :: "upstream_control \<Rightarrow> string list \<Rightarrow> bool" where
  "ring_inv c xs \<longleftrightarrow> ring_ok c \<and> ring_holds c xs"

lemma ring_inv_same: "same_identity c d \<Longrightarrow> ring_inv d xs = ring_inv c xs"
  by (simp add: ring_inv_def same_identity_ring)

lemma ring_inv_cong: "seen d = seen c \<Longrightarrow> ids d = ids c \<Longrightarrow> nextID d = nextID c \<Longrightarrow> ring_inv d xs = ring_inv c xs"
  by (simp add: ring_inv_def ring_cong [of d c])

lemma accept_ring_inv:
  "accept c ob h tm = (True, d) \<Longrightarrow> ring_inv c xs \<Longrightarrow>
   ring_inv d (ObservationID ob # xs) \<and> fresh_for [ObservationID ob] xs"
  using accept_ring [of c ob h tm d xs] by (simp add: ring_inv_def fresh_for_def)

lemma forget_ring_inv: "ring_inv c (x # xs) \<Longrightarrow> ring_inv (forget c x) ([] # xs)"
  using forget_ring [of c x xs] by (simp add: ring_inv_def)

lemma step_ring:
  assumes "source_step tm e st st'" "ring_inv (control st) xs"
  shows "ring_inv (control st') (entries e @ xs) \<and> fresh_for (entries e) xs"
  using assms
proof (induction rule: source_step.induct)
  case (health st success)
  then show ?case using ring_inv_same [OF recordHealth_identity] by (simp add: fresh_for_def)
next
  case (observed st ob stored ok err st')
  from observed(1) show ?case
  proof (cases rule: recordObservation_cases)
    case ignored
    with observed(2) show ?thesis by (simp add: fresh_for_def)
  next
    case (neutral c)
    have "ring_inv (control st') ys = ring_inv c ys" for ys
      by (rule ring_inv_cong) (simp_all add: neutral(5))
    with accept_ring_inv [OF neutral(3) observed(2)] neutral(1) show ?thesis by simp
  next
    case (failed c)
    with accept_ring_inv [OF failed(3) observed(2)] forget_ring_inv [of c "ObservationID ob" xs] show ?thesis
      by (simp add: fresh_for_def)
  next
    case (counted c n)
    let ?s = "recordSourceHealth (st\<lparr>control := c\<lparr>probeID := []\<rparr>\<rparr>) (Outcome ob = HealthSuccess) tm"
    have "ring_inv (control st') ys = ring_inv (control ?s) ys" for ys
      by (rule ring_inv_cong) (simp_all add: counted(6))
    also have "ring_inv (control ?s) ys = ring_inv (control (st\<lparr>control := c\<lparr>probeID := []\<rparr>\<rparr>)) ys" for ys
      by (rule ring_inv_same [OF recordHealth_identity])
    also have "ring_inv (control (st\<lparr>control := c\<lparr>probeID := []\<rparr>\<rparr>)) ys = ring_inv c ys" for ys
      by (rule ring_inv_cong) simp_all
    finally have "ring_inv (control st') ys = ring_inv c ys" for ys .
    with accept_ring_inv [OF counted(3) observed(2)] counted(1) show ?thesis by simp
  qed
next
  case (slot st slotID acquired limit ok st')
  then show ?case using reportSlot_frame [OF slot(1)] by (simp add: fresh_for_def)
next
  case (leased st cl unavailable uuid lease st')
  from leased(1) show ?case
  proof (cases rule: claimSource_cases)
    case armed
    have "ring_inv (control st') xs = ring_inv (control st) xs"
      by (rule ring_inv_cong) (simp_all add: armed(4))
    with leased show ?thesis by (simp add: fresh_for_def)
  qed (use leased in \<open>simp_all add: fresh_for_def\<close>)
next
  case (chosen st model uuid)
  have "ring_inv (control (arm st tm uuid)) xs = ring_inv (control st) xs"
    by (rule ring_inv_cong) (simp_all add: arm_def)
  with chosen show ?case by (simp add: fresh_for_def)
next
  case (reopened st u t)
  then show ?case using ring_inv_same [OF same_identity_update(1) [of "control st" t], of xs] by (simp add: fresh_for_def)
qed (simp add: fresh_for_def)

lemma step_revision: "source_step tm e st st' \<Longrightarrow> revision (control st') = revision (control st)"
proof (induction rule: source_step.induct)
  case (health st success)
  then show ?case using recordHealth_identity [of st success tm] by (simp add: same_identity_def)
next
  case (observed st ob stored ok err st')
  then show ?case
  proof (cases rule: recordObservation_cases)
    case (counted c n)
    then show ?thesis
      using recordHealth_identity [of "st\<lparr>control := c\<lparr>probeID := []\<rparr>\<rparr>" "Outcome ob = HealthSuccess" tm]
      by (simp add: same_identity_def)
  qed (auto simp: forget_def split: if_split_asm)
next
  case (slot st slotID acquired limit ok st')
  then show ?case using reportSlot_frame [OF slot(1)] by simp
next
  case (leased st cl unavailable uuid lease st')
  from leased(1) show ?case by (cases rule: claimSource_cases) simp_all
next
  case (chosen st model uuid)
  then show ?case by (simp add: arm_def)
qed simp_all

subsection \<open>Runs of the machine\<close>

lemma run_ok: "source_run evs st st' \<Longrightarrow> machine_ok st \<Longrightarrow> machine_ok st'"
  by (induction rule: source_run.induct) (auto dest: step_ok)

lemma run_revision: "source_run evs st st' \<Longrightarrow> revision (control st') = revision (control st)"
  by (induction rule: source_run.induct) (auto dest: step_revision)

lemma run_held:
  assumes "source_run evs st st'" "held p d st"
    and "\<forall>(tm, e) \<in> set evs. tm < d \<and> d \<le> tm + executionSlotLeaseDuration \<and> \<not> releases p e"
  shows "held p d st' \<and> (\<forall>(tm, e) \<in> set evs. \<not> admits_other p e)"
  using assms
proof (induction rule: source_run.induct)
  case (run_step tm e st st' evs st'')
  from run_step.prems(2) step_held [OF run_step.hyps(1) run_step.prems(1)]
  have "held p d st'" "\<not> admits_other p e" by simp_all
  with run_step.IH run_step.prems(2) show ?case by simp
qed simp

lemma run_closes:
  assumes "source_run evs st st'" "0 < circuitOpenUntil st" "circuitOpenUntil st' \<le> 0"
    and "\<forall>(tm, e) \<in> set evs. 0 < tm"
  shows "\<exists>p. (p = probeID (control st) \<or> (\<exists>(t, e) \<in> set evs. hands_out e p)) \<and> (\<exists>(t, e) \<in> set evs. recovers e p)"
  using assms
proof (induction rule: source_run.induct)
  case (run_step tm e st st' evs st'')
  show ?case
  proof (cases "0 < circuitOpenUntil st'")
    case False
    with run_step.prems(1,3) step_closes [OF run_step.hyps(1)] have "recovers e (probeID (control st))" by simp
    then show ?thesis by auto
  next
    case True
    with run_step obtain p where p: "p = probeID (control st') \<or> (\<exists>(t, e) \<in> set evs. hands_out e p)"
      and rec: "\<exists>(t, e) \<in> set evs. recovers e p" by auto
    then have "p \<noteq> []" by (auto simp: recovers_def)
    with p step_probe [OF run_step.hyps(1)]
    have "p = probeID (control st) \<or> (\<exists>(t, e) \<in> set ((tm, e) # evs). hands_out e p)" by auto
    with rec show ?thesis by (intro exI [of _ p]) auto
  qed
qed simp

text \<open>What a run writes to the ring, newest first; no identifier comes back within 1024 entries.\<close>

fun journal :: "(int64 \<times> source_event) list \<Rightarrow> string list" where
  "journal [] = []"
| "journal ((tm, e) # evs) = journal evs @ entries e"

fun no_repeat :: "string list \<Rightarrow> bool" where
  "no_repeat [] \<longleftrightarrow> True"
| "no_repeat (x # xs) \<longleftrightarrow> (x = [] \<or> x \<notin> set (take 1024 xs)) \<and> no_repeat xs"

lemma entries_cases: "entries e = [] \<or> (\<exists>x. entries e = [x])"
  by (cases e) auto

lemma no_repeat_entries: "fresh_for (entries e) xs \<Longrightarrow> no_repeat xs \<Longrightarrow> no_repeat (entries e @ xs)"
  using entries_cases [of e] by (auto simp: fresh_for_def)

lemma run_ring:
  assumes "source_run evs st st'" "ring_inv (control st) xs" "no_repeat xs"
  shows "ring_inv (control st') (journal evs @ xs) \<and> no_repeat (journal evs @ xs)"
  using assms
proof (induction arbitrary: xs rule: source_run.induct)
  case (run_step tm e st st' evs st'')
  from step_ring [OF run_step.hyps(1) run_step.prems(1)] no_repeat_entries run_step.prems(2)
  have "ring_inv (control st') (entries e @ xs)" "no_repeat (entries e @ xs)" by blast+
  from run_step.IH [OF this] show ?case by simp
qed simp

text \<open>The events of a run that operations and replies show.\<close>

definition seen_events :: "(int64 \<times> source_event) list \<Rightarrow> (int64 \<times> source_event) list" where
  "seen_events evs = filter (\<lambda>x. visible (snd x)) evs"

lemma seen_events_simps [simp]:
  "seen_events [] = []" "seen_events (xs @ ys) = seen_events xs @ seen_events ys"
  "seen_events (x # xs) = (if visible (snd x) then x # seen_events xs else seen_events xs)"
  by (simp_all add: seen_events_def)

lemma seen_events_bex:
  "(\<And>e. P e \<Longrightarrow> visible e) \<Longrightarrow> (\<exists>(t, e) \<in> set (seen_events evs). P e) \<longleftrightarrow> (\<exists>(t, e) \<in> set evs. P e)"
  by (induction evs) auto

lemma seen_events_ball:
  "\<forall>(t, e) \<in> set evs. P t e \<Longrightarrow> \<forall>(t, e) \<in> set (seen_events evs). P t e"
  by (induction evs) auto

lemma seen_events_ball_iff:
  "(\<And>e. \<not> visible e \<Longrightarrow> P e) \<Longrightarrow> (\<forall>(t, e) \<in> set (seen_events evs). P e) \<longleftrightarrow> (\<forall>(t, e) \<in> set evs. P e)"
  by (induction evs) auto

lemma journal_visible: "journal (seen_events evs) = journal evs"
proof (induction evs)
  case (Cons x evs)
  then show ?case by (cases x; cases "snd x") (simp_all)
qed simp

lemma admissible_cong:
  "control st' = control st \<Longrightarrow> circuitOpenUntil st' = circuitOpenUntil st \<Longrightarrow>
   circuitProbeUntil st' = circuitProbeUntil st \<Longrightarrow> admissible st' model tm = admissible st model tm"
  by (simp add: admissible_def quarantined_def fenced_def breakerState_def)

lemma refresh_same [simp]: "refreshSource st (revision (control st)) = st"
  by (simp add: refreshSource_def refresh_def)

text \<open>A stretch of a run at one time that nobody sees.\<close>

definition silent :: "int64 \<Rightarrow> source_state \<Rightarrow> source_state \<Rightarrow> bool" where
  "silent tm st st' \<longleftrightarrow> (\<exists>evs. source_run evs st st' \<and> (\<forall>(t, e) \<in> set evs. t = tm \<and> \<not> visible e))"

lemma silent_refl [simp]: "silent tm st st"
  unfolding silent_def by (rule exI [of _ "[]"]) (simp add: run_nil)

lemma silent_trans: "silent tm st st' \<Longrightarrow> silent tm st' st'' \<Longrightarrow> silent tm st st''"
  unfolding silent_def by (elim exE conjE, rule_tac x = "evs @ evsa" in exI) (auto intro: run_append)

lemma silent_step: "source_step tm e st st' \<Longrightarrow> \<not> visible e \<Longrightarrow> silent tm st st'"
  unfolding silent_def by (rule exI [of _ "[(tm, e)]"]) (simp add: run_single)

lemma silent_quiet:
  "control st' = control st \<Longrightarrow> circuitOpenUntil st' = circuitOpenUntil st \<Longrightarrow>
   circuitProbeUntil st' = circuitProbeUntil st \<Longrightarrow> silent tm st st'"
  by (rule silent_step [OF source_step.quiet]) simp_all

lemma silent_revision: "silent tm st st' \<Longrightarrow> revision (control st') = revision (control st)"
  unfolding silent_def using run_revision by blast

text \<open>The forms in which an operation meets the law of \<open>source_owner\<close>.\<close>

lemma silent_filter: "\<forall>(t, e) \<in> set evs. t = tm \<and> \<not> visible e \<Longrightarrow> filter visible (map snd evs) = []"
  by (induction evs) auto

lemma owner_silent:
  "silent tm st st' \<Longrightarrow> \<exists>evs. source_run evs st st' \<and> (\<forall>(t, e) \<in> set evs. t = tm) \<and> filter visible (map snd evs) = []"
  unfolding silent_def by (elim exE conjE, rule exI) (auto simp: silent_filter)

lemma owner_step:
  assumes "silent tm st st1" "source_step tm e st1 st'" "visible e"
  shows "\<exists>evs. source_run evs st st' \<and> (\<forall>(t, e) \<in> set evs. t = tm) \<and> filter visible (map snd evs) = [e]"
proof -
  from assms(1) obtain evs where evs: "source_run evs st st1" "\<forall>(t, e) \<in> set evs. t = tm \<and> \<not> visible e"
    by (auto simp: silent_def)
  with assms show ?thesis
    by (intro exI [of _ "evs @ [(tm, e)]"]) (auto simp: silent_filter [OF evs(2)] intro!: run_append run_single)
qed

subsection \<open>A selector that owns sources\<close>

fun op_run :: "('op \<Rightarrow> 's \<Rightarrow> 'r \<times> 's) \<Rightarrow> 'op list \<Rightarrow> 's \<Rightarrow> 'r list \<times> 's" where
  "op_run step [] s = ([], s)"
| "op_run step (op # ops) s = (case step op s of (r, s1) \<Rightarrow> case op_run step ops s1 of (rs, s2) \<Rightarrow> (r # rs, s2))"

text \<open>The visible events of a source in a run, read off the operations and their replies.\<close>

fun replies :: "('op \<Rightarrow> int64) \<Rightarrow> ('op \<Rightarrow> 'r \<Rightarrow> source_event list) \<Rightarrow> 'op list \<Rightarrow> 'r list \<Rightarrow> (int64 \<times> source_event) list" where
  "replies clock reply (op # ops) (r # rs) = map (Pair (clock op)) (reply op r) @ replies clock reply ops rs"
| "replies clock reply _ _ = []"

lemma set_replies:
  "set (replies clock reply ops rs) = (\<Union>(op, r) \<in> set (zip ops rs). Pair (clock op) ` set (reply op r))"
  by (induction clock reply ops rs rule: replies.induct) auto

lemma replies_bex:
  "(\<exists>(t, e) \<in> set (replies clock reply ops rs). P e) \<longleftrightarrow> (\<exists>(op, r) \<in> set (zip ops rs). \<exists>e \<in> set (reply op r). P e)"
  unfolding set_replies by fastforce

lemma replies_ball:
  "(\<forall>(t, e) \<in> set (replies clock reply ops rs). P e) \<longleftrightarrow> (\<forall>(op, r) \<in> set (zip ops rs). \<forall>e \<in> set (reply op r). P e)"
  unfolding set_replies by fastforce

locale source_owner =
  fixes step :: "'op \<Rightarrow> 's \<Rightarrow> 'r \<times> 's"
    and source :: "int64 \<Rightarrow> 's \<Rightarrow> source_state option"
    and clock :: "'op \<Rightarrow> int64"
    and reconfigures :: "int64 \<Rightarrow> string \<Rightarrow> 'op \<Rightarrow> bool"
    and reply :: "int64 \<Rightarrow> 'op \<Rightarrow> 'r \<Rightarrow> source_event list"
    and sound :: "'s \<Rightarrow> bool"
  assumes stays_sound: "sound s \<Longrightarrow> step op s = (r, s') \<Longrightarrow> sound s'"
    and simulates: "sound s \<Longrightarrow> source i s = Some st \<Longrightarrow> \<not> reconfigures i (revision (control st)) op \<Longrightarrow> step op s = (r, s') \<Longrightarrow>
    \<exists>evs st'. source i s' = Some st' \<and> source_run evs st st'
      \<and> (\<forall>(t, e) \<in> set evs. t = clock op) \<and> filter visible (map snd evs) = reply i op r"
begin

lemma visible_timed:
  "\<forall>(t, e) \<in> set evs. t = tm \<Longrightarrow> seen_events evs = map (Pair tm) (filter visible (map snd evs))"
  by (induction evs) auto

lemma run_sound: "sound s \<Longrightarrow> op_run step ops s = (rs, s') \<Longrightarrow> sound s'"
  by (induction ops arbitrary: s rs) (auto split: prod.splits dest: stays_sound)

lemma run_simulates:
  assumes "sound s" "source i s = Some st" "\<And>op. op \<in> set ops \<Longrightarrow> \<not> reconfigures i (revision (control st)) op"
    and "op_run step ops s = (rs, s')"
  shows "\<exists>evs st'. source i s' = Some st' \<and> source_run evs st st'
      \<and> (\<forall>(t, e) \<in> set evs. t \<in> clock ` set ops) \<and> seen_events evs = replies clock (reply i) ops rs"
  using assms
proof (induction ops arbitrary: s st rs)
  case Nil
  then show ?case by (auto intro: run_nil)
next
  case (Cons op ops)
  obtain r s1 where r: "step op s = (r, s1)" by fastforce
  obtain rs' where rs: "op_run step ops s1 = (rs', s')" "rs = r # rs'"
    using Cons.prems(4) r by (auto split: prod.splits)
  obtain es st1 where es: "source i s1 = Some st1" "source_run es st st1" "\<forall>(t, e) \<in> set es. t = clock op"
      "filter visible (map snd es) = reply i op r"
    using simulates [OF Cons.prems(1,2) Cons.prems(3) [of op] r] by auto
  have "\<And>o'. o' \<in> set ops \<Longrightarrow> \<not> reconfigures i (revision (control st1)) o'"
    using Cons.prems(3) run_revision [OF es(2)] by simp
  from Cons.IH [OF stays_sound [OF Cons.prems(1) r] es(1) this rs(1)] obtain evs st' where evs: "source i s' = Some st'" "source_run evs st1 st'"
      "\<forall>(t, e) \<in> set evs. t \<in> clock ` set ops" "seen_events evs = replies clock (reply i) ops rs'"
    by blast
  have "seen_events es = map (Pair (clock op)) (reply i op r)"
    using visible_timed [OF es(3)] es(4) by simp
  with es evs rs(2) show ?case by (intro exI [of _ "es @ evs"] exI [of _ st']) (auto intro: run_append)
qed

lemma exclusive:
  assumes "sound s" "source i s = Some st" "held p d st" "op_run step ops s = (rs, s')"
    and "\<And>op. op \<in> set ops \<Longrightarrow> \<not> reconfigures i (revision (control st)) op"
    and "\<And>op. op \<in> set ops \<Longrightarrow> clock op < d \<and> d \<le> clock op + executionSlotLeaseDuration"
    and "\<And>t e. (t, e) \<in> set (replies clock (reply i) ops rs) \<Longrightarrow> \<not> releases p e"
  shows "(\<exists>st'. source i s' = Some st' \<and> held p d st') \<and> (\<forall>(t, e) \<in> set (replies clock (reply i) ops rs). \<not> admits_other p e)"
proof -
  obtain evs st' where evs: "source i s' = Some st'" "source_run evs st st'"
      "\<forall>(t, e) \<in> set evs. t \<in> clock ` set ops" "seen_events evs = replies clock (reply i) ops rs"
    using run_simulates [OF assms(1,2,5,4)] by blast
  have "\<forall>(t, e) \<in> set (seen_events evs). \<not> releases p e" using assms(7) unfolding evs(4) by blast
  moreover have "\<not> visible e \<Longrightarrow> \<not> releases p e" for e by (auto simp: releases_def)
  ultimately have "\<forall>(t, e) \<in> set evs. \<not> releases p e" by (simp only: seen_events_ball_iff not_False_eq_True)
  moreover have "\<forall>(t, e) \<in> set evs. t < d \<and> d \<le> t + executionSlotLeaseDuration"
    using evs(3) assms(6) by auto
  ultimately have "\<forall>(t, e) \<in> set evs. t < d \<and> d \<le> t + executionSlotLeaseDuration \<and> \<not> releases p e" by auto
  from run_held [OF evs(2) assms(3) this] evs(1) seen_events_ball [of evs "\<lambda>t e. \<not> admits_other p e"]
  show ?thesis unfolding evs(4) [symmetric] by simp
qed

lemma closes_only_by_probe:
  assumes "sound s" "source i s = Some st" "0 < circuitOpenUntil st" "op_run step ops s = (rs, s')"
    and "\<And>op. op \<in> set ops \<Longrightarrow> \<not> reconfigures i (revision (control st)) op" "\<And>op. op \<in> set ops \<Longrightarrow> 0 < clock op"
    and "source i s' = Some st'" "circuitOpenUntil st' \<le> 0"
  shows "\<exists>p. (p = probeID (control st) \<or> (\<exists>(t, e) \<in> set (replies clock (reply i) ops rs). hands_out e p))
     \<and> (\<exists>(t, e) \<in> set (replies clock (reply i) ops rs). recovers e p)"
proof -
  obtain evs where evs: "source_run evs st st'" "\<forall>(t, e) \<in> set evs. t \<in> clock ` set ops"
      "seen_events evs = replies clock (reply i) ops rs"
    using run_simulates [OF assms(1,2,5,4)] assms(7) by auto
  have "\<forall>(t, e) \<in> set evs. 0 < t" using evs(2) assms(6) by auto
  from run_closes [OF evs(1) assms(3,8) this] show ?thesis
    unfolding evs(3) [symmetric]
    by (subst (1 2) seen_events_bex) (auto simp: hands_out_def recovers_def)
qed

lemma counts_once:
  assumes "sound s" "source i s = Some st" "ring_inv (control st) []" "op_run step ops s = (rs, s')"
    and "\<And>op. op \<in> set ops \<Longrightarrow> \<not> reconfigures i (revision (control st)) op"
  shows "no_repeat (journal (replies clock (reply i) ops rs))"
proof -
  obtain evs st' where evs: "source_run evs st st'" "seen_events evs = replies clock (reply i) ops rs"
    using run_simulates [OF assms(1,2,5,4)] by blast
  from run_ring [OF evs(1) assms(3)] show ?thesis
    by (simp add: evs(2) [symmetric] journal_visible)
qed

lemma keeps_machine_ok:
  assumes "sound s" "source i s = Some st" "machine_ok st" "op_run step ops s = (rs, s')"
    and "\<And>op. op \<in> set ops \<Longrightarrow> \<not> reconfigures i (revision (control st)) op"
  shows "\<exists>st'. source i s' = Some st' \<and> machine_ok st'"
  using run_simulates [OF assms(1,2,5,4)] assms(3) run_ok by blast

end

end
