(* ===== verification/Channel_Machine.thy ===== *)
theory Channel_Machine
  imports Channel_Selector Source_Machine
begin

text \<open>
  The channel selector refines the state machine of its sources: every operation on the selector is,
  for a channel it does not reconfigure, a run of the machine that ends in what the reply shows.
\<close>

subsection \<open>Operations and replies\<close>

text \<open>A time and, where one is drawn, the new probe id come with the operation; \<open>ObserveOp\<close> has the
  error of the write, \<open>ClaimOp\<close> the channel the repository returns.\<close>

datatype channel_op =
    SelectOp "chan option list" int64 string
  | SlotOp int64 string bool int64
  | HealthOp int64 bool int64 int64
  | ObserveOp observation int64 "string option"
  | ClaimOp execution_claim "chan option" int64 string
  | UpdateOp chan int64
  | RemoveOp int64 int64

datatype channel_reply =
    Selected "source_error + chan"
  | SlotReply bool
  | ObserveReply "bool \<times> string option"
  | ClaimReply "source_error + execution_lease"
  | NoReply

fun channel_step :: "(string \<Rightarrow> string) \<Rightarrow> channel_op \<Rightarrow> weighted_selector \<Rightarrow> channel_reply \<times> weighted_selector" where
  "channel_step sha (SelectOp cands tm uuid) s = map_prod Selected (\<lambda>x. x) (SelectWeighted sha s cands tm uuid)"
| "channel_step sha (SlotOp i slotID acquired tm) s = map_prod SlotReply (\<lambda>x. x) (RecordSlot sha s i slotID acquired tm)"
| "channel_step sha (HealthOp i success latency tm) s = (NoReply, RecordHealth s i success latency tm)"
| "channel_step sha (ObserveOp ob tm stored) s = map_prod ObserveReply (\<lambda>x. x) (observe_channel s ob tm stored)"
| "channel_step sha (ClaimOp cl found tm uuid) s = map_prod ClaimReply (\<lambda>x. x) (claim_channel sha s cl found tm uuid)"
| "channel_step sha (UpdateOp c tm) s = (NoReply, updateChannelLocked sha s c tm)"
| "channel_step sha (RemoveOp i tm) s = (NoReply, RemoveChannel s i)"

fun channel_clock :: "channel_op \<Rightarrow> int64" where
  "channel_clock (SelectOp _ tm _) = tm"
| "channel_clock (SlotOp _ _ _ tm) = tm"
| "channel_clock (HealthOp _ _ _ tm) = tm"
| "channel_clock (ObserveOp _ tm _) = tm"
| "channel_clock (ClaimOp _ _ tm _) = tm"
| "channel_clock (UpdateOp _ tm) = tm"
| "channel_clock (RemoveOp _ tm) = tm"

fun configured :: "channel_op \<Rightarrow> chan list" where
  "configured (SelectOp cands _ _) = map the (filter (\<lambda>co. co \<noteq> None) cands)"
| "configured (ClaimOp _ (Some c) _ _) = [c]"
| "configured (UpdateOp c _) = [c]"
| "configured _ = []"

definition channel_reconfigures :: "(string \<Rightarrow> string) \<Rightarrow> int64 \<Rightarrow> string \<Rightarrow> channel_op \<Rightarrow> bool" where
  "channel_reconfigures sha i r op \<longleftrightarrow> (\<exists>tm. op = RemoveOp i tm)
     \<or> (\<exists>c \<in> set (configured op). ch_ID c = i \<and> ChannelRevision sha c \<noteq> r)"

fun channel_events :: "int64 \<Rightarrow> channel_op \<Rightarrow> channel_reply \<Rightarrow> source_event list" where
  "channel_events i (SelectOp _ _ _) (Selected (Inr c)) = (if ch_ID c = i then [Chosen (ch_HealthProbeID c)] else [])"
| "channel_events i (ObserveOp ob _ _) (ObserveReply (ok, err)) =
     (if ObservedID ob = i then [Observed ob ok (err \<noteq> None)] else [])"
| "channel_events i (ClaimOp cl (Some c) _ _) (ClaimReply (Inr lease)) =
     (if ch_ID c = i then [Leased cl (ls_ProbeID lease)] else [])"
| "channel_events i _ _ = []"

definition channel_source :: "int64 \<Rightarrow> weighted_selector \<Rightarrow> source_state option" where
  "channel_source i s = map_option src (map_of (channels s) i)"

subsection \<open>Single channels\<close>

lemma channel_source_set [simp]:
  "channel_source i (set_channel s k cs) = (if k = i then Some (src cs) else channel_source i s)"
  by (simp add: channel_source_def set_channel_def)

lemma channel_source_Some: "channel_source i s = Some st \<longleftrightarrow> (\<exists>cs. map_of (channels s) i = Some cs \<and> src cs = st)"
  by (auto simp: channel_source_def)

lemma map_of_set_channel [simp]: "map_of (channels (set_channel s k cs)) i = (if i = k then Some cs else map_of (channels s) i)"
  by (simp add: set_channel_def)

lemma reopen_silent: "silent tm st (reopen_from_store st c tm)"
proof (cases "circuitOpenUntil st < selectorCircuitOpenUntil c")
  case True
  have "selectorCircuitOpenUntil c \<le> MaxInt64"
    using wrap64_in_range [of "ch_CircuitOpenedUntil c * 1000000000"]
    by (simp add: selectorCircuitOpenUntil_def in_int64_def int_limits del: wrap64_in_range)
  from source_step.reopened [OF True this, of tm tm] source_step.reopened [OF True this, of "incidentAt (control st)" tm]
  have "silent tm st (st\<lparr>circuitOpenUntil := selectorCircuitOpenUntil c, control := (control st)\<lparr>incidentAt := t\<rparr>\<rparr>)"
    if "t = tm \<or> t = incidentAt (control st)" for t
    using that by (auto intro: silent_step)
  from this [of tm] this [of "incidentAt (control st)"] True show ?thesis
    by (simp add: reopen_from_store_def Let_def)
qed (simp add: reopen_from_store_def)

lemma update_source:
  assumes "channel_source i s = Some st" "ch_ID c = i \<Longrightarrow> ChannelRevision sha c = revision (control st)"
  shows "\<exists>st'. channel_source i (updateChannelLocked sha s c tm) = Some st' \<and> silent tm st st'"
proof (cases "ch_ID c = i")
  case True
  with assms have "channel_source i (updateChannelLocked sha s c tm)
      = Some (reopen_from_store (st\<lparr>sourceWeight := configuredSelectorWeight c\<rparr>) c tm)"
    by (auto simp: channel_source_def updateChannelLocked_def update_existing_def)
  moreover have "silent tm st (st\<lparr>sourceWeight := configuredSelectorWeight c\<rparr>)" by (rule silent_quiet) simp_all
  ultimately show ?thesis using silent_trans reopen_silent by blast
next
  case False
  then have "channel_source i (updateChannelLocked sha s c tm) = channel_source i s"
    by (simp add: channel_source_def updateChannelLocked_def)
  with assms(1) show ?thesis by (intro exI [of _ st]) simp
qed

lemma update_all_source:
  assumes "channel_source i s = Some st" "\<forall>c \<in> set cs. ch_ID c = i \<longrightarrow> ChannelRevision sha c = revision (control st)"
  shows "\<exists>st'. channel_source i (fold (\<lambda>c s. updateChannelLocked sha s c tm) cs s) = Some st' \<and> silent tm st st'"
  using assms
proof (induction cs arbitrary: s st)
  case (Cons c cs)
  have "ch_ID c = i \<Longrightarrow> ChannelRevision sha c = revision (control st)" using Cons.prems(2) by simp
  from update_source [OF Cons.prems(1) this] obtain st1
    where st1: "channel_source i (updateChannelLocked sha s c tm) = Some st1" "silent tm st st1" by blast
  from Cons.IH [OF st1(1)] Cons.prems(2) silent_revision [OF st1(2)] silent_trans [OF st1(2)] show ?case by auto
qed simp

text \<open>After the refresh every candidate's entry holds a channel with that id.\<close>

definition keyed :: "int64 \<Rightarrow> weighted_selector \<Rightarrow> bool" where
  "keyed k s \<longleftrightarrow> (\<exists>x. map_of (channels s) k = Some x \<and> ch_ID (chan_of x) = k)"

lemma keyed_update: "keyed k s \<or> k = ch_ID c \<Longrightarrow> keyed k (updateChannelLocked sha s c tm)"
  by (auto simp: keyed_def updateChannelLocked_def update_existing_def fresh_channel_def split: option.splits)

lemma keyed_update_all:
  "keyed k s \<or> k \<in> ch_ID ` set cs \<Longrightarrow> keyed k (fold (\<lambda>c s. updateChannelLocked sha s c tm) cs s)"
  by (induction cs arbitrary: s) (auto intro: keyed_update)

lemma offer_keyed: "keyed k (fst acc) \<Longrightarrow> keyed k (fst (offer tm c acc))"
  by (cases acc) (auto simp: offer_def keyed_def Let_def split: option.splits)

text \<open>An offer changes a source only where nobody sees it; the best source so far was eligible when
  the offers began.\<close>

definition eligible :: "source_state \<Rightarrow> string \<Rightarrow> int64 \<Rightarrow> bool" where
  "eligible st model tm \<longleftrightarrow> admissible st model tm \<and> has_room (reapSource st tm)"

definition same_offer :: "int64 \<Rightarrow> source_state \<Rightarrow> source_state \<Rightarrow> bool" where
  "same_offer tm st st' \<longleftrightarrow> control st' = control st \<and> circuitOpenUntil st' = circuitOpenUntil st
     \<and> circuitProbeUntil st' = circuitProbeUntil st \<and> has_room (reapSource st' tm) = has_room (reapSource st tm)"

lemma same_offer_refl [simp]: "same_offer tm st st"
  by (simp add: same_offer_def)

lemma same_offer_trans: "same_offer tm st st' \<Longrightarrow> same_offer tm st' st'' \<Longrightarrow> same_offer tm st st''"
  by (simp add: same_offer_def)

lemma same_offer_eligible: "same_offer tm st st' \<Longrightarrow> eligible st' model tm = eligible st model tm"
  using admissible_cong [of st' st] by (simp add: same_offer_def eligible_def)

lemma same_offer_silent: "same_offer tm st st' \<Longrightarrow> silent tm st st'"
  by (rule silent_quiet) (simp_all add: same_offer_def)

lemma reap_again: "inflight (reapSlotLeases (reapSlotLeases l tm) tm) = inflight (reapSlotLeases l tm)"
  by (simp add: reap_inflight reap_leases)

lemma same_offer_reap: "same_offer tm st (reapSource st tm)"
  by (simp add: same_offer_def reapSource_def has_room_def reap_again)

lemma same_offer_weight: "same_offer tm st ((tidy (reapSource st tm) tm)\<lparr>currentWeight := w\<rparr>)"
  by (simp add: same_offer_def reapSource_def has_room_def reap_again)

definition offered :: "int64 \<Rightarrow> int64 \<Rightarrow> chan set \<Rightarrow> source_state \<Rightarrow> weighted_selector \<times> (int64 \<times> int64) option \<Rightarrow> bool" where
  "offered i tm C st acc \<longleftrightarrow> (\<exists>st'. channel_source i (fst acc) = Some st' \<and> same_offer tm st st')
     \<and> (\<forall>w. snd acc = Some (i, w) \<longrightarrow> (\<exists>c \<in> C. ch_ID c = i \<and> eligible st (ch_UpstreamModelID c) tm))"

lemma offer_other: "ch_ID c \<noteq> i \<Longrightarrow> channel_source i (fst (offer tm c (s, best))) = channel_source i s
    \<and> (\<forall>w. snd (offer tm c (s, best)) = Some (i, w) \<longrightarrow> best = Some (i, w))"
  by (auto simp: offer_def Let_def split: option.splits)

lemma offer_self:
  assumes "map_of (channels s) (ch_ID c) = Some cs"
  shows "\<exists>st'. channel_source (ch_ID c) (fst (offer tm c (s, best))) = Some st' \<and> same_offer tm (src cs) st'
     \<and> (snd (offer tm c (s, best)) = best \<or> eligible (src cs) (ch_UpstreamModelID c) tm)"
proof (cases "admissible (reapSource (src cs) tm) (ch_UpstreamModelID c) tm \<and> has_room (reapSource (src cs) tm)")
  case True
  then have "eligible (src cs) (ch_UpstreamModelID c) tm"
    by (subst same_offer_eligible [OF same_offer_reap, symmetric])
      (simp add: eligible_def has_room_def reapSource_def reap_again)
  with assms True same_offer_weight show ?thesis by (simp add: offer_def Let_def)
next
  case False
  with assms same_offer_reap show ?thesis by (auto simp: offer_def Let_def)
qed

lemma offered_step:
  assumes "offered i tm C st acc" "c \<in> C"
  shows "offered i tm C st (offer tm c acc)"
proof -
  obtain s best where acc: "acc = (s, best)" by fastforce
  obtain st1 where st1: "channel_source i s = Some st1" "same_offer tm st st1"
      and best: "\<forall>w. best = Some (i, w) \<longrightarrow> (\<exists>c \<in> C. ch_ID c = i \<and> eligible st (ch_UpstreamModelID c) tm)"
    using assms(1) unfolding offered_def acc fst_conv snd_conv by blast
  show ?thesis
  proof (cases "ch_ID c = i")
    case False
    from offer_other [OF this, of tm s best] st1 best show ?thesis by (auto simp: offered_def acc)
  next
    case True
    with st1(1) obtain cs where cs: "map_of (channels s) (ch_ID c) = Some cs" "src cs = st1"
      by (auto simp: channel_source_Some)
    from offer_self [OF cs(1), of tm best] obtain st2
      where st2: "channel_source i (fst (offer tm c (s, best))) = Some st2" "same_offer tm st1 st2"
        and b: "snd (offer tm c (s, best)) = best \<or> eligible st1 (ch_UpstreamModelID c) tm"
      using True cs(2) by auto
    have "\<forall>w. snd (offer tm c (s, best)) = Some (i, w) \<longrightarrow> (\<exists>c \<in> C. ch_ID c = i \<and> eligible st (ch_UpstreamModelID c) tm)"
      using b best True assms(2) same_offer_eligible [OF st1(2)] by auto
    with st2 same_offer_trans [OF st1(2) st2(2)] show ?thesis unfolding offered_def acc fst_conv by blast
  qed
qed

lemma offered_all: "offered i tm C st acc \<Longrightarrow> set cs \<subseteq> C \<Longrightarrow> offered i tm C st (fold (offer tm) cs acc)"
proof (induction cs arbitrary: acc)
  case (Cons c cs)
  then show ?case using offered_step [of i tm C st acc c] by simp
qed simp

lemma offer_best: "snd (offer tm c (s, best)) = best \<or> (\<exists>w. snd (offer tm c (s, best)) = Some (ch_ID c, w))"
  by (auto simp: offer_def Let_def split: option.splits)

lemma offers_best:
  "snd (fold (offer tm) cs acc) = Some (k, w) \<Longrightarrow> snd acc = Some (k, w) \<or> k \<in> ch_ID ` set cs"
proof (induction cs arbitrary: acc)
  case (Cons c cs)
  from Cons.IH [of "offer tm c acc"] Cons.prems offer_best [of tm c "fst acc" "snd acc"] show ?case by auto
qed simp

lemma offers_keyed: "keyed k (fst acc) \<Longrightarrow> keyed k (fst (fold (offer tm) cs acc))"
proof (induction cs arbitrary: acc)
  case (Cons c cs)
  from Cons.IH [OF offer_keyed [OF Cons.prems]] show ?case by simp
qed simp

subsection \<open>The operations\<close>

lemma set_present: "c \<in> set (present cands) \<longleftrightarrow> Some c \<in> set cands"
  by (force simp: present_def)

text \<open>A choice: the channel \<open>k\<close> that won the offers, its state then, and what \<open>Select\<close> makes of it.\<close>

lemma Select_chosen:
  assumes "SelectWeighted sha s cands tm uuid = (Inr c, s')"
  obtains k w s2 b b1 n where "fold (offer tm) (present cands) (refreshed sha s cands tm, None) = (s2, Some (k, w))"
    "map_of (channels s2) k = Some b" "ch_ID (chan_of b) = k" "k \<in> ch_ID ` set (present cands)"
    "src b1 = (src b)\<lparr>currentWeight := n\<rparr>"
    "c = (chan_of b)\<lparr>ch_HealthProbeID := probeID (control (arm (src b1) tm uuid))\<rparr>"
    "s' = set_channel s2 k (b1\<lparr>src := arm (src b1) tm uuid\<rparr>)"
proof -
  obtain s2 best where acc: "fold (offer tm) (present cands) (refreshed sha s cands tm, None) = (s2, best)" by fastforce
  with assms obtain k w where best: "best = Some (k, w)" and settled: "settle_choice s2 cands tm uuid k = (c, s')"
    by (auto simp: SelectWeighted_def split: if_split_asm option.splits prod.splits)
  define b where "b = the (map_of (channels s2) k)"
  define b1 where "b1 = (if 0 < totalEffectiveWeight s2 cands tm
      then b\<lparr>src := (src b)\<lparr>currentWeight := wrap64 (currentWeight (src b) - totalEffectiveWeight s2 cands tm)\<rparr>\<rparr> else b)"
  have res: "c = (chan_of b1)\<lparr>ch_HealthProbeID := probeID (control (arm (src b1) tm uuid))\<rparr>"
    "s' = set_channel s2 k (b1\<lparr>src := arm (src b1) tm uuid\<rparr>)"
    using settled unfolding settle_choice_def Let_def b_def [symmetric] b1_def [symmetric] by simp_all
  have k: "k \<in> ch_ID ` set (present cands)"
    using offers_best [of tm "present cands" "(refreshed sha s cands tm, None)" k w] acc best by simp
  then have "keyed k (refreshed sha s cands tm)" unfolding refreshed_def by (intro keyed_update_all) simp
  then have "keyed k s2" using offers_keyed [of k "(refreshed sha s cands tm, None)" tm "present cands"] acc by simp
  then have b: "map_of (channels s2) k = Some b" "ch_ID (chan_of b) = k" by (auto simp: keyed_def b_def)
  obtain n where b1: "src b1 = (src b)\<lparr>currentWeight := n\<rparr>" "chan_of b1 = chan_of b"
  proof
    show "src b1 = (src b)\<lparr>currentWeight := currentWeight (src b1)\<rparr>" "chan_of b1 = chan_of b" by (simp_all add: b1_def)
  qed
  show ?thesis by (rule that [OF acc [unfolded best] b k b1(1) res [unfolded b1(2)]])
qed

lemma Select_refused:
  assumes "SelectWeighted sha s cands tm uuid = (Inl e, s')"
  shows "s' = s \<or> s' = fst (fold (offer tm) (present cands) (refreshed sha s cands tm, None))"
  using assms by (auto simp: SelectWeighted_def split: if_split_asm option.splits prod.splits)

lemma Select_simulates:
  assumes src: "channel_source i s = Some st"
    and cfg: "\<forall>c \<in> set (present cands). ch_ID c = i \<longrightarrow> ChannelRevision sha c = revision (control st)"
    and run: "SelectWeighted sha s cands tm uuid = (res, s')"
  shows "\<exists>st'. channel_source i s' = Some st' \<and> (\<exists>evs. source_run evs st st' \<and> (\<forall>(t, e) \<in> set evs. t = tm)
     \<and> filter visible (map snd evs) = (case res of Inr c \<Rightarrow> if ch_ID c = i then [Chosen (ch_HealthProbeID c)] else []
         | Inl _ \<Rightarrow> []))"
proof -
  let ?s1 = "refreshed sha s cands tm" and ?C = "set (present cands)"
  obtain st1 where st1: "channel_source i ?s1 = Some st1" "silent tm st st1"
    using update_all_source [OF src cfg] unfolding refreshed_def by blast
  have "offered i tm ?C st1 (?s1, None)" using st1(1) by (simp add: offered_def)
  from offered_all [OF this, of "present cands"]
  have off: "offered i tm ?C st1 (fold (offer tm) (present cands) (?s1, None))" by simp
  then obtain st2 where st2: "channel_source i (fst (fold (offer tm) (present cands) (?s1, None))) = Some st2"
      "same_offer tm st1 st2" unfolding offered_def by blast
  have sil: "silent tm st st2" by (rule silent_trans [OF st1(2) same_offer_silent [OF st2(2)]])
  show ?thesis
  proof (cases res)
    case (Inl e)
    from Select_refused [OF run [unfolded Inl]] Inl src st2(1) owner_silent [OF sil] owner_silent [OF silent_refl [of tm st]]
    show ?thesis by auto
  next
    case (Inr c)
    show ?thesis
    proof (rule Select_chosen [OF run [unfolded Inr]])
      fix k w s2 b b1 n
      assume sel: "fold (offer tm) (present cands) (?s1, None) = (s2, Some (k, w))" "map_of (channels s2) k = Some b"
        "ch_ID (chan_of b) = k" "src b1 = (src b)\<lparr>currentWeight := n\<rparr>"
        "c = (chan_of b)\<lparr>ch_HealthProbeID := probeID (control (arm (src b1) tm uuid))\<rparr>"
        "s' = set_channel s2 k (b1\<lparr>src := arm (src b1) tm uuid\<rparr>)"
      show ?thesis
      proof (cases "k = i")
        case False
        with sel(1,3,5,6) st2(1) owner_silent [OF sil] Inr show ?thesis by simp
      next
        case True
        with st2(1) sel(1,2) have b: "src b = st2" by (simp add: channel_source_def)
        have same: "control (src b1) = control st2" "circuitOpenUntil (src b1) = circuitOpenUntil st2"
            "circuitProbeUntil (src b1) = circuitProbeUntil st2"
          by (simp_all add: sel(4) b)
        have "\<exists>c0 :: chan. eligible st1 (ch_UpstreamModelID c0) tm"
          using off sel(1) True unfolding offered_def by auto
        then obtain c0 :: chan where "eligible st1 (ch_UpstreamModelID c0) tm" by blast
        then have "admissible (src b1) (ch_UpstreamModelID c0) tm"
          using same_offer_eligible [OF st2(2), of "ch_UpstreamModelID c0"]
          admissible_cong [OF same, of "ch_UpstreamModelID c0" tm] by (simp add: eligible_def)
        from owner_step [OF silent_trans [OF sil silent_quiet [OF same]] source_step.chosen [OF this, of uuid]] True
          sel(3,5,6) Inr
        show ?thesis by simp
      qed
    qed
  qed
qed

lemma RecordSlot_simulates:
  assumes "channel_source i s = Some st" "RecordSlot sha s k slotID acquired tm = (ok, s')"
  shows "\<exists>st'. channel_source i s' = Some st' \<and> silent tm st st'"
proof (cases "k \<le> 0 \<or> slotID = []")
  case True
  with assms show ?thesis by (auto simp: RecordSlot_def)
next
  case False
  define s1 where "s1 = (if map_of (channels s) k = None then updateChannelLocked sha s (bare_channel k) tm else s)"
  have s1: "channel_source i s1 = Some st"
    using assms(1) by (auto simp: s1_def channel_source_def updateChannelLocked_def bare_channel_def)
  define b where "b = the (map_of (channels s1) k)"
  obtain r st1 where r: "reportSlot (src b) slotID acquired (maxConcurrent (src b)) tm = (r, st1)" by fastforce
  have s': "s' = set_channel s1 k (b\<lparr>src := st1\<rparr>)"
    using False assms(2) r by (simp add: RecordSlot_def Let_def s1_def [symmetric] b_def [symmetric])
  show ?thesis
  proof (cases "k = i")
    case True
    with s1 have "src b = st" by (auto simp: channel_source_Some b_def)
    with r source_step.slot [of st slotID acquired "maxConcurrent st" tm r st1] True show ?thesis
      by (auto simp: s' intro: silent_step)
  qed (use s1 in \<open>simp add: s'\<close>)
qed

lemma RecordHealth_simulates:
  assumes "channel_source i s = Some st"
  shows "\<exists>st'. channel_source i (RecordHealth s k success latency tm) = Some st' \<and> silent tm st st'"
proof (cases "map_of (channels s) k")
  case (Some cs)
  show ?thesis
  proof (cases "ignores_health (src cs) tm")
    case False
    with Some assms source_step.health [of "src cs" tm success] show ?thesis
      by (cases "k = i") (auto simp: RecordHealth_def channel_source_Some intro: silent_step)
  qed (use assms Some in \<open>auto simp: RecordHealth_def\<close>)
qed (use assms in \<open>auto simp: RecordHealth_def\<close>)

lemma observe_simulates:
  assumes "channel_source i s = Some st" "observe_channel s ob tm (stored :: string option) = ((ok, err), s')"
  shows "\<exists>st'. channel_source i s' = Some st' \<and> (\<exists>evs. source_run evs st st' \<and> (\<forall>(t, e) \<in> set evs. t = tm)
     \<and> filter visible (map snd evs) = (if ObservedID ob = i then [Observed ob ok (err \<noteq> None)] else []))"
proof (cases "ObservedID ob = i")
  case True
  with assms(1) obtain cs where cs: "map_of (channels s) (ObservedID ob) = Some cs" "src cs = st"
    by (auto simp: channel_source_Some)
  obtain res st' where r: "recordObservation st ob tm stored = (res, st')" by fastforce
  with assms(2) cs have res: "res = (ok, err)" and s': "channel_source i s' = Some st'"
    using True by (auto simp: observe_channel_def)
  from r have "source_step tm (Observed ob ok (err \<noteq> None)) st st'"
    unfolding res by (rule source_step.observed)
  from owner_step [OF silent_refl this] s' True show ?thesis by simp
next
  case False
  then have "channel_source i s' = Some st"
    using assms by (auto simp: observe_channel_def split: option.splits prod.splits)
  with False owner_silent [OF silent_refl [of tm st]] show ?thesis by auto
qed

lemma claim_simulates:
  assumes src: "channel_source i s = Some st"
    and cfg: "\<And>c. found = Some c \<Longrightarrow> ch_ID c = i \<Longrightarrow> ChannelRevision sha c = revision (control st)"
    and run: "claim_channel sha s cl found tm uuid = (res, s')"
  shows "\<exists>st'. channel_source i s' = Some st' \<and> (\<exists>evs. source_run evs st st' \<and> (\<forall>(t, e) \<in> set evs. t = tm)
     \<and> filter visible (map snd evs) = channel_events i (ClaimOp cl found tm uuid) (ClaimReply res))"
proof (cases "\<exists>c. found = Some c \<and> cl_ConfigurationRevision cl = ChannelRevision sha c \<and> SelectableAt found (unix_seconds tm)")
  case False
  with run have "s' = s" "\<exists>e. res = Inl e"
    by (auto simp: claim_channel_def split: option.splits if_split_asm)
  with src owner_silent [OF silent_refl [of tm st]] show ?thesis by auto
next
  case True
  then obtain c where c: "found = Some c" "cl_ConfigurationRevision cl = ChannelRevision sha c"
    "SelectableAt found (unix_seconds tm)" by blast
  define s1 where "s1 = updateChannelLocked sha s c tm"
  define b where "b = the (map_of (channels s1) (ch_ID c))"
  obtain st1 where st1: "channel_source i s1 = Some st1" "silent tm st st1"
    using update_source [OF src cfg [OF c(1)]] unfolding s1_def by blast
  obtain r st2 where r: "claimSource (src b) cl ErrChannelNotFound tm uuid = (r, st2)" by fastforce
  have res: "res = r" and s': "s' = set_channel s1 (ch_ID c) (b\<lparr>src := st2\<rparr>)"
    using run c r by (simp_all add: claim_channel_def Let_def s1_def [symmetric] b_def [symmetric])
  show ?thesis
  proof (cases "ch_ID c = i")
    case other: False
    have "channel_events i (ClaimOp cl found tm uuid) (ClaimReply res) = []"
      using other c(1) by (cases res) simp_all
    with other st1 owner_silent [OF st1(2)] show ?thesis by (simp add: s')
  next
    case self: True
    with st1(1) have b: "src b = st1" by (auto simp: channel_source_Some b_def)
    show ?thesis
    proof (cases r)
      case (Inl e)
      have "st2 = st1" using r Inl unfolding b
        by (auto simp: claimSource_def claimUpstreamExecution_def split: if_split_asm)
      with Inl self owner_silent [OF st1(2)] show ?thesis by (simp add: s' res)
    next
      case (Inr lease)
      from r Inr b have "source_step tm (Leased cl (ls_ProbeID lease)) st1 st2"
        by (auto intro: source_step.leased)
      from owner_step [OF st1(2) this] self Inr c(1) show ?thesis by (simp add: s' res)
    qed
  qed
qed

lemma channel_simulates:
  assumes "channel_source i s = Some st" "\<not> channel_reconfigures sha i (revision (control st)) op"
    and "channel_step sha op s = (r, s')"
  shows "\<exists>evs st'. channel_source i s' = Some st' \<and> source_run evs st st'
      \<and> (\<forall>(t, e) \<in> set evs. t = channel_clock op) \<and> filter visible (map snd evs) = channel_events i op r"
proof (cases op)
  case (SelectOp cands tm uuid)
  obtain res where run: "SelectWeighted sha s cands tm uuid = (res, s')" "r = Selected res"
    using assms(3) SelectOp by (cases "SelectWeighted sha s cands tm uuid") auto
  have ev: "channel_events i op r = (case res of Inr c \<Rightarrow> if ch_ID c = i then [Chosen (ch_HealthProbeID c)] else []
      | Inl _ \<Rightarrow> [])"
    using SelectOp run(2) by (cases res) simp_all
  have cfg: "\<forall>c \<in> set (present cands). ch_ID c = i \<longrightarrow> ChannelRevision sha c = revision (control st)"
    using assms(2) SelectOp by (simp add: channel_reconfigures_def present_def) blast
  from Select_simulates [OF assms(1) cfg run(1)] SelectOp show ?thesis unfolding ev by auto
next
  case (SlotOp k slotID acquired tm)
  with assms(3) obtain ok where "RecordSlot sha s k slotID acquired tm = (ok, s')"
    by (cases "RecordSlot sha s k slotID acquired tm") auto
  from RecordSlot_simulates [OF assms(1) this] SlotOp owner_silent [of tm st] show ?thesis by fastforce
next
  case (HealthOp k success latency tm)
  with assms(3) have "s' = RecordHealth s k success latency tm" by simp
  with RecordHealth_simulates [OF assms(1), of k success latency tm] HealthOp owner_silent [of tm st]
  show ?thesis by fastforce
next
  case (ObserveOp ob tm stored)
  with assms(3) obtain ok err where run: "observe_channel s ob tm stored = ((ok, err), s')" "r = ObserveReply (ok, err)"
    by (cases "observe_channel s ob tm stored") auto
  from observe_simulates [OF assms(1) run(1)] ObserveOp run(2) show ?thesis by auto
next
  case (ClaimOp cl found tm uuid)
  with assms(3) obtain res where run: "claim_channel sha s cl found tm uuid = (res, s')" "r = ClaimReply res"
    by (cases "claim_channel sha s cl found tm uuid") auto
  have cfg: "found = Some c \<Longrightarrow> ch_ID c = i \<Longrightarrow> ChannelRevision sha c = revision (control st)" for c
    using assms(2) ClaimOp by (auto simp: channel_reconfigures_def)
  from claim_simulates [OF assms(1) cfg run(1)] ClaimOp run(2) show ?thesis by auto
next
  case (UpdateOp c tm)
  have "ch_ID c = i \<Longrightarrow> ChannelRevision sha c = revision (control st)"
    using assms(2) UpdateOp by (auto simp: channel_reconfigures_def)
  from update_source [OF assms(1) this, of tm] UpdateOp assms(3) owner_silent [of tm st] show ?thesis by fastforce
next
  case (RemoveOp k tm)
  with RemoveOp assms have "channel_source i s' = Some st"
    by (auto simp: channel_reconfigures_def RemoveChannel_def channel_source_def)
  with RemoveOp owner_silent [OF silent_refl [of tm st]] show ?thesis by auto
qed

interpretation weighted: source_owner "channel_step sha" channel_source channel_clock "channel_reconfigures sha" channel_events
  "\<lambda>_. True" for sha
  by unfold_locales (simp, rule channel_simulates)

end
