(* ===== verification/Account_Selector.thy ===== *)
theory Account_Selector
  imports Channel_Selector
begin

text \<open>
  The subscription-account selector of the channel service (\<open>SubscriptionAccountSelector\<close>,
  \<open>account_selector.go\<close>), its observations (\<open>upstream_control.go\<close>) and leases (\<open>upstream_execution.go\<close>).
  An account shares \<open>source_state\<close> with a channel; it has no latencies and no hard concurrency bound
  here, but a load reading from the other replicas. \<open>tm\<close>, \<open>uuid\<close> and \<open>sha\<close> are as for channels.
\<close>

subsection \<open>Accounts\<close>

record acct =
  ac_ID :: int64
  ac_Platform :: string
  ac_AccountType :: string
  ac_Status :: int
  ac_BaseURL :: string
  ac_CredentialRevision :: int64
  ac_ModelMapping :: string
  ac_UpstreamModelID :: string
  ac_Weight :: int
  ac_Priority :: int64
  ac_Concurrency :: int
  ac_HealthProbeID :: string

definition AccountRevision :: "(string \<Rightarrow> string) \<Rightarrow> acct \<Rightarrow> string" where
  "AccountRevision sha a = ConfigurationRevisionOf sha
     [ac_Platform a, ac_AccountType a, ac_BaseURL a, FormatInt (ac_CredentialRevision a), ac_ModelMapping a]"

definition accountSelectorWeight :: "acct \<Rightarrow> int" where
  "accountSelectorWeight a =
     (if 0 < ac_Weight a then ac_Weight a
      else if 0 < ac_Priority a then IntToInt32Saturating (ac_Priority a)
      else 1)"

subsection \<open>State\<close>

record account_state =
  asrc :: source_state
  accountID :: int64
  crossReplicaInflight :: int

record account_selector =
  as_failureThreshold :: int
  accounts :: "(int64 \<times> account_state) list"

definition NewSubscriptionAccountSelector :: "int \<Rightarrow> account_selector" where
  "NewSubscriptionAccountSelector threshold = \<lparr>as_failureThreshold = threshold, accounts = []\<rparr>"

definition new_account :: "int \<Rightarrow> upstream_control \<Rightarrow> int64 \<Rightarrow> int \<Rightarrow> int \<Rightarrow> account_state" where
  "new_account threshold c i w mx = \<lparr>
     asrc = \<lparr>control = c, slots = no_slots, consecutiveFailures = 0, failureThreshold = threshold, sourceWeight = w,
       currentWeight = 0, recentErrors = NewSlidingCounter 60, maxConcurrent = mx, circuitOpenUntil = 0,
       circuitProbeUntil = 0\<rparr>,
     accountID = i, crossReplicaInflight = 0\<rparr>"

definition set_account :: "account_selector \<Rightarrow> int64 \<Rightarrow> account_state \<Rightarrow> account_selector" where
  "set_account s i st = s\<lparr>accounts := put i st (accounts s)\<rparr>"

definition updateAccountLocked :: "(string \<Rightarrow> string) \<Rightarrow> account_selector \<Rightarrow> acct \<Rightarrow> account_state \<times> account_selector" where
  "updateAccountLocked sha s a =
     (let st = (case map_of (accounts s) (ac_ID a) of
          Some e \<Rightarrow> e\<lparr>asrc := (refreshSource (asrc e) (AccountRevision sha a))
            \<lparr>sourceWeight := accountSelectorWeight a, maxConcurrent := ac_Concurrency a\<rparr>\<rparr>
        | None \<Rightarrow> new_account (as_failureThreshold s) (new_control (AccountRevision sha a)) (ac_ID a)
            (accountSelectorWeight a) (ac_Concurrency a))
      in (st, set_account s (ac_ID a) st))"

definition RemoveAccount :: "account_selector \<Rightarrow> int64 \<Rightarrow> account_selector" where
  "RemoveAccount s i = s\<lparr>accounts := remove_key i (accounts s)\<rparr>"

subsection \<open>Load from other replicas\<close>

record load_oracle =
  Inflight :: "int64 \<Rightarrow> int"
  InflightBatch :: "int64 list \<Rightarrow> (int64 \<times> int) list option"

definition prefetchInflight :: "load_oracle option \<Rightarrow> acct option list \<Rightarrow> (int64 \<times> int) list" where
  "prefetchInflight oracle cands = (case oracle of None \<Rightarrow> []
   | Some orc \<Rightarrow> let ns = concat (map (\<lambda>co. case co of None \<Rightarrow> [] | Some a \<Rightarrow> if 0 < ac_ID a then [ac_ID a] else []) cands) in
       if ns = [] then []
       else case InflightBatch orc ns of
         Some batched \<Rightarrow> batched
       | None \<Rightarrow> fold (\<lambda>i m. put i (Inflight orc i) m) ns [])"

definition accountLoadFactor :: "account_state \<Rightarrow> int" where
  "accountLoadFactor st =
     (if maxConcurrent (asrc st) \<le> 0 then
        (let n = inflight (slots (asrc st)) in
         if n \<le> 0 then 100 else if n < 10 then 80 else if n < 20 then 50 else if n < 50 then 20 else 1)
      else let n = max (crossReplicaInflight st) (inflight (slots (asrc st))) in
        if n \<le> 0 then 100 else utilisation_band n (maxConcurrent (asrc st)))"

definition accountEffectiveWeight :: "account_state \<Rightarrow> int64 \<Rightarrow> int64" where
  "accountEffectiveWeight st tm = sourceWeight (asrc st) * healthFactor (asrc st) tm * accountLoadFactor st
     * recoveryFactor (control (asrc st)) div 100"

subsection \<open>Select\<close>

definition offer_account :: "(string \<Rightarrow> string) \<Rightarrow> (int64 \<times> int) list \<Rightarrow> int64 \<Rightarrow> acct
    \<Rightarrow> account_selector \<times> (int64 \<times> int64) option \<Rightarrow> account_selector \<times> (int64 \<times> int64) option" where
  "offer_account sha cross tm a acc = (case acc of (s0, best) \<Rightarrow>
     case updateAccountLocked sha s0 a of (st0, s) \<Rightarrow>
       if quarantined (asrc st0) (ac_UpstreamModelID a) tm then (s, best)
       else let st = st0\<lparr>asrc := reapSource (asrc st0) tm,
              crossReplicaInflight := (case map_of cross (ac_ID a) of Some n \<Rightarrow> n | None \<Rightarrow> 0)\<rparr> in
         if fenced (asrc st) tm then (set_account s (ac_ID a) st, best)
         else let w = wrap64 (currentWeight (asrc st) + accountEffectiveWeight st tm);
                  st' = st\<lparr>asrc := (tidy (asrc st) tm)\<lparr>currentWeight := w\<rparr>\<rparr>
           in (set_account s (ac_ID a) st',
               if (case best of None \<Rightarrow> MinInt64 | Some (_, bw) \<Rightarrow> bw) < w then Some (ac_ID a, w) else best))"

definition total_account_weight :: "account_selector \<Rightarrow> acct option list \<Rightarrow> int64 \<Rightarrow> int64" where
  "total_account_weight s cands tm = fold (\<lambda>co W. case co of None \<Rightarrow> W | Some a \<Rightarrow>
     case map_of (accounts s) (ac_ID a) of None \<Rightarrow> W | Some st \<Rightarrow>
       if quarantined (asrc st) (ac_UpstreamModelID a) tm \<or> fenced (asrc st) tm then W
       else wrap64 (W + accountEffectiveWeight st tm)) cands 0"

definition account_rate_limited :: "account_selector \<Rightarrow> acct \<Rightarrow> int64 \<Rightarrow> bool" where
  "account_rate_limited s a tm \<longleftrightarrow> (case map_of (accounts s) (ac_ID a) of None \<Rightarrow> False | Some st \<Rightarrow>
     tm < capacityUntil (control (asrc st)) \<and> \<not> blocked (control (asrc st)) (ac_UpstreamModelID a) tm)"

definition present_accounts :: "acct option list \<Rightarrow> acct list" where
  "present_accounts cands = map the (filter (\<lambda>co. co \<noteq> None) cands)"

text \<open>The end of \<open>Select\<close> for the best account \<open>i\<close>.\<close>

definition settle_account :: "account_selector \<Rightarrow> acct option list \<Rightarrow> int64 \<Rightarrow> string \<Rightarrow> int64
    \<Rightarrow> (source_error + acct) \<times> account_selector" where
  "settle_account s cands tm uuid i =
     (let W = total_account_weight s cands tm;
          b = the (map_of (accounts s) i);
          b1 = (if 0 < W then b\<lparr>asrc := (asrc b)\<lparr>currentWeight := wrap64 (currentWeight (asrc b) - W)\<rparr>\<rparr> else b);
          b2 = b1\<lparr>asrc := arm (asrc b1) tm uuid\<rparr>
      in (case find (\<lambda>a. ac_ID a = accountID b2) (present_accounts cands) of
            Some a \<Rightarrow> Inr (a\<lparr>ac_HealthProbeID := probeID (control (asrc b2))\<rparr>)
          | None \<Rightarrow> Inl ErrSubscriptionAccountNotFound,
          set_account s i b2))"

definition SelectAccount :: "(string \<Rightarrow> string) \<Rightarrow> (int64 \<times> int) list \<Rightarrow> account_selector \<Rightarrow> acct option list \<Rightarrow> int64
    \<Rightarrow> string \<Rightarrow> (source_error + acct) \<times> account_selector" where
  "SelectAccount sha cross s cands tm uuid =
     (if cands = [] then (Inl ErrSubscriptionAccountNotFound, s)
      else case fold (offer_account sha cross tm) (present_accounts cands) (s, None) of (s2, best) \<Rightarrow>
        case best of
          None \<Rightarrow> (Inl (if \<exists>a \<in> set (present_accounts cands). account_rate_limited s2 a tm
             then ErrUpstreamRateLimit else ErrSubscriptionAccountNotFound), s2)
        | Some (i, _) \<Rightarrow> settle_account s2 cands tm uuid i)"

subsection \<open>Reports\<close>

text \<open>The state \<open>RecordSlot\<close> and \<open>RecordAccountHealth\<close> install for an unknown account.\<close>

definition known_account :: "account_selector \<Rightarrow> int64 \<Rightarrow> account_state" where
  "known_account s i = (case map_of (accounts s) i of Some st \<Rightarrow> st
     | None \<Rightarrow> new_account (as_failureThreshold s) (new_control []) i 1 0)"

definition RecordAccountSlot :: "account_selector \<Rightarrow> int64 \<Rightarrow> string \<Rightarrow> bool \<Rightarrow> int64 \<Rightarrow> bool \<times> account_selector" where
  "RecordAccountSlot s i slotID acquired tm =
     (if i \<le> 0 \<or> slotID = [] then (False, s)
      else let st = known_account s i in
        case reportSlot (asrc st) slotID acquired 0 tm of (ok, st') \<Rightarrow> (ok, set_account s i (st\<lparr>asrc := st'\<rparr>)))"

definition ReportAccountHealth :: "account_selector \<Rightarrow> int64 \<Rightarrow> bool \<Rightarrow> int64 \<Rightarrow> account_selector" where
  "ReportAccountHealth s i success tm =
     (if i \<le> 0 then s
      else let st = known_account s i in
        if ignores_health (asrc st) tm then set_account s i st
        else set_account s i (st\<lparr>asrc := recordSourceHealth (asrc st) success tm\<rparr>))"

definition observe_account :: "account_selector \<Rightarrow> observation \<Rightarrow> int64 \<Rightarrow> bool \<times> account_selector" where
  "observe_account s ob tm = (case map_of (accounts s) (ObservedID ob) of None \<Rightarrow> (False, s)
   | Some st \<Rightarrow> case recordObservation (asrc st) ob tm (None :: string option) of ((ok, _), st') \<Rightarrow>
       (ok, set_account s (ObservedID ob) (st\<lparr>asrc := st'\<rparr>)))"

text \<open>\<open>found\<close> is what the repository returned with \<open>IsSchedulableAt\<close> of it.\<close>

definition claim_account :: "(string \<Rightarrow> string) \<Rightarrow> account_selector \<Rightarrow> execution_claim \<Rightarrow> (acct \<times> bool) option \<Rightarrow> int64
    \<Rightarrow> string \<Rightarrow> (source_error + execution_lease) \<times> account_selector" where
  "claim_account sha s cl found tm uuid =
     (case found of None \<Rightarrow> (Inl ErrSubscriptionAccountNotFound, s)
      | Some (a, schedulable) \<Rightarrow>
        if cl_ConfigurationRevision cl \<noteq> AccountRevision sha a \<or> ac_Status a \<noteq> 1 \<or> \<not> schedulable
        then (Inl ErrSubscriptionAccountNotFound, s)
        else case updateAccountLocked sha s a of (st, s1) \<Rightarrow>
          case claimSource (asrc st) cl ErrSubscriptionAccountNotFound tm uuid of (res, st') \<Rightarrow>
            (res, set_account s1 (ac_ID a) (st\<lparr>asrc := st'\<rparr>)))"

end
