(* ===== verification/Account_Machine.thy ===== *)
theory Account_Machine
  imports Account_Selector Source_Machine
begin

text \<open>
  The subscription-account selector refines the state machine of its sources, as the channel selector
  does; the laws of \<open>source_owner\<close> hold for it by the same argument.
\<close>

subsection \<open>Operations and replies\<close>

datatype account_op =
    AccountSelect "(int64 \<times> int) list" "acct option list" int64 string
  | AccountSlot int64 string bool int64
  | AccountHealth int64 bool int64
  | AccountObserve observation int64
  | AccountClaim execution_claim "(acct \<times> bool) option" int64 string
  | AccountUpdate acct int64
  | AccountRemove int64 int64

datatype account_reply =
    AccountSelected "source_error + acct"
  | AccountSlotReply bool
  | AccountObserved bool
  | AccountLease "source_error + execution_lease"
  | AccountDone

fun account_step :: "(string \<Rightarrow> string) \<Rightarrow> account_op \<Rightarrow> account_selector \<Rightarrow> account_reply \<times> account_selector" where
  "account_step sha (AccountSelect cross cands tm uuid) s = map_prod AccountSelected (\<lambda>x. x) (SelectAccount sha cross s cands tm uuid)"
| "account_step sha (AccountSlot i slotID acquired tm) s = map_prod AccountSlotReply (\<lambda>x. x) (RecordAccountSlot s i slotID acquired tm)"
| "account_step sha (AccountHealth i success tm) s = (AccountDone, ReportAccountHealth s i success tm)"
| "account_step sha (AccountObserve ob tm) s = map_prod AccountObserved (\<lambda>x. x) (observe_account s ob tm)"
| "account_step sha (AccountClaim cl found tm uuid) s = map_prod AccountLease (\<lambda>x. x) (claim_account sha s cl found tm uuid)"
| "account_step sha (AccountUpdate a tm) s = (AccountDone, snd (updateAccountLocked sha s a))"
| "account_step sha (AccountRemove i tm) s = (AccountDone, RemoveAccount s i)"

fun account_clock :: "account_op \<Rightarrow> int64" where
  "account_clock (AccountSelect _ _ tm _) = tm"
| "account_clock (AccountSlot _ _ _ tm) = tm"
| "account_clock (AccountHealth _ _ tm) = tm"
| "account_clock (AccountObserve _ tm) = tm"
| "account_clock (AccountClaim _ _ tm _) = tm"
| "account_clock (AccountUpdate _ tm) = tm"
| "account_clock (AccountRemove _ tm) = tm"

fun account_configured :: "account_op \<Rightarrow> acct list" where
  "account_configured (AccountSelect _ cands _ _) = present_accounts cands"
| "account_configured (AccountClaim _ (Some (a, _)) _ _) = [a]"
| "account_configured (AccountUpdate a _) = [a]"
| "account_configured _ = []"

definition account_reconfigures :: "(string \<Rightarrow> string) \<Rightarrow> int64 \<Rightarrow> string \<Rightarrow> account_op \<Rightarrow> bool" where
  "account_reconfigures sha i r op \<longleftrightarrow> (\<exists>tm. op = AccountRemove i tm)
     \<or> (\<exists>a \<in> set (account_configured op). ac_ID a = i \<and> AccountRevision sha a \<noteq> r)"

fun account_events :: "int64 \<Rightarrow> account_op \<Rightarrow> account_reply \<Rightarrow> source_event list" where
  "account_events i (AccountSelect _ _ _ _) (AccountSelected (Inr a)) = (if ac_ID a = i then [Chosen (ac_HealthProbeID a)] else [])"
| "account_events i (AccountObserve ob _) (AccountObserved ok) =
     (if ObservedID ob = i then [Observed ob ok False] else [])"
| "account_events i (AccountClaim cl (Some (a, _)) _ _) (AccountLease (Inr lease)) =
     (if ac_ID a = i then [Leased cl (ls_ProbeID lease)] else [])"
| "account_events i _ _ = []"

text \<open>The id an entry carries is the key it stands under.\<close>

definition account_source :: "int64 \<Rightarrow> account_selector \<Rightarrow> source_state option" where
  "account_source i s = map_option asrc (map_of (accounts s) i)"

subsection \<open>Single accounts\<close>

lemma account_source_set [simp]:
  "account_source i (set_account s k st) = (if k = i then Some (asrc st) else account_source i s)"
  by (simp add: account_source_def set_account_def)

lemma account_source_Some: "account_source i s = Some st \<longleftrightarrow> (\<exists>e. map_of (accounts s) i = Some e \<and> asrc e = st)"
  by (auto simp: account_source_def)

lemma map_of_set_account [simp]: "map_of (accounts (set_account s k st)) i = (if i = k then Some st else map_of (accounts s) i)"
  by (simp add: set_account_def)

text \<open>What a refresh, a reap and a change of weight leave alone is what admits a source.\<close>

definition same_gate :: "source_state \<Rightarrow> source_state \<Rightarrow> bool" where
  "same_gate st st' \<longleftrightarrow> control st' = control st \<and> circuitOpenUntil st' = circuitOpenUntil st
     \<and> circuitProbeUntil st' = circuitProbeUntil st"

lemma same_gate_refl [simp]: "same_gate st st"
  by (simp add: same_gate_def)

lemma same_gate_trans: "same_gate st st' \<Longrightarrow> same_gate st' st'' \<Longrightarrow> same_gate st st''"
  by (simp add: same_gate_def)

lemma same_gate_silent: "same_gate st st' \<Longrightarrow> silent tm st st'"
  by (rule silent_quiet) (simp_all add: same_gate_def)

lemma same_gate_admissible: "same_gate st st' \<Longrightarrow> admissible st' model tm = admissible st model tm"
  by (rule admissible_cong) (simp_all add: same_gate_def)

lemma same_gate_update [simp]:
  "same_gate st (reapSource st tm)" "same_gate st (st\<lparr>currentWeight := w\<rparr>)" "same_gate st (tidy st tm)"
  "same_gate st (st\<lparr>sourceWeight := v, maxConcurrent := n\<rparr>)"
  by (simp_all add: same_gate_def reapSource_def)

lemma account_update_self:
  assumes "account_source (ac_ID a) s = Some st" "AccountRevision sha a = revision (control st)"
    and "updateAccountLocked sha s a = (e, s')"
  shows "same_gate st (asrc e)" "map_of (accounts s') (ac_ID a) = Some e"
  using assms by (auto simp: updateAccountLocked_def Let_def account_source_Some)

lemma account_update_other:
  "ac_ID a \<noteq> i \<Longrightarrow> updateAccountLocked sha s a = (e, s') \<Longrightarrow> account_source i s' = account_source i s"
  by (auto simp: updateAccountLocked_def Let_def)

definition account_keyed :: "int64 \<Rightarrow> account_selector \<Rightarrow> bool" where
  "account_keyed k s \<longleftrightarrow> (\<forall>e. map_of (accounts s) k = Some e \<longrightarrow> accountID e = k)"

definition all_keyed :: "account_selector \<Rightarrow> bool" where
  "all_keyed s \<longleftrightarrow> (\<forall>k. account_keyed k s)"

lemma all_keyed_set: "all_keyed s \<Longrightarrow> accountID e = k \<Longrightarrow> all_keyed (set_account s k e)"
  by (simp add: all_keyed_def account_keyed_def)

lemma account_update_keyed:
  assumes "all_keyed s" "updateAccountLocked sha s a = (e, s')"
  shows "accountID e = ac_ID a" "all_keyed s'"
proof -
  from assms have "s' = set_account s (ac_ID a) e" by (auto simp: updateAccountLocked_def Let_def)
  moreover from assms show "accountID e = ac_ID a"
    by (auto simp: updateAccountLocked_def Let_def all_keyed_def account_keyed_def new_account_def split: option.splits)
  ultimately show "all_keyed s'" using assms(1) all_keyed_set by simp
qed

lemma known_account_keyed: "all_keyed s \<Longrightarrow> accountID (known_account s i) = i"
  by (auto simp: known_account_def all_keyed_def account_keyed_def new_account_def split: option.splits)

subsection \<open>Offers\<close>

definition account_offered :: "int64 \<Rightarrow> int64 \<Rightarrow> source_state \<Rightarrow> account_selector \<times> (int64 \<times> int64) option \<Rightarrow> bool" where
  "account_offered i tm st acc \<longleftrightarrow> (\<exists>st'. account_source i (fst acc) = Some st' \<and> same_gate st st')
     \<and> (\<forall>w. snd acc = Some (i, w) \<longrightarrow> (\<exists>model. admissible st model tm))"

lemma account_offer_other:
  assumes "ac_ID a \<noteq> i"
  shows "account_source i (fst (offer_account sha cross tm a (s, best))) = account_source i s
    \<and> (\<forall>w. snd (offer_account sha cross tm a (s, best)) = Some (i, w) \<longrightarrow> best = Some (i, w))"
proof -
  obtain e s1 where u: "updateAccountLocked sha s a = (e, s1)" by fastforce
  with account_update_other [OF assms u] assms show ?thesis by (simp add: offer_account_def Let_def)
qed

lemma account_offer_self:
  assumes "account_source (ac_ID a) s = Some st" "AccountRevision sha a = revision (control st)"
  shows "\<exists>st'. account_source (ac_ID a) (fst (offer_account sha cross tm a (s, best))) = Some st' \<and> same_gate st st'
     \<and> (snd (offer_account sha cross tm a (s, best)) = best \<or> admissible st (ac_UpstreamModelID a) tm)"
proof -
  obtain e s1 where u: "updateAccountLocked sha s a = (e, s1)" by fastforce
  note gate = account_update_self [OF assms u]
  then have src1: "account_source (ac_ID a) s1 = Some (asrc e)" by (simp add: account_source_def)
  let ?r = "reapSource (asrc e) tm"
  have r: "same_gate st ?r" by (rule same_gate_trans [OF gate(1)]) simp
  have "quarantined ?r (ac_UpstreamModelID a) tm = quarantined (asrc e) (ac_UpstreamModelID a) tm"
    by (simp add: quarantined_def reapSource_def)
  with same_gate_admissible [OF r, of "ac_UpstreamModelID a" tm]
  have adm: "admissible st (ac_UpstreamModelID a) tm \<longleftrightarrow> \<not> quarantined (asrc e) (ac_UpstreamModelID a) tm \<and> \<not> fenced ?r tm"
    by (simp add: admissible_def)
  have w: "same_gate st ((tidy ?r tm)\<lparr>currentWeight := v\<rparr>)" for v
    by (rule same_gate_trans [OF r], rule same_gate_trans [of _ "tidy ?r tm"]) simp_all
  consider "quarantined (asrc e) (ac_UpstreamModelID a) tm"
    | "\<not> quarantined (asrc e) (ac_UpstreamModelID a) tm" "fenced ?r tm"
    | "\<not> quarantined (asrc e) (ac_UpstreamModelID a) tm" "\<not> fenced ?r tm" by blast
  then show ?thesis
  proof cases
    case 1
    with u src1 gate(1) show ?thesis by (simp add: offer_account_def)
  next
    case 2
    with u r show ?thesis by (simp add: offer_account_def Let_def)
  next
    case 3
    with u w adm show ?thesis by (simp add: offer_account_def Let_def)
  qed
qed

lemma account_offered_step:
  assumes "account_offered i tm st acc" "ac_ID a = i \<Longrightarrow> AccountRevision sha a = revision (control st)"
  shows "account_offered i tm st (offer_account sha cross tm a acc)"
proof -
  obtain s best where acc: "acc = (s, best)" by fastforce
  obtain st1 where st1: "account_source i s = Some st1" "same_gate st st1"
      and best: "\<forall>w. best = Some (i, w) \<longrightarrow> (\<exists>model. admissible st model tm)"
    using assms(1) unfolding account_offered_def acc fst_conv snd_conv by blast
  show ?thesis
  proof (cases "ac_ID a = i")
    case False
    from account_offer_other [OF this, of sha cross tm s best] st1 best show ?thesis by (auto simp: account_offered_def acc)
  next
    case True
    have "AccountRevision sha a = revision (control st1)" using assms(2) True st1(2) by (simp add: same_gate_def)
    from account_offer_self [OF st1(1) [folded True] this, of cross tm best] obtain st2
      where st2: "account_source i (fst (offer_account sha cross tm a (s, best))) = Some st2" "same_gate st1 st2"
        and b: "snd (offer_account sha cross tm a (s, best)) = best \<or> admissible st1 (ac_UpstreamModelID a) tm"
      using True by auto
    have "\<forall>w. snd (offer_account sha cross tm a (s, best)) = Some (i, w) \<longrightarrow> (\<exists>model. admissible st model tm)"
      using b best same_gate_admissible [OF st1(2)] by auto
    with st2 same_gate_trans [OF st1(2) st2(2)] show ?thesis unfolding account_offered_def acc fst_conv by blast
  qed
qed

lemma account_offered_all:
  "account_offered i tm st acc \<Longrightarrow> \<forall>a \<in> set as. ac_ID a = i \<longrightarrow> AccountRevision sha a = revision (control st) \<Longrightarrow>
   account_offered i tm st (fold (offer_account sha cross tm) as acc)"
proof (induction as arbitrary: acc)
  case (Cons a as)
  then show ?case using account_offered_step [of i tm st acc a sha cross] by simp
qed simp

lemma account_offers_best:
  "snd (fold (offer_account sha cross tm) as acc) = Some (k, w) \<Longrightarrow> snd acc = Some (k, w) \<or> k \<in> ac_ID ` set as"
proof (induction as arbitrary: acc)
  case (Cons a as)
  have "snd (offer_account sha cross tm a acc) = snd acc \<or> (\<exists>w. snd (offer_account sha cross tm a acc) = Some (ac_ID a, w))"
    by (cases acc) (auto simp: offer_account_def Let_def split: prod.splits)
  with Cons.IH [of "offer_account sha cross tm a acc"] Cons.prems show ?case by auto
qed simp

lemma account_offer_keyed: "all_keyed (fst acc) \<Longrightarrow> all_keyed (fst (offer_account sha cross tm a acc))"
proof -
  assume k: "all_keyed (fst acc)"
  obtain e s1 where u: "updateAccountLocked sha (fst acc) a = (e, s1)" by fastforce
  with account_update_keyed [OF k u] show ?thesis
    by (cases acc) (simp add: offer_account_def Let_def all_keyed_set)
qed

lemma account_offers_keyed: "all_keyed (fst acc) \<Longrightarrow> all_keyed (fst (fold (offer_account sha cross tm) as acc))"
proof (induction as arbitrary: acc)
  case (Cons a as)
  from Cons.IH [OF account_offer_keyed [OF Cons.prems]] show ?case by simp
qed simp

definition known :: "int64 \<Rightarrow> account_selector \<Rightarrow> bool" where
  "known k s \<longleftrightarrow> map_of (accounts s) k \<noteq> None"

lemma known_set [simp]: "known k (set_account s j e) \<longleftrightarrow> k = j \<or> known k s"
  by (simp add: known_def)

lemma offer_known: "known k (fst acc) \<or> ac_ID a = k \<Longrightarrow> known k (fst (offer_account sha cross tm a acc))"
  by (cases acc) (auto simp: offer_account_def updateAccountLocked_def Let_def)

lemma offers_known:
  "known k (fst acc) \<or> k \<in> ac_ID ` set as \<Longrightarrow> known k (fst (fold (offer_account sha cross tm) as acc))"
proof (induction as arbitrary: acc)
  case (Cons a as)
  have "known k (fst (offer_account sha cross tm a acc)) \<or> k \<in> ac_ID ` set as"
    using Cons.prems offer_known [of k acc a sha cross tm] by auto
  from Cons.IH [OF this] show ?case by simp
qed simp

lemma SelectAccount_chosen:
  assumes "SelectAccount sha cross s cands tm uuid = (res, s')" "all_keyed s"
  obtains (refused) e where "res = Inl e" "s' = s \<or> s' = fst (fold (offer_account sha cross tm) (present_accounts cands) (s, None))"
  | (chosen) k w s2 b b1 n where "fold (offer_account sha cross tm) (present_accounts cands) (s, None) = (s2, Some (k, w))"
      "map_of (accounts s2) k = Some b" "accountID b = k"
      "asrc b1 = (asrc b)\<lparr>currentWeight := n\<rparr>" "accountID b1 = accountID b"
      "s' = set_account s2 k (b1\<lparr>asrc := arm (asrc b1) tm uuid\<rparr>)"
      "\<exists>a. res = Inr a \<and> ac_ID a = k \<and> ac_HealthProbeID a = probeID (control (arm (asrc b1) tm uuid))"
proof -
  obtain s2 best where acc: "fold (offer_account sha cross tm) (present_accounts cands) (s, None) = (s2, best)" by fastforce
  show ?thesis
  proof (cases "cands = [] \<or> best = None")
    case True
    with assms(1) acc obtain e where "res = Inl e" "s' = s \<or> s' = s2"
      by (auto simp: SelectAccount_def split: if_split_asm)
    with acc show ?thesis by (intro refused) simp_all
  next
    case False
    then obtain k w where best: "best = Some (k, w)" by auto
    with False assms(1) acc have settled: "settle_account s2 cands tm uuid k = (res, s')" by (simp add: SelectAccount_def)
    define b where "b = the (map_of (accounts s2) k)"
    define b1 where "b1 = (if 0 < total_account_weight s2 cands tm
        then b\<lparr>asrc := (asrc b)\<lparr>currentWeight := wrap64 (currentWeight (asrc b) - total_account_weight s2 cands tm)\<rparr>\<rparr> else b)"
    obtain n where b1: "asrc b1 = (asrc b)\<lparr>currentWeight := n\<rparr>" "accountID b1 = accountID b"
    proof
      show "asrc b1 = (asrc b)\<lparr>currentWeight := currentWeight (asrc b1)\<rparr>" "accountID b1 = accountID b" by (simp_all add: b1_def)
    qed
    have "k \<in> ac_ID ` set (present_accounts cands)"
      using account_offers_best [of sha cross tm "present_accounts cands" "(s, None)" k w] acc best by simp
    then have "known k s2" using offers_known [of k "(s, None)" "present_accounts cands" sha cross tm] acc by simp
    then have b: "map_of (accounts s2) k = Some b" by (auto simp: known_def b_def)
    have "all_keyed s2" using assms(2) account_offers_keyed [of "(s, None)" sha cross tm "present_accounts cands"] acc by simp
    with b have id: "accountID b = k" by (simp add: all_keyed_def account_keyed_def)
    obtain a where a: "find (\<lambda>a. ac_ID a = k) (present_accounts cands) = Some a" "ac_ID a = k"
      using \<open>k \<in> ac_ID ` set (present_accounts cands)\<close>
      by (cases "find (\<lambda>a. ac_ID a = k) (present_accounts cands)") (auto simp: find_None_iff find_Some_iff)
    from settled a(1) id have res: "s' = set_account s2 k (b1\<lparr>asrc := arm (asrc b1) tm uuid\<rparr>)"
      "res = Inr (a\<lparr>ac_HealthProbeID := probeID (control (arm (asrc b1) tm uuid))\<rparr>)"
      unfolding settle_account_def Let_def b_def [symmetric] b1_def [symmetric] by (auto simp: b1(2))
    with a(2) show ?thesis by (intro chosen [OF acc [unfolded best] b id b1 res(1)]) simp
  qed
qed

lemma SelectAccount_simulates:
  assumes account_keyed: "all_keyed s" and src: "account_source i s = Some st"
    and cfg: "\<forall>a \<in> set (present_accounts cands). ac_ID a = i \<longrightarrow> AccountRevision sha a = revision (control st)"
    and run: "SelectAccount sha cross s cands tm uuid = (res, s')"
  shows "\<exists>st'. account_source i s' = Some st' \<and> (\<exists>evs. source_run evs st st' \<and> (\<forall>(t, e) \<in> set evs. t = tm)
     \<and> filter visible (map snd evs) = (case res of Inr a \<Rightarrow> if ac_ID a = i then [Chosen (ac_HealthProbeID a)] else []
         | Inl _ \<Rightarrow> []))"
proof -
  let ?acc = "fold (offer_account sha cross tm) (present_accounts cands) (s, None)"
  have "account_offered i tm st (s, None)" using src by (simp add: account_offered_def)
  from account_offered_all [OF this cfg] have off: "account_offered i tm st ?acc" .
  then obtain st2 where st2: "account_source i (fst ?acc) = Some st2" "same_gate st st2" unfolding account_offered_def by blast
  note sil = same_gate_silent [OF st2(2), of tm]
  have keyed2: "all_keyed (fst ?acc)" using account_keyed account_offers_keyed by simp
  from run account_keyed show ?thesis
  proof (cases rule: SelectAccount_chosen)
    case (refused e)
    with src st2(1) owner_silent [OF sil] owner_silent [OF silent_refl [of tm st]] show ?thesis by auto
  next
    case (chosen k w s2 b b1 n)
    show ?thesis
    proof (cases "k = i")
      case False
      have "(case res of Inr a \<Rightarrow> if ac_ID a = i then [Chosen (ac_HealthProbeID a)] else [] | Inl _ \<Rightarrow> []) = []"
        using False chosen(7) by auto
      with False chosen(1,6) st2(1) owner_silent [OF sil] show ?thesis by simp
    next
      case True
      from st2(1) chosen(1,2) True have b: "asrc b = st2" by (simp add: account_source_def)
      have gate: "same_gate st2 (asrc b1)" by (simp add: chosen(4) b)
      have "\<exists>model. admissible st model tm" using off chosen(1) True by (auto simp: account_offered_def)
      then obtain model where "admissible (asrc b1) model tm"
        using same_gate_admissible [OF same_gate_trans [OF st2(2) gate], of _ tm] by blast
      note step = source_step.chosen [OF this, of uuid]
      have "(case res of Inr a \<Rightarrow> if ac_ID a = i then [Chosen (ac_HealthProbeID a)] else [] | Inl _ \<Rightarrow> [])
          = [Chosen (probeID (control (arm (asrc b1) tm uuid)))]"
        using True chosen(7) by auto
      with True chosen(6) owner_step [OF same_gate_silent [OF same_gate_trans [OF st2(2) gate]] step]
      show ?thesis by simp
    qed
  qed
qed

subsection \<open>The operations\<close>

lemma known_account_source: "account_source i s = Some st \<Longrightarrow> asrc (known_account s i) = st"
  by (auto simp: account_source_Some known_account_def)

lemma RecordAccountSlot_simulates:
  assumes "account_source i s = Some st" "RecordAccountSlot s k slotID acquired tm = (ok, s')"
  shows "\<exists>st'. account_source i s' = Some st' \<and> silent tm st st'"
proof (cases "k \<le> 0 \<or> slotID = []")
  case True
  with assms show ?thesis by (auto simp: RecordAccountSlot_def)
next
  case False
  obtain r st1 where r: "reportSlot (asrc (known_account s k)) slotID acquired 0 tm = (r, st1)" by fastforce
  have s': "s' = set_account s k ((known_account s k)\<lparr>asrc := st1\<rparr>)"
    using False assms(2) r by (simp add: RecordAccountSlot_def Let_def)
  show ?thesis
  proof (cases "k = i")
    case True
    with r known_account_source [OF assms(1)] have "source_step tm SlotReported st st1"
      by (auto intro: source_step.slot)
    then have "silent tm st st1" by (rule silent_step) simp
    with True show ?thesis by (simp add: s')
  qed (use assms(1) in \<open>simp add: s'\<close>)
qed

lemma RecordAccountHealth_simulates:
  assumes "account_source i s = Some st"
  shows "\<exists>st'. account_source i (ReportAccountHealth s k success tm) = Some st' \<and> silent tm st st'"
proof (cases "k = i")
  case True
  show ?thesis
  proof (cases "k \<le> 0 \<or> ignores_health st tm")
    case True
    with assms \<open>k = i\<close> known_account_source [OF assms] show ?thesis by (auto simp: ReportAccountHealth_def Let_def)
  next
    case False
    then have "source_step tm (HealthReported success) st (recordSourceHealth st success tm)"
      by (intro source_step.health) simp
    then have "silent tm st (recordSourceHealth st success tm)" by (rule silent_step) simp
    with False \<open>k = i\<close> known_account_source [OF assms] show ?thesis by (simp add: ReportAccountHealth_def Let_def)
  qed
qed (use assms in \<open>simp add: ReportAccountHealth_def Let_def\<close>)

lemma observe_account_simulates:
  assumes "account_source i s = Some st" "observe_account s ob tm = (ok, s')"
  shows "\<exists>st'. account_source i s' = Some st' \<and> (\<exists>evs. source_run evs st st' \<and> (\<forall>(t, e) \<in> set evs. t = tm)
     \<and> filter visible (map snd evs) = (if ObservedID ob = i then [Observed ob ok False] else []))"
proof (cases "ObservedID ob = i")
  case True
  with assms(1) obtain e where e: "map_of (accounts s) (ObservedID ob) = Some e" "asrc e = st"
    by (auto simp: account_source_Some)
  obtain b err st' where r: "recordObservation st ob tm (None :: string option) = ((b, err), st')"
    by (metis prod.collapse)
  with assms(2) e have ok: "ok = b" and s': "account_source i s' = Some st'"
    using True by (auto simp: observe_account_def)
  have "err = None" using r by (auto simp: recordObservation_def Let_def split: if_split_asm prod.splits)
  with r have "source_step tm (Observed ob ok False) st st'"
    using source_step.observed [of st ob tm None b err st'] ok by simp
  from owner_step [OF silent_refl this] s' True show ?thesis by simp
next
  case False
  then have "account_source i s' = Some st"
    using assms by (auto simp: observe_account_def split: option.splits prod.splits)
  with False owner_silent [OF silent_refl [of tm st]] show ?thesis by auto
qed

lemma claim_account_simulates:
  assumes src: "account_source i s = Some st"
    and cfg: "\<forall>a b. found = Some (a, b) \<longrightarrow> ac_ID a = i \<longrightarrow> AccountRevision sha a = revision (control st)"
    and run: "claim_account sha s cl found tm uuid = (res, s')"
  shows "\<exists>st'. account_source i s' = Some st' \<and> (\<exists>evs. source_run evs st st' \<and> (\<forall>(t, e) \<in> set evs. t = tm)
     \<and> filter visible (map snd evs) = account_events i (AccountClaim cl found tm uuid) (AccountLease res))"
proof (cases "\<exists>a. found = Some (a, True) \<and> cl_ConfigurationRevision cl = AccountRevision sha a \<and> ac_Status a = 1")
  case False
  with run have "s' = s" "\<exists>e. res = Inl e"
    by (auto simp: claim_account_def split: option.splits if_split_asm prod.splits)
  with src owner_silent [OF silent_refl [of tm st]] show ?thesis by auto
next
  case True
  then obtain a where a: "found = Some (a, True)" "cl_ConfigurationRevision cl = AccountRevision sha a" "ac_Status a = 1"
    by blast
  obtain e s1 where u: "updateAccountLocked sha s a = (e, s1)" by fastforce
  obtain r st2 where r: "claimSource (asrc e) cl ErrSubscriptionAccountNotFound tm uuid = (r, st2)" by fastforce
  have res: "res = r" and s': "s' = set_account s1 (ac_ID a) (e\<lparr>asrc := st2\<rparr>)"
    using run a r u by (simp_all add: claim_account_def)
  show ?thesis
  proof (cases "ac_ID a = i")
    case other: False
    have "account_events i (AccountClaim cl found tm uuid) (AccountLease res) = []"
      using other a(1) by (cases res) simp_all
    with other src account_update_other [OF other u] owner_silent [OF silent_refl [of tm st]] show ?thesis by (auto simp: s')
  next
    case self: True
    have gate: "silent tm st (asrc e)"
      using account_update_self [OF src [folded self] _ u] cfg a(1) self same_gate_silent by blast
    show ?thesis
    proof (cases r)
      case (Inl err)
      have "st2 = asrc e" using r Inl
        by (auto simp: claimSource_def claimUpstreamExecution_def split: if_split_asm)
      with Inl self owner_silent [OF gate] show ?thesis by (simp add: s' res)
    next
      case (Inr lease)
      from r Inr have "source_step tm (Leased cl (ls_ProbeID lease)) (asrc e) st2"
        by (auto intro: source_step.leased)
      from owner_step [OF gate this] self Inr a(1) show ?thesis by (simp add: s' res)
    qed
  qed
qed

lemma account_simulates:
  assumes "all_keyed s" "account_source i s = Some st" "\<not> account_reconfigures sha i (revision (control st)) op"
    and "account_step sha op s = (r, s')"
  shows "\<exists>evs st'. account_source i s' = Some st' \<and> source_run evs st st'
      \<and> (\<forall>(t, e) \<in> set evs. t = account_clock op) \<and> filter visible (map snd evs) = account_events i op r"
proof (cases op)
  case (AccountSelect cross cands tm uuid)
  obtain res where run: "SelectAccount sha cross s cands tm uuid = (res, s')" "r = AccountSelected res"
    using assms(4) AccountSelect by (cases "SelectAccount sha cross s cands tm uuid") auto
  have ev: "account_events i op r = (case res of Inr a \<Rightarrow> if ac_ID a = i then [Chosen (ac_HealthProbeID a)] else []
      | Inl _ \<Rightarrow> [])"
    using AccountSelect run(2) by (cases res) simp_all
  have cfg: "\<forall>a \<in> set (present_accounts cands). ac_ID a = i \<longrightarrow> AccountRevision sha a = revision (control st)"
    using assms(3) AccountSelect by (auto simp: account_reconfigures_def)
  from SelectAccount_simulates [OF assms(1,2) cfg run(1)] AccountSelect show ?thesis unfolding ev by auto
next
  case (AccountSlot k slotID acquired tm)
  with assms(4) obtain ok where "RecordAccountSlot s k slotID acquired tm = (ok, s')"
    by (cases "RecordAccountSlot s k slotID acquired tm") auto
  from RecordAccountSlot_simulates [OF assms(2) this] AccountSlot owner_silent [of tm st] show ?thesis by fastforce
next
  case (AccountHealth k success tm)
  with assms(4) have "s' = ReportAccountHealth s k success tm" by simp
  with RecordAccountHealth_simulates [OF assms(2), of k success tm] AccountHealth owner_silent [of tm st]
  show ?thesis by fastforce
next
  case (AccountObserve ob tm)
  with assms(4) obtain ok where run: "observe_account s ob tm = (ok, s')" "r = AccountObserved ok"
    by (cases "observe_account s ob tm") auto
  from observe_account_simulates [OF assms(2) run(1)] AccountObserve run(2) show ?thesis by auto
next
  case (AccountClaim cl found tm uuid)
  with assms(4) obtain res where run: "claim_account sha s cl found tm uuid = (res, s')" "r = AccountLease res"
    by (cases "claim_account sha s cl found tm uuid") auto
  have cfg: "\<forall>a b. found = Some (a, b) \<longrightarrow> ac_ID a = i \<longrightarrow> AccountRevision sha a = revision (control st)"
    using assms(3) AccountClaim by (auto simp: account_reconfigures_def)
  from claim_account_simulates [OF assms(2) cfg run(1)] AccountClaim run(2) show ?thesis by auto
next
  case (AccountUpdate a tm)
  obtain e s1 where u: "updateAccountLocked sha s a = (e, s1)" by fastforce
  with AccountUpdate assms(4) have s': "s' = s1" "r = AccountDone" by simp_all
  show ?thesis
  proof (cases "ac_ID a = i")
    case True
    have "AccountRevision sha a = revision (control st)"
      using assms(3) AccountUpdate True by (auto simp: account_reconfigures_def)
    from account_update_self [OF assms(2) [folded True] this u] True owner_silent [OF same_gate_silent, of st "asrc e" tm]
    show ?thesis by (auto simp: s' AccountUpdate account_source_def)
  next
    case False
    with account_update_other [OF False u] assms(2) owner_silent [OF silent_refl [of tm st]] AccountUpdate show ?thesis by (auto simp: s')
  qed
next
  case (AccountRemove k tm)
  with AccountRemove assms have "account_source i s' = Some st"
    by (auto simp: account_reconfigures_def RemoveAccount_def account_source_def)
  with AccountRemove owner_silent [OF silent_refl [of tm st]] show ?thesis by auto
qed

lemma remove_keyed: "all_keyed s \<Longrightarrow> all_keyed (RemoveAccount s k)"
  by (auto simp: all_keyed_def account_keyed_def RemoveAccount_def)

lemma select_keyed:
  assumes "all_keyed s" "SelectAccount sha cross s cands tm uuid = (res, s')"
  shows "all_keyed s'"
  using assms(2,1)
proof (cases rule: SelectAccount_chosen)
  case (refused e)
  with assms(1) account_offers_keyed [of "(s, None)"] show ?thesis by auto
next
  case (chosen k w s2 b b1 n)
  with assms(1) account_offers_keyed [of "(s, None)" sha cross tm "present_accounts cands"] show ?thesis
    by (simp add: all_keyed_set)
qed

lemma account_step_keyed:
  assumes "all_keyed s" "account_step sha op s = (r, s')"
  shows "all_keyed s'"
proof (cases op)
  case (AccountSelect cross cands tm uuid)
  with assms show ?thesis by (cases "SelectAccount sha cross s cands tm uuid") (auto intro: select_keyed)
next
  case (AccountSlot k slotID acquired tm)
  with assms show ?thesis
    by (auto simp: RecordAccountSlot_def Let_def all_keyed_set known_account_keyed split: prod.splits if_split_asm)
next
  case (AccountHealth k success tm)
  with assms show ?thesis by (auto simp: ReportAccountHealth_def Let_def all_keyed_set known_account_keyed)
next
  case (AccountObserve ob tm)
  with assms show ?thesis
    by (auto simp: observe_account_def split: option.splits prod.splits intro!: all_keyed_set)
      (auto simp: all_keyed_def account_keyed_def)
next
  case (AccountClaim cl found tm uuid)
  with assms show ?thesis
    by (auto simp: claim_account_def split: option.splits prod.splits if_split_asm
        dest: account_update_keyed intro!: all_keyed_set)
next
  case (AccountUpdate a tm)
  with assms account_update_keyed(2) [of s sha a] show ?thesis by (cases "updateAccountLocked sha s a") auto
qed (use assms remove_keyed in auto)

interpretation subscriptions: source_owner "account_step sha" account_source account_clock "account_reconfigures sha"
  account_events all_keyed for sha
  by unfold_locales (rule account_step_keyed, assumption+, rule account_simulates)

end
