(* ===== verification/Selector_Properties.thy ===== *)
theory Selector_Properties
  imports Channel_Machine Account_Machine
begin

text \<open>
  What the selectors of the channel service guarantee, read off operations and replies: a half-open
  source belongs to the holder of its probe, only that holder closes the breaker, an observation
  counts once, and a choice is eligible. The facts are those of \<open>source_owner\<close>, interpreted.
\<close>

subsection \<open>Replies\<close>

lemma chosen_event: "Chosen p \<in> set (channel_events i op r) \<longleftrightarrow>
    (\<exists>cands tm uuid c. op = SelectOp cands tm uuid \<and> r = Selected (Inr c) \<and> ch_ID c = i \<and> ch_HealthProbeID c = p)"
  by (cases "(i, op, r)" rule: channel_events.cases) auto

lemma leased_event: "Leased cl p \<in> set (channel_events i op r) \<longleftrightarrow>
    (\<exists>c tm uuid lease. op = ClaimOp cl (Some c) tm uuid \<and> r = ClaimReply (Inr lease) \<and> ch_ID c = i \<and> ls_ProbeID lease = p)"
  by (cases "(i, op, r)" rule: channel_events.cases) auto

lemma observed_event: "Observed ob ok failed \<in> set (channel_events i op r) \<longleftrightarrow>
    (\<exists>tm stored err. op = ObserveOp ob tm stored \<and> r = ObserveReply (ok, err) \<and> ObservedID ob = i \<and> failed = (err \<noteq> None))"
  by (cases "(i, op, r)" rule: channel_events.cases) auto

text \<open>Who may have learnt a probe id: a caller whose selection or claim of the source returned it.\<close>

definition handed_out :: "int64 \<Rightarrow> string \<Rightarrow> (channel_op \<times> channel_reply) list \<Rightarrow> bool" where
  "handed_out i p trace \<longleftrightarrow> (\<exists>(op, r) \<in> set trace. Chosen p \<in> set (channel_events i op r)
     \<or> (\<exists>cl. Leased cl p \<in> set (channel_events i op r)))"

text \<open>An operation and its reply admit an execution on source \<open>i\<close> that is not the holder's of \<open>p\<close>.\<close>

definition intrudes :: "int64 \<Rightarrow> string \<Rightarrow> channel_op \<Rightarrow> channel_reply \<Rightarrow> bool" where
  "intrudes i p op r \<longleftrightarrow>
     (\<exists>c. r = Selected (Inr c) \<and> ch_ID c = i)
     \<or> (\<exists>cl c tm uuid lease. op = ClaimOp cl (Some c) tm uuid \<and> r = ClaimReply (Inr lease) \<and> ch_ID c = i
          \<and> \<not> (cl_ProbeID cl = p \<and> ls_ProbeID lease = p))"

lemma selected_reply: "(op, Selected x) \<in> set (zip ops (fst (op_run (channel_step sha) ops s))) \<Longrightarrow>
   \<exists>cands tm uuid. op = SelectOp cands tm uuid"
proof (induction ops arbitrary: s)
  case (Cons o' ops)
  obtain r s1 where r: "channel_step sha o' s = (r, s1)" by fastforce
  have "r = Selected x \<Longrightarrow> \<exists>cands tm uuid. o' = SelectOp cands tm uuid" using r by (cases o') (auto simp: map_prod_def split: prod.splits)
  moreover obtain rs s2 where rs: "op_run (channel_step sha) ops s1 = (rs, s2)" by fastforce
  moreover have "(op, Selected x) = (o', r) \<or> (op, Selected x) \<in> set (zip ops rs)"
    using Cons.prems r rs by auto
  ultimately show ?case using Cons.IH [of s1] by auto
qed simp

text \<open>C40. Exclusive probe. While the probe of a half-open channel is live nobody else is sent to the
  channel: whatever operations follow within the lease, short of a report by the holder, a new
  configuration or a removal, no selection returns the channel and a claim for it succeeds only with
  the probe's id.\<close>

theorem probe_exclusive:
  assumes "channel_source i s = Some st" "held p d st" "op_run (channel_step sha) ops s = (rs, s')"
    and "\<forall>op \<in> set ops. \<not> channel_reconfigures sha i (revision (control st)) op"
    and "\<forall>op \<in> set ops. channel_clock op < d \<and> d \<le> channel_clock op + executionSlotLeaseDuration"
    and "\<forall>op \<in> set ops. \<forall>ob tm stored. op = ObserveOp ob tm stored \<and> ObservedID ob = i \<longrightarrow> ProbeID ob \<noteq> p"
  shows "\<forall>(op, r) \<in> set (zip ops rs). \<not> intrudes i p op r"
proof -
  have "\<not> releases p e" if e: "(t, e) \<in> set (replies channel_clock (channel_events i) ops rs)" for t e
  proof
    assume "releases p e"
    with e obtain op r ob ok failed where "(op, r) \<in> set (zip ops rs)" "Observed ob ok failed \<in> set (channel_events i op r)"
        "ProbeID ob = p" unfolding set_replies releases_def by auto
    with assms(6) show False by (auto simp: observed_event dest!: set_zip_leftD)
  qed
  from weighted.exclusive [OF TrueI assms(1-3)] assms(4,5) this
  have "\<forall>(t, e) \<in> set (replies channel_clock (channel_events i) ops rs). \<not> admits_other p e" by blast
  then have "\<forall>(op, r) \<in> set (zip ops rs). \<forall>e \<in> set (channel_events i op r). \<not> admits_other p e"
    by (simp only: replies_ball)
  then have no: "(op, r) \<in> set (zip ops rs) \<Longrightarrow> e \<in> set (channel_events i op r) \<Longrightarrow> \<not> admits_other p e" for op r e
    by blast
  show ?thesis
  proof (intro ballI, clarify)
    fix op r assume z: "(op, r) \<in> set (zip ops rs)" and bad: "intrudes i p op r"
    from bad show False unfolding intrudes_def
    proof (elim disjE exE conjE)
      fix c assume c: "r = Selected (Inr c)" "ch_ID c = i"
      with z assms(3) selected_reply [of op "Inr c" ops sha s] obtain cands tm uuid where "op = SelectOp cands tm uuid" by auto
      with c have "Chosen (ch_HealthProbeID c) \<in> set (channel_events i op r)" by simp
      from no [OF z this] show False by (simp add: admits_other_def)
    next
      fix cl c tm uuid lease
      assume c: "op = ClaimOp cl (Some c) tm uuid" "r = ClaimReply (Inr lease)" "ch_ID c = i"
        "\<not> (cl_ProbeID cl = p \<and> ls_ProbeID lease = p)"
      then have "Leased cl (ls_ProbeID lease) \<in> set (channel_events i op r)" by simp
      from no [OF z this] c(4) show False by (simp add: admits_other_def)
    qed
  qed
qed

text \<open>Recovery. A channel whose breaker is not closed is closed again only by the accepted success
  of a probe: among the operations there is an observation of the channel, counted and successful,
  with a probe id that was outstanding at the start or that a selection or claim handed out since.\<close>

lemma closed_by_probe:
  assumes "channel_source i s = Some st" "0 < circuitOpenUntil st" "op_run (channel_step sha) ops s = (rs, s')"
    and "\<forall>op \<in> set ops. \<not> channel_reconfigures sha i (revision (control st)) op \<and> 0 < channel_clock op"
    and "channel_source i s' = Some st'" "circuitOpenUntil st' \<le> 0"
  shows "\<exists>ob tm stored. (ObserveOp ob tm stored, ObserveReply (True, None)) \<in> set (zip ops rs)
     \<and> ObservedID ob = i \<and> Outcome ob = HealthSuccess \<and> ProbeID ob \<noteq> []
     \<and> (ProbeID ob = probeID (control st) \<or> handed_out i (ProbeID ob) (zip ops rs))"
proof -
  from weighted.closes_only_by_probe [OF TrueI assms(1-3) _ _ assms(5,6)] assms(4) obtain p
    where p: "p = probeID (control st) \<or> (\<exists>(t, e) \<in> set (replies channel_clock (channel_events i) ops rs). hands_out e p)"
      and "\<exists>(t, e) \<in> set (replies channel_clock (channel_events i) ops rs). recovers e p" by blast
  then obtain op r e where e: "(op, r) \<in> set (zip ops rs)" "e \<in> set (channel_events i op r)" "recovers e p"
    unfolding replies_bex by blast
  then obtain ob where ob: "e = Observed ob True False" "Outcome ob = HealthSuccess" "ProbeID ob = p" "p \<noteq> []"
    by (auto simp: recovers_def)
  with e obtain tm stored where "op = ObserveOp ob tm stored" "r = ObserveReply (True, None)" "ObservedID ob = i"
    by (auto simp: observed_event)
  moreover have "p = probeID (control st) \<or> handed_out i p (zip ops rs)"
    using p unfolding replies_bex handed_out_def hands_out_def by blast
  ultimately show ?thesis
    using e(1) ob by (intro exI [of _ ob] exI [of _ tm] exI [of _ stored]) simp
qed

text \<open>One count per observation. For any sequence of operations that does not reconfigure the
  channel, the identifiers of its counted observations, newest first, have no repetition within
  1024 entries; an observation whose result could not be stored leaves an empty entry and may be
  reported again.\<close>

lemma observation_counts_once:
  assumes "channel_source i s = Some st" "ring_ok (control st)" "op_run (channel_step sha) ops s = (rs, s')"
    and "\<forall>op \<in> set ops. \<not> channel_reconfigures sha i (revision (control st)) op"
  shows "no_repeat (journal (replies channel_clock (channel_events i) ops rs))"
  by (rule weighted.counts_once [OF TrueI assms(1) _ assms(3)]) (use assms in \<open>simp_all add: ring_inv_def\<close>)

text \<open>Choice of a channel. A channel \<open>Select\<close> returns is a candidate that was eligible once the
  candidates' configuration was refreshed: not blocked or out of capacity for its model, breaker
  neither open nor under a live probe, fewer leases than its bound. A half-open channel leaves with
  the new probe id armed for one lease, a closed one with its control unchanged.\<close>

lemma Select_choice:
  assumes "SelectWeighted sha s cands tm uuid = (Inr c, s')"
  shows "\<exists>c0 cs st'. Some c0 \<in> set cands \<and> ch_ID c0 = ch_ID c
     \<and> map_of (channels (refreshed sha s cands tm)) (ch_ID c) = Some cs \<and> eligible (src cs) (ch_UpstreamModelID c0) tm
     \<and> channel_source (ch_ID c) s' = Some st' \<and> ch_HealthProbeID c = probeID (control st')
     \<and> (if breakerState (src cs) tm = circuitHalfOpen
        then probeID (control st') = uuid \<and> circuitOpenUntil st' = circuitHalfOpenSentinel
          \<and> circuitProbeUntil st' = tm + circuitBreakerProbeLeaseDuration
        else breakerState st' tm = circuitClosed \<and> control st' = control (src cs))"
proof (rule Select_chosen [OF assms])
  fix k w s2 b b1 n
  assume sel: "fold (offer tm) (present cands) (refreshed sha s cands tm, None) = (s2, Some (k, w))"
    "map_of (channels s2) k = Some b" "ch_ID (chan_of b) = k" "k \<in> ch_ID ` set (present cands)"
    "src b1 = (src b)\<lparr>currentWeight := n\<rparr>"
    "c = (chan_of b)\<lparr>ch_HealthProbeID := probeID (control (arm (src b1) tm uuid))\<rparr>"
    "s' = set_channel s2 k (b1\<lparr>src := arm (src b1) tm uuid\<rparr>)"
  have "keyed k (refreshed sha s cands tm)" using sel(4) unfolding refreshed_def by (intro keyed_update_all) simp
  then obtain cs where cs: "map_of (channels (refreshed sha s cands tm)) k = Some cs" by (auto simp: keyed_def)
  have "offered k tm (set (present cands)) (src cs) (refreshed sha s cands tm, None)"
    using cs by (simp add: offered_def channel_source_def)
  from offered_all [OF this order_refl] have off: "offered k tm (set (present cands)) (src cs) (s2, Some (k, w))"
    unfolding sel(1) .
  then have gate: "same_offer tm (src cs) (src b)" using sel(2) by (auto simp: offered_def channel_source_def)
  from off obtain c0 where c0: "c0 \<in> set (present cands)" "ch_ID c0 = k" "eligible (src cs) (ch_UpstreamModelID c0) tm"
    by (auto simp: offered_def)
  have same: "breakerState (src b1) tm = breakerState (src cs) tm" "control (src b1) = control (src cs)"
    using gate by (simp_all add: sel(5) same_offer_def breakerState_def)
  have "breakerState (src cs) tm \<noteq> circuitOpen" using c0(3) by (simp add: eligible_def admissible_def fenced_def)
  then have "breakerState (src cs) tm \<noteq> circuitHalfOpen \<Longrightarrow> breakerState (src cs) tm = circuitClosed"
    by (cases "breakerState (src cs) tm") simp_all
  with same c0 cs sel(3,6,7) set_present [of c0 cands] show ?thesis
    by (intro exI [of _ c0] exI [of _ cs] exI [of _ "arm (src b1) tm uuid"]) (auto simp: arm_def)
qed

subsection \<open>A concrete channel\<close>

text \<open>Channel 7 under a live probe until 120 s after second 1000; then a claim by somebody else.\<close>

definition demo_channel :: chan where
  "demo_channel = (bare_channel 7)\<lparr>ch_Type := 1, ch_Status := 1, ch_Key := ''k'', ch_Weight := 3\<rparr>"

definition demo_sha :: "string \<Rightarrow> string" where
  "demo_sha x = x"

definition demo_probed :: channel_state where
  "demo_probed = (fresh_channel demo_sha 5 demo_channel)\<lparr>
     src := (src (fresh_channel demo_sha 5 demo_channel))\<lparr>
       control := (new_control (ChannelRevision demo_sha demo_channel))\<lparr>probeID := ''p'', incidentAt := 900000000000\<rparr>,
       circuitOpenUntil := circuitHalfOpenSentinel, circuitProbeUntil := 1120000000000\<rparr>\<rparr>"

definition demo_selector :: weighted_selector where
  "demo_selector = \<lparr>sel_failureThreshold = 5, channels = [(7, demo_probed)]\<rparr>"

definition demo_claim :: execution_claim where
  "demo_claim = \<lparr>cl_SourceKind = ''channel'', cl_SourceID = 7,
     cl_ConfigurationRevision = ChannelRevision demo_sha demo_channel, cl_UpstreamModelID = [], cl_ProbeID = [],
     cl_AttemptID = ''a'', cl_RuntimeBuild = []\<rparr>"

definition demo_report :: observation where
  "demo_report = \<lparr>SourceKind = ''channel'', ObservedID = 7, ConfigurationRevision = ChannelRevision demo_sha demo_channel,
     ProbeID = ''p'', ObservationID = ''o1'', StartedAt = 1001000000000, Outcome = HealthSuccess, FailureKind = [],
     ObservedModel = [], ErrorText = [], ResponseTime = 200000000, RetryAfter = 0\<rparr>"

lemma demo_source: "channel_source 7 demo_selector = Some (src demo_probed)"
  by (simp add: channel_source_def demo_selector_def)

lemma demo_revision: "revision (control (src demo_probed)) = ChannelRevision demo_sha demo_channel"
  by (simp add: demo_probed_def new_control_def)

lemma demo_id: "ch_ID demo_channel = 7"
  by (simp add: demo_channel_def bare_channel_def)

lemma probe_exclusive_witness:
  "list_all (\<lambda>(op, r). \<not> intrudes 7 ''p'' op r)
    (zip [ClaimOp demo_claim (Some demo_channel) 1010000000000 ''u'', SelectOp [Some demo_channel] 1020000000000 ''v'']
      (fst (op_run (channel_step demo_sha)
        [ClaimOp demo_claim (Some demo_channel) 1010000000000 ''u'', SelectOp [Some demo_channel] 1020000000000 ''v'']
        demo_selector)))"
  unfolding list_all_iff
proof (rule probe_exclusive [OF demo_source, of "''p''" 1120000000000, OF _ prod.collapse [symmetric]])
  show "held ''p'' 1120000000000 (src demo_probed)" by (simp add: held_def demo_probed_def)
qed (simp_all add: channel_reconfigures_def demo_revision executionSlotLeaseDuration_def)

lemma fresh_total: "sc_Total (sc_cleanup (NewSlidingCounter n) t) tm = 0"
  by (simp add: sc_Total_def sc_cleanup_def NewSlidingCounter_def Let_def count_sum_def)

lemma probe_success:
  assumes "breakerState st tm = circuitHalfOpen" and "tm < circuitProbeUntil st"
    and "accept (control st) ob True tm = (True, c)" and "Outcome ob = HealthSuccess"
  shows "circuitOpenUntil (snd (recordObservation st ob tm None)) = 0"
proof -
  define s0 where "s0 = st\<lparr>control := c\<lparr>probeID := []\<rparr>\<rparr>"
  have "circuitOpenUntil (count_outcome s0 True tm) = circuitOpenUntil st" "probeID (control (count_outcome s0 True tm)) = []"
    by (simp_all add: s0_def count_outcome_def Let_def)
  moreover have "breakerState (count_outcome s0 True tm) tm = circuitHalfOpen"
    using assms(1) by (simp add: breakerState_def s0_def count_outcome_def Let_def split: if_splits)
  ultimately have b: "recordBreakerOutcome (count_outcome s0 True tm) True tm = (count_outcome s0 True tm)
      \<lparr>circuitProbeUntil := 0, control := (control (count_outcome s0 True tm))\<lparr>recoverySuccesses := 1\<rparr>,
        recentErrors := NewSlidingCounter 60, consecutiveFailures := 0, circuitOpenUntil := 0\<rparr>"
    by (simp add: recordBreakerOutcome_def)
  have "circuitOpenUntil (recordSourceHealth s0 True tm) = 0"
    unfolding recordSourceHealth_def b by (simp add: updateCircuitBreaker_def Let_def tidy_def fresh_total)
  with assms show ?thesis by (simp add: recordObservation_def Let_def s0_def)
qed

lemma demo_closed: "\<exists>st'. channel_source 7 (snd (op_run (channel_step demo_sha) [ObserveOp demo_report 1030000000000 None] demo_selector))
    = Some st' \<and> circuitOpenUntil st' \<le> 0"
proof -
  have h: "breakerState (src demo_probed) 1030000000000 = circuitHalfOpen" "1030000000000 < circuitProbeUntil (src demo_probed)"
    by (simp_all add: breakerState_def demo_probed_def int_limits)
  have "accept (control (src demo_probed)) demo_report True 1030000000000
      = (True, quarantine (remember (control (src demo_probed)) ''o1'') demo_report 1030000000000)"
    by (simp add: accept_def demo_report_def demo_probed_def new_control_def)
  from probe_success [OF h this] have
    "circuitOpenUntil (snd (recordObservation (src demo_probed) demo_report 1030000000000 (None :: string option))) = 0"
    by (simp add: demo_report_def)
  then show ?thesis
    by (simp add: observe_channel_def demo_selector_def channel_source_def set_channel_def demo_report_def case_prod_beta)
qed

lemma closed_by_probe_witness:
  "\<exists>ob tm stored. (ObserveOp ob tm stored, ObserveReply (True, None))
      \<in> set (zip [ObserveOp demo_report 1030000000000 None]
          (fst (op_run (channel_step demo_sha) [ObserveOp demo_report 1030000000000 None] demo_selector)))
    \<and> ObservedID ob = 7 \<and> Outcome ob = HealthSuccess \<and> ProbeID ob \<noteq> []
    \<and> (ProbeID ob = probeID (control (src demo_probed)) \<or> handed_out 7 (ProbeID ob)
        (zip [ObserveOp demo_report 1030000000000 None]
          (fst (op_run (channel_step demo_sha) [ObserveOp demo_report 1030000000000 None] demo_selector))))"
proof -
  obtain st' where st': "channel_source 7 (snd (op_run (channel_step demo_sha) [ObserveOp demo_report 1030000000000 None] demo_selector))
    = Some st'" "circuitOpenUntil st' \<le> 0" using demo_closed by blast
  show ?thesis
    by (rule closed_by_probe [OF demo_source _ prod.collapse [symmetric] _ st'])
      (simp_all add: channel_reconfigures_def demo_probed_def int_limits)
qed

lemma observation_counts_once_witness:
  "no_repeat (journal (replies channel_clock (channel_events 7)
      [ObserveOp demo_report 1030000000000 None, ObserveOp demo_report 1031000000000 None]
      (fst (op_run (channel_step demo_sha)
        [ObserveOp demo_report 1030000000000 None, ObserveOp demo_report 1031000000000 None] demo_selector))))"
  by (rule observation_counts_once [OF demo_source _ prod.collapse [symmetric]])
    (simp_all add: channel_reconfigures_def demo_probed_def ring_ok_def id_at_def new_control_def)

end
