(* ===== verification/Spec2Isabelle.thy ===== *)
theory Spec2Isabelle
  imports Auth_Contract Routing_Group Routing_Context Wildcard Model_Mapper Runtime_Blocker
    Account_Limits Usage Subscription_Life Refund_Effects User_Cost
    Relay_Witnesses Reservation_Witnesses Selector_Properties
begin

text \<open>
  A verification development for micro-one-api, a gateway that sells access to language models. A
  client sends a request with a token; the gateway decides what the token may do (authorization),
  which routing groups and sources may serve it (routing, channels, subscription accounts), reserves
  money or subscription quota for it (billing), tries one source after the other until one answers
  (relay), and settles what the answer cost. Paths below are relative to \<open>src/\<close>.

  \<^bold>\<open>How the parts fit together.\<close> The relay (\<open>internal/biz\<close>) asks billing for a reservation, then runs
  its retry executor. The executor picks a source (a channel with an API key, or a subscription
  account) through the channel service (\<open>app/channel/internal/biz\<close>), has it admitted, calls the
  upstream, and reports what it saw. Afterwards billing (\<open>app/billing/internal/biz\<close>) commits or
  releases the reservation; a cleanup job expires the reservations nobody settled. Every service
  asks \<open>domain/authorization\<close> whether the actor may do what it asks for, and rechecks under the
  transaction that writes. The theories follow these parts; each names its files in its opening text.
\<close>

text \<open>
  \<^bold>\<open>Foundations.\<close> \<open>Go_Prelude\<close> fixes the conventions (bytes, \<open>int64\<close> with \<open>wrap64\<close>, times) and holds the
  lemmas on lists, maps, digits and ranges the components share; \<open>Go_Strings\<close> is the part of
  \<open>strings\<close> and \<open>strconv\<close> they use, and \<open>pkg/ordering/ordering.go\<close>; \<open>Go_Float\<close> is \<open>float64\<close> by exact
  rationals rounded once per operation, with monotonicity and exactness of rounding. \<open>Selection\<close> and
  \<open>Refinement\<close> hold the interfaces more than one component satisfies: the choice of a best candidate,
  transition systems with an invariant, and simulation of an abstract machine.

  \<^bold>\<open>Authorization\<close> (\<open>domain/authorization\<close>). \<open>Auth_Scope\<close>: \<open>model.go\<close>, \<open>scope.go\<close>, with \<open>Intersect\<close> and
  \<open>AllowCovers\<close>. \<open>Auth_Containment\<close>: \<open>containment.go\<close>. \<open>Auth_Registry\<close>: the operation catalogue of
  \<open>registry.go\<close>. \<open>Auth_Decision\<close>: \<open>Decide\<close> and the query scopes. \<open>Auth_Enforcer\<close>: \<open>Prepare\<close>,
  \<open>Require\<close>, \<open>Refresh\<close> and the cutover gate of \<open>state.go\<close>. \<open>Auth_Contract\<close> states the laws of the scope
  algebra as a locale and interprets it on the code: intersection narrows, containment is sound along
  chains, a decision holds until its deadline, the decision and the query path agree, and no phase
  of the cutover admits two kinds of writers.

  \<^bold>\<open>Routing and names.\<close> \<open>Routing_Group\<close> (\<open>domain/routing/group.go\<close>, CSV membership and keys),
  \<open>Routing_Context\<close> (\<open>context.go\<close>, the resolved context and ordered attempts), \<open>Wildcard\<close>
  (\<open>pkg/wildcard/wildcard.go\<close>, equivalent to an inductive definition of the pattern's language),
  \<open>Model_Mapper\<close> (\<open>internal/biz/model_mapping.go\<close>, three lookups that agree where no patterns tie),
  \<open>Upstream_Model\<close> (\<open>domain/upstream/provider/model.go\<close>).

  \<^bold>\<open>Limits of an account\<close> (\<open>internal/biz\<close>). \<open>Runtime_Blocker\<close> (\<open>runtime_blocker.go\<close>, \<open>account_pool.go\<close>; the Go
  interface is a locale), \<open>Account_Limits\<close> (\<open>account_concurrency.go\<close>, \<open>account_rpm.go\<close>,
  \<open>retry_budget.go\<close>): the counters equal the open handles, the minute window is exact.
\<close>

text \<open>
  \<^bold>\<open>Relay\<close> (\<open>internal/biz\<close>). \<open>Route_Selector\<close> (\<open>upstream_selector.go\<close>, smooth weighted round robin, fair over a
  full round), \<open>Upstream_Errors\<close> (error trees and their classification, \<open>retry.go\<close>,
  \<open>domain/upstream/provider/health.go\<close>), \<open>Retry\<close> (the executor and its attempt loop, \<open>retry.go\<close>),
  \<open>Retry_Frames\<close>, \<open>Retry_Steps\<close> and \<open>Retry_Properties\<close> (what a step leaves alone, the rule that lifts an
  invariant of one attempt to an execution, termination, and the locale \<open>failover\<close> of what the
  executor needs from its world), \<open>Relay_Failover\<close> (\<open>relay.go\<close>, \<open>upstream_execution.go\<close>,
  \<open>route_permission.go\<close>: the world the relay provides, with the interpretation of \<open>failover\<close>),
  \<open>Relay_Properties\<close> and \<open>Relay_Witnesses\<close>.

  \<^bold>\<open>Channel service\<close> (\<open>app/channel/internal/biz\<close>). \<open>Channel_Health\<close> (latencies, error rates, slot leases),
  \<open>Source_Control\<close> (\<open>upstream_control.go\<close>: configuration, quarantine, probe, counted observations, and
  \<open>claimUpstreamExecution\<close>), \<open>Source_Breaker\<close> (the breaker and weights both selectors share),
  \<open>Channel_Selector\<close> (\<open>selector.go\<close>) and \<open>Account_Selector\<close> (\<open>account_selector.go\<close>). \<open>Source_Machine\<close> is the
  state machine of one source as an inductive step relation, with its invariants by rule induction and
  the locale \<open>source_owner\<close> of selectors that refine it; \<open>Channel_Machine\<close> and \<open>Account_Machine\<close> show that
  both do. \<open>Selector_Properties\<close> reads the guarantees off operations and replies: a half-open channel
  belongs to the holder of its probe, only that holder closes the breaker, an observation counts
  once while it is in the ring of 1024, a choice is eligible.
\<close>

text \<open>
  \<^bold>\<open>Usage and price.\<close> \<open>Usage\<close> (\<open>pkg/usage/projection.go\<close>, \<open>domain/billing/usage.go\<close>,
  \<open>app/billing/internal/biz/usage_semantics.go\<close>), \<open>Service_Tier\<close> (\<open>domain/billing\<close>: tiers, long context,
  peak calendar), \<open>Pricing\<close> (\<open>calculateCostWithPricing\<close> down to \<open>roundScaled\<close>), \<open>User_Cost\<close> (monotone
  cost, the cheaper reading of an ambiguous report, when a peak calendar is valid), \<open>Tier_Cost\<close>,
  \<open>Tier_Bound\<close> and \<open>Tier_Settlement\<close> (a settlement under a frozen tier is at most the amount frozen,
  through every rounding; a tier that is frozen validates).

  \<^bold>\<open>Subscriptions\<close> (\<open>domain/subscription\<close>). \<open>Subscription\<close> (contracts, entitlement, revoke, shorten, extend, plan
  prices), \<open>Usage_Windows\<close> (rolling windows and what a subscription absorbs), \<open>Subscription_Life\<close> (one
  row under concurrent writers: an operation reads the row and writes named columns later, with
  the revision check of the code; other operations run in between).

  \<^bold>\<open>Money.\<close> \<open>Billing_Store\<close> is an explicit store with transactions, \<open>Refund\<close> and \<open>Refund_Effects\<close> the
  refunds of \<open>refund.go\<close> on it. \<open>Reservation_Store\<close> extends the store by reservations, receivables and
  the usage of subscriptions; \<open>Reservation\<close> is \<open>ReserveQuota\<close>, \<open>Settlement\<close> is
  \<open>CommitQuotaWithUsage\<close>, \<open>releaseReservation\<close> and the cleanup job. \<open>Reservation_Frames\<close> says what the
  repository operations do to the money columns, \<open>Reservation_Effects\<close> lifts that to the three
  transactions, \<open>Reservation_Books\<close> is the service as a transition system with its invariant,
  \<open>Reservation_Refinement\<close> shows that it refines the wallet its users see, \<open>Reservation_Progress\<close> that
  an undisturbed release goes through, \<open>Reservation_Properties\<close> states the guarantees and
  \<open>Reservation_Demo\<close>, \<open>Reservation_Witnesses\<close> run a small shop.
\<close>

text \<open>
  \<^bold>\<open>State and errors.\<close> A Go struct is a record, a table is an association list or a list of rows in the record
  of the store, an \<open>error\<close> is the left of a sum or an \<open>option\<close>, and an early return is a branch. A
  statement of the database may fail: the store carries the list of statements that do, so every
  \<open>if err != nil\<close> is reachable and the properties hold for every such list. A transaction that ends
  in an error leaves the store it started from. A nil pointer the code tests is \<open>None\<close>; an address
  is written out where the code compares pointers.

  \<^bold>\<open>Numbers.\<close> An \<open>int64\<close> is an \<open>int\<close>, wrapped by \<open>wrap64\<close> or checked against the column's range wherever the
  code can leave it; the lemmas carry the ranges. Instants of the channel service are \<open>UnixNano\<close>
  values that do not overflow (before the year 2262). \<open>float64\<close> is rounded as IEEE 754 does; the sign
  of zero is not represented and not inspected by the program.

  \<^bold>\<open>Text.\<close> A string is its bytes. \<open>strings.ToLower\<close>, \<open>strings.EqualFold\<close> and a range loop decode UTF-8 to runes
  in \<open>Wildcard\<close>; the case tables of the runes beyond ASCII are the parameter \<open>unicode\<close>. Elsewhere
  (group keys, capabilities) the code compares bytes or ASCII identifiers.

  \<^bold>\<open>Order of a Go map.\<close> A range over a map has no fixed order, so a lookup takes the order of each of its loops as an
  argument, and its property holds for all of them.

  \<^bold>\<open>Loops.\<close> The attempt loop of the retry executor is a \<open>partial_function (option)\<close>: not returning would be
  \<open>None\<close>, and \<open>Retry_Properties.retry_execution_terminates\<close> shows that it always returns, within
  the number of calls the policy allows. The search for a subscription account terminates by the
  number of accounts it has not seen; the other loops are structural or shorten a string or a number.
  No fuel is used.

  \<^bold>\<open>Concurrency.\<close> What runs under a mutex or in a transaction with row locks or compare-and-swap is one step; the
  properties quantify over all sequences of steps of all callers, with arbitrary times and
  configurations. \<open>Subscription_Life\<close> goes further, because its writers read without a lock: there a
  read and its write are two steps.
\<close>

text \<open>
  \<^bold>\<open>Parameters.\<close> Code outside the sources enters as arguments: SHA-256, JSON encoding and the validity of JSON, the
  case tables of Unicode, the replies of Redis scripts, the upstream and its clock, random
  identifiers, the length of the backoff, the answers of the channel service and of the resolver
  of permissions. What a property needs of one is a hypothesis of its statement.

  \<^bold>\<open>What the modelling showed.\<close> A few lemmas record where the code departs from what its comments or its callers
  expect: an extension of a subscription decided before a revocation undoes it when the row has no
  contract (\<open>Subscription_Life.legacy_extend_undoes_revoke\<close>); shortening writes back the usage it
  read and drops a charge added in between (\<open>Subscription_Life.shorten_drops_usage\<close>); shortening an
  expired subscription moves its end forward to now; the receivable of a settlement tracks the
  absolute value of the overdraft (\<open>Reservation_Properties.receivable_tracks_magnitude\<close>); a question
  mark of a pattern matches one byte, not one character (\<open>Wildcard.Match_glob\<close>); matching patterns of
  equal specificity and length are chosen by map order; the intersection of two scopes covers less
  than both together when an object is read through several routing groups
  (\<open>Auth_Contract.Intersect_read_of_two_groups\<close>); legacy health reports never resolve a half-open
  channel, although the comments of \<open>selector.go\<close> say so.

  \<^bold>\<open>Not modelled.\<close> Native executions (usage version 2) and the queue of late settlements, pricing snapshots and price
  overrides, payments other than refunds, redeem codes, reconciliation and vendor reports; the
  administration of plans, groups, channels, accounts and users, with the identity service; the
  billing policy of routing groups; session stickiness, recorded selections and the HTTP and
  WebSocket servers of the relay; the conversion between the wire formats of vendors and their HTTP
  clients; the admin, log, config, monitor and notify services; request traces, backup and
  operations; the platform adapters to gorm, Redis, gRPC and Prometheus; command line tools,
  protobuf, SQL migrations and the web client. They are input validation around one write, SQL and
  network I/O, or parts still to come; logs, metrics and traces are left out everywhere.
\<close>

end
